(* ===== verification/Prelude.thy ===== *)
theory Prelude
  imports Complex_Main "HOL-Library.AList"
begin

text \<open>
  What the components share: the exceptions of the program as values, sequencing of
  computations that may raise, loops over query sets that may raise, the
  \<^verbatim>\<open>defaultdict(Decimal)\<close> of the wallet pipeline as an association list, and the
  lemmas on these that carry the component proofs.
\<close>

section \<open>Exceptions and sequencing\<close>

text \<open>
  One constructor per exception class the modelled code raises. \<open>IntegrityError\<close> is the
  database's refusal of a row that breaks a constraint; \<open>OutOfFuel\<close> is not an exception of
  the program: it is the value of a bounded recursion whose bound was too small; nor is
  \<open>OutOfModel\<close>, the value of the branches (margin trading) that are not modelled.
\<close>

datatype py_error =
    AssertionError | IntegrityError | DoesNotExist | ValueErr | NotImplementedErr
  | DivisionByZero | IndexErr | ValidationErr | GenericException
  | NotFound | PermissionDenied | APIException | FieldErr | TypeErr | AttributeErr | KeyErr
  | InvalidOperation
  | InsufficientBalance | InsufficientDebt
  | MinTradeError | MaxTradeError | MinNotionalError | CancelOrder
  | SmallAmountTrade | LargeAmountTrade | NoPriceError | TokenExpired | HedgeError
  | GatewayFailed | NoChannelError | ProviderError | ServerError | TimeoutErr | MultipleObjects
  | NoDepthError rat | SmallDepthError rat
  | OutOfFuel | OutOfModel

type_synonym 'a result = "py_error + 'a"

named_theorems result_simps
named_theorems result_elims

definition bindE :: "'e + 'a \<Rightarrow> ('a \<Rightarrow> 'e + 'b) \<Rightarrow> 'e + 'b" where
  "bindE m f = (case m of Inl e \<Rightarrow> Inl e | Inr a \<Rightarrow> f a)"

definition assertE :: "bool \<Rightarrow> unit result" where
  "assertE b = (if b then Inr () else Inl AssertionError)"

definition guardE :: "py_error \<Rightarrow> bool \<Rightarrow> unit result" where
  "guardE e b = (if b then Inr () else Inl e)"

definition divide_by :: "rat \<Rightarrow> rat \<Rightarrow> rat result" where
  "divide_by a b =
     (if b \<noteq> 0 then Inr (a / b) else if a = 0 then Inl InvalidOperation else Inl DivisionByZero)"

lemma bindE_simps [simp]:
  "bindE (Inl e) f = Inl e"
  "bindE (Inr a) f = f a"
  by (simp_all add: bindE_def)

lemma bindE_eq_Inr [result_simps]:
  "bindE m f = Inr b \<longleftrightarrow> (\<exists>a. m = Inr a \<and> f a = Inr b)"
  by (cases m) auto

lemma case_prod_eq_Inr [result_simps]:
  "(case x of (a, b) \<Rightarrow> f a b) = Inr z \<longleftrightarrow> (\<exists>a b. x = (a, b) \<and> f a b = Inr z)"
  by (cases x) auto

lemma bindE_cong [fundef_cong]:
  "m = m' \<Longrightarrow> (\<And>a. m' = Inr a \<Longrightarrow> f a = g a) \<Longrightarrow> bindE m f = bindE m' g"
  by (cases m') auto

lemma bindE_InrE [result_elims, elim?]:
  assumes "bindE m f = Inr b"
  obtains a where "m = Inr a" and "f a = Inr b"
  using assms by (auto simp: bindE_eq_Inr)

lemma assertE_eq_Inr [result_simps, simp]: "assertE b = Inr u \<longleftrightarrow> b"
  by (simp add: assertE_def)

lemma assertE_True [simp]: "assertE True = Inr ()"
  by (simp add: assertE_def)

lemma guardE_eq_Inr [result_simps, simp]: "guardE e b = Inr u \<longleftrightarrow> b"
  by (simp add: guardE_def)

lemma guardE_simps [simp]: "guardE e True = Inr ()" "guardE e False = Inl e"
  by (simp_all add: guardE_def)

text \<open>A lookup that raises where the row or the key is absent.\<close>

definition the_or :: "'e \<Rightarrow> 'a option \<Rightarrow> 'e + 'a" where
  "the_or e x = (case x of None \<Rightarrow> Inl e | Some a \<Rightarrow> Inr a)"

lemma the_or_simps [simp]: "the_or e None = Inl e" "the_or e (Some a) = Inr a"
  by (simp_all add: the_or_def)

lemma the_or_eq_Inr [result_simps, simp]: "the_or e x = Inr a \<longleftrightarrow> x = Some a"
  by (cases x) auto

section \<open>Loops that may raise\<close>

text \<open>A \<^verbatim>\<open>for\<close> loop over a list whose body may raise and threads a state.\<close>

fun foldE :: "('s \<Rightarrow> 'a \<Rightarrow> 'e + 's) \<Rightarrow> 's \<Rightarrow> 'a list \<Rightarrow> 'e + 's" where
  "foldE f s [] = Inr s"
| "foldE f s (x # xs) = bindE (f s x) (\<lambda>s'. foldE f s' xs)"

fun mapE :: "('a \<Rightarrow> 'e + 'b) \<Rightarrow> 'a list \<Rightarrow> 'e + 'b list" where
  "mapE f [] = Inr []"
| "mapE f (x # xs) = bindE (f x) (\<lambda>y. bindE (mapE f xs) (\<lambda>ys. Inr (y # ys)))"

lemma foldE_cong [fundef_cong]:
  "s = s' \<Longrightarrow> xs = xs' \<Longrightarrow> (\<And>t x. x \<in> set xs' \<Longrightarrow> f t x = g t x) \<Longrightarrow> foldE f s xs = foldE g s' xs'"
proof (induction xs arbitrary: s s' xs')
  case (Cons x xs)
  then show ?case by (cases xs') (auto intro: bindE_cong)
qed simp

lemma foldE_append:
  "foldE f s (xs @ ys) = bindE (foldE f s xs) (\<lambda>s'. foldE f s' ys)"
  by (induction xs arbitrary: s) (auto simp: bindE_def split: sum.splits)

lemma foldE_invariant:
  assumes "foldE f s xs = Inr s'" and "P s"
    and "\<And>t x t'. P t \<Longrightarrow> x \<in> set xs \<Longrightarrow> f t x = Inr t' \<Longrightarrow> P t'"
  shows "P s'"
  using assms
proof (induction xs arbitrary: s)
  case (Cons x xs)
  from Cons.prems(1) obtain t where t: "f s x = Inr t" "foldE f t xs = Inr s'"
    by (auto simp: result_simps)
  with Cons.prems(2,3) have "P t" by (meson list.set_intros(1))
  with t(2) show ?case
    by (rule Cons.IH) (meson Cons.prems(3) list.set_intros(2))
qed simp

lemma foldE_total:
  assumes "\<And>t x. x \<in> set xs \<Longrightarrow> \<exists>t'. f t x = Inr t'"
  shows "\<exists>s'. foldE f s xs = Inr s'"
  using assms
proof (induction xs arbitrary: s)
  case (Cons x xs)
  from Cons.prems obtain t where "f s x = Inr t" by (meson list.set_intros(1))
  then show ?case using Cons.IH [of t] Cons.prems by auto
qed simp

text \<open>
  A loop each of whose rounds commits on its own: an exception ends it, what earlier rounds
  wrote stays.
\<close>

fun run_each :: "('s \<Rightarrow> 'a \<Rightarrow> 'e + 's) \<Rightarrow> 's \<Rightarrow> 'a list \<Rightarrow> 's \<times> 'e option" where
  "run_each f s [] = (s, None)"
| "run_each f s (x # xs) = (case f s x of Inl e \<Rightarrow> (s, Some e) | Inr t \<Rightarrow> run_each f t xs)"

lemma run_each_invariant:
  assumes "P s xs" and "\<And>t x ys t'. P t (x # ys) \<Longrightarrow> f t x = Inr t' \<Longrightarrow> P t' ys" and "\<And>t ys. P t ys \<Longrightarrow> Q t"
  shows "Q (fst (run_each f s xs))"
  using assms(1)
proof (induction xs arbitrary: s)
  case (Cons x xs)
  then show ?case
  proof (cases "f s x")
    case (Inr t)
    with Cons assms(2) show ?thesis by simp
  qed (use Cons.prems assms(3) in auto)
qed (use assms(3) in simp)

section \<open>Which errors may occur\<close>

text \<open>\<open>raises E r\<close>: if \<open>r\<close> is an error, it is one of \<open>E\<close>. The rules go through the code.\<close>

definition raises :: "'e set \<Rightarrow> 'e + 'a \<Rightarrow> bool" where
  "raises E r \<longleftrightarrow> (\<forall>e. r = Inl e \<longrightarrow> e \<in> E)"

named_theorems raises_rules

lemma raisesD: "raises E r \<Longrightarrow> r = Inl e \<Longrightarrow> e \<in> E"
  by (simp add: raises_def)

lemma raises_Inr [raises_rules, simp]: "raises E (Inr a)"
  by (simp add: raises_def)

lemma raises_Inl [raises_rules]: "e \<in> E \<Longrightarrow> raises E (Inl e)"
  by (simp add: raises_def)

lemma raises_bind [raises_rules]:
  "raises E m \<Longrightarrow> (\<And>a. m = Inr a \<Longrightarrow> raises E (f a)) \<Longrightarrow> raises E (bindE m f)"
  by (cases m) (auto simp: raises_def)

lemma raises_assert [raises_rules]: "AssertionError \<in> E \<Longrightarrow> raises E (assertE b)"
  by (simp add: raises_def assertE_def)

lemma raises_guard [raises_rules]: "e \<in> E \<Longrightarrow> raises E (guardE e b)"
  by (simp add: raises_def guardE_def)

lemma raises_the_or [raises_rules]: "e \<in> E \<Longrightarrow> raises E (the_or e x)"
  by (cases x) (auto simp: raises_def)

lemma raises_if [raises_rules]: "(b \<Longrightarrow> raises E x) \<Longrightarrow> (\<not> b \<Longrightarrow> raises E y) \<Longrightarrow> raises E (if b then x else y)"
  by simp

lemma raises_prod [raises_rules]: "(\<And>a b. x = (a, b) \<Longrightarrow> raises E (f a b)) \<Longrightarrow> raises E (case x of (a, b) \<Rightarrow> f a b)"
  by (cases x) simp

lemma raises_option [raises_rules]:
  "(x = None \<Longrightarrow> raises E y) \<Longrightarrow> (\<And>a. x = Some a \<Longrightarrow> raises E (f a)) \<Longrightarrow> raises E (case x of None \<Rightarrow> y | Some a \<Rightarrow> f a)"
  by (cases x) simp_all

lemma raises_let [raises_rules]: "(\<And>x. x = t \<Longrightarrow> raises E (f x)) \<Longrightarrow> raises E (Let t f)"
  by (simp add: Let_def)

lemma raises_foldE [raises_rules]: "(\<And>t x. x \<in> set xs \<Longrightarrow> raises E (f t x)) \<Longrightarrow> raises E (foldE f s xs)"
proof (induction xs arbitrary: s)
  case (Cons x xs)
  have "raises E (bindE (f s x) (\<lambda>t. foldE f t xs))"
    by (rule raises_bind) (use Cons in auto)
  then show ?case by simp
qed simp

section \<open>What a successful result satisfies\<close>

text \<open>\<open>ensures P r\<close>: if \<open>r\<close> is a result, it satisfies \<open>P\<close>; rules as for \<open>raises\<close>.\<close>

definition ensures :: "('a \<Rightarrow> bool) \<Rightarrow> 'e + 'a \<Rightarrow> bool" where
  "ensures P r \<longleftrightarrow> (\<forall>a. r = Inr a \<longrightarrow> P a)"

named_theorems ensures_rules

lemma ensuresD: "ensures P r \<Longrightarrow> r = Inr a \<Longrightarrow> P a"
  by (simp add: ensures_def)

lemma ensures_mono: "ensures P r \<Longrightarrow> (\<And>a. P a \<Longrightarrow> Q a) \<Longrightarrow> ensures Q r"
  by (simp add: ensures_def)

lemma ensures_True [simp]: "ensures (\<lambda>_. True) r"
  by (simp add: ensures_def)

lemma ensures_Inr [ensures_rules]: "P a \<Longrightarrow> ensures P (Inr a)"
  by (simp add: ensures_def)

lemma ensures_Inl [ensures_rules, simp]: "ensures P (Inl e)"
  by (simp add: ensures_def)

lemma ensures_bind: "ensures Q m \<Longrightarrow> (\<And>a. m = Inr a \<Longrightarrow> Q a \<Longrightarrow> ensures P (f a)) \<Longrightarrow> ensures P (bindE m f)"
  by (cases m) (auto simp: ensures_def)

lemma ensures_skip: "(\<And>a. m = Inr a \<Longrightarrow> ensures P (f a)) \<Longrightarrow> ensures P (bindE m f)"
  by (cases m) (auto simp: ensures_def)

lemma ensures_if [ensures_rules]: "(b \<Longrightarrow> ensures P x) \<Longrightarrow> (\<not> b \<Longrightarrow> ensures P y) \<Longrightarrow> ensures P (if b then x else y)"
  by simp

lemma ensures_prod [ensures_rules]: "(\<And>a b. x = (a, b) \<Longrightarrow> ensures P (f a b)) \<Longrightarrow> ensures P (case x of (a, b) \<Rightarrow> f a b)"
  by (cases x) simp

lemma ensures_option [ensures_rules]:
  "(x = None \<Longrightarrow> ensures P y) \<Longrightarrow> (\<And>a. x = Some a \<Longrightarrow> ensures P (f a)) \<Longrightarrow> ensures P (case x of None \<Rightarrow> y | Some a \<Rightarrow> f a)"
  by (cases x) simp_all

lemma ensures_let [ensures_rules]: "(\<And>x. x = t \<Longrightarrow> ensures P (f x)) \<Longrightarrow> ensures P (Let t f)"
  by (simp add: Let_def)

lemma ensures_foldE:
  "P s \<Longrightarrow> (\<And>t x. x \<in> set xs \<Longrightarrow> P t \<Longrightarrow> ensures P (f t x)) \<Longrightarrow> ensures P (foldE f s xs)"
  unfolding ensures_def by (blast intro: foldE_invariant [where P = P])

section \<open>defaultdict(Decimal)\<close>

text \<open>
  Python's \<^verbatim>\<open>defaultdict(Decimal)\<close>: a missing key reads as 0 and \<open>d[k] += x\<close> creates it.
  Reading a missing key also stores a 0, which no use of the dictionary can tell from an
  absent key, because every loop over it skips zero entries.
\<close>

type_synonym 'k ddict = "('k \<times> rat) list"

definition dd_get :: "'k ddict \<Rightarrow> 'k \<Rightarrow> rat" where
  "dd_get d k = (case map_of d k of None \<Rightarrow> 0 | Some v \<Rightarrow> v)"

definition dd_add :: "'k ddict \<Rightarrow> 'k \<Rightarrow> rat \<Rightarrow> 'k ddict" where
  "dd_add d k x = AList.update k (dd_get d k + x) d"

lemma dd_get_Nil [simp]: "dd_get [] k = 0"
  by (simp add: dd_get_def)

lemma dd_get_add [simp]: "dd_get (dd_add d k x) j = dd_get d j + (if j = k then x else 0)"
  by (simp add: dd_get_def dd_add_def update_conv')

lemma dd_add_distinct: "distinct (map fst d) \<Longrightarrow> distinct (map fst (dd_add d k x))"
  by (simp add: dd_add_def distinct_update)

lemma dd_add_keys [simp]: "fst ` set (dd_add d k x) = insert k (fst ` set d)"
  by (simp add: dd_add_def dom_update)

lemma dd_get_notin: "k \<notin> fst ` set d \<Longrightarrow> dd_get d k = 0"
  by (simp add: dd_get_def map_of_eq_None_iff [THEN iffD2])

lemma dd_get_in: "distinct (map fst d) \<Longrightarrow> (k, v) \<in> set d \<Longrightarrow> dd_get d k = v"
  by (simp add: dd_get_def)

section \<open>Requests outside a transaction\<close>

text \<open>
  A view that runs without a transaction keeps what it wrote before an exception: its outcome is
  the state and the value or the exception. An operation in a transaction is attempted: it writes
  nothing when it fails.
\<close>

type_synonym ('s, 'a) outcome = "'s \<times> 'a result"

definition attempt :: "'s \<Rightarrow> ('a \<times> 's) result \<Rightarrow> ('s, 'a) outcome" where
  "attempt s r = (case r of Inl e \<Rightarrow> (s, Inl e) | Inr (a, s') \<Rightarrow> (s', Inr a))"

definition look :: "'s \<Rightarrow> 'a result \<Rightarrow> ('s, 'a) outcome" where
  "look s r = (s, r)"

definition next_step :: "('s, 'a) outcome \<Rightarrow> ('a \<Rightarrow> 's \<Rightarrow> ('s, 'b) outcome) \<Rightarrow> ('s, 'b) outcome" where
  "next_step o' f = (case snd o' of Inl e \<Rightarrow> (fst o', Inl e) | Inr a \<Rightarrow> f a (fst o'))"

lemma attempt_simps [simp]:
  "attempt s (Inl e) = (s, Inl e)" "attempt s (Inr (a, s')) = (s', Inr a)"
  by (simp_all add: attempt_def)

lemma next_step_simps [simp]:
  "next_step (s, Inl e) f = (s, Inl e)" "next_step (s, Inr a) f = f a s" "next_step (look s (Inr a)) f = f a s"
  "next_step (look s (Inl e)) f = (s, Inl e)"
  by (simp_all add: next_step_def look_def)

lemma next_step_invariant:
  assumes "P (fst o')" and "\<And>a s. o' = (s, Inr a) \<Longrightarrow> P s \<Longrightarrow> P (fst (f a s))"
  shows "P (fst (next_step o' f))"
  using assms by (cases o') (auto simp: next_step_def split: sum.split)

text \<open>The two steps of a view: a look at the tables and an attempted operation.\<close>

lemma next_look:
  assumes "P s" and "\<And>a. r = Inr a \<Longrightarrow> P (fst (f a s))"
  shows "P (fst (next_step (look s r) f))"
  using assms by (cases r) auto

lemma next_attempt:
  assumes "P s" and "\<And>a s'. r = Inr (a, s') \<Longrightarrow> P (fst (f a s'))"
  shows "P (fst (next_step (attempt s r) f))"
  using assms by (cases r) auto

lemma attempt_invariant:
  assumes "P s" and "\<And>a s'. r = Inr (a, s') \<Longrightarrow> P s'"
  shows "P (fst (attempt s r))"
  using assms by (cases r) auto

text \<open>A property of the state a view leaves, through its steps.\<close>

definition holds :: "('s \<Rightarrow> bool) \<Rightarrow> ('s, 'a) outcome \<Rightarrow> bool" where
  "holds P o' \<longleftrightarrow> P (fst o')"

named_theorems outcome_rules

lemma holds_pair [outcome_rules]: "P s \<Longrightarrow> holds P (s, r)"
  by (simp add: holds_def)

lemma holds_look [outcome_rules]: "P s \<Longrightarrow> holds P (look s r)"
  by (simp add: holds_def look_def)

lemma holds_attempt: "P s \<Longrightarrow> (\<And>a t. r = Inr (a, t) \<Longrightarrow> P t) \<Longrightarrow> holds P (attempt s r)"
  unfolding holds_def by (rule attempt_invariant)

lemma holds_next [outcome_rules]:
  "holds P o' \<Longrightarrow> (\<And>a t. o' = (t, Inr a) \<Longrightarrow> P t \<Longrightarrow> holds P (f a t)) \<Longrightarrow> holds P (next_step o' f)"
  unfolding holds_def by (rule next_step_invariant)

text \<open>The same when the first step has a property of its own.\<close>

lemma holds_next_look: "P s \<Longrightarrow> (\<And>a. r = Inr a \<Longrightarrow> holds P (f a s)) \<Longrightarrow> holds P (next_step (look s r) f)"
  unfolding holds_def by (rule next_look)

lemma holds_next_via:
  "holds Q o' \<Longrightarrow> (\<And>t. Q t \<Longrightarrow> P t) \<Longrightarrow> (\<And>a t. o' = (t, Inr a) \<Longrightarrow> Q t \<Longrightarrow> holds P (f a t)) \<Longrightarrow> holds P (next_step o' f)"
  by (cases o'; cases "snd o'") (auto simp: holds_def next_step_def)

lemma holds_if [outcome_rules]:
  "(b \<Longrightarrow> holds P x) \<Longrightarrow> (\<not> b \<Longrightarrow> holds P y) \<Longrightarrow> holds P (if b then x else y)"
  by simp

lemma holds_prod [outcome_rules]:
  "(\<And>a b. p = (a, b) \<Longrightarrow> holds P (f a b)) \<Longrightarrow> holds P (case p of (a, b) \<Rightarrow> f a b)"
  by (cases p) simp

lemma holds_prod_state [outcome_rules]:
  "(\<And>a b. p = (a, b) \<Longrightarrow> holds P (f a b s)) \<Longrightarrow> holds P ((case p of (a, b) \<Rightarrow> f a b) s)"
  by (cases p) simp

lemma holds_option [outcome_rules]:
  "(x = None \<Longrightarrow> holds P y) \<Longrightarrow> (\<And>a. x = Some a \<Longrightarrow> holds P (f a)) \<Longrightarrow> holds P (case x of None \<Rightarrow> y | Some a \<Rightarrow> f a)"
  by (cases x) simp_all

lemma holds_list [outcome_rules]:
  "(x = [] \<Longrightarrow> holds P y) \<Longrightarrow> (\<And>a r. x = a # r \<Longrightarrow> holds P (f a r)) \<Longrightarrow> holds P (case x of [] \<Rightarrow> y | a # r \<Rightarrow> f a r)"
  by (cases x) simp_all

section \<open>Lists of rows\<close>

text \<open>Sums over the rows of a table, as the aggregates of the queries compute them.\<close>

definition sum_of :: "('a \<Rightarrow> rat) \<Rightarrow> 'a list \<Rightarrow> rat" where
  "sum_of f xs = sum_list (map f xs)"

lemma sum_of_simps [simp]:
  "sum_of f [] = 0"
  "sum_of f (x # xs) = f x + sum_of f xs"
  "sum_of f (xs @ ys) = sum_of f xs + sum_of f ys"
  by (simp_all add: sum_of_def)

lemma sum_of_add: "sum_of (\<lambda>x. f x + g x) xs = sum_of f xs + sum_of g xs"
  by (induction xs) auto

lemma sum_of_uminus: "sum_of (\<lambda>x. - f x) xs = - sum_of f xs"
  by (induction xs) auto

lemma sum_of_diff: "sum_of (\<lambda>x. f x - g x) xs = sum_of f xs - sum_of g xs"
  by (induction xs) auto

lemma sum_of_zero [simp]: "sum_of (\<lambda>x. 0) xs = 0"
  by (induction xs) auto

lemma sum_of_cong: "(\<And>x. x \<in> set xs \<Longrightarrow> f x = g x) \<Longrightarrow> sum_of f xs = sum_of g xs"
  by (induction xs) auto

lemma sum_of_map: "sum_of f (map g xs) = sum_of (\<lambda>x. f (g x)) xs"
  by (induction xs) auto

lemma sum_of_filter: "sum_of f (filter P xs) = sum_of (\<lambda>x. if P x then f x else 0) xs"
  by (induction xs) auto

lemma sum_of_nonneg: "(\<And>x. x \<in> set xs \<Longrightarrow> 0 \<le> f x) \<Longrightarrow> 0 \<le> sum_of f xs"
  by (induction xs) auto

lemma sum_of_mult: "sum_of (\<lambda>x. c * f x) xs = c * sum_of f xs"
  by (induction xs) (auto simp: algebra_simps)

lemma sum_of_mono: "(\<And>x. x \<in> set xs \<Longrightarrow> f x \<le> g x) \<Longrightarrow> sum_of f xs \<le> sum_of g xs"
  by (induction xs) (auto intro: add_mono)

text \<open>The sum over the rows of the one row with a given key.\<close>

lemma sum_of_none:
  "(\<And>y. y \<in> set xs \<Longrightarrow> key y \<noteq> k) \<Longrightarrow> sum_of (\<lambda>y. if key y = k then f y else 0) xs = 0"
  by (induction xs) auto

lemma sum_of_single:
  assumes "distinct (map key xs)" and "x \<in> set xs"
  shows "sum_of (\<lambda>y. if key y = key x then f y else 0) xs = f x"
  using assms
proof (induction xs)
  case (Cons y ys)
  show ?case
  proof (cases "y = x")
    case True
    with Cons.prems(1) have "\<And>z. z \<in> set ys \<Longrightarrow> key z \<noteq> key x"
      by (metis distinct.simps(2) image_eqI image_set list.simps(9))
    then have "sum_of (\<lambda>z. if key z = key x then f z else 0) ys = 0"
      by (rule sum_of_none)
    with True show ?thesis by simp
  next
    case False
    with Cons show ?thesis by auto
  qed
qed simp

text \<open>\<open>filter(...).first()\<close> and \<open>get(id=...)\<close>.\<close>

lemma find_SomeD: "List.find P xs = Some x \<Longrightarrow> x \<in> set xs \<and> P x"
  by (induction xs) (auto split: if_splits)

lemma find_None_iff': "List.find P xs = None \<longleftrightarrow> (\<forall>x\<in>set xs. \<not> P x)"
  by (induction xs) auto

lemma find_append: "List.find P (xs @ ys) = (case List.find P xs of None \<Rightarrow> List.find P ys | Some x \<Rightarrow> Some x)"
  by (induction xs) auto

end
