(* ===== verification/Decimals.thy ===== *)
theory Decimals
  imports Prelude
begin

text \<open>
  \<^verbatim>\<open>ledger/utils/precision.py\<close>: rounding of amounts and prices, and their decimal text.
  Amounts are exact rationals (\<open>decimal\<close>): the columns are \<^verbatim>\<open>numeric(30, 8)\<close>, and sums,
  differences and products of such values are exact in Python's decimal context as long as
  the result has at most 28 significant digits, which is what every modelled value is taken
  to have. Where the code depends on how a Decimal is written (its coefficient and
  exponent), it is the datatype \<open>pydec\<close>.
\<close>

section \<open>Decimal values\<close>

type_synonym decimal = rat

datatype pydec = Dec (coef: int) (expo: int)

definition pow10 :: "int \<Rightarrow> rat" where
  "pow10 e = (if 0 \<le> e then 10 ^ nat e else 1 / 10 ^ nat (- e))"

definition dec_val :: "pydec \<Rightarrow> rat" where
  "dec_val d = of_int (coef d) * pow10 (expo d)"

definition AMOUNT_PRECISION :: int where
  "AMOUNT_PRECISION = 8"

lemma pow10_pos [simp]: "0 < pow10 e" "pow10 e \<noteq> 0" "0 \<le> pow10 e"
proof -
  show "0 < pow10 e" by (simp add: pow10_def)
  then show "pow10 e \<noteq> 0" "0 \<le> pow10 e" by auto
qed

lemma pow10_0 [simp]: "pow10 0 = 1"
  by (simp add: pow10_def)

section \<open>Rounding\<close>

text \<open>ROUND\_DOWN: the integer nearest to zero; ROUND\_UP: the one farthest from it.\<close>

definition trunc :: "rat \<Rightarrow> int" where
  "trunc x = (if 0 \<le> x then \<lfloor>x\<rfloor> else \<lceil>x\<rceil>)"

definition round_away :: "rat \<Rightarrow> int" where
  "round_away x = (if 0 \<le> x then \<lceil>x\<rceil> else \<lfloor>x\<rfloor>)"

text \<open>\<^verbatim>\<open>round(x)\<close> and \<^verbatim>\<open>round(x, n)\<close> of a Decimal: to the nearest, halves to the even digit.\<close>

definition round_half_even :: "rat \<Rightarrow> int" where
  "round_half_even x =
     (let f = \<lfloor>x\<rfloor>; d = x - of_int f
      in if d < 1 / 2 then f else if 1 / 2 < d then f + 1 else if even f then f else f + 1)"

definition round_digits :: "decimal \<Rightarrow> int \<Rightarrow> decimal" where
  "round_digits x n = of_int (round_half_even (x * pow10 n)) / pow10 n"

text \<open>
  \<^verbatim>\<open>Decimal('1' + '0' * -precision)\<close> is an integer written without exponent, so its exponent
  is 0; \<^verbatim>\<open>Decimal('0.0...01')\<close> has the exponent \<open>- precision\<close>.
\<close>

definition precision_to_step :: "int \<Rightarrow> pydec" where
  "precision_to_step precision =
     (if precision \<le> 0 then Dec (10 ^ nat (- precision)) 0 else Dec 1 (- precision))"

text \<open>\<^verbatim>\<open>quantize\<close> looks at the exponent of its argument only.\<close>

definition quantize_down :: "rat \<Rightarrow> pydec \<Rightarrow> pydec" where
  "quantize_down a step = Dec (trunc (a / pow10 (expo step))) (expo step)"

definition quantize_up :: "rat \<Rightarrow> pydec \<Rightarrow> pydec" where
  "quantize_up a step = Dec (round_away (a / pow10 (expo step))) (expo step)"

definition floor_precision :: "decimal \<Rightarrow> int \<Rightarrow> decimal" where
  "floor_precision amount precision = dec_val (quantize_down amount (precision_to_step precision))"

definition ceil_precision :: "decimal \<Rightarrow> int \<Rightarrow> decimal" where
  "ceil_precision amount precision = dec_val (quantize_up amount (precision_to_step precision))"

definition round_up_to_exponent :: "decimal \<Rightarrow> int \<Rightarrow> decimal" where
  "round_up_to_exponent amount precision =
     (if precision < 0 then of_int \<lceil>amount / pow10 (- precision)\<rceil> * pow10 (- precision)
      else ceil_precision amount precision)"

definition round_down_to_exponent :: "decimal \<Rightarrow> int \<Rightarrow> decimal" where
  "round_down_to_exponent amount precision =
     (if precision < 0 then of_int (trunc (amount / pow10 (- precision))) * pow10 (- precision)
      else floor_precision amount precision)"

definition is_zero_by_precision :: "decimal \<Rightarrow> int \<Rightarrow> bool" where
  "is_zero_by_precision amount precision \<longleftrightarrow> trunc (amount * pow10 precision) = 0"

subsection \<open>Laws of rounding\<close>

text \<open>Evaluation of the roundings of written fractions.\<close>

named_theorems dec_eval

lemma floor_frac_numeral [dec_eval]:
  "\<lfloor>(numeral a :: rat) / numeral b\<rfloor> = numeral a div numeral b"
  "\<lfloor>(1 :: rat) / numeral b\<rfloor> = 1 div numeral b"
  "\<lceil>(numeral a :: rat) / numeral b\<rceil> = - ((- numeral a) div numeral b)"
  "\<lceil>(1 :: rat) / numeral b\<rceil> = - ((- 1) div numeral b)"
  using floor_divide_of_int_eq [of "numeral a" "numeral b", where 'a = rat]
    floor_divide_of_int_eq [of 1 "numeral b", where 'a = rat]
    floor_divide_of_int_eq [of "- numeral a" "numeral b", where 'a = rat]
    floor_divide_of_int_eq [of "- 1" "numeral b", where 'a = rat]
  by (simp_all add: ceiling_def)

declare trunc_def [dec_eval] round_away_def [dec_eval]

lemma trunc_0 [simp]: "trunc 0 = 0"
  by (simp add: trunc_def)

lemma trunc_of_int [simp]: "trunc (of_int n) = n"
  by (simp add: trunc_def)

lemma trunc_minus: "trunc (- x) = - trunc x"
  by (auto simp: trunc_def ceiling_def)

lemma trunc_nonneg: "0 \<le> x \<Longrightarrow> 0 \<le> trunc x"
  by (simp add: trunc_def)

lemma trunc_le: "0 \<le> x \<Longrightarrow> of_int (trunc x) \<le> x"
  by (simp add: trunc_def)

lemma trunc_gt: "0 \<le> x \<Longrightarrow> x < of_int (trunc x) + 1"
  using floor_correct [of x] by (simp add: trunc_def)

lemma trunc_mono: "x \<le> y \<Longrightarrow> trunc x \<le> trunc y"
proof -
  assume xy: "x \<le> y"
  consider "0 \<le> x" | "x < 0" "0 \<le> y" | "y < 0" by linarith
  then show ?thesis
  proof cases
    case 1 with xy show ?thesis by (simp add: trunc_def floor_mono)
  next
    case 2
    then have "\<lceil>x\<rceil> \<le> 0" and "0 \<le> \<lfloor>y\<rfloor>" by (simp_all add: ceiling_le_iff)
    then have "\<lceil>x\<rceil> \<le> \<lfloor>y\<rfloor>" by linarith
    with 2 show ?thesis by (simp add: trunc_def)
  next
    case 3 with xy show ?thesis by (simp add: trunc_def ceiling_mono)
  qed
qed

lemma trunc_superadd: "0 \<le> x \<Longrightarrow> 0 \<le> y \<Longrightarrow> trunc x + trunc y \<le> trunc (x + y)"
  by (simp add: trunc_def le_floor_add)

definition step_of :: "int \<Rightarrow> rat" where
  "step_of p = pow10 (expo (precision_to_step p))"

lemma step_of_eq: "step_of p = (if p \<le> 0 then 1 else 1 / 10 ^ nat p)"
  by (simp add: step_of_def precision_to_step_def pow10_def)

lemma step_of_pos [simp]: "0 < step_of p" "step_of p \<noteq> 0" "0 \<le> step_of p"
  by (simp_all add: step_of_def)

lemma floor_precision_eq: "floor_precision a p = of_int (trunc (a / step_of p)) * step_of p"
  by (simp add: floor_precision_def quantize_down_def dec_val_def step_of_def)

lemma ceil_precision_eq: "ceil_precision a p = of_int (round_away (a / step_of p)) * step_of p"
  by (simp add: ceil_precision_def quantize_up_def dec_val_def step_of_def)

lemmas rounding_eval = floor_precision_eq ceil_precision_eq step_of_eq dec_eval

lemma floor_precision_0 [simp]: "floor_precision 0 p = 0"
  by (simp add: floor_precision_eq)

lemma floor_precision_minus: "floor_precision (- a) p = - floor_precision a p"
  by (simp add: floor_precision_eq trunc_minus)

lemma floor_precision_nonneg [simp]: "0 \<le> a \<Longrightarrow> 0 \<le> floor_precision a p"
  by (simp add: floor_precision_eq trunc_nonneg)

lemma floor_precision_le: "0 \<le> a \<Longrightarrow> floor_precision a p \<le> a"
  using trunc_le [of "a / step_of p"] by (simp add: floor_precision_eq pos_le_divide_eq)

lemma floor_precision_gt: "0 \<le> a \<Longrightarrow> a < floor_precision a p + step_of p"
  using trunc_gt [of "a / step_of p"]
  by (simp add: floor_precision_eq pos_divide_less_eq algebra_simps)

lemma floor_precision_mono: "a \<le> b \<Longrightarrow> floor_precision a p \<le> floor_precision b p"
  by (simp add: floor_precision_eq trunc_mono divide_right_mono mult_right_mono)

lemma floor_precision_superadd:
  assumes "0 \<le> a" and "0 \<le> b"
  shows "floor_precision a p + floor_precision b p \<le> floor_precision (a + b) p"
proof -
  have "trunc (a / step_of p) + trunc (b / step_of p) \<le> trunc (a / step_of p + b / step_of p)"
    using assms by (intro trunc_superadd) auto
  then have "of_int (trunc (a / step_of p) + trunc (b / step_of p)) * step_of p
      \<le> of_int (trunc ((a + b) / step_of p)) * step_of p"
    by (intro mult_right_mono) (auto simp: add_divide_distrib simp del: of_int_add)
  then show ?thesis by (simp add: floor_precision_eq algebra_simps)
qed

text \<open>Values with at most \<open>p\<close> decimal places.\<close>

definition on_grid :: "int \<Rightarrow> rat \<Rightarrow> bool" where
  "on_grid p a \<longleftrightarrow> a / step_of p \<in> \<int>"

lemma on_grid_code [code]: "on_grid d x \<longleftrightarrow> of_int \<lfloor>x / step_of d\<rfloor> = x / step_of d"
  unfolding on_grid_def by (auto elim!: Ints_cases)

lemma on_grid_0 [simp]: "on_grid p 0"
  by (simp add: on_grid_def)

lemma on_grid_add: "on_grid p a \<Longrightarrow> on_grid p b \<Longrightarrow> on_grid p (a + b)"
  by (simp add: on_grid_def add_divide_distrib)

lemma on_grid_minus: "on_grid p a \<Longrightarrow> on_grid p (- a)"
  using Ints_minus [of "a / step_of p"] by (simp add: on_grid_def)

lemma on_grid_diff: "on_grid p a \<Longrightarrow> on_grid p b \<Longrightarrow> on_grid p (a - b)"
  by (simp add: on_grid_def diff_divide_distrib)

lemma on_grid_floor [simp]: "on_grid p (floor_precision a p)"
  by (simp add: on_grid_def floor_precision_eq)

lemma floor_precision_on_grid: "on_grid p a \<Longrightarrow> floor_precision a p = a"
  by (auto simp: on_grid_def floor_precision_eq nonzero_divide_eq_eq elim!: Ints_cases)

lemma floor_precision_idem [simp]: "floor_precision (floor_precision a p) p = floor_precision a p"
  by (rule floor_precision_on_grid) simp

lemma floor_precision_pos_on_grid:
  "on_grid p a \<Longrightarrow> 0 < a \<Longrightarrow> step_of p \<le> a"
proof -
  assume "on_grid p a" and a: "0 < a"
  then obtain n where n: "a / step_of p = of_int n" by (auto simp: on_grid_def elim: Ints_cases)
  with a have "0 < (of_int n :: rat)" by (metis step_of_pos(1) zero_less_divide_iff)
  then have "(1::rat) \<le> of_int n" by simp
  with n show ?thesis by (simp add: field_simps)
qed

text \<open>A coarser grid is part of a finer one.\<close>

lemma on_grid_mono:
  assumes "p \<le> q" and "on_grid p a" shows "on_grid q a"
proof (cases "q \<le> 0")
  case True
  with assms show ?thesis by (simp add: on_grid_def step_of_eq)
next
  case False
  from assms(2) obtain n where n: "a = of_int n * step_of p"
    by (auto simp: on_grid_def field_simps elim!: Ints_cases)
  have "step_of p / step_of q \<in> \<int>"
  proof (cases "p \<le> 0")
    case True
    with False show ?thesis by (simp add: step_of_eq)
  next
    case False
    with \<open>\<not> q \<le> 0\<close> have "step_of p / step_of q = 10 ^ nat q / 10 ^ nat p"
      by (simp add: step_of_eq)
    also have "\<dots> = 10 ^ (nat q - nat p)"
      using assms(1) by (simp add: power_diff)
    finally show ?thesis by simp
  qed
  then have "of_int n * (step_of p / step_of q) \<in> \<int>" by (intro Ints_mult) auto
  with n show ?thesis by (simp add: on_grid_def)
qed

lemma ceil_precision_ge: "0 \<le> a \<Longrightarrow> a \<le> ceil_precision a p"
  using mult_right_mono [OF le_of_int_ceiling [of "a / step_of p"], of "step_of p"]
  by (simp add: ceil_precision_eq round_away_def)

lemma ceil_precision_lt: "0 \<le> a \<Longrightarrow> ceil_precision a p < a + step_of p"
  using ceiling_correct [of "a / step_of p"]
  by (simp add: ceil_precision_eq round_away_def field_simps)

end
