(* ===== verification/Ledger.thy ===== *)
theory Ledger
  imports Decimals
begin

text \<open>
  The tables of the ledger: accounts, wallets, transactions, balance locks
  (\<^verbatim>\<open>accounts/models/account.py\<close>, \<^verbatim>\<open>ledger/models/wallet.py\<close>, \<^verbatim>\<open>trx.py\<close>,
  \<^verbatim>\<open>balance_lock.py\<close>, \<^verbatim>\<open>asset.py\<close>), the database constraints on their rows, the queries on
  them and the two directions of the audit of \<^verbatim>\<open>ledger/utils/trx_consistency.py\<close>.
  An asset is its symbol; row ids and UUIDs are natural numbers. A component with tables of
  its own extends the record \<open>ledger\<close>.
\<close>

section \<open>Accounts\<close>

datatype account_type = SYSTEM | OUT | ORDINARY

record referral =
  ref_owner :: nat
  owner_share_percent :: decimal

record account =
  acc_id :: nat
  acc_type :: account_type
  acc_primary :: bool
  custom_maker_fee :: "decimal option"
  custom_taker_fee :: "decimal option"
  custom_max_margin_leverage :: "nat option"
  referred_by :: "referral option"
  acc_owned :: bool

definition is_system :: "account \<Rightarrow> bool" where
  "is_system a \<longleftrightarrow> acc_type a = SYSTEM"

definition is_ordinary_user :: "account \<Rightarrow> bool" where
  "is_ordinary_user a \<longleftrightarrow> acc_type a = ORDINARY"

text \<open>The account ids of \<^verbatim>\<open>_base/settings.py\<close>.\<close>

record settings =
  SYSTEM_ACCOUNT_ID :: nat
  OTC_ACCOUNT_ID :: nat
  MARKET_MAKER_ACCOUNT_ID :: nat
  TRADER_ACCOUNT_ID :: nat
  REVERT_HELPER_ACCOUNT :: nat
  MARGIN_POOL_ACCOUNT :: nat
  MARGIN_INSURANCE_ACCOUNT :: nat

definition is_proxy_trader :: "settings \<Rightarrow> bool \<Rightarrow> account \<Rightarrow> string \<Rightarrow> bool" where
  "is_proxy_trader cfg hedge_irt_by_internal_market a symbol_name \<longleftrightarrow>
     acc_id a = OTC_ACCOUNT_ID cfg \<or>
     (hedge_irt_by_internal_market \<and> symbol_name = ''USDTIRT'' \<and> acc_id a = MARKET_MAKER_ACCOUNT_ID cfg)"

section \<open>Wallets\<close>

datatype wallet_market = SPOT | MARGIN | LOAN | STAKE | VOUCHER | DEBT

definition NEGATIVE_MARKETS :: "wallet_market list" where
  "NEGATIVE_MARKETS = [LOAN, DEBT]"

record wallet =
  w_id :: nat
  w_account :: account
  w_asset :: string
  w_market :: wallet_market
  check_balance :: bool
  balance :: decimal
  locked :: decimal
  variant :: "nat option"
  expiration :: "int option"
  credit :: decimal

definition valid_balance_constraint :: "wallet \<Rightarrow> bool" where
  "valid_balance_constraint w \<longleftrightarrow>
     \<not> check_balance w \<or>
     (\<not> w_market w \<in> {LOAN, DEBT, MARGIN} \<and> locked w - credit w \<le> balance w) \<or>
     (w_market w \<in> {LOAN, DEBT} \<and> balance w \<le> 0 \<and> locked w = 0) \<or>
     (w_market w = MARGIN \<and> variant w = None \<and> locked w - credit w \<le> balance w) \<or>
     (w_market w = MARGIN \<and> variant w \<noteq> None)"

definition valid_locked_constraint :: "wallet \<Rightarrow> bool" where
  "valid_locked_constraint w \<longleftrightarrow> 0 \<le> locked w"

definition row_valid :: "wallet \<Rightarrow> bool" where
  "row_valid w \<longleftrightarrow> valid_balance_constraint w \<and> valid_locked_constraint w"

definition get_free :: "wallet \<Rightarrow> decimal" where
  "get_free w = balance w - locked w"

text \<open>
  The flag \<open>raise_exception\<close> and the system-wallet override are arguments, as in the code;
  \<open>pipeline_balance_diff\<close> is the pending change of the free balance.
\<close>

definition has_balance :: "wallet \<Rightarrow> decimal \<Rightarrow> bool \<Rightarrow> bool \<Rightarrow> decimal \<Rightarrow> bool result" where
  "has_balance w amount raise_exception check_system_wallets pipeline_balance_diff =
     bindE (assertE (0 \<le> amount \<and> w_market w \<notin> set NEGATIVE_MARKETS)) (\<lambda>_.
     let can = (if \<not> check_system_wallets \<and> \<not> check_balance w then True
                else - credit w \<le> get_free w + pipeline_balance_diff - amount)
     in if raise_exception \<and> \<not> can then Inl InsufficientBalance else Inr can)"

definition has_debt :: "wallet \<Rightarrow> decimal \<Rightarrow> bool \<Rightarrow> bool result" where
  "has_debt w amount raise_exception =
     bindE (assertE (amount \<le> 0 \<and> w_market w \<in> set NEGATIVE_MARKETS)) (\<lambda>_.
     let can = (- amount \<le> - balance w)
     in if raise_exception \<and> \<not> can then Inl InsufficientDebt else Inr can)"

definition has_any_debt :: "wallet \<Rightarrow> bool result" where
  "has_any_debt w = bindE (assertE (w_market w \<in> set NEGATIVE_MARKETS)) (\<lambda>_. Inr (balance w < 0))"

section \<open>Transactions and locks\<close>

datatype scope =
    SC_TRADE | SC_TRANSFER | SC_MARGIN_TRANSFER | SC_MARGIN_BORROW | SC_MARGIN_INSURANCE
  | SC_MARGIN_INTEREST | SC_MARGIN_CONVERT | SC_CLOSE_MARGIN | SC_FAST_LIQUID | SC_LIQUID
  | SC_COMMISSION | SC_PRIZE | SC_REVERT | SC_AIRDROP | SC_SEIZE | SC_RESERVE
  | SC_STAKE_REVENUE | SC_STAKE | SC_STAKE_FEE | SC_FIX | SC_DEBT_CLEAR | SC_DUST
  | SC_MANUAL | SC_DELIST | SC_REBRAND | SC_TOKEN_TRANSFER

record trx =
  sender :: nat
  receiver :: nat
  trx_amount :: decimal
  group_id :: nat
  trx_scope :: scope

definition trx_key :: "trx \<Rightarrow> nat \<times> nat \<times> scope \<times> nat" where
  "trx_key t = (sender t, receiver t, trx_scope t, group_id t)"

datatype lock_reason = Lock_TRADE | Lock_WITHDRAW | Lock_STAKE

record balance_lock =
  lk_key :: nat
  lk_wallet :: nat
  original_amount :: decimal
  lk_amount :: decimal
  lk_reason :: lock_reason

section \<open>The database\<close>

text \<open>\<open>equities\<close> is the equity column of the MarginPosition table, by position id.\<close>

record ledger =
  accounts :: "account list"
  wallets :: "wallet list"
  trxs :: "trx list"
  locks :: "balance_lock list"
  equities :: "(nat \<times> decimal) list"

definition find_wallet :: "('z) ledger_scheme \<Rightarrow> nat \<Rightarrow> wallet option" where
  "find_wallet s i = List.find (\<lambda>w. w_id w = i) (wallets s)"

definition find_lock :: "('z) ledger_scheme \<Rightarrow> nat \<Rightarrow> balance_lock option" where
  "find_lock s k = List.find (\<lambda>l. lk_key l = k) (locks s)"

definition system_account :: "('z) ledger_scheme \<Rightarrow> account result" where
  "system_account s = the_or DoesNotExist
     (List.find (\<lambda>a. acc_type a = SYSTEM \<and> acc_primary a) (accounts s))"

definition out_account :: "('z) ledger_scheme \<Rightarrow> account result" where
  "out_account s = the_or DoesNotExist (List.find (\<lambda>a. acc_type a = OUT) (accounts s))"

definition find_account :: "('z) ledger_scheme \<Rightarrow> nat \<Rightarrow> account result" where
  "find_account s i = the_or DoesNotExist (List.find (\<lambda>a. acc_id a = i) (accounts s))"

definition fresh_id :: "nat list \<Rightarrow> nat" where
  "fresh_id ids = Suc (foldr max ids 0)"

text \<open>
  \<^verbatim>\<open>Asset.get_wallet\<close>: get or create. The account is given as an object or as an id; in the
  second case the settings decide whether the new wallet's balance is checked.
\<close>

definition get_or_create_wallet ::
  "('z) ledger_scheme \<Rightarrow> string \<Rightarrow> account \<Rightarrow> bool \<Rightarrow> wallet_market \<Rightarrow> nat option \<Rightarrow> int option
     \<Rightarrow> wallet \<times> ('z) ledger_scheme" where
  "get_or_create_wallet s asset account check market variant' expiration' =
     (case List.find (\<lambda>w. w_asset w = asset \<and> w_market w = market \<and> variant w = variant'
                        \<and> acc_id (w_account w) = acc_id account) (wallets s) of
        Some w \<Rightarrow> (w, s)
      | None \<Rightarrow>
          (let w = \<lparr>w_id = fresh_id (map w_id (wallets s)), w_account = account, w_asset = asset,
                    w_market = market, check_balance = check, balance = 0, locked = 0,
                    variant = variant', expiration = expiration', credit = 0\<rparr>
           in (w, s\<lparr>wallets := wallets s @ [w]\<rparr>)))"

definition get_wallet ::
  "('z) ledger_scheme \<Rightarrow> string \<Rightarrow> account \<Rightarrow> wallet_market \<Rightarrow> nat option \<Rightarrow> int option
     \<Rightarrow> wallet \<times> ('z) ledger_scheme" where
  "get_wallet s asset account market variant' expiration' =
     get_or_create_wallet s asset account (acc_type account = ORDINARY) market variant' expiration'"

definition settings_accounts :: "settings \<Rightarrow> nat list" where
  "settings_accounts cfg =
     [SYSTEM_ACCOUNT_ID cfg, OTC_ACCOUNT_ID cfg, MARKET_MAKER_ACCOUNT_ID cfg, TRADER_ACCOUNT_ID cfg,
      REVERT_HELPER_ACCOUNT cfg, MARGIN_POOL_ACCOUNT cfg, MARGIN_INSURANCE_ACCOUNT cfg]"

definition get_wallet_by_id ::
  "settings \<Rightarrow> ('z) ledger_scheme \<Rightarrow> string \<Rightarrow> nat \<Rightarrow> wallet_market \<Rightarrow> nat option
     \<Rightarrow> (wallet \<times> ('z) ledger_scheme) result" where
  "get_wallet_by_id cfg s asset account_id market variant' =
     bindE (the_or IntegrityError (List.find (\<lambda>a. acc_id a = account_id) (accounts s))) (\<lambda>account.
     Inr (get_or_create_wallet s asset account (account_id \<notin> set (settings_accounts cfg)) market variant' None))"

section \<open>What the ledger promises\<close>

text \<open>The balance that the transactions give a wallet, and the amount its locks hold.\<close>

definition trx_flow :: "nat \<Rightarrow> trx list \<Rightarrow> decimal" where
  "trx_flow i ts = sum_of (\<lambda>t. (if receiver t = i then trx_amount t else 0)
                              - (if sender t = i then trx_amount t else 0)) ts"

definition lock_sum :: "nat \<Rightarrow> balance_lock list \<Rightarrow> decimal" where
  "lock_sum i ls = sum_of (\<lambda>l. if lk_wallet l = i then lk_amount l else 0) ls"

definition asset_of :: "('z) ledger_scheme \<Rightarrow> nat \<Rightarrow> string option" where
  "asset_of s i = map_option w_asset (find_wallet s i)"

definition rows_ok :: "('z) ledger_scheme \<Rightarrow> bool" where
  "rows_ok s \<longleftrightarrow>
     distinct (map w_id (wallets s)) \<and> (\<forall>w\<in>set (wallets s). row_valid w) \<and>
     distinct (map trx_key (trxs s)) \<and> (\<forall>t\<in>set (trxs s). 0 < trx_amount t) \<and>
     distinct (map lk_key (locks s)) \<and> (\<forall>l\<in>set (locks s). 0 \<le> lk_amount l)"

definition refs_ok :: "('z) ledger_scheme \<Rightarrow> trx list \<Rightarrow> bool" where
  "refs_ok s ts \<longleftrightarrow> (\<forall>t\<in>set ts. sender t \<noteq> receiver t \<and> asset_of s (sender t) = asset_of s (receiver t)
                                \<and> asset_of s (sender t) \<noteq> None)"

definition audited :: "('z) ledger_scheme \<Rightarrow> bool" where
  "audited s \<longleftrightarrow> (\<forall>w\<in>set (wallets s). balance w = trx_flow (w_id w) (trxs s)
                                       \<and> locked w = lock_sum (w_id w) (locks s))"

text \<open>Amounts have eight decimals (\<^verbatim>\<open>get_amount_field\<close>).\<close>

definition trx_grid :: "trx list \<Rightarrow> bool" where
  "trx_grid ts \<longleftrightarrow> (\<forall>t\<in>set ts. on_grid 8 (trx_amount t))"

definition lock_grid :: "balance_lock list \<Rightarrow> bool" where
  "lock_grid ls \<longleftrightarrow> (\<forall>l\<in>set ls. on_grid 8 (lk_amount l))"

definition ledger_ok :: "('z) ledger_scheme \<Rightarrow> bool" where
  "ledger_ok s \<longleftrightarrow> rows_ok s \<and> refs_ok s (trxs s) \<and> audited s
                 \<and> (\<forall>l\<in>set (locks s). find_wallet s (lk_wallet l) \<noteq> None)
                 \<and> trx_grid (trxs s) \<and> lock_grid (locks s)"

definition total_of :: "('z) ledger_scheme \<Rightarrow> string \<Rightarrow> decimal" where
  "total_of s a = sum_of (\<lambda>w. if w_asset w = a then balance w else 0) (wallets s)"

text \<open>\<^verbatim>\<open>get_wallet_trx_balance\<close>: the loop of the audit over a wallet's transactions.\<close>

definition get_wallet_trx_balance :: "('z) ledger_scheme \<Rightarrow> wallet \<Rightarrow> decimal" where
  "get_wallet_trx_balance s w =
     foldl (\<lambda>b t. let b = (if sender t = w_id w then b - trx_amount t else b)
                  in if receiver t = w_id w then b + trx_amount t else b)
       0 (filter (\<lambda>t. sender t = w_id w \<or> receiver t = w_id w) (trxs s))"

text \<open>
  \<^verbatim>\<open>check_account_consistency\<close>: it logs the wallets of an account whose balance differs from
  what the transactions add up to. The dictionary of the code holds the grouped sums. For an
  ordinary user it goes on to the locks with a query on \<^verbatim>\<open>BalanceLock.freed\<close>, a column that
  the table no longer has, and raises.
\<close>

definition group_sum :: "('a \<Rightarrow> nat) \<Rightarrow> ('a \<Rightarrow> decimal) \<Rightarrow> 'a list \<Rightarrow> nat ddict" where
  "group_sum key val xs = fold (\<lambda>x d. dd_add d (key x) (val x)) xs []"

definition account_wallet :: "('z) ledger_scheme \<Rightarrow> account \<Rightarrow> nat \<Rightarrow> bool" where
  "account_wallet s a i \<longleftrightarrow>
     (case find_wallet s i of Some w \<Rightarrow> acc_id (w_account w) = acc_id a | None \<Rightarrow> False)"

definition check_account_consistency :: "('z) ledger_scheme \<Rightarrow> account \<Rightarrow> wallet list \<times> unit result" where
  "check_account_consistency s account =
     (let received = group_sum receiver trx_amount (filter (\<lambda>t. account_wallet s account (receiver t)) (trxs s));
          sent = group_sum sender trx_amount (filter (\<lambda>t. account_wallet s account (sender t)) (trxs s));
          balances = fold (\<lambda>(i, x) d. dd_add d i (- x)) sent
                       (fold (\<lambda>(i, x) d. dd_add d i x) received []);
          own = filter (\<lambda>w. acc_id (w_account w) = acc_id account) (wallets s)
      in (filter (\<lambda>w. balance w \<noteq> dd_get balances (w_id w)) own,
          if is_ordinary_user account then Inl FieldErr else Inr ()))"

section \<open>Lemmas\<close>

lemma find_wallet_Some:
  "find_wallet s i = Some w \<Longrightarrow> w \<in> set (wallets s) \<and> w_id w = i"
  by (auto simp: find_wallet_def dest: find_SomeD)

lemma find_wallet_mem:
  assumes "distinct (map w_id (wallets s))" and "w \<in> set (wallets s)"
  shows "find_wallet s (w_id w) = Some w"
proof (cases "find_wallet s (w_id w)")
  case None
  with assms show ?thesis by (auto simp: find_wallet_def find_None_iff)
next
  case (Some v)
  then have "v \<in> set (wallets s)" "w_id v = w_id w" using find_wallet_Some by blast+
  with assms have "v = w" by (meson distinct_map inj_onD)
  with Some show ?thesis by simp
qed

lemma fresh_id_notin: "fresh_id ids \<notin> set ids"
proof -
  have "i \<in> set ids \<Longrightarrow> i \<le> foldr max ids 0" for i by (induction ids) auto
  then show ?thesis by (auto simp: fresh_id_def dest: Suc_le_lessD)
qed

lemma trx_flow_simps [simp]:
  "trx_flow i [] = 0"
  "trx_flow i (xs @ ys) = trx_flow i xs + trx_flow i ys"
  "trx_flow i (t # xs) = (if receiver t = i then trx_amount t else 0)
      - (if sender t = i then trx_amount t else 0) + trx_flow i xs"
  by (simp_all add: trx_flow_def)

lemma lock_sum_simps [simp]:
  "lock_sum i [] = 0"
  "lock_sum i (xs @ ys) = lock_sum i xs + lock_sum i ys"
  "lock_sum i (l # ls) = (if lk_wallet l = i then lk_amount l else 0) + lock_sum i ls"
  by (simp_all add: lock_sum_def)

lemma group_sum_get:
  "dd_get (fold (\<lambda>x d. dd_add d (key x) (val x)) xs d) i
     = dd_get d i + sum_of (\<lambda>x. if key x = i then val x else 0) xs"
  by (induction xs arbitrary: d) auto

lemma group_sum_distinct:
  "distinct (map fst d) \<Longrightarrow> distinct (map fst (fold (\<lambda>x d. dd_add d (key x) (val x)) xs d))"
  by (induction xs arbitrary: d) (auto intro: dd_add_distinct)

text \<open>Adding up an association list of sums is adding up the entries.\<close>

lemma sum_of_alist:
  "distinct (map fst d) \<Longrightarrow> sum_of (\<lambda>x. if fst x = i then snd x else 0) d = dd_get d i"
proof (induction d)
  case (Cons x d)
  then have "map_of d (fst x) = None" by (auto simp: map_of_eq_None_iff)
  with Cons show ?case by (cases x) (auto simp: dd_get_def)
qed simp

text \<open>So balances and locked amounts have eight decimals.\<close>

lemma on_grid_sum_of: "(\<And>x. x \<in> set xs \<Longrightarrow> on_grid p (f x)) \<Longrightarrow> on_grid p (sum_of f xs)"
  by (induction xs) (auto intro: on_grid_0 on_grid_add)

lemma trx_flow_grid: "trx_grid ts \<Longrightarrow> on_grid 8 (trx_flow i ts)"
  unfolding trx_flow_def trx_grid_def
  by (rule on_grid_sum_of) (auto intro!: on_grid_diff on_grid_0 on_grid_minus)

lemma lock_sum_grid: "lock_grid ls \<Longrightarrow> on_grid 8 (lock_sum i ls)"
  unfolding lock_sum_def lock_grid_def by (rule on_grid_sum_of) (auto intro!: on_grid_0)

lemma wallet_grid:
  assumes "ledger_ok s" and "w \<in> set (wallets s)"
  shows "on_grid 8 (balance w)" and "on_grid 8 (locked w)"
  using assms trx_flow_grid lock_sum_grid by (auto simp: ledger_ok_def audited_def)

text \<open>Every trade of the ledger nets to zero: the balances of an asset add up to nothing.\<close>

lemma trx_flow_total:
  assumes "distinct (map w_id ws)"
    and "\<And>t. t \<in> set ts \<Longrightarrow> (\<exists>w\<in>set ws. w_id w = sender t \<and> w_asset w = a) \<longleftrightarrow>
                          (\<exists>w\<in>set ws. w_id w = receiver t \<and> w_asset w = a)"
  shows "sum_of (\<lambda>w. if w_asset w = a then trx_flow (w_id w) ts else 0) ws = 0"
  using assms(2)
proof (induction ts)
  case Nil
  show ?case by (simp cong: if_cong)
next
  case (Cons t ts)
  let ?in = "\<lambda>j. sum_of (\<lambda>w. if w_asset w = a then (if j = w_id w then trx_amount t else 0) else 0) ws"
  have hit: "?in j = (if \<exists>w\<in>set ws. w_id w = j \<and> w_asset w = a then trx_amount t else 0)" for j
    using assms(1)
  proof (induction ws)
    case (Cons w ws)
    show ?case
    proof (cases "w_id w = j")
      case True
      with Cons.prems have "\<And>v. v \<in> set ws \<Longrightarrow> w_id v \<noteq> j" by (auto simp: image_iff)
      then have "sum_of (\<lambda>w. if w_asset w = a then (if j = w_id w then trx_amount t else 0) else 0) ws = 0"
        by (subst sum_of_cong [where g = "\<lambda>_. 0"]) auto
      with True \<open>\<And>v. v \<in> set ws \<Longrightarrow> w_id v \<noteq> j\<close> show ?thesis by (auto dest: sym)
    next
      case False
      with Cons show ?thesis by auto
    qed
  qed simp
  have "sum_of (\<lambda>w. if w_asset w = a then trx_flow (w_id w) (t # ts) else 0) ws =
    sum_of (\<lambda>w. ((if w_asset w = a then (if receiver t = w_id w then trx_amount t else 0) else 0)
      - (if w_asset w = a then (if sender t = w_id w then trx_amount t else 0) else 0))
      + (if w_asset w = a then trx_flow (w_id w) ts else 0)) ws"
    by (rule sum_of_cong) auto
  also have "\<dots> = ?in (receiver t) - ?in (sender t)
      + sum_of (\<lambda>w. if w_asset w = a then trx_flow (w_id w) ts else 0) ws"
    by (simp only: sum_of_add sum_of_diff)
  also have "\<dots> = 0" using Cons by (simp add: hit)
  finally show ?case .
qed

lemma total_of_zero:
  assumes "ledger_ok s"
  shows "total_of s a = 0"
proof -
  from assms have d: "distinct (map w_id (wallets s))"
    and b: "\<And>w. w \<in> set (wallets s) \<Longrightarrow> balance w = trx_flow (w_id w) (trxs s)"
    and r: "refs_ok s (trxs s)"
    by (auto simp: ledger_ok_def rows_ok_def audited_def)
  have as: "(\<exists>w\<in>set (wallets s). w_id w = i \<and> w_asset w = a) \<longleftrightarrow> asset_of s i = Some a" for i
    using d find_wallet_mem [OF d] by (auto simp: asset_of_def dest!: find_wallet_Some)
  have "total_of s a = sum_of (\<lambda>w. if w_asset w = a then trx_flow (w_id w) (trxs s) else 0) (wallets s)"
    unfolding total_of_def by (rule sum_of_cong) (simp add: b)
  also have "\<dots> = 0"
    by (rule trx_flow_total [OF d]) (use r in \<open>simp add: as refs_ok_def\<close>)
  finally show ?thesis .
qed

text \<open>Getting a wallet changes nothing but adds an empty one.\<close>

lemma get_or_create_wallet_cases:
  assumes "get_or_create_wallet s asset account check market v e = (w, s')"
  obtains "s' = s" "w \<in> set (wallets s)" "w_asset w = asset" "w_market w = market" "variant w = v"
      "acc_id (w_account w) = acc_id account"
  | "s' = s\<lparr>wallets := wallets s @ [w]\<rparr>" "w_id w \<notin> set (map w_id (wallets s))" "w_asset w = asset"
      "w_market w = market" "variant w = v" "w_account w = account" "check_balance w = check"
      "balance w = 0" "locked w = 0" "credit w = 0"
  using assms fresh_id_notin [of "map w_id (wallets s)"]
  by (fastforce simp: get_or_create_wallet_def Let_def split: option.splits dest!: find_SomeD)

end
