(* ===== verification/Pipeline.thy ===== *)
theory Pipeline
  imports Ledger
begin

text \<open>
  \<^verbatim>\<open>ledger/utils/wallet_pipeline.py\<close>: the transaction block in which every balance of the
  exchange changes. Operations collect differences in the pipeline; leaving the block
  executes them against the tables, whose constraints may refuse them. The lemmas show what
  the collected differences mean (\<open>pipe_inv\<close>), that executing them is the pointwise update
  of all rows at once (\<open>execute_pointwise\<close>), and that a block keeps the ledger audited
  (\<open>ledger_ok\<close>); the locale \<open>ledger_block\<close> is the contract of a block's body.
\<close>

section \<open>State\<close>

text \<open>
  The dictionary \<^verbatim>\<open>_trxs\<close> is the list of its values in insertion order: its key is the trx's
  sender, receiver, scope and group (\<open>trx_key\<close>); \<^verbatim>\<open>_locks\<close> likewise, keyed by \<open>lk_key\<close>.
\<close>

record pipeline =
  wallet_locks :: "nat ddict"
  wallet_balances :: "nat ddict"
  p_trxs :: "trx list"
  p_locks :: "balance_lock list"
  locks_amount :: "nat ddict"
  positions :: "nat ddict"

definition new_pipeline :: pipeline where
  "new_pipeline = \<lparr>wallet_locks = [], wallet_balances = [], p_trxs = [], p_locks = [],
                   locks_amount = [], positions = []\<rparr>"

definition get_wallet_balance_diff :: "pipeline \<Rightarrow> nat \<Rightarrow> decimal" where
  "get_wallet_balance_diff p i = dd_get (wallet_balances p) i"

definition get_wallet_lock_diff :: "pipeline \<Rightarrow> nat \<Rightarrow> decimal" where
  "get_wallet_lock_diff p i = dd_get (wallet_locks p) i"

definition get_wallet_free_balance_diff :: "pipeline \<Rightarrow> nat \<Rightarrow> decimal" where
  "get_wallet_free_balance_diff p i = get_wallet_balance_diff p i - get_wallet_lock_diff p i"

section \<open>Operations\<close>

definition allowed_locking :: "(wallet_market \<times> lock_reason) list" where
  "allowed_locking = [(SPOT, Lock_TRADE), (SPOT, Lock_WITHDRAW), (MARGIN, Lock_TRADE), (SPOT, Lock_STAKE)]"

text \<open>The operations return the wallet objects they mutate.\<close>

definition new_lock ::
  "pipeline \<Rightarrow> nat \<Rightarrow> wallet \<Rightarrow> decimal \<Rightarrow> lock_reason \<Rightarrow> (pipeline \<times> wallet) result" where
  "new_lock p key wallet amount reason =
     (let amount = floor_precision amount 8 in
      bindE (assertE (0 < amount)) (\<lambda>_.
      bindE (assertE (key \<notin> set (map lk_key (p_locks p)))) (\<lambda>_.
      if \<not> check_balance wallet then Inr (p, wallet) else
      bindE (assertE ((w_market wallet, reason) \<in> set allowed_locking)) (\<lambda>_.
      Inr (p\<lparr>p_locks := p_locks p @ [\<lparr>lk_key = key, lk_wallet = w_id wallet, original_amount = amount,
                                     lk_amount = amount, lk_reason = reason\<rparr>],
             wallet_locks := dd_add (wallet_locks p) (w_id wallet) amount\<rparr>,
           wallet\<lparr>locked := locked wallet + amount\<rparr>)))))"

definition take_from_lock :: "nat \<Rightarrow> decimal \<Rightarrow> balance_lock list \<Rightarrow> balance_lock list" where
  "take_from_lock key amount ls =
     filter (\<lambda>l. \<not> (lk_key l = key \<and> lk_amount l = 0))
       (map (\<lambda>l. if lk_key l = key then l\<lparr>lk_amount := lk_amount l - amount\<rparr> else l) ls)"

definition release_lock ::
  "('z) ledger_scheme \<Rightarrow> pipeline \<Rightarrow> nat \<Rightarrow> decimal option \<Rightarrow> pipeline result" where
  "release_lock s p key amount =
     (let amount = (case amount of None \<Rightarrow> None
                    | Some a \<Rightarrow> if a \<noteq> 0 then Some (floor_precision a 8) else Some a) in
      bindE (assertE (case amount of None \<Rightarrow> True | Some a \<Rightarrow> 0 \<le> a)) (\<lambda>_.
      case List.find (\<lambda>l. lk_key l = key) (p_locks p) of
        Some lock \<Rightarrow>
          (let amount = (case amount of None \<Rightarrow> lk_amount lock | Some a \<Rightarrow> a)
           in Inr (p\<lparr>p_locks := take_from_lock key amount (p_locks p),
                    wallet_locks := dd_add (wallet_locks p) (lk_wallet lock) (- amount)\<rparr>))
      | None \<Rightarrow>
          (case find_lock s key of
             None \<Rightarrow> Inr p
           | Some lock \<Rightarrow>
               (let to_release = (case amount of
                      None \<Rightarrow> lk_amount lock + dd_get (locks_amount p) key
                    | Some a \<Rightarrow> a)
                in Inr (p\<lparr>locks_amount := dd_add (locks_amount p) key (- to_release),
                         wallet_locks := dd_add (wallet_locks p) (lk_wallet lock) (- to_release)\<rparr>)))))"

definition add_trx :: "trx \<Rightarrow> trx list \<Rightarrow> trx list" where
  "add_trx t ts =
     (if trx_key t \<in> set (map trx_key ts)
      then map (\<lambda>u. if trx_key u = trx_key t then u\<lparr>trx_amount := trx_amount u + trx_amount t\<rparr> else u) ts
      else ts @ [t])"

definition new_trx ::
  "pipeline \<Rightarrow> wallet \<Rightarrow> wallet \<Rightarrow> decimal \<Rightarrow> scope \<Rightarrow> nat \<Rightarrow> (pipeline \<times> wallet \<times> wallet) result" where
  "new_trx p sndr rcvr amount scope g =
     bindE (assertE (w_asset sndr = w_asset rcvr)) (\<lambda>_.
     let amount = floor_precision amount 8 in
     if amount = 0 \<or> w_id sndr = w_id rcvr then Inr (p, sndr, rcvr) else
     if is_system (w_account sndr) \<and> is_system (w_account rcvr) then Inr (p, sndr, rcvr) else
     Inr (p\<lparr>p_trxs := add_trx \<lparr>sender = w_id sndr, receiver = w_id rcvr, trx_amount = amount,
                               group_id = g, trx_scope = scope\<rparr> (p_trxs p),
            wallet_balances := dd_add (dd_add (wallet_balances p) (w_id sndr) (- amount)) (w_id rcvr) amount\<rparr>,
          sndr\<lparr>balance := balance sndr - amount\<rparr>, rcvr\<lparr>balance := balance rcvr + amount\<rparr>))"

text \<open>For the callers that do not use the wallet objects again.\<close>

definition post :: "pipeline \<Rightarrow> wallet \<Rightarrow> wallet \<Rightarrow> decimal \<Rightarrow> scope \<Rightarrow> nat \<Rightarrow> pipeline result" where
  "post p sndr rcvr amount scope g = bindE (new_trx p sndr rcvr amount scope g) (\<lambda>r. Inr (fst r))"

definition lock_balance :: "pipeline \<Rightarrow> nat \<Rightarrow> wallet \<Rightarrow> decimal \<Rightarrow> lock_reason \<Rightarrow> pipeline result" where
  "lock_balance p key wallet amount reason = bindE (new_lock p key wallet amount reason) (\<lambda>r. Inr (fst r))"

definition add_position_equity :: "pipeline \<Rightarrow> nat \<Rightarrow> decimal \<Rightarrow> pipeline" where
  "add_position_equity p i amount = p\<lparr>positions := dd_add (positions p) i amount\<rparr>"

section \<open>Executing a pipeline\<close>

definition sorted_flatten_dict :: "(nat \<times> 'v) list \<Rightarrow> (nat \<times> 'v) list" where
  "sorted_flatten_dict d = sort_key fst d"

text \<open>The columns to update: a missing entry of the code's dictionary is \<open>None\<close>.\<close>

type_synonym wallet_update = "decimal option \<times> decimal option"

definition build_wallet_updates :: "pipeline \<Rightarrow> (nat \<times> wallet_update) list" where
  "build_wallet_updates p =
     (let balances = sorted_flatten_dict (wallet_balances p);
          locks' = sorted_flatten_dict (wallet_locks p);
          updates = fold (\<lambda>(i, b) u. if b \<noteq> 0 then AList.map_default i (Some b, None) (\<lambda>c. (Some b, snd c)) u else u)
                      balances []
      in fold (\<lambda>(i, l) u. if l \<noteq> 0 then AList.map_default i (None, Some l) (\<lambda>c. (fst c, Some l)) u else u)
           locks' updates)"

definition build_lock_updates :: "pipeline \<Rightarrow> (nat \<times> decimal) list" where
  "build_lock_updates p = filter (\<lambda>(k, x). x \<noteq> 0) (sorted_flatten_dict (locks_amount p))"

definition upd_lock :: "decimal \<Rightarrow> balance_lock \<Rightarrow> balance_lock" where
  "upd_lock x l = l\<lparr>lk_amount := lk_amount l + x\<rparr>"

definition upd_wallet :: "wallet_update \<Rightarrow> wallet \<Rightarrow> wallet" where
  "upd_wallet u w =
     (let w = (case fst u of None \<Rightarrow> w | Some b \<Rightarrow> w\<lparr>balance := balance w + b\<rparr>)
      in case snd u of None \<Rightarrow> w | Some l \<Rightarrow> w\<lparr>locked := locked w + l\<rparr>)"

text \<open>\<^verbatim>\<open>objects.filter(key=k).update(...)\<close>: the constraint is checked on the updated rows.\<close>

definition update_rows :: "('a \<Rightarrow> bool) \<Rightarrow> ('a \<Rightarrow> nat) \<Rightarrow> ('u \<Rightarrow> 'a \<Rightarrow> 'a) \<Rightarrow> 'a list \<Rightarrow> nat \<times> 'u \<Rightarrow> 'a list result" where
  "update_rows valid key upd rows u =
     (if \<forall>r\<in>set rows. key r = fst u \<longrightarrow> valid (upd (snd u) r)
      then Inr (map (\<lambda>r. if key r = fst u then upd (snd u) r else r) rows)
      else Inl IntegrityError)"

definition bulk_create_trxs :: "('z) ledger_scheme \<Rightarrow> trx list \<Rightarrow> ('z) ledger_scheme result" where
  "bulk_create_trxs s ts =
     bindE (guardE IntegrityError
       ((\<forall>t\<in>set ts. 0 < trx_amount t \<and> find_wallet s (sender t) \<noteq> None \<and> find_wallet s (receiver t) \<noteq> None)
        \<and> distinct (map trx_key (trxs s @ ts)))) (\<lambda>_.
     Inr (s\<lparr>trxs := trxs s @ ts\<rparr>))"

definition bulk_create_locks :: "('z) ledger_scheme \<Rightarrow> balance_lock list \<Rightarrow> ('z) ledger_scheme result" where
  "bulk_create_locks s ls =
     bindE (guardE IntegrityError
       ((\<forall>l\<in>set ls. 0 \<le> lk_amount l \<and> find_wallet s (lk_wallet l) \<noteq> None)
        \<and> distinct (map lk_key (locks s @ ls)))) (\<lambda>_.
     Inr (s\<lparr>locks := locks s @ ls\<rparr>))"

definition execute :: "('z) ledger_scheme \<Rightarrow> pipeline \<Rightarrow> ('z) ledger_scheme result" where
  "execute s p =
     bindE (foldE (update_rows (\<lambda>l. 0 \<le> lk_amount l) lk_key upd_lock) (locks s) (build_lock_updates p)) (\<lambda>ls.
     bindE (foldE (update_rows row_valid w_id upd_wallet) (wallets s)
              (sorted_flatten_dict (build_wallet_updates p))) (\<lambda>ws.
     let s = s\<lparr>locks := ls, wallets := ws\<rparr> in
     bindE (if p_trxs p \<noteq> [] then bulk_create_trxs s (p_trxs p) else Inr s) (\<lambda>s.
     bindE (if p_locks p \<noteq> [] then bulk_create_locks s (p_locks p) else Inr s) (\<lambda>s.
     Inr (s\<lparr>equities := fold (\<lambda>(i, x). map (\<lambda>(j, e). (j, if j = i then e + x else e)))
                           (positions p) (equities s)\<rparr>)))))"

text \<open>
  \<^verbatim>\<open>with WalletPipeline() as pipeline: body\<close>. An exception of the body or of the execution
  leaves through the enclosing transaction, which is rolled back.
\<close>

definition with_pipeline ::
  "(('z) ledger_scheme \<Rightarrow> pipeline \<Rightarrow> ('a \<times> ('z) ledger_scheme \<times> pipeline) result)
     \<Rightarrow> ('z) ledger_scheme \<Rightarrow> ('a \<times> ('z) ledger_scheme) result" where
  "with_pipeline body s =
     bindE (body s new_pipeline) (\<lambda>(a, s, p).
     bindE (execute s p) (\<lambda>s. Inr (a, s)))"

section \<open>What a pipeline means\<close>

definition lock_wallet :: "('z) ledger_scheme \<Rightarrow> nat \<Rightarrow> nat option" where
  "lock_wallet s k = map_option lk_wallet (find_lock s k)"

definition pipe_inv :: "('z) ledger_scheme \<Rightarrow> pipeline \<Rightarrow> bool" where
  "pipe_inv s p \<longleftrightarrow>
     distinct (map fst (wallet_balances p)) \<and> distinct (map fst (wallet_locks p)) \<and>
     distinct (map fst (locks_amount p)) \<and>
     (\<forall>i. dd_get (wallet_balances p) i = trx_flow i (p_trxs p)) \<and>
     (\<forall>i. dd_get (wallet_locks p) i = lock_sum i (p_locks p)
            + sum_of (\<lambda>x. if lock_wallet s (fst x) = Some i then snd x else 0) (locks_amount p)) \<and>
     distinct (map trx_key (p_trxs p)) \<and> distinct (map lk_key (p_locks p)) \<and>
     refs_ok s (p_trxs p) \<and>
     (\<forall>k\<in>fst ` set (locks_amount p). find_lock s k \<noteq> None) \<and>
     (\<forall>l\<in>set (p_locks p). find_wallet s (lk_wallet l) \<noteq> None) \<and>
     trx_grid (p_trxs p) \<and> lock_grid (p_locks p) \<and> (\<forall>k. on_grid 8 (dd_get (locks_amount p) k))"

text \<open>A wallet object that was read from the tables.\<close>

definition known :: "('z) ledger_scheme \<Rightarrow> wallet \<Rightarrow> bool" where
  "known s w \<longleftrightarrow> asset_of s (w_id w) = Some (w_asset w)"

definition block_ok :: "('z) ledger_scheme \<Rightarrow> pipeline \<Rightarrow> bool" where
  "block_ok s p \<longleftrightarrow> ledger_ok s \<and> pipe_inv s p"

section \<open>Each operation keeps the meaning\<close>

named_theorems block_intros

lemma new_pipeline_inv: "pipe_inv s new_pipeline"
  by (simp add: pipe_inv_def new_pipeline_def refs_ok_def trx_grid_def lock_grid_def on_grid_0)

lemma pipe_inv_diffs:
  assumes "pipe_inv s p"
  shows "get_wallet_balance_diff p i = trx_flow i (p_trxs p)"
    and "get_wallet_free_balance_diff p i =
      trx_flow i (p_trxs p) - (lock_sum i (p_locks p)
        + sum_of (\<lambda>x. if lock_wallet s (fst x) = Some i then snd x else 0) (locks_amount p))"
  using assms
  by (simp_all add: pipe_inv_def get_wallet_balance_diff_def get_wallet_free_balance_diff_def get_wallet_lock_diff_def)

lemma trx_key_amount [simp]: "trx_key (t\<lparr>trx_amount := x\<rparr>) = trx_key t"
  by (simp add: trx_key_def)

lemma add_trx_keys: "distinct (map trx_key ts) \<Longrightarrow> distinct (map trx_key (add_trx t ts))"
  by (auto simp: add_trx_def comp_def if_distrib cong: if_cong) 

lemma add_trx_key_set: "trx_key ` set (add_trx t ts) = insert (trx_key t) (trx_key ` set ts)"
proof -
  have "map trx_key (add_trx t ts) = (if trx_key t \<in> set (map trx_key ts) then map trx_key ts else map trx_key ts @ [trx_key t])"
    by (auto simp: add_trx_def)
  from arg_cong [OF this, of set] show ?thesis by (auto split: if_splits)
qed

lemma add_trx_flow:
  assumes "distinct (map trx_key ts)"
  shows "trx_flow i (add_trx t ts) = trx_flow i ts + trx_flow i [t]"
proof (cases "trx_key t \<in> set (map trx_key ts)")
  case False
  then show ?thesis by (simp add: add_trx_def)
next
  case True
  then have "trx_flow i (map (\<lambda>u. if trx_key u = trx_key t then u\<lparr>trx_amount := trx_amount u + trx_amount t\<rparr> else u) ts)
      = trx_flow i ts + trx_flow i [t]"
    using assms
  proof (induction ts)
    case (Cons u us)
    show ?case
    proof (cases "trx_key u = trx_key t")
      case True
      with Cons.prems(2) have "\<And>v. v \<in> set us \<Longrightarrow> trx_key v \<noteq> trx_key t" by (auto simp: image_iff)
      then have "map (\<lambda>u. if trx_key u = trx_key t then u\<lparr>trx_amount := trx_amount u + trx_amount t\<rparr> else u) us = us"
        by (simp add: map_idI)
      with True show ?thesis by (auto simp: trx_key_def)
    next
      case False
      with Cons show ?thesis by auto
    qed
  qed simp
  with True show ?thesis by (simp add: add_trx_def)
qed

lemma refs_ok_Cons: "refs_ok s (t # ts) \<longleftrightarrow> refs_ok s [t] \<and> refs_ok s ts"
  unfolding refs_ok_def by (simp only: list.set Ball_def insert_iff empty_iff) blast

lemma refs_okD:
  assumes "refs_ok s ts" and "t \<in> set ts"
  shows "sender t \<noteq> receiver t" and "asset_of s (sender t) = asset_of s (receiver t)"
    and "asset_of s (sender t) \<noteq> None" and "asset_of s (receiver t) \<noteq> None"
proof -
  from assms show "sender t \<noteq> receiver t" and e: "asset_of s (sender t) = asset_of s (receiver t)"
    and n: "asset_of s (sender t) \<noteq> None"
    unfolding refs_ok_def by blast+
  from n show "asset_of s (receiver t) \<noteq> None" by (simp only: e not_False_eq_True)
qed

lemma refs_ok_append: "refs_ok s (xs @ ys) \<longleftrightarrow> refs_ok s xs \<and> refs_ok s ys"
  unfolding refs_ok_def by (simp only: set_append ball_Un)

lemma add_trx_refs:
  assumes "refs_ok s ts" and "refs_ok s [t]"
  shows "refs_ok s (add_trx t ts)"
proof -
  have "\<exists>v\<in>set (t # ts). sender u = sender v \<and> receiver u = receiver v" if "u \<in> set (add_trx t ts)" for u
    using that by (fastforce simp: add_trx_def split: if_splits)
  then have "\<forall>u\<in>set (add_trx t ts). \<exists>v\<in>set (t # ts). sender u = sender v \<and> receiver u = receiver v" ..
  moreover have "refs_ok s (t # ts)" using assms by (simp only: refs_ok_Cons [of s t ts])
  ultimately show ?thesis unfolding refs_ok_def by metis
qed

lemma add_trx_grid: "trx_grid ts \<Longrightarrow> on_grid 8 (trx_amount t) \<Longrightarrow> trx_grid (add_trx t ts)"
  by (auto simp: trx_grid_def add_trx_def intro!: on_grid_add)

lemma new_trx_cases:
  assumes "new_trx p a b x sc g = Inr (p', a', b')"
  obtains "p' = p" "a' = a" "b' = b" "w_asset a = w_asset b"
  | y where "y = floor_precision x 8" "y \<noteq> 0" "w_id a \<noteq> w_id b" "w_asset a = w_asset b"
      "p' = p\<lparr>p_trxs := add_trx \<lparr>sender = w_id a, receiver = w_id b, trx_amount = y, group_id = g, trx_scope = sc\<rparr> (p_trxs p),
              wallet_balances := dd_add (dd_add (wallet_balances p) (w_id a) (- y)) (w_id b) y\<rparr>"
      "a' = a\<lparr>balance := balance a - y\<rparr>" "b' = b\<lparr>balance := balance b + y\<rparr>"
proof -
  have as: "w_asset a = w_asset b" using assms by (simp add: new_trx_def result_simps)
  show ?thesis
  proof (cases "floor_precision x 8 = 0 \<or> w_id a = w_id b \<or> is_system (w_account a) \<and> is_system (w_account b)")
    case True
    with as assms show ?thesis by (intro that(1)) (simp_all add: new_trx_def Let_def split: if_splits)
  next
    case False
    with as assms show ?thesis
      by (intro that(2) [of "floor_precision x 8"]) (simp_all add: new_trx_def Let_def split: if_splits)
  qed
qed

lemma new_trx_inv [block_intros]:
  assumes "new_trx p a b x sc g = Inr (p', a', b')" and "block_ok s p" and "known s a" and "known s b"
  shows "block_ok s p'"
  using assms(1)
proof (cases rule: new_trx_cases)
  case 1
  with assms(2) show ?thesis by simp
next
  case (2 y)
  let ?t = "\<lparr>sender = w_id a, receiver = w_id b, trx_amount = y, group_id = g, trx_scope = sc\<rparr>"
  have g: "on_grid 8 y" using 2(1) on_grid_floor by simp
  have r: "refs_ok s [?t]" using 2 assms(3,4) by (simp add: refs_ok_def known_def)
  from assms(2) have "pipe_inv s p" by (simp add: block_ok_def)
  then have "pipe_inv s p'"
    unfolding 2(5) pipe_inv_def
    by (simp add: dd_add_distinct add_trx_keys add_trx_flow add_trx_refs [OF _ r] add_trx_grid g)
  with assms(2) show ?thesis by (simp add: block_ok_def)
qed

lemma post_inv [block_intros]:
  "post p a b x sc g = Inr p' \<Longrightarrow> block_ok s p \<Longrightarrow> known s a \<Longrightarrow> known s b \<Longrightarrow> block_ok s p'"
  by (auto simp: post_def result_simps intro: new_trx_inv)

lemma known_update [simp]:
  "known s (w\<lparr>balance := x\<rparr>) = known s w" "known s (w\<lparr>locked := x\<rparr>) = known s w"
  by (simp_all add: known_def)

lemma new_lock_cases:
  assumes "new_lock p k w x r = Inr (p', w')"
  obtains "p' = p" "w' = w" "\<not> check_balance w"
  | y where "y = floor_precision x 8" "0 < y" "k \<notin> set (map lk_key (p_locks p))" "check_balance w"
      "(w_market w, r) \<in> set allowed_locking"
      "p' = p\<lparr>p_locks := p_locks p @ [\<lparr>lk_key = k, lk_wallet = w_id w, original_amount = y, lk_amount = y, lk_reason = r\<rparr>],
             wallet_locks := dd_add (wallet_locks p) (w_id w) y\<rparr>" "w' = w\<lparr>locked := locked w + y\<rparr>"
proof (cases "check_balance w")
  case False
  with assms show ?thesis by (intro that(1)) (simp_all add: new_lock_def Let_def result_simps)
next
  case True
  with assms show ?thesis
    by (intro that(2) [of "floor_precision x 8"]) (simp_all add: new_lock_def Let_def result_simps)
qed

lemma new_lock_inv [block_intros]:
  assumes "new_lock p k w x r = Inr (p', w')" and "block_ok s p" and "known s w"
  shows "block_ok s p'"
  using assms(1)
proof (cases rule: new_lock_cases)
  case 1
  with assms(2) show ?thesis by simp
next
  case (2 y)
  have "find_wallet s (w_id w) \<noteq> None" using assms(3) by (auto simp: known_def asset_of_def)
  moreover from assms(2) have "pipe_inv s p" by (simp add: block_ok_def)
  moreover have "on_grid 8 y" using 2(1) on_grid_floor by simp
  ultimately have "pipe_inv s p'"
    using 2(3) unfolding 2(6) pipe_inv_def by (auto simp: dd_add_distinct lock_grid_def)
  with assms(2) show ?thesis by (simp add: block_ok_def)
qed

lemma lock_balance_inv [block_intros]:
  "lock_balance p k w x r = Inr p' \<Longrightarrow> block_ok s p \<Longrightarrow> known s w \<Longrightarrow> block_ok s p'"
  by (auto simp: lock_balance_def result_simps intro: new_lock_inv)

lemma take_from_lock_sum:
  assumes "distinct (map lk_key ls)" and "l \<in> set ls" and "lk_key l = k"
  shows "lock_sum i (take_from_lock k x ls) = lock_sum i ls - (if lk_wallet l = i then x else 0)"
  using assms
proof (induction ls)
  case (Cons m ls)
  show ?case
  proof (cases "lk_key m = k")
    case True
    have "inj_on lk_key (set (m # ls))" using Cons.prems(1) by (simp only: distinct_map)
    then have "l = m" using Cons.prems(2,3) True by (auto dest: inj_onD)
    from True Cons.prems(1) have "\<And>v. v \<in> set ls \<Longrightarrow> lk_key v \<noteq> k" by (auto simp: image_iff)
    then have "take_from_lock k x ls = ls" by (auto simp: take_from_lock_def map_idI)
    with \<open>l = m\<close> True show ?thesis by (simp add: take_from_lock_def)
  next
    case False
    with Cons show ?thesis by (auto simp: take_from_lock_def)
  qed
qed simp

lemma take_from_lock_keys:
  "distinct (map lk_key ls) \<Longrightarrow> distinct (map lk_key (take_from_lock k x ls))"
  unfolding take_from_lock_def by (rule distinct_map_filter) (simp add: comp_def if_distrib [of lk_key] cong: if_cong)

lemma take_from_lock_wallets:
  assumes "\<forall>l\<in>set ls. P (lk_wallet l)"
  shows "\<forall>l\<in>set (take_from_lock k x ls). P (lk_wallet l)"
  using assms by (auto simp: take_from_lock_def)

lemma sum_of_dd_add:
  assumes "distinct (map fst d)"
  shows "sum_of (\<lambda>z. if P (fst z) then snd z else 0) (dd_add d k x)
     = sum_of (\<lambda>z. if P (fst z) then snd z else 0) d + (if P k then x else 0)"
  using assms
proof (induction d)
  case (Cons z d)
  then show ?case
  proof (cases "fst z = k")
    case False
    with Cons show ?thesis by (cases z) (auto simp: dd_add_def dd_get_def)
  next
    case True
    then show ?thesis by (cases z) (auto simp: dd_add_def dd_get_def)
  qed
qed (simp add: dd_add_def)

text \<open>The two cases of a release: a lock of this block, or a lock of the table.\<close>

lemma release_amount: "(if a \<noteq> 0 then Some (floor_precision a 8) else Some a) = Some (floor_precision a 8)"
  by (simp add: floor_precision_0)

lemma release_lock_cases:
  assumes "release_lock s p k x = Inr p'"
  obtains "p' = p" "find_lock s k = None"
  | l y where "l \<in> set (p_locks p)" "lk_key l = k" "y = (case x of None \<Rightarrow> lk_amount l | Some a \<Rightarrow> floor_precision a 8)"
      "p' = p\<lparr>p_locks := take_from_lock k y (p_locks p), wallet_locks := dd_add (wallet_locks p) (lk_wallet l) (- y)\<rparr>"
  | l y where "find_lock s k = Some l" "k \<notin> set (map lk_key (p_locks p))"
      "y = (case x of None \<Rightarrow> lk_amount l + dd_get (locks_amount p) k | Some a \<Rightarrow> floor_precision a 8)"
      "p' = p\<lparr>locks_amount := dd_add (locks_amount p) k (- y), wallet_locks := dd_add (wallet_locks p) (lk_wallet l) (- y)\<rparr>"
proof (cases "List.find (\<lambda>l. lk_key l = k) (p_locks p)")
  case None
  then have k: "k \<notin> set (map lk_key (p_locks p))" by (auto simp: find_None_iff')
  show ?thesis
  proof (cases "find_lock s k")
    case n: None
    with None assms show ?thesis by (intro that(1)) (simp_all add: release_lock_def Let_def result_simps)
  next
    case (Some l)
    with None assms show ?thesis
      by (intro that(3) [of l "case x of None \<Rightarrow> lk_amount l + dd_get (locks_amount p) k | Some a \<Rightarrow> floor_precision a 8"])
        (simp_all add: release_lock_def Let_def result_simps k [simplified] release_amount split: option.splits)
  qed
next
  case (Some l)
  with assms find_SomeD [OF Some] show ?thesis
    by (intro that(2) [of l "case x of None \<Rightarrow> lk_amount l | Some a \<Rightarrow> floor_precision a 8"])
      (simp_all add: release_lock_def Let_def result_simps release_amount split: option.splits)
qed

lemma release_lock_inv [block_intros]:
  assumes "release_lock s p k x = Inr p'" and "block_ok s p"
  shows "block_ok s p'"
proof -
  from assms(2) have pi: "pipe_inv s p" by (simp add: block_ok_def)
  from assms(1) have "pipe_inv s p'"
  proof (cases rule: release_lock_cases)
    case 1
    with pi show ?thesis by simp
  next
    case (2 l y)
    from pi have "\<forall>l\<in>set (take_from_lock k y (p_locks p)). find_wallet s (lk_wallet l) \<noteq> None"
      by (intro take_from_lock_wallets) (simp add: pipe_inv_def)
    moreover have "on_grid 8 y"
      using 2(1,3) pi on_grid_floor by (auto simp: pipe_inv_def lock_grid_def split: option.splits)
    then have "lock_grid (take_from_lock k y (p_locks p))"
      using pi by (auto simp: pipe_inv_def lock_grid_def take_from_lock_def intro!: on_grid_diff)
    ultimately show ?thesis using pi
      unfolding 2(4) pipe_inv_def
      by (simp add: dd_add_distinct take_from_lock_keys take_from_lock_sum [OF _ 2(1,2)])
  next
    case (3 l y)
    have "lock_wallet s k = Some (lk_wallet l)" using 3 by (simp add: lock_wallet_def)
    moreover have "on_grid 8 (lk_amount l)"
      using assms(2) 3(1) by (auto simp: block_ok_def ledger_ok_def lock_grid_def find_lock_def dest: find_SomeD)
    then have "on_grid 8 y"
      using 3(3) pi on_grid_floor by (auto simp: pipe_inv_def intro!: on_grid_add split: option.splits)
    then have "on_grid 8 (dd_get (dd_add (locks_amount p) k (- y)) j)" for j
      using pi by (auto simp: pipe_inv_def intro!: on_grid_diff)
    ultimately show ?thesis using pi 3(1)
      unfolding 3(4) pipe_inv_def
      by (auto simp: dd_add_distinct sum_of_dd_add [where P = "\<lambda>k. lock_wallet s k = Some i" for i])
  qed
  with assms(2) show ?thesis by (simp add: block_ok_def)
qed

lemma add_position_equity_inv [block_intros]:
  "block_ok s p \<Longrightarrow> block_ok s (add_position_equity p i x)"
  by (simp add: block_ok_def pipe_inv_def add_position_equity_def)

section \<open>Executing is the pointwise update\<close>

lemma map_of_sort: "distinct (map fst d) \<Longrightarrow> map_of (sorted_flatten_dict d) = map_of d"
  by (rule map_of_eqI) (auto simp: sorted_flatten_dict_def distinct_map)

lemma sorted_flatten_dict_distinct: "distinct (map fst d) \<Longrightarrow> distinct (map fst (sorted_flatten_dict d))"
  by (simp add: sorted_flatten_dict_def distinct_map)

lemma foldE_update_rows:
  assumes "distinct (map fst us)" and "\<And>u r. key (upd u r) = key r"
  shows "foldE (update_rows valid key upd) rows us =
    (if \<forall>r\<in>set rows. \<forall>u. map_of us (key r) = Some u \<longrightarrow> valid (upd u r)
     then Inr (map (\<lambda>r. case map_of us (key r) of None \<Rightarrow> r | Some u \<Rightarrow> upd u r) rows)
     else Inl IntegrityError)"
  using assms(1)
proof (induction us arbitrary: rows)
  case (Cons x us)
  obtain k u where x: "x = (k, u)" by (cases x)
  with Cons.prems have k: "map_of us k = None" by (simp add: map_of_eq_None_iff)
  let ?step = "\<lambda>r. if key r = k then upd u r else r"
  show ?case
  proof (cases "\<forall>r\<in>set rows. key r = k \<longrightarrow> valid (upd u r)")
    case False
    then have "foldE (update_rows valid key upd) rows (x # us) = Inl IntegrityError"
      by (auto simp: update_rows_def x)
    moreover from False have "\<not> (\<forall>r\<in>set rows. \<forall>v. map_of (x # us) (key r) = Some v \<longrightarrow> valid (upd v r))"
      using x by auto
    ultimately show ?thesis by simp
  next
    case True
    have "foldE (update_rows valid key upd) rows (x # us) = foldE (update_rows valid key upd) (map ?step rows) us"
      using True by (simp add: update_rows_def x cong: if_cong)
    also have "\<dots> = (if \<forall>r\<in>set (map ?step rows). \<forall>v. map_of us (key r) = Some v \<longrightarrow> valid (upd v r)
       then Inr (map (\<lambda>r. case map_of us (key r) of None \<Rightarrow> r | Some v \<Rightarrow> upd v r) (map ?step rows))
       else Inl IntegrityError)"
      using Cons by simp
    also have "(\<forall>r\<in>set (map ?step rows). \<forall>v. map_of us (key r) = Some v \<longrightarrow> valid (upd v r)) \<longleftrightarrow>
        (\<forall>r\<in>set rows. \<forall>v. map_of (x # us) (key r) = Some v \<longrightarrow> valid (upd v r))"
      using True k by (auto simp: x assms(2) split: if_splits)
    also have "map (\<lambda>r. case map_of us (key r) of None \<Rightarrow> r | Some v \<Rightarrow> upd v r) (map ?step rows) =
        map (\<lambda>r. case map_of (x # us) (key r) of None \<Rightarrow> r | Some v \<Rightarrow> upd v r) rows"
      using k by (auto simp: x assms(2))
    finally show ?thesis .
  qed
qed simp

lemma upd_ids [simp]:
  "lk_key (upd_lock x l) = lk_key l" "lk_wallet (upd_lock x l) = lk_wallet l"
  "lk_amount (upd_lock x l) = lk_amount l + x"
  "w_id (upd_wallet u w) = w_id w" "w_asset (upd_wallet u w) = w_asset w"
  "balance (upd_wallet u w) = balance w + (case fst u of None \<Rightarrow> 0 | Some b \<Rightarrow> b)"
  "locked (upd_wallet u w) = locked w + (case snd u of None \<Rightarrow> 0 | Some b \<Rightarrow> b)"
  by (auto simp: upd_lock_def upd_wallet_def Let_def split: option.splits)

definition nonzero :: "decimal \<Rightarrow> decimal option" where
  "nonzero x = (if x = 0 then None else Some x)"

definition shift_wallet :: "decimal \<Rightarrow> decimal \<Rightarrow> wallet \<Rightarrow> wallet" where
  "shift_wallet b l w = w\<lparr>balance := balance w + b, locked := locked w + l\<rparr>"

lemma upd_wallet_nonzero: "upd_wallet (nonzero b, nonzero l) w = shift_wallet b l w"
  by (simp add: upd_wallet_def nonzero_def shift_wallet_def Let_def)

lemma map_of_map_default:
  "map_of (AList.map_default k v f u) j =
     (if j = k then Some (case map_of u k of None \<Rightarrow> v | Some x \<Rightarrow> f x) else map_of u j)"
  by (induction u) (auto split: option.splits)

lemma distinct_map_default: "distinct (map fst u) \<Longrightarrow> distinct (map fst (AList.map_default k v f u))"
  by (rule distinct_map_default)

lemma balances_updates:
  assumes "distinct (map fst d)" and "\<And>i. i \<in> fst ` set d \<Longrightarrow> map_of u i = None" and "distinct (map fst u)"
  shows "map_of (fold (\<lambda>(i, b) u. if b \<noteq> 0 then AList.map_default i (Some b, None) (\<lambda>c. (Some b, snd c)) u else u) d u) i
      = (if dd_get d i = 0 then map_of u i else Some (Some (dd_get d i), None :: decimal option))"
    and "distinct (map fst (fold (\<lambda>(i, b) u. if b \<noteq> 0 then AList.map_default i (Some b, None) (\<lambda>c. (Some b, snd c)) u else u) d u))"
  using assms
proof (induction d arbitrary: u)
  case (Cons x d)
  case 1
  obtain k b where x: "x = (k, b)" by (cases x)
  let ?u = "if b \<noteq> 0 then AList.map_default k (Some b, None) (\<lambda>c. (Some b, snd c)) u else u"
  have g: "dd_get d k = 0" using 1 x by (intro dd_get_notin) auto
  have "map_of ?u j = None" if "j \<in> fst ` set d" for j using 1 x that by (auto simp: map_of_map_default)
  moreover have "distinct (map fst ?u)" using 1 by (simp add: distinct_map_default)
  ultimately show ?case using Cons(1) [of ?u] 1 x g
    by (auto simp: dd_get_def map_of_map_default simp del: map_of_eq_Some_iff Some_eq_map_of_iff split: option.splits)
next
  case (Cons x d)
  case 2
  obtain k b where x: "x = (k, b)" by (cases x)
  let ?u = "if b \<noteq> 0 then AList.map_default k (Some b, None) (\<lambda>c. (Some b, snd c)) u else u"
  have "map_of ?u j = None" if "j \<in> fst ` set d" for j using 2 x that by (auto simp: map_of_map_default)
  moreover have "distinct (map fst ?u)" using 2 by (simp add: distinct_map_default)
  ultimately show ?case using Cons(2) [of ?u] 2 x by simp
qed (simp_all add: dd_get_def)

lemma locks_updates:
  assumes "distinct (map fst d)" and "distinct (map fst u)"
  shows "map_of (fold (\<lambda>(i, l) u. if l \<noteq> 0 then AList.map_default i (None, Some l) (\<lambda>c. (fst c, Some l)) u else u) d u) i
      = (if dd_get d i = 0 then map_of u i
         else Some (case map_of u i of None \<Rightarrow> None | Some c \<Rightarrow> fst c, Some (dd_get d i)))"
    and "distinct (map fst (fold (\<lambda>(i, l) u. if l \<noteq> 0 then AList.map_default i (None, Some l) (\<lambda>c. (fst c, Some l)) u else u) d u))"
  using assms
proof (induction d arbitrary: u)
  case (Cons x d)
  case 1
  obtain k b where x: "x = (k, b)" by (cases x)
  let ?u = "if b \<noteq> 0 then AList.map_default k (None, Some b) (\<lambda>c. (fst c, Some b)) u else u"
  have g: "dd_get d k = 0" using 1 x by (intro dd_get_notin) auto
  have "distinct (map fst ?u)" using 1 by (simp add: distinct_map_default)
  then show ?case using Cons(1) [of ?u] 1 x g
    by (auto simp: dd_get_def map_of_map_default simp del: map_of_eq_Some_iff Some_eq_map_of_iff split: option.splits)
next
  case (Cons x d)
  case 2
  obtain k b where x: "x = (k, b)" by (cases x)
  let ?u = "if b \<noteq> 0 then AList.map_default k (None, Some b) (\<lambda>c. (fst c, Some b)) u else u"
  have "distinct (map fst ?u)" using 2 by (simp add: distinct_map_default)
  then show ?case using Cons(2) [of ?u] 2 x by simp
qed (simp_all add: dd_get_def)

lemma dd_get_sort: "distinct (map fst d) \<Longrightarrow> dd_get (sorted_flatten_dict d) i = dd_get d i"
  by (simp add: dd_get_def map_of_sort)

lemma wallet_updates:
  assumes "distinct (map fst (wallet_balances p))" and "distinct (map fst (wallet_locks p))"
  shows "distinct (map fst (sorted_flatten_dict (build_wallet_updates p)))"
    and "map_of (sorted_flatten_dict (build_wallet_updates p)) i =
      (if dd_get (wallet_balances p) i = 0 \<and> dd_get (wallet_locks p) i = 0 then None
       else Some (nonzero (dd_get (wallet_balances p) i), nonzero (dd_get (wallet_locks p) i)))"
proof -
  note d = assms [THEN sorted_flatten_dict_distinct]
  note b1 = balances_updates(1) [OF d(1), of "[]", simplified]
  note b2 = balances_updates(2) [OF d(1), of "[]", simplified]
  have u: "distinct (map fst (build_wallet_updates p))"
    and m: "map_of (build_wallet_updates p) i =
      (if dd_get (wallet_balances p) i = 0 \<and> dd_get (wallet_locks p) i = 0 then None
       else Some (nonzero (dd_get (wallet_balances p) i), nonzero (dd_get (wallet_locks p) i)))"
    using b1 b2 locks_updates [OF d(2) b2]
    by (simp_all add: build_wallet_updates_def Let_def dd_get_sort assms nonzero_def)
  from u m show "distinct (map fst (sorted_flatten_dict (build_wallet_updates p)))"
    and "map_of (sorted_flatten_dict (build_wallet_updates p)) i =
      (if dd_get (wallet_balances p) i = 0 \<and> dd_get (wallet_locks p) i = 0 then None
       else Some (nonzero (dd_get (wallet_balances p) i), nonzero (dd_get (wallet_locks p) i)))"
    by (simp_all add: map_of_sort sorted_flatten_dict_distinct)
qed

lemma lock_updates:
  assumes "distinct (map fst (locks_amount p))"
  shows "distinct (map fst (build_lock_updates p))"
    and "map_of (build_lock_updates p) k = nonzero (dd_get (locks_amount p) k)"
proof -
  have "distinct (map fst d) \<Longrightarrow> map_of (filter (\<lambda>(k, x). x \<noteq> 0) d) k = nonzero (dd_get d k)" for d :: "nat ddict"
  proof (induction d)
    case (Cons x d)
    then have "map_of d (fst x) = None" by (simp add: map_of_eq_None_iff)
    with Cons show ?case by (cases x) (auto simp: dd_get_def nonzero_def split: option.splits if_splits)
  qed (simp add: nonzero_def)
  with assms show "map_of (build_lock_updates p) k = nonzero (dd_get (locks_amount p) k)"
    by (simp add: build_lock_updates_def sorted_flatten_dict_distinct dd_get_sort)
  show "distinct (map fst (build_lock_updates p))"
    using sorted_flatten_dict_distinct [OF assms]
    by (simp add: build_lock_updates_def distinct_map_filter)
qed

text \<open>The state all rows are in once the pipeline is executed.\<close>

definition posted :: "('z) ledger_scheme \<Rightarrow> pipeline \<Rightarrow> ('z) ledger_scheme" where
  "posted s p = s\<lparr>
     wallets := map (\<lambda>w. shift_wallet (dd_get (wallet_balances p) (w_id w)) (dd_get (wallet_locks p) (w_id w)) w) (wallets s),
     trxs := trxs s @ p_trxs p,
     locks := map (\<lambda>l. upd_lock (dd_get (locks_amount p) (lk_key l)) l) (locks s) @ p_locks p,
     equities := fold (\<lambda>(i, x). map (\<lambda>(j, e). (j, if j = i then e + x else e))) (positions p) (equities s)\<rparr>"

definition postable :: "('z) ledger_scheme \<Rightarrow> pipeline \<Rightarrow> bool" where
  "postable s p \<longleftrightarrow> rows_ok (posted s p) \<and>
     (\<forall>t\<in>set (p_trxs p). find_wallet s (sender t) \<noteq> None \<and> find_wallet s (receiver t) \<noteq> None) \<and>
     (\<forall>l\<in>set (p_locks p). find_wallet s (lk_wallet l) \<noteq> None)"

lemma posted_simps:
  "trxs (posted s p) = trxs s @ p_trxs p"
  "wallets (posted s p) = map (\<lambda>w. shift_wallet (dd_get (wallet_balances p) (w_id w)) (dd_get (wallet_locks p) (w_id w)) w) (wallets s)"
  "locks (posted s p) = map (\<lambda>l. upd_lock (dd_get (locks_amount p) (lk_key l)) l) (locks s) @ p_locks p"
  by (simp_all add: posted_def)

lemma find_map_key:
  "(\<And>x. key (f x) = key x) \<Longrightarrow> List.find (\<lambda>x. key x = k) (map f xs) = map_option f (List.find (\<lambda>x. key x = k) xs)"
  by (induction xs) auto

lemma shift_wallet_simps [simp]:
  "w_id (shift_wallet b l w) = w_id w" "w_asset (shift_wallet b l w) = w_asset w"
  "balance (shift_wallet b l w) = balance w + b" "locked (shift_wallet b l w) = locked w + l"
  "w_market (shift_wallet b l w) = w_market w" "check_balance (shift_wallet b l w) = check_balance w"
  "w_account (shift_wallet b l w) = w_account w" "variant (shift_wallet b l w) = variant w"
  "credit (shift_wallet b l w) = credit w"
  "shift_wallet 0 0 w = w"
  by (simp_all add: shift_wallet_def)

lemma find_wallet_posted:
  "find_wallet (posted s p) i =
     map_option (shift_wallet (dd_get (wallet_balances p) i) (dd_get (wallet_locks p) i)) (find_wallet s i)"
proof -
  have "List.find (\<lambda>w. w_id w = i) (map (\<lambda>w. shift_wallet (f (w_id w)) (g (w_id w)) w) ws)
     = map_option (shift_wallet (f i) (g i)) (List.find (\<lambda>w. w_id w = i) ws)" for f g ws
    by (induction ws) auto
  then show ?thesis by (simp add: find_wallet_def posted_def)
qed

lemma asset_of_posted [simp]: "asset_of (posted s p) i = asset_of s i"
  by (simp add: asset_of_def find_wallet_posted option.map_comp comp_def)

lemma bindE_if: "bindE (if c then Inr a else Inl e) f = (if c then f a else Inl e)"
  by simp

lemma if_conj: "(if a \<and> b then x else y) = (if a then if b then x else y else y)"
  by simp

lemma execute_eq:
  assumes ok: "rows_ok s" and inv: "pipe_inv s p"
  shows "execute s p = (if postable s p then Inr (posted s p) else Inl IntegrityError)"
proof -
  let ?ls = "map (\<lambda>l. upd_lock (dd_get (locks_amount p) (lk_key l)) l) (locks s)"
  let ?ws = "map (\<lambda>w. shift_wallet (dd_get (wallet_balances p) (w_id w)) (dd_get (wallet_locks p) (w_id w)) w) (wallets s)"
  let ?s = "s\<lparr>locks := ?ls, wallets := ?ws\<rparr>"
  from inv have d: "distinct (map fst (wallet_balances p))" "distinct (map fst (wallet_locks p))"
      "distinct (map fst (locks_amount p))"
    by (simp_all add: pipe_inv_def)
  have ls: "foldE (update_rows (\<lambda>l. 0 \<le> lk_amount l) lk_key upd_lock) (locks s) (build_lock_updates p) =
      (if \<forall>l\<in>set ?ls. 0 \<le> lk_amount l then Inr ?ls else Inl IntegrityError)"
  proof (subst foldE_update_rows [OF lock_updates(1) [OF d(3)]])
    have "(case map_of (build_lock_updates p) (lk_key l) of None \<Rightarrow> l | Some x \<Rightarrow> upd_lock x l)
        = upd_lock (dd_get (locks_amount p) (lk_key l)) l" for l
      by (simp add: lock_updates(2) [OF d(3)] nonzero_def upd_lock_def)
    moreover have "(\<forall>l\<in>set (locks s). \<forall>x. map_of (build_lock_updates p) (lk_key l) = Some x \<longrightarrow> 0 \<le> lk_amount (upd_lock x l))
        \<longleftrightarrow> (\<forall>l\<in>set ?ls. 0 \<le> lk_amount l)"
      using ok by (auto simp: lock_updates(2) [OF d(3)] nonzero_def rows_ok_def split: if_splits)
    ultimately show "(if \<forall>l\<in>set (locks s). \<forall>x. map_of (build_lock_updates p) (lk_key l) = Some x \<longrightarrow> 0 \<le> lk_amount (upd_lock x l)
       then Inr (map (\<lambda>r. case map_of (build_lock_updates p) (lk_key r) of None \<Rightarrow> r | Some u \<Rightarrow> upd_lock u r) (locks s))
       else Inl IntegrityError) = (if \<forall>l\<in>set ?ls. 0 \<le> lk_amount l then Inr ?ls else Inl IntegrityError)"
      by (simp only:)
  qed simp
  have ws: "foldE (update_rows row_valid w_id upd_wallet) (wallets s) (sorted_flatten_dict (build_wallet_updates p)) =
      (if \<forall>w\<in>set ?ws. row_valid w then Inr ?ws else Inl IntegrityError)"
  proof (subst foldE_update_rows [OF wallet_updates(1) [OF d(1,2)]])
    let ?m = "map_of (sorted_flatten_dict (build_wallet_updates p))"
    have "(case ?m (w_id w) of None \<Rightarrow> w | Some x \<Rightarrow> upd_wallet x w)
        = shift_wallet (dd_get (wallet_balances p) (w_id w)) (dd_get (wallet_locks p) (w_id w)) w" for w
      by (simp add: wallet_updates(2) [OF d(1,2)] upd_wallet_nonzero)
    moreover have "(\<forall>w\<in>set (wallets s). \<forall>x. ?m (w_id w) = Some x \<longrightarrow> row_valid (upd_wallet x w)) \<longleftrightarrow> (\<forall>w\<in>set ?ws. row_valid w)"
      using ok by (auto simp: wallet_updates(2) [OF d(1,2)] upd_wallet_nonzero rows_ok_def split: if_splits)
    ultimately show "(if \<forall>w\<in>set (wallets s). \<forall>x. ?m (w_id w) = Some x \<longrightarrow> row_valid (upd_wallet x w)
       then Inr (map (\<lambda>r. case ?m (w_id r) of None \<Rightarrow> r | Some u \<Rightarrow> upd_wallet u r) (wallets s))
       else Inl IntegrityError) = (if \<forall>w\<in>set ?ws. row_valid w then Inr ?ws else Inl IntegrityError)"
      by (simp only:)
  qed simp
  have f: "find_wallet ?s i = None \<longleftrightarrow> find_wallet s i = None" for i
    using find_wallet_posted [of s p i] by (simp add: posted_def find_wallet_def)
  have keys: "map w_id ?ws = map w_id (wallets s)" "map lk_key (?ls @ p_locks p) = map lk_key (locks s @ p_locks p)"
    by (simp_all add: comp_def)
  have f2: "find_wallet (?s\<lparr>trxs := x\<rparr>) i = find_wallet ?s i" for x i by (simp add: find_wallet_def)
  have t: "(if p_trxs p \<noteq> [] then bulk_create_trxs ?s (p_trxs p) else Inr ?s) =
      (if (\<forall>t\<in>set (p_trxs p). 0 < trx_amount t \<and> find_wallet s (sender t) \<noteq> None \<and> find_wallet s (receiver t) \<noteq> None)
          \<and> distinct (map trx_key (trxs s @ p_trxs p))
       then Inr (?s\<lparr>trxs := trxs s @ p_trxs p\<rparr>) else Inl IntegrityError)"
    using ok by (auto simp: bulk_create_trxs_def f rows_ok_def guardE_def)
  have l: "(if p_locks p \<noteq> [] then bulk_create_locks (?s\<lparr>trxs := x\<rparr>) (p_locks p) else Inr (?s\<lparr>trxs := x\<rparr>)) =
      (if (\<forall>l\<in>set (p_locks p). 0 \<le> lk_amount l \<and> find_wallet s (lk_wallet l) \<noteq> None)
          \<and> distinct (map lk_key (locks s @ p_locks p))
       then Inr (?s\<lparr>trxs := x, locks := ?ls @ p_locks p\<rparr>) else Inl IntegrityError)" for x
    using ok by (auto simp: bulk_create_locks_def f f2 rows_ok_def guardE_def comp_def)
  have P: "postable s p \<longleftrightarrow> (\<forall>l\<in>set ?ls. 0 \<le> lk_amount l) \<and> (\<forall>w\<in>set ?ws. row_valid w) \<and>
      ((\<forall>t\<in>set (p_trxs p). 0 < trx_amount t \<and> find_wallet s (sender t) \<noteq> None \<and> find_wallet s (receiver t) \<noteq> None)
          \<and> distinct (map trx_key (trxs s @ p_trxs p))) \<and>
      ((\<forall>l\<in>set (p_locks p). 0 \<le> lk_amount l \<and> find_wallet s (lk_wallet l) \<noteq> None)
          \<and> distinct (map lk_key (locks s @ p_locks p)))"
    using ok by (auto simp: postable_def posted_def rows_ok_def comp_def ball_Un)
  have XY: "(?s\<lparr>trxs := trxs s @ p_trxs p, locks := ?ls @ p_locks p\<rparr>)\<lparr>equities :=
      fold (\<lambda>(i, x). map (\<lambda>(j, e). (j, if j = i then e + x else e))) (positions p)
        (equities (?s\<lparr>trxs := trxs s @ p_trxs p, locks := ?ls @ p_locks p\<rparr>))\<rparr> = posted s p"
    by (simp add: posted_def)
  show ?thesis
    unfolding execute_def ls ws bindE_if Let_def t
    unfolding bindE_if l
    unfolding bindE_if XY P if_conj by (rule refl)
qed

section \<open>A block keeps the ledger\<close>

lemma trx_flow_eq: "lock_sum i (map f ls) = sum_of (\<lambda>l. if lk_wallet (f l) = i then lk_amount (f l) else 0) ls"
  by (simp add: lock_sum_def sum_of_map)

text \<open>The releases by key, added up per wallet, are the releases of the wallet's locks.\<close>

lemma releases_by_wallet:
  assumes "distinct (map fst d)" and "distinct (map lk_key (locks s))"
    and "\<forall>k\<in>fst ` set d. find_lock s k \<noteq> None"
  shows "sum_of (\<lambda>l. if lk_wallet l = i then dd_get d (lk_key l) else 0) (locks s)
     = sum_of (\<lambda>x. if lock_wallet s (fst x) = Some i then snd x else 0) d"
  using assms(1,3)
proof (induction d)
  case Nil
  show ?case by (simp cong: if_cong)
next
  case (Cons z d)
  obtain k x where z: "z = (k, x)" by (cases z)
  then obtain m where m: "find_lock s k = Some m" using Cons.prems(2) by auto
  then have mm: "m \<in> set (locks s)" "lk_key m = k"
    by (auto simp: find_lock_def dest: find_SomeD)
  have k: "map_of d k = None" using Cons.prems(1) z by (simp add: map_of_eq_None_iff)
  have "sum_of (\<lambda>l. if lk_wallet l = i then dd_get (z # d) (lk_key l) else 0) (locks s)
     = sum_of (\<lambda>l. (if lk_key l = lk_key m then if lk_wallet l = i then x else 0 else 0)
                 + (if lk_wallet l = i then dd_get d (lk_key l) else 0)) (locks s)"
    by (rule sum_of_cong) (use k z mm in \<open>auto simp: dd_get_def\<close>)
  also have "\<dots> = (if lk_wallet m = i then x else 0)
      + sum_of (\<lambda>l. if lk_wallet l = i then dd_get d (lk_key l) else 0) (locks s)"
    by (simp add: sum_of_add sum_of_single [OF assms(2) mm(1), where f = "\<lambda>l. if lk_wallet l = i then x else 0"])
  also have "sum_of (\<lambda>l. if lk_wallet l = i then dd_get d (lk_key l) else 0) (locks s)
      = sum_of (\<lambda>x. if lock_wallet s (fst x) = Some i then snd x else 0) d"
    using Cons by simp
  finally show ?case using z m by (simp add: lock_wallet_def)
qed

lemma posted_ledger_ok:
  assumes ok: "ledger_ok s" and inv: "pipe_inv s p" and post: "postable s p"
  shows "ledger_ok (posted s p)"
proof -
  let ?s = "posted s p"
  from post have rows: "rows_ok ?s" by (simp add: postable_def)
  have "refs_ok s (trxs s @ p_trxs p)" using inv ok by (simp add: pipe_inv_def ledger_ok_def refs_ok_append)
  then have refs: "refs_ok ?s (trxs ?s)"
    by (simp only: refs_ok_def asset_of_posted posted_simps)
  have audit: "audited ?s"
    unfolding audited_def
  proof
    fix w assume "w \<in> set (wallets ?s)"
    then obtain v where v: "v \<in> set (wallets s)"
      "w = shift_wallet (dd_get (wallet_balances p) (w_id v)) (dd_get (wallet_locks p) (w_id v)) v"
      by (auto simp: posted_def)
    have "lock_sum (w_id v) (locks ?s) = lock_sum (w_id v) (locks s)
        + sum_of (\<lambda>l. if lk_wallet l = w_id v then dd_get (locks_amount p) (lk_key l) else 0) (locks s)
        + lock_sum (w_id v) (p_locks p)"
      by (simp add: posted_def trx_flow_eq sum_of_add [symmetric] lock_sum_def [of _ "locks s"])
        (rule sum_of_cong, simp)
    also have "\<dots> = lock_sum (w_id v) (locks s) + dd_get (wallet_locks p) (w_id v)"
      using inv ok releases_by_wallet [of "locks_amount p" s "w_id v"]
      by (simp add: pipe_inv_def ledger_ok_def rows_ok_def)
    finally have "lock_sum (w_id v) (locks ?s) = lock_sum (w_id v) (locks s) + dd_get (wallet_locks p) (w_id v)" .
    moreover have "trx_flow (w_id v) (trxs ?s) = trx_flow (w_id v) (trxs s) + dd_get (wallet_balances p) (w_id v)"
      using inv by (simp add: posted_def pipe_inv_def)
    moreover have "balance v = trx_flow (w_id v) (trxs s)" "locked v = lock_sum (w_id v) (locks s)"
      using ok v(1) by (simp_all add: ledger_ok_def audited_def)
    ultimately show "balance w = trx_flow (w_id w) (trxs ?s) \<and> locked w = lock_sum (w_id w) (locks ?s)"
      by (simp add: v(2))
  qed
  have "\<forall>l\<in>set (locks ?s). find_wallet ?s (lk_wallet l) \<noteq> None"
    using ok post by (auto simp: find_wallet_posted ledger_ok_def postable_def posted_simps)
  moreover have "trx_grid (trxs ?s)" "lock_grid (locks ?s)"
    using ok inv by (auto simp: trx_grid_def lock_grid_def posted_simps ledger_ok_def pipe_inv_def intro!: on_grid_add)
  ultimately show ?thesis using rows refs audit by (simp add: ledger_ok_def)
qed

lemma execute_ok:
  assumes "execute s p = Inr s'" and "block_ok s p"
  shows "ledger_ok s'" and "s' = posted s p" and "postable s p"
proof -
  from assms(2) have "ledger_ok s" "pipe_inv s p" "rows_ok s" by (auto simp: block_ok_def ledger_ok_def)
  with assms(1) execute_eq [of s p] have "postable s p \<and> s' = posted s p" by (auto split: if_splits)
  with \<open>ledger_ok s\<close> \<open>pipe_inv s p\<close> show "ledger_ok s'" "s' = posted s p" "postable s p"
    using posted_ledger_ok by auto
qed

text \<open>Fetching a wallet inside a block.\<close>

lemma find_wallet_None: "find_wallet s i = None \<longleftrightarrow> i \<notin> w_id ` set (wallets s)"
  by (auto simp: find_wallet_def find_None_iff')

lemma find_wallet_append:
  "w_id w \<notin> set (map w_id (wallets s)) \<Longrightarrow>
     find_wallet (s\<lparr>wallets := wallets s @ [w]\<rparr>) i = (if i = w_id w then Some w else find_wallet s i)"
proof -
  assume "w_id w \<notin> set (map w_id (wallets s))"
  then have "List.find (\<lambda>v. w_id v = w_id w) (wallets s) = None"
    unfolding find_None_iff' by (metis image_eqI image_set)
  then show ?thesis by (cases "i = w_id w") (auto simp: find_wallet_def find_append split: option.splits)
qed

lemma refs_ok_mono:
  assumes "refs_ok s ts" and "\<And>i a. asset_of s i = Some a \<Longrightarrow> asset_of s' i = Some a"
  shows "refs_ok s' ts"
  unfolding refs_ok_def
proof
  fix t assume "t \<in> set ts"
  with assms(1) obtain a where "sender t \<noteq> receiver t" "asset_of s (sender t) = Some a" "asset_of s (receiver t) = Some a"
    by (fastforce simp: refs_ok_def)
  with assms(2) show "sender t \<noteq> receiver t \<and> asset_of s' (sender t) = asset_of s' (receiver t) \<and> asset_of s' (sender t) \<noteq> None"
    by simp
qed

lemma trx_flow_absent:
  "(\<And>t. t \<in> set ts \<Longrightarrow> sender t \<noteq> i \<and> receiver t \<noteq> i) \<Longrightarrow> trx_flow i ts = 0"
  by (induction ts) auto

lemma lock_sum_absent: "(\<And>l. l \<in> set ls \<Longrightarrow> lk_wallet l \<noteq> i) \<Longrightarrow> lock_sum i ls = 0"
  by (induction ls) auto

lemma get_or_create_wallet_inv [block_intros]:
  assumes "get_or_create_wallet s asset account check market v e = (w, s')" and "block_ok s p"
  shows "block_ok s' p" and "known s' w" and "known s u \<Longrightarrow> known s' u"
proof -
  have d: "distinct (map w_id (wallets s))" using assms(2) by (simp add: block_ok_def ledger_ok_def rows_ok_def)
  have "block_ok s' p \<and> known s' w \<and> (known s u \<longrightarrow> known s' u)"
    using assms(1)
  proof (cases rule: get_or_create_wallet_cases)
    case 1
    with assms(2) d find_wallet_mem [OF d, of w] show ?thesis by (simp add: known_def asset_of_def)
  next
    case 2
    note fw = find_wallet_append [OF 2(2), folded 2(1)]
    have none: "find_wallet s (w_id w) = None"
      using 2(2) find_wallet_None [of s] by simp
    have as: "asset_of s' i = Some a" if "asset_of s i = Some a" for i a
      using that none by (cases "i = w_id w") (simp_all add: asset_of_def fw)
    have fl: "find_lock s' k = find_lock s k" for k by (simp add: 2(1) find_lock_def)
    have ex: "find_wallet s i \<noteq> None \<Longrightarrow> find_wallet s' i \<noteq> None" for i by (simp add: fw)
    have o: "rows_ok s" "refs_ok s (trxs s)" "audited s" "\<forall>l\<in>set (locks s). find_wallet s (lk_wallet l) \<noteq> None"
      and g: "trx_grid (trxs s)" "lock_grid (locks s)"
      and i: "pipe_inv s p" using assms(2) unfolding block_ok_def ledger_ok_def by blast+
    have "trx_flow (w_id w) (trxs s) = 0"
    proof (rule trx_flow_absent)
      fix t assume "t \<in> set (trxs s)"
      with o(2) have "asset_of s (sender t) \<noteq> None" "asset_of s (receiver t) \<noteq> None"
        by (rule refs_okD)+
      with none show "sender t \<noteq> w_id w \<and> receiver t \<noteq> w_id w" by (auto simp: asset_of_def)
    qed
    moreover have "lock_sum (w_id w) (locks s) = 0"
      by (rule lock_sum_absent) (use o(4) none in metis)
    ultimately have new: "trx_flow (w_id w) (trxs s) = 0" "lock_sum (w_id w) (locks s) = 0" .
    have "row_valid w"
      using 2 by (simp add: row_valid_def valid_balance_constraint_def valid_locked_constraint_def) (cases market; cases v; simp)
    have rows: "wallets s' = wallets s @ [w]" "trxs s' = trxs s" "locks s' = locks s" by (simp_all add: 2(1))
    have "rows_ok s'" using o(1) 2(2) \<open>row_valid w\<close> by (simp add: rows_ok_def rows)
    moreover have "refs_ok s' (trxs s')" unfolding rows by (rule refs_ok_mono [OF o(2) as])
    moreover have "audited s'" using o(3) new 2(8,9) by (simp add: audited_def rows)
    moreover have "\<forall>l\<in>set (locks s'). find_wallet s' (lk_wallet l) \<noteq> None"
      unfolding rows using o(4) ex by blast
    ultimately have "ledger_ok s'" using g by (simp add: ledger_ok_def rows)
    moreover have "refs_ok s' (p_trxs p)" using i by (intro refs_ok_mono [OF _ as]) (simp_all add: pipe_inv_def)
    moreover have "\<forall>l\<in>set (p_locks p). find_wallet s' (lk_wallet l) \<noteq> None"
    proof
      fix l assume "l \<in> set (p_locks p)"
      with i have "find_wallet s (lk_wallet l) \<noteq> None" by (simp add: pipe_inv_def)
      then show "find_wallet s' (lk_wallet l) \<noteq> None" by (rule ex)
    qed
    ultimately have "block_ok s' p" using i by (simp add: block_ok_def pipe_inv_def lock_wallet_def fl)
    then show ?thesis using as by (simp add: known_def) (simp add: asset_of_def fw)
  qed
  then show "block_ok s' p" "known s' w" "known s u \<Longrightarrow> known s' u" by auto
qed

lemma get_wallet_inv [block_intros]:
  assumes "get_wallet s asset account market v e = (w, s')" and "block_ok s p"
  shows "block_ok s' p" and "known s' w" and "known s u \<Longrightarrow> known s' u"
  using get_or_create_wallet_inv [OF assms(1) [unfolded get_wallet_def] assms(2)] by blast+

lemma get_wallet_by_id_inv [block_intros]:
  assumes "get_wallet_by_id cfg s asset i market v = Inr (w, s')" and "block_ok s p"
  shows "block_ok s' p" and "known s' w" and "known s u \<Longrightarrow> known s' u"
proof -
  from assms(1) obtain a where
    "get_or_create_wallet s asset a (i \<notin> set (settings_accounts cfg)) market v None = (w, s')"
    by (auto simp: get_wallet_by_id_def result_simps)
  from get_or_create_wallet_inv [OF this assms(2)]
  show "block_ok s' p" and "known s' w" and "known s u \<Longrightarrow> known s' u" by blast+
qed

lemma known_row: "block_ok s p \<Longrightarrow> w \<in> set (wallets s) \<Longrightarrow> known s w"
  by (simp add: block_ok_def ledger_ok_def rows_ok_def known_def asset_of_def find_wallet_mem)

lemma known_found: "find_wallet s i = Some w \<Longrightarrow> known s w"
  using find_wallet_Some [of s i w] by (simp add: known_def asset_of_def)

text \<open>
  The contract of a block: its body, started on an audited ledger, keeps the pipeline's
  meaning. Then leaving the block keeps the ledger audited, which in turn conserves every
  asset. \<open>pre\<close> is what the body asks of its start.
\<close>

locale ledger_block =
  fixes pre :: "('z) ledger_scheme \<Rightarrow> bool"
    and body :: "('z) ledger_scheme \<Rightarrow> pipeline \<Rightarrow> ('a \<times> ('z) ledger_scheme \<times> pipeline) result"
  assumes keeps: "\<And>s p a s' p'. pre s \<Longrightarrow> block_ok s p \<Longrightarrow> body s p = Inr (a, s', p') \<Longrightarrow> block_ok s' p'"
begin

lemma run_ok:
  assumes "with_pipeline body s = Inr (a, s')" and "ledger_ok s" and "pre s"
  shows "ledger_ok s'"
proof -
  from assms(1) obtain t p where b: "body s new_pipeline = Inr (a, t, p)" and e: "execute t p = Inr s'"
    by (auto simp: with_pipeline_def result_simps)
  have "block_ok s new_pipeline" using assms(2) new_pipeline_inv by (simp add: block_ok_def)
  with b assms(3) have "block_ok t p" using keeps by blast
  with e show ?thesis by (rule execute_ok)
qed

lemma run_conserves:
  assumes "with_pipeline body s = Inr (a, s')" and "ledger_ok s" and "pre s"
  shows "total_of s' asset = total_of s asset"
  using total_of_zero [OF run_ok [OF assms]] total_of_zero [OF assms(2)] by simp

lemma run_rows:
  assumes "with_pipeline body s = Inr (a, s')" and "ledger_ok s" and "pre s" and "w \<in> set (wallets s')"
  shows "row_valid w" and "balance w = trx_flow (w_id w) (trxs s')" and "locked w = lock_sum (w_id w) (locks s')"
  using run_ok [OF assms(1-3)] assms(4) by (auto simp: ledger_ok_def rows_ok_def audited_def)

end

text \<open>A checked wallet of a market without debt cannot be overdrawn.\<close>

lemma row_valid_free:
  "row_valid w \<Longrightarrow> check_balance w \<Longrightarrow> w_market w \<in> {SPOT, STAKE, VOUCHER} \<Longrightarrow> - credit w \<le> get_free w"
  by (auto simp: row_valid_def valid_balance_constraint_def get_free_def)

section \<open>Balance at the end of a block\<close>

lemma execute_wallet:
  assumes "execute s p = Inr s'" and "block_ok s p"
  shows "find_wallet s' i =
    map_option (shift_wallet (trx_flow i (p_trxs p)) (dd_get (wallet_locks p) i)) (find_wallet s i)"
proof -
  from execute_ok [OF assms] have "s' = posted s p" by blast
  with assms(2) show ?thesis
    by (simp add: find_wallet_posted block_ok_def pipe_inv_def)
qed

section \<open>Other tables do not matter\<close>

lemma base_cong:
  assumes "wallets s' = wallets s" and "trxs s' = trxs s" and "locks s' = locks s"
  shows "ledger_ok s' = ledger_ok s" and "pipe_inv s' p = pipe_inv s p" and "block_ok s' p = block_ok s p"
    and "known s' w = known s w" and "find_wallet s' = find_wallet s" and "total_of s' = total_of s"
proof -
  show fw: "find_wallet s' = find_wallet s" by (rule ext) (simp add: find_wallet_def assms)
  have fl: "find_lock s' = find_lock s" by (rule ext) (simp add: find_lock_def assms)
  have ao: "asset_of s' = asset_of s" by (rule ext) (simp add: asset_of_def fw)
  show lo: "ledger_ok s' = ledger_ok s"
    by (simp add: ledger_ok_def rows_ok_def refs_ok_def audited_def assms fw ao)
  show pi: "pipe_inv s' p = pipe_inv s p"
    by (simp add: pipe_inv_def refs_ok_def lock_wallet_def fw fl ao)
  show "block_ok s' p = block_ok s p" by (simp add: block_ok_def lo pi)
  show "known s' w = known s w" by (simp add: known_def ao)
  show "total_of s' = total_of s" by (rule ext) (simp add: total_of_def assms)
qed

definition same_ledger :: "('z) ledger_scheme \<Rightarrow> ('z) ledger_scheme \<Rightarrow> bool" where
  "same_ledger s s' \<longleftrightarrow> wallets s' = wallets s \<and> trxs s' = trxs s \<and> locks s' = locks s"

lemma same_ledger_refl [simp]: "same_ledger s s"
  by (simp add: same_ledger_def)

lemma same_ledger_trans: "same_ledger s t \<Longrightarrow> same_ledger t u \<Longrightarrow> same_ledger s u"
  by (simp add: same_ledger_def)

lemma same_ledger_block:
  assumes "same_ledger s s'"
  shows "block_ok s' p = block_ok s p" and "known s' w = known s w" and "ledger_ok s' = ledger_ok s"
  using assms base_cong [of s' s] by (simp_all add: same_ledger_def)

section \<open>A block of one transaction\<close>

definition transfer_body ::
  "wallet \<Rightarrow> wallet \<Rightarrow> decimal \<Rightarrow> scope \<Rightarrow> nat \<Rightarrow> ('z) ledger_scheme \<Rightarrow> pipeline
     \<Rightarrow> (unit \<times> ('z) ledger_scheme \<times> pipeline) result" where
  "transfer_body a b amount sc gid s p = bindE (post p a b amount sc gid) (\<lambda>p. Inr ((), s, p))"

definition moved :: "wallet \<Rightarrow> wallet \<Rightarrow> decimal \<Rightarrow> scope \<Rightarrow> nat \<Rightarrow> ('z) ledger_scheme \<Rightarrow> ('z) ledger_scheme" where
  "moved a b y sc gid s = s\<lparr>
     wallets := map (\<lambda>w. if w_id w = w_id a then shift_wallet (- y) 0 w
                         else if w_id w = w_id b then shift_wallet y 0 w else w) (wallets s),
     trxs := trxs s @ [\<lparr>sender = w_id a, receiver = w_id b, trx_amount = y, group_id = gid, trx_scope = sc\<rparr>]\<rparr>"

interpretation transfer_block: ledger_block "\<lambda>s. known s a \<and> known s b" "transfer_body a b amount sc gid"
  for a b amount sc gid
proof
  fix s :: "('z) ledger_scheme" and p x s' p'
  assume "known s a \<and> known s b" "block_ok s p" "transfer_body a b amount sc gid s p = Inr (x, s', p')"
  then show "block_ok s' p'" by (auto simp: transfer_body_def result_simps intro: post_inv)
qed

lemma transfer_block_result:
  assumes ok: "ledger_ok s" and a: "find_wallet s (w_id a) = Some a" and b: "find_wallet s (w_id b) = Some b"
    and as: "w_asset a = w_asset b" and ne: "w_id a \<noteq> w_id b"
    and sys: "\<not> (is_system (w_account a) \<and> is_system (w_account b))"
    and y: "y = floor_precision amount 8" "0 < y"
    and fresh: "\<forall>t\<in>set (trxs s). group_id t \<noteq> gid"
  shows "with_pipeline (transfer_body a b amount sc gid) s =
    (if row_valid (shift_wallet (- y) 0 a) \<and> row_valid (shift_wallet y 0 b)
     then Inr ((), moved a b y sc gid s) else Inl IntegrityError)"
proof -
  let ?t = "\<lparr>sender = w_id a, receiver = w_id b, trx_amount = y, group_id = gid, trx_scope = sc\<rparr>"
  let ?p = "new_pipeline\<lparr>p_trxs := [?t], wallet_balances := dd_add (dd_add [] (w_id a) (- y)) (w_id b) y\<rparr>"
  have post: "post new_pipeline a b amount sc gid = Inr ?p"
    using as ne sys y by (simp add: post_def new_trx_def new_pipeline_def add_trx_def Let_def)
  have "block_ok s new_pipeline" using ok new_pipeline_inv by (simp add: block_ok_def)
  with post have bo: "block_ok s ?p" by (rule post_inv) (use a b known_found in blast)+
  then have ro: "rows_ok s" and pi: "pipe_inv s ?p" by (simp_all add: block_ok_def ledger_ok_def)
  have dd: "dd_get (wallet_balances ?p) i = (if i = w_id a then - y else if i = w_id b then y else 0)"
    "dd_get (wallet_locks ?p) i = 0" "dd_get (locks_amount ?p) i = 0" for i
    using ne by (simp_all add: new_pipeline_def)
  have post_eq: "posted s ?p = moved a b y sc gid s"
  proof -
    have m: "map (\<lambda>w. shift_wallet (dd_get (wallet_balances ?p) (w_id w)) (dd_get (wallet_locks ?p) (w_id w)) w) (wallets s)
        = wallets (moved a b y sc gid s)"
      unfolding dd moved_def using ne by (auto intro!: map_cong)
    have l: "map (\<lambda>l. upd_lock (dd_get (locks_amount ?p) (lk_key l)) l) (locks s) = locks s"
      unfolding dd by (simp add: upd_lock_def)
    show ?thesis unfolding posted_def m l by (simp add: moved_def new_pipeline_def)
  qed
  have w: "(\<forall>w\<in>set (wallets (moved a b y sc gid s)). row_valid w) \<longleftrightarrow>
      row_valid (shift_wallet (- y) 0 a) \<and> row_valid (shift_wallet y 0 b)"
  proof -
    have ua: "w = a" if "w \<in> set (wallets s)" "w_id w = w_id a" for w
      using find_wallet_mem [of s w] that a ro by (simp add: rows_ok_def)
    have ub: "w = b" if "w \<in> set (wallets s)" "w_id w = w_id b" for w
      using find_wallet_mem [of s w] that b ro by (simp add: rows_ok_def)
    have ab: "a \<in> set (wallets s)" "b \<in> set (wallets s)" using a b find_wallet_Some by blast+
    have v: "\<forall>w\<in>set (wallets s). row_valid w" using ro by (simp add: rows_ok_def)
    let ?f = "\<lambda>w. if w_id w = w_id a then shift_wallet (- y) 0 w else if w_id w = w_id b then shift_wallet y 0 w else w"
    have "(\<forall>w\<in>set (wallets s). row_valid (?f w)) \<longleftrightarrow> row_valid (shift_wallet (- y) 0 a) \<and> row_valid (shift_wallet y 0 b)"
    proof (intro iffI conjI ballI)
      assume h: "\<forall>w\<in>set (wallets s). row_valid (?f w)"
      from bspec [OF h ab(1)] bspec [OF h ab(2)] ne
      show "row_valid (shift_wallet (- y) 0 a)" "row_valid (shift_wallet y 0 b)" by simp_all
    next
      fix w assume h: "row_valid (shift_wallet (- y) 0 a) \<and> row_valid (shift_wallet y 0 b)" and w: "w \<in> set (wallets s)"
      show "row_valid (?f w)"
      proof (cases "w_id w = w_id a \<or> w_id w = w_id b")
        case True
        then have "w = a \<or> w = b" using ua [OF w] ub [OF w] by blast
        with h ne show ?thesis by auto
      next
        case False
        with bspec [OF v w] show ?thesis by simp
      qed
    qed
    moreover have "wallets (moved a b y sc gid s) = map ?f (wallets s)" by (simp add: moved_def)
    ultimately show ?thesis by (simp only: set_map ball_simps)
  qed
  have "postable s ?p \<longleftrightarrow> row_valid (shift_wallet (- y) 0 a) \<and> row_valid (shift_wallet y 0 b)"
  proof -
    have "rows_ok (moved a b y sc gid s) \<longleftrightarrow> (\<forall>w\<in>set (wallets (moved a b y sc gid s)). row_valid w)"
    proof -
      have ids: "map w_id (wallets (moved a b y sc gid s)) = map w_id (wallets s)" by (simp add: moved_def)
      have keys: "distinct (map trx_key (trxs (moved a b y sc gid s)))" "\<forall>t\<in>set (trxs (moved a b y sc gid s)). 0 < trx_amount t"
        using ro y(2) fresh by (auto simp: rows_ok_def moved_def trx_key_def)
      have "locks (moved a b y sc gid s) = locks s" by (simp add: moved_def)
      with ids keys ro show ?thesis by (simp add: rows_ok_def)
    qed
    then show ?thesis unfolding postable_def post_eq w using a b
      by (simp add: new_pipeline_def)
  qed
  with execute_eq [OF ro pi] post_eq show ?thesis
    by (simp add: with_pipeline_def transfer_body_def post)
qed

end
