(* ===== verification/Fees.thy ===== *)
theory Fees
  imports Pipeline
begin

text \<open>
  What a trade costs: the pair (\<^verbatim>\<open>market/models/pair_symbol.py\<close>), the fields every trade has
  (\<^verbatim>\<open>market/models/base_trade.py\<close>), the fee of a trade and its split between the exchange and
  the referrer (\<^verbatim>\<open>get_fee_info\<close>, \<^verbatim>\<open>register_fee_transactions\<close> of \<^verbatim>\<open>market/utils/trade.py\<close>) and
  the revenue record of the accounting (\<^verbatim>\<open>accounting/models/revenue.py\<close>).
\<close>

section \<open>Pairs and trades\<close>

datatype side = BUY | SELL

definition get_opposite_side :: "side \<Rightarrow> side" where
  "get_opposite_side s = (if s = BUY then SELL else BUY)"

definition DEFAULT_MAKER_FEE :: decimal where "DEFAULT_MAKER_FEE = 0"
definition DEFAULT_TAKER_FEE :: decimal where "DEFAULT_TAKER_FEE = 2 / 1000"

record pair_symbol =
  sy_name :: string
  sy_asset :: string
  sy_base :: string
  sy_maker_fee :: "decimal option"
  sy_taker_fee :: "decimal option"
  tick_size :: nat
  step_size :: nat
  min_trade_quantity :: decimal
  max_trade_quantity :: decimal
  sy_enable :: bool
  margin_enable :: bool
  last_trade_time :: "int option"
  last_trade_price :: "decimal option"

record base_trade =
  bt_side :: side
  bt_amount :: decimal
  bt_price :: decimal
  is_maker :: bool
  bt_symbol :: pair_symbol
  bt_account :: account
  bt_market :: wallet_market
  base_irt_price :: decimal
  base_usdt_price :: decimal
  fee_amount :: decimal
  fee_usdt_value :: decimal
  fee_revenue :: decimal

definition irt_value :: "('b) base_trade_scheme \<Rightarrow> decimal" where
  "irt_value t = bt_amount t * bt_price t * base_irt_price t"

definition usdt_value :: "('b) base_trade_scheme \<Rightarrow> decimal" where
  "usdt_value t = bt_amount t * bt_price t * base_usdt_price t"

definition get_paying_amount :: "('b) base_trade_scheme \<Rightarrow> decimal" where
  "get_paying_amount t = (if bt_side t = BUY then bt_amount t * bt_price t else bt_amount t)"

definition get_receiving_amount :: "('b) base_trade_scheme \<Rightarrow> decimal" where
  "get_receiving_amount t = (if bt_side t = SELL then bt_amount t * bt_price t else bt_amount t)"

definition get_net_receiving_amount :: "('b) base_trade_scheme \<Rightarrow> decimal" where
  "get_net_receiving_amount t = get_receiving_amount t - fee_amount t"

definition get_net_receiving_value :: "('b) base_trade_scheme \<Rightarrow> decimal" where
  "get_net_receiving_value t = usdt_value t - fee_usdt_value t"

section \<open>The fee\<close>

definition get_voucher_wallet :: "('z) ledger_scheme \<Rightarrow> int \<Rightarrow> account \<Rightarrow> wallet option" where
  "get_voucher_wallet s now a =
     List.find (\<lambda>w. acc_id (w_account w) = acc_id a \<and> w_asset w = ''USDT'' \<and> w_market w = VOUCHER
                  \<and> (case expiration w of Some e \<Rightarrow> now \<le> e | None \<Rightarrow> False) \<and> 0 < balance w) (wallets s)"

fun first_given :: "decimal option list \<Rightarrow> decimal" where
  "first_given [] = 0"
| "first_given (None # fs) = first_given fs"
| "first_given (Some f # fs) = f"

definition get_fee_rate :: "('z) ledger_scheme \<Rightarrow> int \<Rightarrow> pair_symbol \<Rightarrow> account \<Rightarrow> bool \<Rightarrow> decimal" where
  "get_fee_rate s now pair a maker =
     (if is_system a then 0
      else let fees = (if maker then [custom_maker_fee a, sy_maker_fee pair, Some DEFAULT_MAKER_FEE]
                       else [custom_taker_fee a, sy_taker_fee pair, Some DEFAULT_TAKER_FEE])
           in if hd fees = None \<and> get_voucher_wallet s now a \<noteq> None then 0 else first_given fees)"

definition REFERRAL_MAX_RETURN_PERCENT :: decimal where "REFERRAL_MAX_RETURN_PERCENT = 30"

record fee_info =
  trader_fee_amount :: decimal
  trader_fee_value :: decimal
  referrer_reward_irt :: decimal
  fi_revenue :: decimal

definition no_fee :: fee_info where
  "no_fee = \<lparr>trader_fee_amount = 0, trader_fee_value = 0, referrer_reward_irt = 0, fi_revenue = 0\<rparr>"

definition get_fee_info :: "('z) ledger_scheme \<Rightarrow> int \<Rightarrow> ('b) base_trade_scheme \<Rightarrow> fee_info" where
  "get_fee_info s now trade =
     (let fee_rate = get_fee_rate s now (bt_symbol trade) (bt_account trade) (is_maker trade) in
      if fee_rate = 0 then no_fee
      else
        (let base_amount = bt_amount trade * bt_price trade;
             (trader_fee_rate, referrer_reward, system_fee_rate) =
               (case referred_by (bt_account trade) of
                  None \<Rightarrow> (fee_rate, 0, fee_rate)
                | Some referrer \<Rightarrow>
                    (let referrer_share_percent = min (max (owner_share_percent referrer) 0) 30;
                         trader_share_percent = REFERRAL_MAX_RETURN_PERCENT - referrer_share_percent
                     in (fee_rate * (1 - trader_share_percent / 100),
                         base_amount * fee_rate * referrer_share_percent / 100,
                         fee_rate * (1 - REFERRAL_MAX_RETURN_PERCENT / 100))))
         in \<lparr>trader_fee_amount = trader_fee_rate * (if bt_side trade = BUY then bt_amount trade else base_amount),
             trader_fee_value = trader_fee_rate * base_amount * base_usdt_price trade,
             referrer_reward_irt = referrer_reward * base_irt_price trade,
             fi_revenue = system_fee_rate * base_amount * base_usdt_price trade\<rparr>))"

record referral_trx =
  rt_trader :: nat
  rt_referral :: referral
  rt_group_id :: nat
  trader_amount :: decimal
  referrer_amount :: decimal

record fee_db = ledger +
  referral_trxs :: "referral_trx list"

text \<open>
  A position of the trade takes the margin branch (\<^verbatim>\<open>position.create_history\<close>), which is
  not modelled; \<open>in_position\<close> says whether the trade has one.
\<close>

definition register_fee_transactions ::
  "settings \<Rightarrow> int \<Rightarrow> bool \<Rightarrow> ('b) base_trade_scheme \<Rightarrow> wallet \<Rightarrow> wallet \<Rightarrow> nat
     \<Rightarrow> ('z) fee_db_scheme \<Rightarrow> pipeline \<Rightarrow> (fee_info \<times> ('z) fee_db_scheme \<times> pipeline) result" where
  "register_fee_transactions cfg now in_position trade wallet base_wallet gid s p =
     (let info = get_fee_info s now trade;
          fee_payer = (if bt_side trade = BUY then wallet else base_wallet) in
      bindE (case referred_by (bt_account trade) of
               Some referrer \<Rightarrow>
                 if referrer_reward_irt info \<noteq> 0 then
                   bindE (get_wallet_by_id cfg s ''IRT'' (SYSTEM_ACCOUNT_ID cfg) (w_market fee_payer) None) (\<lambda>(sndr, s).
                   bindE (find_account s (ref_owner referrer)) (\<lambda>owner.
                   let (rcvr, s) = get_wallet s ''IRT'' owner SPOT None None in
                   bindE (post p sndr rcvr (referrer_reward_irt info) SC_COMMISSION gid) (\<lambda>p.
                   bindE (guardE IntegrityError (0 \<le> referrer_reward_irt info)) (\<lambda>_.
                   Inr (s\<lparr>referral_trxs := referral_trxs s @
                          [\<lparr>rt_trader = acc_id (w_account wallet), rt_referral = referrer, rt_group_id = gid,
                            trader_amount = 0, referrer_amount = referrer_reward_irt info\<rparr>]\<rparr>, p)))))
                 else Inr (s, p)
             | None \<Rightarrow> Inr (s, p)) (\<lambda>(s, p).
      bindE (get_wallet_by_id cfg s (w_asset fee_payer) (SYSTEM_ACCOUNT_ID cfg) (w_market fee_payer) None) (\<lambda>(sys, s).
      bindE (post p fee_payer sys (trader_fee_amount info) SC_COMMISSION gid) (\<lambda>p.
      bindE (guardE OutOfModel (\<not> (w_market fee_payer = MARGIN \<and> in_position))) (\<lambda>_.
      Inr (info, s, p))))))"

section \<open>Revenue\<close>

datatype revenue_source = OTC_MARKET | OTC_PROVIDER | TAKER | MAKER | USER | REV_MANUAL

record trade_revenue =
  rev_account :: nat
  rev_symbol :: string
  rev_side :: side
  rev_amount :: decimal
  rev_price :: decimal
  rev_group_id :: nat
  rev_source :: revenue_source
  rev_fee_revenue :: decimal
  rev_value :: decimal
  rev_value_irt :: decimal
  value_is_fake :: bool
  coin_price :: decimal
  coin_filled_price :: "decimal option"
  rev_filled_amount :: "decimal option"
  gap_revenue :: "decimal option"
  hedge_key :: string
  rev_base_usdt_price :: decimal

definition trade_revenue_new ::
  "settings \<Rightarrow> ('b) base_trade_scheme \<Rightarrow> nat \<Rightarrow> revenue_source \<Rightarrow> string \<Rightarrow> bool \<Rightarrow> trade_revenue" where
  "trade_revenue_new cfg t gid source key ignore_trade_value =
     (let trade_volume = bt_amount t * bt_price t;
          coin = bt_price t * base_usdt_price t in
      \<lparr>rev_account = acc_id (bt_account t), rev_symbol = sy_name (bt_symbol t), rev_side = bt_side t,
       rev_amount = bt_amount t, rev_price = bt_price t, rev_group_id = gid, rev_source = source,
       rev_fee_revenue = fee_revenue t, rev_value = trade_volume * base_usdt_price t,
       rev_value_irt = trade_volume * base_irt_price t,
       value_is_fake = (ignore_trade_value \<or> acc_id (bt_account t) \<in>
         {OTC_ACCOUNT_ID cfg, MARKET_MAKER_ACCOUNT_ID cfg, TRADER_ACCOUNT_ID cfg}),
       coin_price = coin,
       coin_filled_price = (if key = [] then Some coin else None),
       rev_filled_amount = (if key = [] then Some (bt_amount t) else None),
       gap_revenue = (if key = [] then Some 0 else None),
       hedge_key = key, rev_base_usdt_price = base_usdt_price t\<rparr>)"

text \<open>\<^verbatim>\<open>get_gap_revenue\<close> is called on a filled revenue; a missing filled price raises.\<close>

definition get_gap_revenue :: "trade_revenue \<Rightarrow> decimal option" where
  "get_gap_revenue r =
     map_option (\<lambda>filled. let gap = rev_amount r * (coin_price r - filled)
                          in if rev_side r = SELL then - gap else gap) (coin_filled_price r)"

section \<open>Lemmas\<close>

lemma fee_db_cong [simp]:
  "block_ok (s\<lparr>referral_trxs := r\<rparr>) p = block_ok s p" "known (s\<lparr>referral_trxs := r\<rparr>) w = known s w"
  "ledger_ok (s\<lparr>referral_trxs := r\<rparr>) = ledger_ok s"
  by (rule base_cong; simp)+

lemma register_fee_keeps:
  assumes "register_fee_transactions cfg now ip trade wallet base_wallet gid s p = Inr (info, s', p')"
    and "block_ok s p" and "known s wallet" and "known s base_wallet"
  shows "block_ok s' p'" and "known s u \<Longrightarrow> known s' u"
proof -
  let ?payer = "if bt_side trade = BUY then wallet else base_wallet"
  from assms(1) obtain t q sys where
    referral: "(t = s \<and> q = p) \<or> (\<exists>s1 sndr owner rcvr s2 y r.
        get_wallet_by_id cfg s ''IRT'' (SYSTEM_ACCOUNT_ID cfg) (w_market ?payer) None = Inr (sndr, s1) \<and>
        get_wallet s1 ''IRT'' owner SPOT None None = (rcvr, s2) \<and>
        post p sndr rcvr y SC_COMMISSION gid = Inr q \<and> t = s2\<lparr>referral_trxs := r\<rparr>)"
    and sys: "get_wallet_by_id cfg t (w_asset ?payer) (SYSTEM_ACCOUNT_ID cfg) (w_market ?payer) None = Inr (sys, s')"
    and fee: "post q ?payer sys (trader_fee_amount info) SC_COMMISSION gid = Inr p'"
    by (auto simp: register_fee_transactions_def Let_def result_simps split: option.splits if_splits; blast)
  have tq: "block_ok t q \<and> (\<forall>u. known s u \<longrightarrow> known t u)"
    using referral
  proof (elim disjE exE conjE)
    fix s1 sndr owner rcvr s2 y r
    assume 1: "get_wallet_by_id cfg s ''IRT'' (SYSTEM_ACCOUNT_ID cfg) (w_market ?payer) None = Inr (sndr, s1)"
      and 2: "get_wallet s1 ''IRT'' owner SPOT None None = (rcvr, s2)"
      and 3: "post p sndr rcvr y SC_COMMISSION gid = Inr q" and 4: "t = s2\<lparr>referral_trxs := r\<rparr>"
    note g = get_wallet_by_id_inv [OF 1 assms(2)]
    note h = get_wallet_inv [OF 2 g(1)]
    have "block_ok s2 q" by (rule post_inv [OF 3 h(1)]) (use g h in blast)+
    with g(3) h(3) 4 show ?thesis by auto
  qed (use assms(2) in simp)
  from tq have b: "block_ok t q" by blast
  note f = get_wallet_by_id_inv [OF sys b]
  have "known s' ?payer" using f(3) tq assms(3,4) by auto
  with fee f show "block_ok s' p'" by (blast intro: post_inv)
  show "known s u \<Longrightarrow> known s' u" using f(3) tq by blast
qed

text \<open>The rates of a fee, with \<open>r\<close> the fee rate and \<open>sh\<close> the clamped share of the referrer.\<close>

lemma get_fee_info_cases:
  obtains "get_fee_info s now t = no_fee"
  | r where "r = get_fee_rate s now (bt_symbol t) (bt_account t) (is_maker t)" "referred_by (bt_account t) = None"
      "get_fee_info s now t = \<lparr>trader_fee_amount = r * get_receiving_amount t,
         trader_fee_value = r * usdt_value t, referrer_reward_irt = 0, fi_revenue = r * usdt_value t\<rparr>"
  | r sh where "r = get_fee_rate s now (bt_symbol t) (bt_account t) (is_maker t)" "0 \<le> sh" "sh \<le> 30"
      "get_fee_info s now t = \<lparr>trader_fee_amount = r * (1 - (30 - sh) / 100) * get_receiving_amount t,
         trader_fee_value = r * (1 - (30 - sh) / 100) * usdt_value t,
         referrer_reward_irt = r * sh / 100 * irt_value t, fi_revenue = r * (70 / 100) * usdt_value t\<rparr>"
proof -
  let ?r = "get_fee_rate s now (bt_symbol t) (bt_account t) (is_maker t)"
  have rec: "(if bt_side t = BUY then bt_amount t else bt_amount t * bt_price t) = get_receiving_amount t"
    by (cases "bt_side t") (simp_all add: get_receiving_amount_def)
  show ?thesis
  proof (cases "?r = 0")
    case True
    then show ?thesis by (intro that(1)) (simp add: get_fee_info_def)
  next
    case False
    show ?thesis
    proof (cases "referred_by (bt_account t)")
      case None
      with False show ?thesis
        by (intro that(2) [of ?r]) (simp_all add: get_fee_info_def rec usdt_value_def Let_def mult.assoc)
    next
      case (Some ref)
      let ?sh = "min (max (owner_share_percent ref) 0) 30"
      from False Some show ?thesis
        by (intro that(3) [of ?r ?sh])
          (simp_all add: get_fee_info_def rec usdt_value_def irt_value_def REFERRAL_MAX_RETURN_PERCENT_def Let_def mult_ac)
    qed
  qed
qed

lemma first_given_bounds:
  "(\<And>f. Some f \<in> set fs \<Longrightarrow> 0 \<le> f \<and> f \<le> 1) \<Longrightarrow> 0 \<le> first_given fs \<and> first_given fs \<le> 1"
  by (induction fs rule: first_given.induct) auto

text \<open>The rates the admins configure are proportions.\<close>

definition rates_ok :: "pair_symbol \<Rightarrow> account \<Rightarrow> bool" where
  "rates_ok sy a \<longleftrightarrow>
     (\<forall>r\<in>set [custom_maker_fee a, custom_taker_fee a, sy_maker_fee sy, sy_taker_fee sy].
        case r of Some f \<Rightarrow> 0 \<le> f \<and> f \<le> 1 | None \<Rightarrow> True)"

lemma get_fee_rate_bounds:
  "rates_ok sy a \<Longrightarrow> 0 \<le> get_fee_rate s now sy a maker \<and> get_fee_rate s now sy a maker \<le> 1"
  using first_given_bounds [of "[custom_maker_fee a, sy_maker_fee sy, Some DEFAULT_MAKER_FEE]"]
    first_given_bounds [of "[custom_taker_fee a, sy_taker_fee sy, Some DEFAULT_TAKER_FEE]"]
  by (auto simp: get_fee_rate_def rates_ok_def DEFAULT_MAKER_FEE_def DEFAULT_TAKER_FEE_def Let_def split: option.splits)


text \<open>No fee is negative and no fee is larger than what the trader receives.\<close>

theorem fee_bounds:
  assumes "rates_ok (bt_symbol t) (bt_account t)" and "0 \<le> bt_amount t" and "0 \<le> bt_price t"
    and "0 \<le> base_irt_price t" and "0 \<le> base_usdt_price t"
  shows "0 \<le> trader_fee_amount (get_fee_info s now t)
    \<and> trader_fee_amount (get_fee_info s now t) \<le> get_receiving_amount t
    \<and> 0 \<le> referrer_reward_irt (get_fee_info s now t) \<and> 0 \<le> fi_revenue (get_fee_info s now t)
    \<and> 0 \<le> trader_fee_value (get_fee_info s now t)"
proof -
  note rate = get_fee_rate_bounds [OF assms(1), of s now "is_maker t"]
  have recv: "0 \<le> get_receiving_amount t" using assms(2,3) by (simp add: get_receiving_amount_def)
  have vals: "0 \<le> usdt_value t" "0 \<le> irt_value t" using assms(2-5) by (simp_all add: usdt_value_def irt_value_def)
  show ?thesis
  proof (cases s now t rule: get_fee_info_cases)
    case 1
    then show ?thesis using recv by (simp add: no_fee_def)
  next
    case (2 r)
    with rate have "0 \<le> r" "r \<le> 1" by simp_all
    with 2 recv vals show ?thesis by (simp add: mult_left_le_one_le)
  next
    case (3 r sh)
    with rate have r: "0 \<le> r" "r \<le> 1" by simp_all
    have k: "0 \<le> 1 - (30 - sh) / 100" "1 - (30 - sh) / 100 \<le> 1" using 3 by (simp_all add: field_simps)
    have "0 \<le> r * (1 - (30 - sh) / 100)" "r * (1 - (30 - sh) / 100) \<le> 1"
      using r k by (auto intro: mult_le_one mult_nonneg_nonneg)
    with 3 r recv vals show ?thesis by (simp add: mult_left_le_one_le)
  qed
qed

end
