(* ===== verification/Decimal_Text.thy ===== *)
theory Decimal_Text
  imports Decimals
begin

text \<open>
  The textual half of \<^verbatim>\<open>ledger/utils/precision.py\<close>: fixed-point formatting of Decimals,
  stripping of trailing zeros, the precision of a written number, and the number a text
  denotes. A Decimal is a coefficient and an exponent; the text depends on both.
\<close>

section \<open>Digits\<close>

definition digit_char :: "nat \<Rightarrow> char" where
  "digit_char d = ''0123456789'' ! (d mod 10)"

definition digit_val :: "char \<Rightarrow> nat option" where
  "digit_val c = map_of (zip ''0123456789'' [0..<10]) c"

fun nat_str :: "nat \<Rightarrow> string" where
  "nat_str n = (if n < 10 then [digit_char n] else nat_str (n div 10) @ [digit_char (n mod 10)])"

declare nat_str.simps [simp del]

text \<open>Exactly \<open>k\<close> digits, with leading zeros.\<close>

fun pad_str :: "nat \<Rightarrow> nat \<Rightarrow> string" where
  "pad_str 0 n = []"
| "pad_str (Suc k) n = pad_str k (n div 10) @ [digit_char (n mod 10)]"

definition is_digit :: "char \<Rightarrow> bool" where
  "is_digit c \<longleftrightarrow> digit_val c \<noteq> None"

definition digits_val :: "string \<Rightarrow> nat" where
  "digits_val s = foldl (\<lambda>acc c. 10 * acc + (case digit_val c of None \<Rightarrow> 0 | Some d \<Rightarrow> d)) 0 s"

section \<open>Formatting\<close>

text \<open>\<^verbatim>\<open>'{:f}'.format(d)\<close>: no exponent, as many decimals as the exponent asks for.\<close>

definition format_f :: "pydec \<Rightarrow> string" where
  "format_f d =
     (let n = nat \<bar>coef d\<bar>; k = nat (- expo d) in
      (if coef d < 0 then ''-'' else []) @
      (if 0 \<le> expo d then nat_str (n * 10 ^ nat (expo d))
       else nat_str (n div 10 ^ k) @ ''.'' @ pad_str k (n mod 10 ^ k)))"

text \<open>The thousands separators of \<^verbatim>\<open>'{:,f}'\<close>, put into an integer part from its right end.\<close>

fun group3 :: "string \<Rightarrow> string" where
  "group3 (a # b # c # d # s) = a # b # c # CHR '','' # group3 (d # s)"
| "group3 s = s"

definition format_comma_f :: "pydec \<Rightarrow> string" where
  "format_comma_f d =
     (let n = nat \<bar>coef d\<bar>; k = nat (- expo d) in
      (if coef d < 0 then ''-'' else []) @
      (if 0 \<le> expo d then rev (group3 (rev (nat_str (n * 10 ^ nat (expo d)))))
       else rev (group3 (rev (nat_str (n div 10 ^ k)))) @ ''.'' @ pad_str k (n mod 10 ^ k)))"

definition rstrip :: "char \<Rightarrow> string \<Rightarrow> string" where
  "rstrip c s = rev (dropWhile (\<lambda>x. x = c) (rev s))"

definition decimal_to_str :: "pydec \<Rightarrow> bool \<Rightarrow> string" where
  "decimal_to_str amount truncate =
     (let s = format_f amount in
      if truncate \<and> CHR ''.'' \<in> set s then rstrip CHR ''.'' (rstrip CHR ''0'' s) else s)"

text \<open>\<^verbatim>\<open>d.normalize()\<close> strips the trailing zeros of the coefficient.\<close>

function normalize :: "int \<Rightarrow> int \<Rightarrow> pydec" where
  "normalize c e = (if c = 0 then Dec 0 0 else if c mod 10 \<noteq> 0 then Dec c e else normalize (c div 10) (e + 1))"
  by pat_completeness auto
termination
  by (relation "measure (\<lambda>(c, e). nat \<bar>c\<bar>)") auto

declare normalize.simps [simp del]

definition normalize_fraction :: "pydec \<Rightarrow> pydec" where
  "normalize_fraction d =
     (let n = normalize (coef d) (expo d)
      in if expo n \<le> 0 then n else Dec (coef n * 10 ^ nat (expo n)) 0)"

text \<open>\<^verbatim>\<open>get_precision\<close> of a Decimal (written with separators) or of a text.\<close>

definition get_precision_str :: "string \<Rightarrow> int" where
  "get_precision_str amount =
     (let amount = (if CHR ''.'' \<in> set amount then rstrip CHR ''.'' (rstrip CHR ''0'' amount) else amount)
      in if CHR ''.'' \<notin> set amount
         then int (length (rstrip CHR ''0'' amount)) - int (length amount)
         else int (length (takeWhile (\<lambda>c. c \<noteq> CHR ''.'') (tl (dropWhile (\<lambda>c. c \<noteq> CHR ''.'') amount)))))"

definition get_precision :: "pydec \<Rightarrow> int" where
  "get_precision amount = get_precision_str (format_comma_f amount)"

definition get_presentation_amount :: "pydec option \<Rightarrow> int option \<Rightarrow> bool \<Rightarrow> string option" where
  "get_presentation_amount amount precision trunc_zero =
     (case amount of None \<Rightarrow> None
      | Some a \<Rightarrow>
        (let a = (case precision of None \<Rightarrow> a
                  | Some p \<Rightarrow> quantize_down (dec_val a) (precision_to_step p));
             rounded = format_f a
         in if \<not> trunc_zero \<or> CHR ''.'' \<notin> set rounded then Some rounded
            else (let s = rstrip CHR ''.'' (rstrip CHR ''0'' rounded)
                  in Some (if s = [] then ''0'' else s))))"

section \<open>Reading a text back\<close>

text \<open>\<^verbatim>\<open>Decimal(s)\<close> for the plain notation: sign, digits, an optional fraction.\<close>

definition read_unsigned :: "string \<Rightarrow> pydec option" where
  "read_unsigned s =
     (let i = takeWhile (\<lambda>c. c \<noteq> CHR ''.'') s; r = dropWhile (\<lambda>c. c \<noteq> CHR ''.'') s; f = tl r
      in if (\<forall>c\<in>set (i @ f). is_digit c) \<and> i @ f \<noteq> []
         then Some (Dec (int (digits_val (i @ f))) (- int (length f))) else None)"

definition read_decimal :: "string \<Rightarrow> pydec option" where
  "read_decimal s =
     (case s of [] \<Rightarrow> None
      | c # r \<Rightarrow> (if c = CHR ''-''
                   then map_option (\<lambda>d. Dec (- coef d) (expo d)) (read_unsigned r)
                   else read_unsigned s))"

section \<open>Reading back what was written\<close>

lemma digit_val_char [simp]: "digit_val (digit_char d) = Some (d mod 10)"
proof -
  have "list_all (\<lambda>e. digit_val (''0123456789'' ! e) = Some e) [0..<10]"
    by (simp add: digit_val_def upt_conv_Cons)
  moreover have "d mod 10 \<in> set [0..<10]" by simp
  ultimately show ?thesis by (simp only: list_all_iff digit_char_def)
qed

lemma digit_val_zero [simp]: "digit_val CHR ''0'' = Some 0"
  by (simp add: digit_val_def upt_conv_Cons)

lemma is_digit_char [simp]: "is_digit (digit_char d)"
  by (simp add: is_digit_def)

lemma is_digit_not_mark: "is_digit c \<Longrightarrow> c \<noteq> CHR ''.'' \<and> c \<noteq> CHR ''-''"
  by (auto simp: is_digit_def digit_val_def upt_conv_Cons)

lemma digits_val_Nil [simp]: "digits_val [] = 0"
  by (simp add: digits_val_def)

lemma digits_val_foldl:
  "foldl (\<lambda>acc c. 10 * acc + (case digit_val c of None \<Rightarrow> 0 | Some d \<Rightarrow> d)) a s
     = a * 10 ^ length s + digits_val s"
proof (induction s rule: rev_induct)
  case (snoc x xs)
  then show ?case by (simp add: digits_val_def)
qed simp

lemma digits_val_append: "digits_val (s @ t) = digits_val s * 10 ^ length t + digits_val t"
  using digits_val_foldl [of "digits_val s" t] by (simp add: digits_val_def)

lemma digits_val_single [simp]: "digits_val [digit_char d] = d mod 10"
  by (simp add: digits_val_def)

lemma digits_val_zeros: "\<forall>c\<in>set s. c = CHR ''0'' \<Longrightarrow> digits_val s = 0"
proof (induction s rule: rev_induct)
  case (snoc x xs)
  then have "digits_val xs = 0" and "x = CHR ''0''" by simp_all
  then show ?case by (simp add: digits_val_append) (simp add: digits_val_def)
qed simp

lemma nat_str_props: "digits_val (nat_str n) = n \<and> (\<forall>c\<in>set (nat_str n). is_digit c) \<and> nat_str n \<noteq> []"
proof (induction n rule: nat_str.induct)
  case (1 n)
  then show ?case
    by (cases "n < 10") (auto simp: nat_str.simps [of n] digits_val_append)
qed

lemma pad_str_props:
  "digits_val (pad_str k n) = n mod 10 ^ k \<and> (\<forall>c\<in>set (pad_str k n). is_digit c)
     \<and> length (pad_str k n) = k"
proof (induction k arbitrary: n)
  case (Suc k)
  have "n div 10 mod 10 ^ k * 10 + n mod 10 = n mod (10 * 10 ^ k)"
    by (simp add: mod_mult2_eq)
  with Suc show ?case by (auto simp: digits_val_append)
qed simp

lemma rstrip_append: "rstrip c (s @ t) = (if rstrip c t = [] then rstrip c s else s @ rstrip c t)"
  by (auto simp: rstrip_def dropWhile_append)

lemma rstrip_id: "s = [] \<or> last s \<noteq> c \<Longrightarrow> rstrip c s = s"
  by (cases s rule: rev_cases) (auto simp: rstrip_def)

lemma rstrip_zeros:
  obtains z where "s = rstrip c s @ z" and "\<forall>x\<in>set z. x = c"
proof
  let ?z = "rev (takeWhile (\<lambda>x. x = c) (rev s))"
  show "s = rstrip c s @ ?z"
    by (metis rev_append rev_rev_ident rstrip_def takeWhile_dropWhile_id)
  show "\<forall>x\<in>set ?z. x = c" by (auto dest: set_takeWhileD)
qed

lemma rstrip_append_empty: "rstrip c t = [] \<Longrightarrow> rstrip c (s @ t) = rstrip c s"
  by (simp add: rstrip_append)

lemma rstrip_append_keep: "rstrip c t \<noteq> [] \<Longrightarrow> rstrip c (s @ t) = s @ rstrip c t"
  by (simp add: rstrip_append)

text \<open>Stripping zeros and the point from an integer part and a fraction.\<close>

lemma strip_fraction:
  assumes "i \<noteq> []" and "\<forall>c\<in>set i. is_digit c" and "\<forall>c\<in>set f. is_digit c"
  shows "rstrip CHR ''.'' (rstrip CHR ''0'' (i @ ''.'' @ f)) =
    (let g = rstrip CHR ''0'' f in if g = [] then i else i @ ''.'' @ g)"
proof -
  let ?g = "rstrip CHR ''0'' f"
  have pt: "rstrip CHR ''0'' ''.'' = ''.''" "rstrip CHR ''.'' ''.'' = []"
    by (simp_all add: rstrip_def)
  have i: "rstrip CHR ''.'' i = i"
    using assms(1,2) is_digit_not_mark by (intro rstrip_id) (meson last_in_set)
  show ?thesis
  proof (cases "?g = []")
    case True
    then have "rstrip CHR ''0'' (''.'' @ f) = ''.''"
      using pt(1) by (simp only: rstrip_append_empty)
    then have "rstrip CHR ''0'' (i @ ''.'' @ f) = i @ ''.''"
      by (subst rstrip_append_keep) simp_all
    moreover have "rstrip CHR ''.'' (i @ ''.'') = i"
      using pt(2) i by (simp only: rstrip_append_empty)
    ultimately show ?thesis using True by (simp only: Let_def if_True refl)
  next
    case False
    then have s0: "rstrip CHR ''0'' (''.'' @ f) = ''.'' @ ?g" by (rule rstrip_append_keep)
    have e: "rstrip CHR ''0'' (i @ ''.'' @ f) = i @ ''.'' @ ?g"
      by (subst rstrip_append_keep) (simp_all only: s0, simp)
    obtain z where "f = ?g @ z" by (rule rstrip_zeros)
    then have "last ?g \<in> set f" using False by (metis UnCI last_in_set set_append)
    then have "last ?g \<noteq> CHR ''.''" using assms(3) is_digit_not_mark by blast
    then have "rstrip CHR ''.'' (i @ ''.'' @ ?g) = i @ ''.'' @ ?g"
      using False by (intro rstrip_id) simp
    with e False show ?thesis by (simp only: Let_def if_False)
  qed
qed

lemma read_unsigned_int:
  assumes "i \<noteq> []" and "\<forall>c\<in>set i. is_digit c"
  shows "read_unsigned i = Some (Dec (int (digits_val i)) 0)"
proof -
  have nd: "\<forall>c\<in>set i. c \<noteq> CHR ''.''" using assms(2) is_digit_not_mark by blast
  then have tw: "takeWhile (\<lambda>c. c \<noteq> CHR ''.'') i = i" "dropWhile (\<lambda>c. c \<noteq> CHR ''.'') i = []"
    by (auto simp: takeWhile_eq_all_conv dropWhile_eq_Nil_conv)
  show ?thesis
    unfolding read_unsigned_def Let_def by (simp only: tw) (use assms in simp)
qed

lemma read_unsigned_frac:
  assumes "i \<noteq> []" and "\<forall>c\<in>set (i @ f). is_digit c"
  shows "read_unsigned (i @ ''.'' @ f) = Some (Dec (int (digits_val (i @ f))) (- int (length f)))"
proof -
  have nd: "\<And>c. c \<in> set i \<Longrightarrow> c \<noteq> CHR ''.''" using assms(2) is_digit_not_mark by auto
  then have "takeWhile (\<lambda>c. c \<noteq> CHR ''.'') (i @ ''.'' @ f) = i"
    "dropWhile (\<lambda>c. c \<noteq> CHR ''.'') (i @ ''.'' @ f) = ''.'' @ f"
    by (simp_all add: takeWhile_append2 dropWhile_append2)
  then show ?thesis using assms
    unfolding read_unsigned_def Let_def by (simp only: append_Cons append_Nil list.sel) simp
qed

text \<open>The unsigned part of the text, and what it denotes.\<close>

definition unsigned_text :: "nat \<Rightarrow> int \<Rightarrow> bool \<Rightarrow> string" where
  "unsigned_text n e t =
     (if 0 \<le> e then nat_str (n * 10 ^ nat e)
      else (let i = nat_str (n div 10 ^ nat (- e)); f = pad_str (nat (- e)) (n mod 10 ^ nat (- e))
            in if t then (let g = rstrip CHR ''0'' f in if g = [] then i else i @ ''.'' @ g)
               else i @ ''.'' @ f))"

lemma digits_no_mark: "\<forall>c\<in>set i. is_digit c \<Longrightarrow> CHR ''.'' \<notin> set i \<and> CHR ''-'' \<notin> set i"
  using is_digit_not_mark by blast

lemma rstrip_sign: "s \<noteq> [] \<Longrightarrow> rstrip c s \<noteq> [] \<Longrightarrow> rstrip c (p @ s) = p @ rstrip c s"
  by (rule rstrip_append_keep)

lemma decimal_to_str_unsigned:
  "decimal_to_str d t = (if coef d < 0 then ''-'' else []) @ unsigned_text (nat \<bar>coef d\<bar>) (expo d) t"
proof -
  let ?n = "nat \<bar>coef d\<bar>" and ?k = "nat (- expo d)" and ?p = "if coef d < 0 then ''-'' else []"
  have p: "CHR ''.'' \<notin> set ?p" by simp
  show ?thesis
  proof (cases "0 \<le> expo d")
    case True
    have "CHR ''.'' \<notin> set (nat_str (?n * 10 ^ nat (expo d)))"
      using digits_no_mark nat_str_props by blast
    with p True show ?thesis
      by (simp add: decimal_to_str_def format_f_def unsigned_text_def Let_def)
  next
    case False
    let ?i = "nat_str (?n div 10 ^ ?k)" and ?f = "pad_str ?k (?n mod 10 ^ ?k)"
    have ii: "?i \<noteq> []" "\<forall>c\<in>set ?i. is_digit c" and ff: "\<forall>c\<in>set ?f. is_digit c"
      using nat_str_props pad_str_props by blast+
    let ?s = "?i @ ''.'' @ ?f" and ?u = "unsigned_text ?n (expo d) True"
    have u: "rstrip CHR ''.'' (rstrip CHR ''0'' ?s) = ?u"
      using strip_fraction [OF ii ff] False by (simp only: unsigned_text_def Let_def if_False if_True)
    have "?u \<noteq> []" using ii False by (simp add: unsigned_text_def Let_def)
    with u have r: "rstrip CHR ''0'' ?s \<noteq> []" by (auto simp: rstrip_def)
    have "rstrip CHR ''.'' (rstrip CHR ''0'' (?p @ ?s)) = rstrip CHR ''.'' (?p @ rstrip CHR ''0'' ?s)"
      by (simp only: rstrip_append_keep [OF r])
    also have "\<dots> = ?p @ ?u"
      by (subst rstrip_append_keep) (simp_all only: u \<open>?u \<noteq> []\<close>, simp)
    finally have "rstrip CHR ''.'' (rstrip CHR ''0'' (?p @ ?s)) = ?p @ ?u" .
    then show ?thesis using False
      by (cases t) (simp_all add: decimal_to_str_def format_f_def unsigned_text_def Let_def)
  qed
qed

lemma pow10_minus_nat: "pow10 (- int k) = 1 / 10 ^ k"
  by (simp add: pow10_def)

lemma pow10_plus1: "pow10 (e + 1) = 10 * pow10 e"
proof (cases "0 \<le> e")
  case True
  then show ?thesis by (simp add: pow10_def nat_add_distrib)
next
  case False
  then obtain k where "e = - int (Suc k)" by (metis add.inverse_inverse int_cases3 negD not_le)
  then have "e = - int (Suc k)" "e + 1 = - int k" by simp_all
  then show ?thesis by (simp only: pow10_minus_nat) simp
qed

lemma digits_val_strip:
  "dec_val (Dec (int (digits_val (i @ rstrip CHR ''0'' f))) (- int (length (rstrip CHR ''0'' f))))
     = dec_val (Dec (int (digits_val (i @ f))) (- int (length f)))"
proof -
  obtain z where z: "f = rstrip CHR ''0'' f @ z" "\<forall>x\<in>set z. x = CHR ''0''" by (rule rstrip_zeros)
  let ?g = "rstrip CHR ''0'' f"
  have "digits_val (i @ f) = digits_val (i @ ?g) * 10 ^ length z"
    using z digits_val_append [of "i @ ?g" z] digits_val_zeros [of z] by simp
  moreover have "pow10 (- int (length f)) * 10 ^ length z = pow10 (- int (length ?g))"
    using arg_cong [OF z(1), of length] by (simp only: pow10_minus_nat length_append power_add) simp
  ultimately show ?thesis by (simp add: dec_val_def mult.assoc) (simp add: mult.commute)
qed

lemma read_unsigned_text:
  obtains d' where "read_unsigned (unsigned_text n e t) = Some d'" and "dec_val d' = dec_val (Dec (int n) e)"
    and "\<exists>c r. unsigned_text n e t = c # r \<and> c \<noteq> CHR ''-''"
proof -
  have no: "\<exists>c r. s @ s' = c # r \<and> c \<noteq> CHR ''-''" if "s \<noteq> []" "\<forall>c\<in>set s. is_digit c" for s s' :: string
    using that is_digit_not_mark by (cases s) auto
  show ?thesis
  proof (cases "0 \<le> e")
    case True
    let ?i = "nat_str (n * 10 ^ nat e)"
    have i: "?i \<noteq> []" "\<forall>c\<in>set ?i. is_digit c" "digits_val ?i = n * 10 ^ nat e"
      using nat_str_props by blast+
    have "unsigned_text n e t = ?i" using True by (simp add: unsigned_text_def)
    with read_unsigned_int [OF i(1,2)] i(3) no [OF i(1,2), of "[]"] True show ?thesis
      by (intro that) (auto simp: dec_val_def pow10_def)
  next
    case False
    let ?k = "nat (- e)"
    let ?i = "nat_str (n div 10 ^ ?k)" and ?f = "pad_str ?k (n mod 10 ^ ?k)"
    let ?g = "rstrip CHR ''0'' ?f"
    have i: "?i \<noteq> []" "\<forall>c\<in>set ?i. is_digit c" "digits_val ?i = n div 10 ^ ?k"
      and f: "\<forall>c\<in>set ?f. is_digit c" "digits_val ?f = n mod 10 ^ ?k" "length ?f = ?k"
      using nat_str_props pad_str_props by (blast, blast, blast, blast, simp add: pad_str_props, blast)
    have g: "\<forall>c\<in>set ?g. is_digit c"
      by (metis Un_iff f(1) rstrip_zeros set_append)
    have full: "dec_val (Dec (int (digits_val (?i @ ?f))) (- int (length ?f))) = dec_val (Dec (int n) e)"
    proof -
      have "digits_val (?i @ ?f) = n" using i(3) f(2,3) by (simp only: digits_val_append div_mult_mod_eq)
      then show ?thesis using False f(3) by simp
    qed
    have whole: "dec_val (Dec (int (digits_val ?i)) 0) = dec_val (Dec (int n) e)" if "?g = []"
      using full digits_val_strip [of ?i ?f] that by simp
    consider "\<not> t" | "t" "?g = []" | "t" "?g \<noteq> []" by blast
    then show ?thesis
    proof cases
      case 1
      then have u: "unsigned_text n e t = ?i @ ''.'' @ ?f" using False by (simp add: unsigned_text_def Let_def)
      show ?thesis
      proof (rule that)
        show "read_unsigned (unsigned_text n e t) = Some (Dec (int (digits_val (?i @ ?f))) (- int (length ?f)))"
          using i f unfolding u by (intro read_unsigned_frac) auto
        show "\<exists>c r. unsigned_text n e t = c # r \<and> c \<noteq> CHR ''-''" unfolding u by (rule no [OF i(1,2)])
      qed (rule full)
    next
      case 2
      then have u: "unsigned_text n e t = ?i" using False by (simp add: unsigned_text_def Let_def)
      show ?thesis
      proof (rule that)
        show "read_unsigned (unsigned_text n e t) = Some (Dec (int (digits_val ?i)) 0)"
          unfolding u by (rule read_unsigned_int [OF i(1,2)])
        show "\<exists>c r. unsigned_text n e t = c # r \<and> c \<noteq> CHR ''-''"
          using no [OF i(1,2), of "[]"] unfolding u by simp
      qed (rule whole [OF 2(2)])
    next
      case 3
      then have u: "unsigned_text n e t = ?i @ ''.'' @ ?g" using False by (simp add: unsigned_text_def Let_def)
      show ?thesis
      proof (rule that)
        show "read_unsigned (unsigned_text n e t) = Some (Dec (int (digits_val (?i @ ?g))) (- int (length ?g)))"
          using i g unfolding u by (intro read_unsigned_frac) auto
        show "\<exists>c r. unsigned_text n e t = c # r \<and> c \<noteq> CHR ''-''" unfolding u by (rule no [OF i(1,2)])
        show "dec_val (Dec (int (digits_val (?i @ ?g))) (- int (length ?g))) = dec_val (Dec (int n) e)"
          using full digits_val_strip [of ?i ?f] by simp
      qed
    qed
  qed
qed

lemma dec_val_minus: "dec_val (Dec (- c) e) = - dec_val (Dec c e)"
  by (simp add: dec_val_def)

lemma read_back:
  "\<exists>d'. read_decimal (decimal_to_str d t) = Some d' \<and> dec_val d' = dec_val d"
proof -
  obtain d' c r where d: "read_unsigned (unsigned_text (nat \<bar>coef d\<bar>) (expo d) t) = Some d'"
      "dec_val d' = dec_val (Dec (int (nat \<bar>coef d\<bar>)) (expo d))"
    and u: "unsigned_text (nat \<bar>coef d\<bar>) (expo d) t = c # r" "c \<noteq> CHR ''-''"
    by (metis read_unsigned_text)
  show ?thesis
  proof (cases "coef d < 0")
    case True
    then show ?thesis using d
      by (cases d) (auto simp: decimal_to_str_unsigned read_decimal_def dec_val_def)
  next
    case False
    then show ?thesis using d u
      by (cases d) (auto simp: decimal_to_str_unsigned read_decimal_def)
  qed
qed

text \<open>The canonical form.\<close>

lemma normalize_val: "dec_val (normalize c e) = dec_val (Dec c e)"
proof (induction c e rule: normalize.induct)
  case (1 c e)
  show ?case using 1 pow10_plus1 [of e]
    by (auto simp: normalize.simps [of c e] dec_val_def simp flip: of_int_mult)
qed

end
