(* ===== verification/Market_Model.thy ===== *)
theory Market_Model
  imports Fees Decimal_Text "HOL-Library.Multiset"
begin

text \<open>
  The tables of the spot market and the queries on them: orders, stop losses, OCOs, trades,
  revenues (\<^verbatim>\<open>market/models/\<close>), with the database constraints that guard every write. An
  order keeps the id of its wallet and the name of its pair, which the code follows as
  foreign keys. Positions (margin) are not part of these tables.
\<close>

section \<open>Rows\<close>

datatype fill_type = LIMIT | MARKET
datatype time_in_force = GTC | FOK | IOC | ME_IOC
datatype order_status = NEW | CANCELED | FILLED
datatype order_type = DEPTH | BOT | TYPE_ORDINARY | LIQUIDATION | FAST_CLOSE

record order =
  o_id :: nat
  o_type :: order_type
  o_account :: account
  o_wallet :: nat
  o_symbol :: string
  o_amount :: decimal
  o_filled :: decimal
  o_price :: decimal
  o_side :: side
  o_fill_type :: fill_type
  o_status :: order_status
  o_group :: nat
  client_order_id :: "string option"
  o_stop_loss :: "nat option"
  o_oco :: "nat option"
  o_tif :: time_in_force

record stop_loss =
  sl_id :: nat
  sl_wallet :: nat
  sl_symbol :: string
  sl_fill_type :: fill_type
  sl_amount :: decimal
  sl_filled :: decimal
  trigger_price :: decimal
  sl_price :: "decimal option"
  sl_side :: side
  sl_canceled_at :: "int option"
  sl_group :: nat
  sl_oco :: "nat option"

record oco =
  oc_id :: nat
  oc_wallet :: nat
  oc_symbol :: string
  oc_amount :: decimal
  releasable_lock :: decimal
  stop_loss_price :: decimal
  stop_loss_trigger_price :: decimal
  oc_price :: "decimal option"
  oc_side :: side
  oc_canceled_at :: "int option"
  oc_group :: nat

datatype trade_source = SRC_MARKET | SRC_SYSTEM | SRC_SYSTEM_MAKER | SRC_SYSTEM_TAKER

record trade = base_trade +
  tr_id :: nat
  tr_order :: nat
  tr_source :: trade_source
  tr_group :: nat
  tr_reverted :: bool

record market_db = fee_db +
  symbols :: "pair_symbol list"
  orders :: "order list"
  stop_losses :: "stop_loss list"
  ocos :: "oco list"
  trades :: "trade list"
  revenues :: "trade_revenue list"
  cancel_requests :: "nat list"
  trade_volumes :: "(nat \<times> int) list"
  enabled_assets :: "string list"
  reserve_groups :: "nat list"
  margin_symbols :: "string list"
  uuids :: nat

text \<open>
  \<open>reserve_groups\<close> are the groups of the ReserveWallet rows, \<open>margin_symbols\<close> the pairs on
  which a margin position is open. The surroundings of a request: the settings, the clock, the
  system configuration, the externally quoted price of USDT, used while the pair USDTIRT has
  no last trade, and whether trading is open (\<^verbatim>\<open>can_trade\<close>, \<^verbatim>\<open>MARKET_TRADE_ENABLE\<close>).
\<close>

record market_env =
  cfg :: settings
  now :: int
  hedge_irt_by_internal_market :: bool
  external_usdt_irt :: "decimal option"
  can_trade :: bool
  MARKET_TRADE_ENABLE :: bool

section \<open>Constants of the Order model\<close>

definition MARKET_BORDER :: decimal where "MARKET_BORDER = 1 / 100"
definition MIN_IRT_ORDER_SIZE :: decimal where "MIN_IRT_ORDER_SIZE = 100000"
definition MIN_USDT_ORDER_SIZE :: decimal where "MIN_USDT_ORDER_SIZE = 5"
definition MAX_ORDER_DEPTH_SIZE_IRT :: decimal where "MAX_ORDER_DEPTH_SIZE_IRT = 90000000"
definition MAX_ORDER_DEPTH_SIZE_USDT :: decimal where "MAX_ORDER_DEPTH_SIZE_USDT = 2500"

section \<open>Reading\<close>

definition symbol_row :: "('z) market_db_scheme \<Rightarrow> string \<Rightarrow> pair_symbol result" where
  "symbol_row s n = the_or DoesNotExist (List.find (\<lambda>y. sy_name y = n) (symbols s))"

definition order_row :: "('z) market_db_scheme \<Rightarrow> nat \<Rightarrow> order result" where
  "order_row s i = the_or DoesNotExist (List.find (\<lambda>x. o_id x = i) (orders s))"

definition row_of_wallet :: "('z) ledger_scheme \<Rightarrow> nat \<Rightarrow> wallet result" where
  "row_of_wallet s i = the_or DoesNotExist (find_wallet s i)"

definition open_orders :: "('z) market_db_scheme \<Rightarrow> order list" where
  "open_orders s = filter (\<lambda>x. o_status x = NEW) (orders s)"

definition unfilled_amount :: "pair_symbol \<Rightarrow> order \<Rightarrow> decimal" where
  "unfilled_amount y x = floor_precision (o_amount x - o_filled x) (int (step_size y))"

definition sl_unfilled_amount :: "pair_symbol \<Rightarrow> stop_loss \<Rightarrow> decimal" where
  "sl_unfilled_amount y x = floor_precision (sl_amount x - sl_filled x) (int (step_size y))"

text \<open>\<^verbatim>\<open>get_order_by\<close> as a comparison: better prices first, older orders first.\<close>

definition order_key :: "side \<Rightarrow> order \<Rightarrow> rat \<times> nat" where
  "order_key sd x = (if sd = BUY then - o_price x else o_price x, o_id x)"

definition better :: "side \<Rightarrow> order \<Rightarrow> order \<Rightarrow> bool" where
  "better sd x y \<longleftrightarrow> fst (order_key sd x) < fst (order_key sd y)
     \<or> fst (order_key sd x) = fst (order_key sd y) \<and> snd (order_key sd x) \<le> snd (order_key sd y)"

fun insert_order :: "side \<Rightarrow> order \<Rightarrow> order list \<Rightarrow> order list" where
  "insert_order sd x [] = [x]"
| "insert_order sd x (y # ys) = (if better sd x y then x # y # ys else y # insert_order sd x ys)"

definition sort_orders :: "side \<Rightarrow> order list \<Rightarrow> order list" where
  "sort_orders sd xs = foldr (insert_order sd) xs []"

definition price_crosses :: "side \<Rightarrow> decimal \<Rightarrow> order \<Rightarrow> bool" where
  "price_crosses maker_side price x \<longleftrightarrow>
     (if maker_side = BUY then price \<le> o_price x else o_price x \<le> price)"

definition matching_orders :: "('z) market_db_scheme \<Rightarrow> order \<Rightarrow> order list" where
  "matching_orders s self =
     (let maker_side = get_opposite_side (o_side self)
      in sort_orders maker_side
           (filter (\<lambda>x. o_symbol x = o_symbol self \<and> o_side x = maker_side
                      \<and> price_crosses maker_side (o_price self) x) (open_orders s)))"

definition top_price :: "side \<Rightarrow> order list \<Rightarrow> decimal option" where
  "top_price sd xs = (case map o_price xs of [] \<Rightarrow> None
     | p # ps \<Rightarrow> Some (foldl (if sd = BUY then max else min) p ps))"

definition get_market_price :: "('z) market_db_scheme \<Rightarrow> string \<Rightarrow> side \<Rightarrow> decimal option" where
  "get_market_price s symbol sd =
     (case top_price sd (filter (\<lambda>x. o_symbol x = symbol \<and> o_side x = sd \<and> o_fill_type x = LIMIT) (open_orders s)) of
        None \<Rightarrow> None
      | Some p \<Rightarrow> if p = 0 then None
                  else Some (if sd = BUY then p * (1 - MARKET_BORDER) else p * (1 + MARKET_BORDER)))"

definition get_top_price :: "('z) market_db_scheme \<Rightarrow> string \<Rightarrow> side \<Rightarrow> decimal option" where
  "get_top_price s symbol sd = top_price sd (filter (\<lambda>x. o_symbol x = symbol \<and> o_side x = sd) (open_orders s))"

definition get_top_price_amount :: "('z) market_db_scheme \<Rightarrow> string \<Rightarrow> side \<Rightarrow> (decimal \<times> decimal) option" where
  "get_top_price_amount s symbol sd =
     (case get_top_price s symbol sd of
        None \<Rightarrow> None
      | Some p \<Rightarrow> if p = 0 then None else
          Some (p, sum_of (\<lambda>x. o_amount x - o_filled x)
                     (filter (\<lambda>x. o_symbol x = symbol \<and> o_side x = sd \<and> o_price x = p) (open_orders s))))"

definition get_last_usdt_irt :: "market_env \<Rightarrow> ('z) market_db_scheme \<Rightarrow> decimal result" where
  "get_last_usdt_irt env s =
     (case List.find (\<lambda>y. sy_name y = ''USDTIRT'' \<and> sy_enable y \<and> last_trade_price y \<noteq> None) (symbols s) of
        Some y \<Rightarrow> the_or TypeErr (last_trade_price y)
      | None \<Rightarrow> the_or TypeErr (external_usdt_irt env))"

definition base_wallet_of ::
  "('z) market_db_scheme \<Rightarrow> pair_symbol \<Rightarrow> wallet \<Rightarrow> wallet \<times> ('z) market_db_scheme" where
  "base_wallet_of s y w = get_wallet s (sy_base y) (w_account w) (w_market w) (variant w) None"

definition get_to_lock_amount :: "decimal \<Rightarrow> decimal \<Rightarrow> side \<Rightarrow> decimal" where
  "get_to_lock_amount amount price sd = (if sd = BUY then amount * price else amount)"

section \<open>Writing\<close>

definition uuid4 :: "('z) market_db_scheme \<Rightarrow> nat \<times> ('z) market_db_scheme" where
  "uuid4 s = (uuids s, s\<lparr>uuids := Suc (uuids s)\<rparr>)"

definition order_amounts_ok :: "order \<Rightarrow> bool" where
  "order_amounts_ok x \<longleftrightarrow> o_filled x \<le> o_amount x \<and> 0 \<le> o_amount x \<and> 0 \<le> o_filled x \<and> 0 \<le> o_price x"

text \<open>The four unique constraints on orders, between two different rows.\<close>

definition orders_clash :: "order \<Rightarrow> order \<Rightarrow> bool" where
  "orders_clash x y \<longleftrightarrow> o_id x \<noteq> o_id y \<and> o_status x = o_status y \<and>
     (o_group x = o_group y
      \<or> (o_status x = NEW \<and> acc_id (o_account x) = acc_id (o_account y)
         \<and> client_order_id x = client_order_id y \<and> client_order_id x \<noteq> None)
      \<or> (o_stop_loss x = o_stop_loss y \<and> o_stop_loss x \<noteq> None)
      \<or> (o_oco x = o_oco y \<and> o_oco x \<noteq> None))"

definition save_status :: "('z) market_db_scheme \<Rightarrow> nat \<Rightarrow> order_status \<Rightarrow> ('z) market_db_scheme result" where
  "save_status s i st =
     (let os = map (\<lambda>x. if o_id x = i then x\<lparr>o_status := st\<rparr> else x) (orders s) in
      bindE (guardE IntegrityError (\<forall>x\<in>set os. o_id x = i \<longrightarrow> (\<forall>y\<in>set os. \<not> orders_clash x y))) (\<lambda>_.
      Inr (s\<lparr>orders := os\<rparr>)))"

definition create_order :: "('z) market_db_scheme \<Rightarrow> order \<Rightarrow> (order \<times> ('z) market_db_scheme) result" where
  "create_order s x =
     (let x = x\<lparr>o_id := fresh_id (map o_id (orders s))\<rparr> in
      bindE (guardE IntegrityError (order_amounts_ok x \<and> (\<forall>y\<in>set (orders s). \<not> orders_clash x y))) (\<lambda>_.
      Inr (x, s\<lparr>orders := orders s @ [x]\<rparr>)))"

text \<open>\<^verbatim>\<open>update_filled_amount\<close>: two updates in the database, checked row by row.\<close>

definition update_filled_amount ::
  "('z) market_db_scheme \<Rightarrow> nat list \<Rightarrow> decimal \<Rightarrow> ('z) market_db_scheme result" where
  "update_filled_amount s ids match_amount =
     (let os = map (\<lambda>x. if o_id x \<in> set ids then x\<lparr>o_filled := o_filled x + match_amount\<rparr> else x) (orders s);
          sl_ids = filter (\<lambda>i. i \<noteq> None) (map o_stop_loss (filter (\<lambda>x. o_id x \<in> set ids) (orders s)));
          sls = map (\<lambda>l. if Some (sl_id l) \<in> set sl_ids then l\<lparr>sl_filled := sl_filled l + match_amount\<rparr> else l)
                  (stop_losses s) in
      bindE (guardE IntegrityError (\<forall>x\<in>set os. o_id x \<in> set ids \<longrightarrow> order_amounts_ok x)) (\<lambda>_.
      bindE (guardE IntegrityError (\<forall>l\<in>set sls. Some (sl_id l) \<in> set sl_ids \<longrightarrow> 0 \<le> sl_filled l)) (\<lambda>_.
      Inr (s\<lparr>orders := os, stop_losses := sls\<rparr>))))"

definition cancel_stop_loss :: "('z) market_db_scheme \<Rightarrow> int \<Rightarrow> nat \<Rightarrow> ('z) market_db_scheme" where
  "cancel_stop_loss s t i =
     s\<lparr>stop_losses := map (\<lambda>l. if sl_id l = i then l\<lparr>sl_canceled_at := Some t\<rparr> else l) (stop_losses s)\<rparr>"

definition trade_amounts_ok :: "trade \<Rightarrow> bool" where
  "trade_amounts_ok t \<longleftrightarrow> 0 \<le> bt_amount t \<and> 0 \<le> bt_price t \<and> 0 \<le> fee_amount t"

definition number_trades :: "nat \<Rightarrow> trade list \<Rightarrow> trade list" where
  "number_trades i ts = map2 (\<lambda>t j. t\<lparr>tr_id := j\<rparr>) ts [i..<i + length ts]"

definition bulk_create_trades ::
  "('z) market_db_scheme \<Rightarrow> trade list \<Rightarrow> (trade list \<times> ('z) market_db_scheme) result" where
  "bulk_create_trades s ts =
     bindE (guardE IntegrityError (\<forall>t\<in>set ts. trade_amounts_ok t)) (\<lambda>_.
     let ts = number_trades (fresh_id (map tr_id (trades s))) ts in
     Inr (ts, s\<lparr>trades := trades s @ ts\<rparr>))"

section \<open>OCO\<close>

definition oco_row :: "('z) market_db_scheme \<Rightarrow> nat \<Rightarrow> oco result" where
  "oco_row s i = the_or DoesNotExist (List.find (\<lambda>c. oc_id c = i) (ocos s))"

text \<open>
  \<^verbatim>\<open>order_set.all()[0]\<close> in the order of the model's \<^verbatim>\<open>Meta.ordering\<close>, the status text:
  canceled, filled, new.
\<close>

definition oco_order :: "('z) market_db_scheme \<Rightarrow> nat \<Rightarrow> order result" where
  "oco_order s i =
     (let own = filter (\<lambda>x. o_oco x = Some i) (orders s) in
      case concat (map (\<lambda>st. filter (\<lambda>x. o_status x = st) own) [CANCELED, FILLED, NEW]) of
        [] \<Rightarrow> Inl IndexErr | x # xs \<Rightarrow> Inr x)"

definition oco_stop_loss :: "('z) market_db_scheme \<Rightarrow> nat \<Rightarrow> stop_loss option" where
  "oco_stop_loss s i = List.find (\<lambda>l. sl_oco l = Some i) (stop_losses s)"

definition oco_filled_amount :: "('z) market_db_scheme \<Rightarrow> oco \<Rightarrow> decimal result" where
  "oco_filled_amount s c =
     bindE (oco_order s (oc_id c)) (\<lambda>x.
     if o_filled x \<noteq> 0 then Inr (o_filled x)
     else case oco_stop_loss s (oc_id c) of Some l \<Rightarrow> Inr (sl_filled l) | None \<Rightarrow> Inr 0)"

definition oco_delete :: "market_env \<Rightarrow> ('z) market_db_scheme \<Rightarrow> nat \<Rightarrow> ('z) market_db_scheme" where
  "oco_delete env s i =
     s\<lparr>ocos := map (\<lambda>c. if oc_id c = i then c\<lparr>oc_canceled_at := Some (now env)\<rparr> else c) (ocos s)\<rparr>"

datatype oco_part = OCO_STOPLOSS | OCO_ORDER

definition cancel_another ::
  "market_env \<Rightarrow> ('z) market_db_scheme \<Rightarrow> nat \<Rightarrow> oco_part \<Rightarrow> bool \<Rightarrow> ('z) market_db_scheme result" where
  "cancel_another env s i part delete_oco =
     bindE (case part of
              OCO_STOPLOSS \<Rightarrow>
                (case oco_stop_loss s i of
                   Some l \<Rightarrow> if sl_canceled_at l = None then Inr (cancel_stop_loss s (now env) (sl_id l)) else Inr s
                 | None \<Rightarrow> Inr s)
            | OCO_ORDER \<Rightarrow>
                bindE (oco_order s i) (\<lambda>x.
                if o_status x = NEW then save_status s (o_id x) CANCELED else Inr s)) (\<lambda>s.
     Inr (if delete_oco then oco_delete env s i else s))"

definition handle_oco_updates ::
  "market_env \<Rightarrow> order \<Rightarrow> nat \<Rightarrow> ('z) market_db_scheme \<Rightarrow> pipeline \<Rightarrow> (('z) market_db_scheme \<times> pipeline) result" where
  "handle_oco_updates env x i s p =
     bindE (oco_row s i) (\<lambda>c.
     bindE (cancel_another env s i OCO_STOPLOSS False) (\<lambda>s.
     if o_side x = BUY \<and> releasable_lock c \<noteq> 0 then
       bindE (release_lock s p (o_group x) (Some (releasable_lock c))) (\<lambda>p.
       Inr (s\<lparr>ocos := map (\<lambda>d. if oc_id d = i then d\<lparr>releasable_lock := 0\<rparr> else d) (ocos s)\<rparr>, p))
     else Inr (s, p)))"

section \<open>Lemmas\<close>

text \<open>Sorting a queue: a permutation, ordered by price and then by age.\<close>

lemma better_trans: "better sd x y \<Longrightarrow> better sd y z \<Longrightarrow> better sd x z"
  by (auto simp: better_def)

lemma better_total: "better sd x y \<or> better sd y x"
  by (auto simp: better_def)

lemma better_refl: "better sd x x"
  by (simp add: better_def)

lemma insert_order_set [simp]: "set (insert_order sd x xs) = insert x (set xs)"
  by (induction xs) auto

lemma insert_order_mset: "mset (insert_order sd x xs) = add_mset x (mset xs)"
  by (induction xs) auto

lemma insert_order_sorted: "sorted_wrt (better sd) xs \<Longrightarrow> sorted_wrt (better sd) (insert_order sd x xs)"
proof (induction xs)
  case (Cons y ys)
  then show ?case using better_trans better_total by (auto; meson)
qed simp

lemma sort_orders_set [simp]: "set (sort_orders sd xs) = set xs"
  unfolding sort_orders_def by (induction xs) auto

lemma sort_orders_mset: "mset (sort_orders sd xs) = mset xs"
  unfolding sort_orders_def by (induction xs) (auto simp: insert_order_mset)

lemma sort_orders_sorted: "sorted_wrt (better sd) (sort_orders sd xs)"
  unfolding sort_orders_def by (induction xs) (auto intro: insert_order_sorted)

lemma matching_orders_props:
  assumes "x \<in> set (matching_orders s self)"
  shows "x \<in> set (orders s)" and "o_status x = NEW" and "o_symbol x = o_symbol self"
    and "o_side x = get_opposite_side (o_side self)"
    and "price_crosses (get_opposite_side (o_side self)) (o_price self) x"
  using assms by (auto simp: matching_orders_def open_orders_def Let_def)

lemma matching_orders_sorted: "sorted_wrt (better (get_opposite_side (o_side self))) (matching_orders s self)"
  by (simp add: matching_orders_def Let_def sort_orders_sorted)

lemma price_crosses_limit:
  "price_crosses (get_opposite_side sd) price x \<longleftrightarrow> (if sd = BUY then o_price x \<le> price else price \<le> o_price x)"
  by (cases sd) (auto simp: price_crosses_def get_opposite_side_def)

text \<open>Writes to the market tables leave the ledger alone.\<close>

lemma market_cong [simp]:
  "block_ok (s\<lparr>orders := a\<rparr>) p = block_ok s p" "known (s\<lparr>orders := a\<rparr>) w = known s w"
  "block_ok (s\<lparr>stop_losses := b\<rparr>) p = block_ok s p" "known (s\<lparr>stop_losses := b\<rparr>) w = known s w"
  "block_ok (s\<lparr>ocos := c\<rparr>) p = block_ok s p" "known (s\<lparr>ocos := c\<rparr>) w = known s w"
  "block_ok (s\<lparr>trades := d\<rparr>) p = block_ok s p" "known (s\<lparr>trades := d\<rparr>) w = known s w"
  "block_ok (s\<lparr>revenues := e\<rparr>) p = block_ok s p" "known (s\<lparr>revenues := e\<rparr>) w = known s w"
  "block_ok (s\<lparr>symbols := f\<rparr>) p = block_ok s p" "known (s\<lparr>symbols := f\<rparr>) w = known s w"
  "block_ok (s\<lparr>cancel_requests := g\<rparr>) p = block_ok s p" "known (s\<lparr>cancel_requests := g\<rparr>) w = known s w"
  "block_ok (s\<lparr>trade_volumes := h\<rparr>) p = block_ok s p" "known (s\<lparr>trade_volumes := h\<rparr>) w = known s w"
  "block_ok (s\<lparr>uuids := u\<rparr>) p = block_ok s p" "known (s\<lparr>uuids := u\<rparr>) w = known s w"
  by (rule base_cong; simp)+

lemma save_status_same: "save_status s i st = Inr s' \<Longrightarrow> same_ledger s s'"
  by (auto simp: same_ledger_def save_status_def Let_def result_simps)

lemma create_order_same: "create_order s x = Inr (y, s') \<Longrightarrow> same_ledger s s'"
  by (auto simp: same_ledger_def create_order_def Let_def result_simps)

lemma update_filled_amount_same: "update_filled_amount s ids m = Inr s' \<Longrightarrow> same_ledger s s'"
  by (auto simp: same_ledger_def update_filled_amount_def Let_def result_simps)

lemma bulk_create_trades_same: "bulk_create_trades s ts = Inr (us, s') \<Longrightarrow> same_ledger s s'"
  by (auto simp: same_ledger_def bulk_create_trades_def Let_def result_simps)

lemma cancel_stop_loss_same [simp]: "same_ledger s (cancel_stop_loss s t i)"
  by (simp add: same_ledger_def cancel_stop_loss_def)

lemma oco_delete_same [simp]: "same_ledger s (oco_delete env s i)"
  by (simp add: same_ledger_def oco_delete_def)

lemma cancel_another_same:
  assumes "cancel_another env s j part del = Inr s'"
  shows "same_ledger s s'"
proof -
  have part: "same_ledger s t" if "cancel_another env s j part False = Inr t" for t
    using that by (cases part)
      (auto simp: cancel_another_def result_simps split: option.splits if_splits dest: save_status_same)
  from assms obtain t where "cancel_another env s j part False = Inr t" "s' = (if del then oco_delete env t j else t)"
    unfolding cancel_another_def by (auto simp: bindE_eq_Inr)
  with part [of t] show ?thesis by (auto intro: same_ledger_trans)
qed

lemmas market_writes = save_status_same create_order_same update_filled_amount_same bulk_create_trades_same
  cancel_another_same

lemma handle_oco_updates_keeps:
  assumes "handle_oco_updates env x i s p = Inr (s', p')" and "block_ok s p"
  shows "block_ok s' p'" and "known s' w = known s w"
proof -
  from assms(1) obtain t where t: "cancel_another env s i OCO_STOPLOSS False = Inr t"
    and r: "(s' = t \<and> p' = p) \<or> (\<exists>y cs. release_lock t p (o_group x) y = Inr p' \<and> s' = t\<lparr>ocos := cs\<rparr>)"
    by (auto simp: handle_oco_updates_def result_simps split: if_splits; blast)
  have tl: "same_ledger s t" using t by (rule cancel_another_same)
  then have "block_ok t p" using assms(2) by (simp add: same_ledger_block)
  with r show "block_ok s' p'" by (auto dest: release_lock_inv)
  from r tl show "known s' w = known s w" by (auto simp: same_ledger_block)
qed

end
