(* ===== verification/Matching.thy ===== *)
theory Matching
  imports Market_Model
begin

text \<open>
  The matching engine: \<^verbatim>\<open>Order.make_match\<close> of \<^verbatim>\<open>market/models/order.py\<close> with the transactions of
  a trade from \<^verbatim>\<open>market/utils/trade.py\<close> (\<^verbatim>\<open>TradesPair\<close>, \<^verbatim>\<open>register_transactions\<close>) and the revenue
  records of the trades. Notifications, log lines, the published market cache and the prize
  check of the gamification, which runs in a transaction of its own, are left out. Orders of
  margin wallets take branches that are not modelled (\<open>OutOfModel\<close>).
\<close>

section \<open>A pair of trades\<close>

record trades_pair =
  maker_trade :: trade
  taker_trade :: trade

definition pair_trades :: "trades_pair \<Rightarrow> trade list" where
  "pair_trades tp = [maker_trade tp, taker_trade tp]"

definition init_trade ::
  "pair_symbol \<Rightarrow> order \<Rightarrow> wallet \<Rightarrow> bool \<Rightarrow> decimal \<Rightarrow> decimal \<Rightarrow> trade_source \<Rightarrow> decimal \<Rightarrow> decimal \<Rightarrow> nat \<Rightarrow> trade" where
  "init_trade y x w maker amount price source irt usdt gid =
     \<lparr>bt_side = o_side x, bt_amount = amount, bt_price = price, is_maker = maker, bt_symbol = y,
      bt_account = w_account w, bt_market = w_market w, base_irt_price = irt, base_usdt_price = usdt,
      fee_amount = 0, fee_usdt_value = 0, fee_revenue = 0,
      tr_id = 0, tr_order = o_id x, tr_source = source, tr_group = gid, tr_reverted = False\<rparr>"

definition init_pair ::
  "pair_symbol \<Rightarrow> order \<Rightarrow> wallet \<Rightarrow> order \<Rightarrow> wallet \<Rightarrow> decimal \<Rightarrow> decimal \<Rightarrow> trade_source \<Rightarrow> decimal \<Rightarrow> decimal
     \<Rightarrow> nat \<Rightarrow> trades_pair result" where
  "init_pair y maker mw taker tw amount price source irt usdt gid =
     bindE (assertE (o_symbol maker = o_symbol taker)) (\<lambda>_.
     Inr \<lparr>maker_trade = init_trade y maker mw True amount price source irt usdt gid,
          taker_trade = init_trade y taker tw False amount price source irt usdt gid\<rparr>)"

section \<open>Its transactions\<close>

text \<open>
  \<^verbatim>\<open>_register_borrow_transaction\<close>, \<^verbatim>\<open>_register_repay_transaction\<close>: nothing happens to the
  orders of wallets that are not margin wallets.
\<close>

definition register_margin_transaction :: "wallet \<Rightarrow> wallet \<Rightarrow> unit result" where
  "register_margin_transaction mw tw = guardE OutOfModel (w_market mw \<noteq> MARGIN \<and> w_market tw \<noteq> MARGIN)"

definition register_trade_transaction :: "pipeline \<Rightarrow> side \<Rightarrow> wallet \<Rightarrow> wallet \<Rightarrow> trade \<Rightarrow> pipeline result" where
  "register_trade_transaction p maker_side mw tw t =
     (let (sndr, rcvr) = (if maker_side = BUY then (tw, mw) else (mw, tw))
      in post p sndr rcvr (bt_amount t) SC_TRADE (tr_group t))"

definition register_trade_base_transaction ::
  "pair_symbol \<Rightarrow> side \<Rightarrow> wallet \<Rightarrow> wallet \<Rightarrow> trade \<Rightarrow> ('z) market_db_scheme \<Rightarrow> pipeline
     \<Rightarrow> (('z) market_db_scheme \<times> pipeline) result" where
  "register_trade_base_transaction y maker_side mw tw t s p =
     (let (a, b) = (if maker_side = SELL then (tw, mw) else (mw, tw));
          (sndr, s) = base_wallet_of s y a;
          (rcvr, s) = base_wallet_of s y b
      in bindE (post p sndr rcvr (bt_amount t * bt_price t) SC_TRADE (tr_group t)) (\<lambda>p. Inr (s, p)))"

text \<open>The fee fields: the code stores the fee amount as the fee's USDT value as well.\<close>

definition with_fee :: "trade \<Rightarrow> fee_info \<Rightarrow> trade" where
  "with_fee t i = t\<lparr>fee_amount := trader_fee_amount i, fee_usdt_value := trader_fee_amount i, fee_revenue := fi_revenue i\<rparr>"

definition register_fee_of ::
  "market_env \<Rightarrow> pair_symbol \<Rightarrow> trade \<Rightarrow> wallet \<Rightarrow> ('z) market_db_scheme \<Rightarrow> pipeline
     \<Rightarrow> (trade \<times> ('z) market_db_scheme \<times> pipeline) result" where
  "register_fee_of env y t w s p =
     (let (bw, s) = base_wallet_of s y w in
      bindE (register_fee_transactions (cfg env) (now env) False t w bw (tr_group t) s p) (\<lambda>(i, s, p).
      Inr (with_fee t i, s, p)))"

definition register_transactions ::
  "market_env \<Rightarrow> bool \<Rightarrow> pair_symbol \<Rightarrow> side \<Rightarrow> wallet \<Rightarrow> wallet \<Rightarrow> trades_pair
     \<Rightarrow> ('z) market_db_scheme \<Rightarrow> pipeline \<Rightarrow> (trades_pair \<times> ('z) market_db_scheme \<times> pipeline) result" where
  "register_transactions env fake_trade y maker_side mw tw tp s p =
     bindE (if fake_trade then Inr (s, p) else
              bindE (register_margin_transaction mw tw) (\<lambda>_.
              bindE (register_trade_transaction p maker_side mw tw (maker_trade tp)) (\<lambda>p.
              register_trade_base_transaction y maker_side mw tw (maker_trade tp) s p))) (\<lambda>(s, p).
     bindE (register_fee_of env y (taker_trade tp) tw s p) (\<lambda>(tt, s, p).
     bindE (register_fee_of env y (maker_trade tp) mw s p) (\<lambda>(mt, s, p).
     Inr (\<lparr>maker_trade = mt, taker_trade = tt\<rparr>, s, p))))"

section \<open>The revenues of the trades\<close>

text \<open>\<^verbatim>\<open>create_trade_revenues\<close> for one pair; the hedger's trade comes first, if there is one.\<close>

definition hedger_of :: "market_env \<Rightarrow> pair_symbol \<Rightarrow> nat \<times> string" where
  "hedger_of env y =
     (if sy_name y = ''USDTIRT''
      then if hedge_irt_by_internal_market env then (TRADER_ACCOUNT_ID (cfg env), ''tr'')
           else (MARKET_MAKER_ACCOUNT_ID (cfg env), [])
      else (MARKET_MAKER_ACCOUNT_ID (cfg env), ''mm''))"

definition trade_account :: "('b) base_trade_scheme \<Rightarrow> nat" where
  "trade_account t = acc_id (bt_account t)"

definition revenues_of_pair :: "market_env \<Rightarrow> pair_symbol \<Rightarrow> bool \<Rightarrow> trade \<times> trade \<Rightarrow> trade_revenue list" where
  "revenues_of_pair env y taker_is_proxy mtt =
     (let (mt, tt) = mtt;
          (hedger, prefix) = hedger_of env y;
          any_proxy = (taker_is_proxy \<or>
            is_proxy_trader (cfg env) (hedge_irt_by_internal_market env) (bt_account mt) (sy_name y));
          (t0, t1) = (if trade_account mt \<noteq> hedger \<and> trade_account tt = hedger then (tt, mt) else (mt, tt));
          any_non_system_trade = (\<exists>a\<in>{trade_account mt, trade_account tt}.
            a \<notin> {TRADER_ACCOUNT_ID (cfg env), MARKET_MAKER_ACCOUNT_ID (cfg env)})
      in if \<not> any_non_system_trade then []
         else if trade_account t0 \<noteq> hedger
         then map (\<lambda>t. trade_revenue_new (cfg env) t (tr_group t) USER [] (any_proxy \<or> tr_id t = tr_id mt)) [t0, t1]
         else if trade_account t0 \<noteq> trade_account t1
         then [trade_revenue_new (cfg env) t1 (tr_group t1) (if is_maker t0 then MAKER else TAKER)
                 (if prefix \<noteq> [] then prefix @ ''-'' @ nat_str (tr_id t0) else []) any_proxy]
         else [])"

definition create_trade_revenues ::
  "market_env \<Rightarrow> pair_symbol \<Rightarrow> wallet \<Rightarrow> (trade \<times> trade) list \<Rightarrow> ('z) market_db_scheme \<Rightarrow> ('z) market_db_scheme" where
  "create_trade_revenues env y w pairs s =
     s\<lparr>revenues := revenues s @ concat (map (revenues_of_pair env y
         (is_proxy_trader (cfg env) (hedge_irt_by_internal_market env) (w_account w) (sy_name y))) pairs)\<rparr>"

section \<open>Matching\<close>

definition release_order_lock ::
  "('z) market_db_scheme \<Rightarrow> pipeline \<Rightarrow> order \<Rightarrow> wallet \<Rightarrow> decimal \<Rightarrow> pipeline result" where
  "release_order_lock s p x w release_amount =
     bindE (guardE OutOfModel (w_market w \<noteq> MARGIN)) (\<lambda>_.
     release_lock s p (o_group x) (Some (get_to_lock_amount release_amount (o_price x) (o_side x))))"

text \<open>
  The variables of the loop. \<open>ms_status\<close> is the status of the taker's object, \<open>ms_stop\<close> is
  set by \<^verbatim>\<open>break\<close>.
\<close>

record 'z match_state =
  ms_db :: "('z) market_db_scheme"
  ms_pipe :: pipeline
  ms_status :: order_status
  ms_unfilled :: decimal
  ms_pairs :: "trades_pair list"
  ms_filled :: "order list"
  ms_ocos :: "order list"
  ms_stop :: bool

definition base_prices :: "pair_symbol \<Rightarrow> decimal \<Rightarrow> (decimal \<times> decimal) result" where
  "base_prices y tether_irt =
     (if sy_base y = ''USDT'' then Inr (tether_irt, 1)
      else bindE (guardE DivisionByZero (tether_irt \<noteq> 0)) (\<lambda>_. Inr (1, 1 / tether_irt)))"

definition match_one ::
  "market_env \<Rightarrow> decimal \<Rightarrow> pair_symbol \<Rightarrow> order \<Rightarrow> wallet \<Rightarrow> order \<Rightarrow> decimal \<Rightarrow> 'z match_state \<Rightarrow> 'z match_state result" where
  "match_one env tether_irt y self tw maker match_amount ms =
     bindE (base_prices y tether_irt) (\<lambda>(irt, usdt).
     bindE (row_of_wallet (ms_db ms) (o_wallet maker)) (\<lambda>mw.
     let (gid, s) = uuid4 (ms_db ms) in
     bindE (init_pair y maker mw self tw match_amount (o_price maker) SRC_MARKET irt usdt gid) (\<lambda>tp.
     bindE (release_order_lock s (ms_pipe ms) self tw match_amount) (\<lambda>p.
     bindE (release_order_lock s p maker mw match_amount) (\<lambda>p.
     bindE (register_transactions env False y (o_side maker) mw tw tp s p) (\<lambda>(tp, s, p).
     bindE (update_filled_amount s [o_id self, o_id maker] match_amount) (\<lambda>s.
     let unfilled = ms_unfilled ms - match_amount; full = (match_amount = unfilled_amount y maker) in
     bindE (if full then save_status s (o_id maker) FILLED else Inr s) (\<lambda>s.
     bindE (if unfilled = 0
            then bindE (if o_fill_type self = MARKET then release_lock s p (o_group self) None else Inr p) (\<lambda>p.
                 bindE (save_status s (o_id self) FILLED) (\<lambda>s. Inr (s, p)))
            else Inr (s, p)) (\<lambda>(s, p).
     Inr (ms\<lparr>ms_db := s, ms_pipe := p, ms_unfilled := unfilled,
             ms_status := if unfilled = 0 then FILLED else ms_status ms,
             ms_pairs := ms_pairs ms @ [tp],
             ms_filled := if full then ms_filled ms @ [maker] else ms_filled ms,
             ms_ocos := if o_oco maker \<noteq> None then ms_ocos ms @ [maker] else ms_ocos ms,
             ms_stop := unfilled = 0\<rparr>))))))))))"

definition match_step ::
  "market_env \<Rightarrow> decimal \<Rightarrow> pair_symbol \<Rightarrow> order \<Rightarrow> wallet \<Rightarrow> 'z match_state \<Rightarrow> order \<Rightarrow> 'z match_state result" where
  "match_step env tether_irt y self tw ms maker =
     (if ms_stop ms then Inr ms
      else if o_tif self = ME_IOC \<and> acc_id (o_account maker) \<noteq> acc_id (o_account self) then Inr (ms\<lparr>ms_stop := True\<rparr>)
      else (let match_amount = min (unfilled_amount y maker) (ms_unfilled ms) in
            if match_amount \<le> 0 then Inr ms
            else match_one env tether_irt y self tw maker match_amount ms))"

text \<open>What is left of an order that must not stay in the book.\<close>

definition never_rests :: "order \<Rightarrow> bool" where
  "never_rests x \<longleftrightarrow> o_fill_type x = MARKET \<or> o_tif x \<in> {IOC, ME_IOC}"

definition cancel_rest ::
  "order \<Rightarrow> order_status \<Rightarrow> ('z) market_db_scheme \<Rightarrow> pipeline \<Rightarrow> (('z) market_db_scheme \<times> pipeline) result" where
  "cancel_rest self status s p =
     (if never_rests self \<and> status = NEW
      then bindE (release_lock s p (o_group self) None) (\<lambda>p.
           bindE (save_status s (o_id self) CANCELED) (\<lambda>s. Inr (s, p)))
      else Inr (s, p))"

definition set_last_trade :: "market_env \<Rightarrow> pair_symbol \<Rightarrow> decimal \<Rightarrow> ('z) market_db_scheme \<Rightarrow> ('z) market_db_scheme" where
  "set_last_trade env y price s =
     s\<lparr>symbols := map (\<lambda>z. if sy_name z = sy_name y
         then z\<lparr>last_trade_time := Some (now env), last_trade_price := Some price\<rparr> else z) (symbols s)\<rparr>"

text \<open>\<^verbatim>\<open>trade_volume_irt\<close> is a whole number: the database rounds half away from zero.\<close>

definition round_half_up :: "decimal \<Rightarrow> int" where
  "round_half_up x = (if 0 \<le> x then \<lfloor>x + 1 / 2\<rfloor> else - \<lfloor>1 / 2 - x\<rfloor>)"

definition add_trade_volume :: "('z) market_db_scheme \<Rightarrow> trade \<Rightarrow> ('z) market_db_scheme" where
  "add_trade_volume s t =
     (if is_system (bt_account t) then s
      else let i = trade_account t;
               old = (case map_of (trade_volumes s) i of None \<Rightarrow> 0 | Some v \<Rightarrow> v)
           in s\<lparr>trade_volumes := AList.update i (round_half_up (of_int old + irt_value t)) (trade_volumes s)\<rparr>)"

record matched_trades =
  mt_trades :: "trade list"
  mt_pairs :: "(trade \<times> trade) list"
  mt_filled :: "order list"
  mt_to_cancel :: "stop_loss list"

definition no_trades :: matched_trades where
  "no_trades = \<lparr>mt_trades = [], mt_pairs = [], mt_filled = [], mt_to_cancel = []\<rparr>"

definition is_matched :: "matched_trades \<Rightarrow> bool" where
  "is_matched m \<longleftrightarrow> mt_trades m \<noteq> [] \<and> mt_pairs m \<noteq> []"

fun pair_up :: "'a list \<Rightarrow> ('a \<times> 'a) list" where
  "pair_up (x # y # xs) = (x, y) # pair_up xs"
| "pair_up _ = []"

text \<open>After the loop: the rest is canceled, the trades are stored, the accounting follows.\<close>

definition update_ocos ::
  "market_env \<Rightarrow> order list \<Rightarrow> ('z) market_db_scheme \<Rightarrow> pipeline \<Rightarrow> (('z) market_db_scheme \<times> pipeline) result" where
  "update_ocos env xs s p =
     foldE (\<lambda>(s, p) x. case o_oco x of None \<Rightarrow> Inr (s, p) | Some i \<Rightarrow> handle_oco_updates env x i s p) (s, p) xs"

definition record_trades ::
  "market_env \<Rightarrow> pair_symbol \<Rightarrow> wallet \<Rightarrow> order list \<Rightarrow> trade list \<Rightarrow> ('z) market_db_scheme \<Rightarrow> pipeline
     \<Rightarrow> (('z) market_db_scheme \<times> pipeline) result" where
  "record_trades env y tw oco_orders ts s p =
     (if ts = [] then Inr (s, p)
      else bindE (update_ocos env oco_orders (set_last_trade env y (bt_price (last ts)) s) p) (\<lambda>(s, p).
           Inr (create_trade_revenues env y tw (pair_up ts) s, p)))"

definition finish_match ::
  "market_env \<Rightarrow> pair_symbol \<Rightarrow> order \<Rightarrow> wallet \<Rightarrow> 'z match_state
     \<Rightarrow> (matched_trades \<times> ('z) market_db_scheme \<times> pipeline) result" where
  "finish_match env y self tw ms =
     bindE (cancel_rest self (ms_status ms) (ms_db ms) (ms_pipe ms)) (\<lambda>(s, p).
     bindE (bulk_create_trades s (concat (map pair_trades (ms_pairs ms)))) (\<lambda>(ts, s).
     bindE (record_trades env y tw (ms_ocos ms) ts s p) (\<lambda>(s, p).
     Inr (\<lparr>mt_trades = ts, mt_pairs = pair_up ts, mt_filled = ms_filled ms, mt_to_cancel = []\<rparr>,
          foldl add_trade_volume s ts, p))))"

text \<open>The loop over the queue.\<close>

definition match_loop ::
  "market_env \<Rightarrow> decimal \<Rightarrow> pair_symbol \<Rightarrow> order \<Rightarrow> wallet \<Rightarrow> decimal \<Rightarrow> order list \<Rightarrow> ('z) market_db_scheme \<Rightarrow> pipeline
     \<Rightarrow> 'z match_state result" where
  "match_loop env tether_irt y self tw unfilled makers s p =
     foldE (match_step env tether_irt y self tw)
       \<lparr>ms_db = s, ms_pipe = p, ms_status = o_status self, ms_unfilled = unfilled, ms_pairs = [], ms_filled = [],
        ms_ocos = (if o_oco self \<noteq> None then [self] else []), ms_stop = False\<rparr> makers"

definition to_fill :: "pair_symbol \<Rightarrow> order \<Rightarrow> decimal option \<Rightarrow> decimal" where
  "to_fill y self overriding_fill_amount =
     (case overriding_fill_amount of
        Some a \<Rightarrow> if a \<noteq> 0 then a else unfilled_amount y self | None \<Rightarrow> unfilled_amount y self)"

definition make_match ::
  "market_env \<Rightarrow> order \<Rightarrow> decimal option \<Rightarrow> ('z) market_db_scheme \<Rightarrow> pipeline
     \<Rightarrow> (matched_trades \<times> ('z) market_db_scheme \<times> pipeline) result" where
  "make_match env self overriding_fill_amount s p =
     bindE (symbol_row s (o_symbol self)) (\<lambda>y.
     bindE (row_of_wallet s (o_wallet self)) (\<lambda>tw.
     let makers = matching_orders s self; unfilled = to_fill y self overriding_fill_amount in
     if o_tif self = FOK \<and> sum_of (\<lambda>x. o_amount x - o_filled x) makers < unfilled
     then bindE (release_lock s p (o_group self) None) (\<lambda>p.
          bindE (save_status s (o_id self) CANCELED) (\<lambda>s. Inr (no_trades, s, p)))
     else if makers = []
     then bindE (cancel_rest self (o_status self) s p) (\<lambda>(s, p). Inr (no_trades, s, p))
     else
       bindE (get_last_usdt_irt env s) (\<lambda>tether_irt.
       bindE (match_loop env tether_irt y self tw unfilled makers s p) (\<lambda>ms.
       finish_match env y self tw ms))))"

section \<open>The engine keeps the ledger\<close>

text \<open>\<open>grows\<close>: a step that keeps the block's meaning and every wallet read so far.\<close>

definition grows :: "('z) ledger_scheme \<Rightarrow> pipeline \<Rightarrow> ('z) ledger_scheme \<Rightarrow> pipeline \<Rightarrow> bool" where
  "grows s p s' p' \<longleftrightarrow> (block_ok s p \<longrightarrow> block_ok s' p') \<and> (\<forall>w. known s w \<longrightarrow> known s' w)"

lemma grows_refl [simp]: "grows s p s p"
  by (simp add: grows_def)

lemma grows_trans [trans]: "grows s p t q \<Longrightarrow> grows t q u r \<Longrightarrow> grows s p u r"
  by (auto simp: grows_def)

lemma grows_same: "same_ledger s s' \<Longrightarrow> grows s p s' p"
  by (simp add: grows_def same_ledger_block)

lemma base_wallet_of_keeps:
  assumes "base_wallet_of s y w = (b, s')" and "block_ok s p"
  shows "block_ok s' p" and "known s' b" and "known s u \<Longrightarrow> known s' u"
  using get_wallet_inv [OF assms(1) [unfolded base_wallet_of_def] assms(2)] by blast+

text \<open>
  The contract of whoever collects the fee of a trade; the matching engine asks for nothing
  else.
\<close>

locale fee_collector =
  fixes collect :: "trade \<Rightarrow> wallet \<Rightarrow> ('z) market_db_scheme \<Rightarrow> pipeline
      \<Rightarrow> (trade \<times> ('z) market_db_scheme \<times> pipeline) result"
  assumes collect_keeps: "\<And>t w s p t' s' p'. collect t w s p = Inr (t', s', p') \<Longrightarrow> block_ok s p \<Longrightarrow> known s w
      \<Longrightarrow> block_ok s' p' \<and> (\<forall>u. known s u \<longrightarrow> known s' u)"
    and collect_fields: "\<And>t w s p t' s' p'. collect t w s p = Inr (t', s', p') \<Longrightarrow>
      bt_amount t' = bt_amount t \<and> bt_price t' = bt_price t \<and> tr_order t' = tr_order t \<and> bt_side t' = bt_side t"
begin

lemma collect_both:
  assumes "collect t w s p = Inr (t', s1, p1)" and "collect u v s1 p1 = Inr (u', s2, p2)"
    and "block_ok s p" and "known s w" and "known s v"
  shows "block_ok s2 p2 \<and> (\<forall>x. known s x \<longrightarrow> known s2 x)"
  using collect_keeps [OF assms(1,3,4)] collect_keeps [OF assms(2)] assms(5) by blast

end

lemma register_fee_of_keeps:
  assumes "register_fee_of env y t w s p = Inr (t', s', p')" and "block_ok s p" and "known s w"
  shows "block_ok s' p' \<and> (\<forall>u. known s u \<longrightarrow> known s' u)"
proof -
  from assms(1) obtain bw r i where b: "base_wallet_of s y w = (bw, r)"
      "register_fee_transactions (cfg env) (now env) False t w bw (tr_group t) r p = Inr (i, s', p')"
    by (auto simp: register_fee_of_def result_simps Let_def)
  note k = base_wallet_of_keeps [OF b(1) assms(2)]
  from register_fee_keeps [OF b(2) k(1)] k assms(3) show ?thesis by blast
qed

lemma register_fee_of_fields:
  "register_fee_of env y t w s p = Inr (t', s', p') \<Longrightarrow>
     bt_amount t' = bt_amount t \<and> bt_price t' = bt_price t \<and> tr_order t' = tr_order t \<and> bt_side t' = bt_side t"
  by (auto simp: register_fee_of_def result_simps Let_def with_fee_def)

interpretation fees: fee_collector "register_fee_of env y" for env y
  by unfold_locales (auto dest: register_fee_of_keeps register_fee_of_fields)

lemma register_base_keeps:
  assumes "register_trade_base_transaction y sd mw tw t s p = Inr (s', p')" and "block_ok s p"
  shows "block_ok s' p' \<and> (\<forall>u. known s u \<longrightarrow> known s' u)"
proof -
  from assms(1) obtain a b sndr s1 rcvr where
    1: "base_wallet_of s y a = (sndr, s1)" and 2: "base_wallet_of s1 y b = (rcvr, s')"
    and 3: "post p sndr rcvr (bt_amount t * bt_price t) SC_TRADE (tr_group t) = Inr p'"
    by (auto simp: register_trade_base_transaction_def result_simps Let_def split: if_splits)
  note k1 = base_wallet_of_keeps [OF 1 assms(2)]
  note k2 = base_wallet_of_keeps [OF 2 k1(1)]
  from post_inv [OF 3 k2(1)] k1 k2 show ?thesis by blast
qed

lemma register_transactions_keeps:
  assumes "register_transactions env False y sd mw tw tp s p = Inr (tp', s', p')"
    and "block_ok s p" and "known s mw" and "known s tw"
  shows "block_ok s' p' \<and> (\<forall>u. known s u \<longrightarrow> known s' u)"
proof -
  from assms(1) obtain q s1 p1 tt s2 p2 mt where
    1: "register_trade_transaction p sd mw tw (maker_trade tp) = Inr q"
    and 2: "register_trade_base_transaction y sd mw tw (maker_trade tp) s q = Inr (s1, p1)"
    and 3: "register_fee_of env y (taker_trade tp) tw s1 p1 = Inr (tt, s2, p2)"
    and 4: "register_fee_of env y (maker_trade tp) mw s2 p2 = Inr (mt, s', p')"
    by (auto simp: register_transactions_def result_simps)
  have "block_ok s q"
    using 1 assms(2-4) by (auto simp: register_trade_transaction_def split: if_splits intro: post_inv)
  with register_base_keeps [OF 2] have "block_ok s1 p1" "\<forall>u. known s u \<longrightarrow> known s1 u" by auto
  with fees.collect_both [OF 3 4] assms(3,4) show ?thesis by blast
qed

lemma register_transactions_fields:
  assumes "register_transactions env fake y sd mw tw tp s p = Inr (tp', s', p')"
  shows "bt_amount (maker_trade tp') = bt_amount (maker_trade tp) \<and> bt_price (maker_trade tp') = bt_price (maker_trade tp)
    \<and> tr_order (maker_trade tp') = tr_order (maker_trade tp) \<and> bt_side (maker_trade tp') = bt_side (maker_trade tp)
    \<and> bt_amount (taker_trade tp') = bt_amount (taker_trade tp) \<and> bt_price (taker_trade tp') = bt_price (taker_trade tp)
    \<and> tr_order (taker_trade tp') = tr_order (taker_trade tp) \<and> bt_side (taker_trade tp') = bt_side (taker_trade tp)"
  using assms fees.collect_fields
  by (auto simp: register_transactions_def result_simps simp del: split_paired_Ex) blast+

lemma row_of_wallet_known: "row_of_wallet s i = Inr w \<Longrightarrow> known s w"
  by (simp add: row_of_wallet_def known_found)

lemma uuid4_same: "uuid4 s = (g, s') \<Longrightarrow> same_ledger s s'"
  by (auto simp: uuid4_def same_ledger_def)

lemma release_order_lock_keeps:
  "release_order_lock s p x w a = Inr p' \<Longrightarrow> block_ok s p \<Longrightarrow> block_ok s p'"
  by (auto simp: release_order_lock_def result_simps intro: release_lock_inv)

text \<open>The steps of a match, in the order they are taken.\<close>

lemma match_one_steps:
  assumes "match_one env tether y self tw maker m ms = Inr ms'"
  obtains irt usdt mw gid s0 tp0 p1 p2 tp s3 p3 s4 s5 s6 p6 where
    "row_of_wallet (ms_db ms) (o_wallet maker) = Inr mw" "uuid4 (ms_db ms) = (gid, s0)"
    "init_pair y maker mw self tw m (o_price maker) SRC_MARKET irt usdt gid = Inr tp0"
    "release_order_lock s0 (ms_pipe ms) self tw m = Inr p1" "release_order_lock s0 p1 maker mw m = Inr p2"
    "register_transactions env False y (o_side maker) mw tw tp0 s0 p2 = Inr (tp, s3, p3)"
    "update_filled_amount s3 [o_id self, o_id maker] m = Inr s4"
    "(if m = unfilled_amount y maker then save_status s4 (o_id maker) FILLED else Inr s4) = Inr s5"
    "(if ms_unfilled ms - m = 0
      then bindE (if o_fill_type self = MARKET then release_lock s5 p3 (o_group self) None else Inr p3) (\<lambda>p.
           bindE (save_status s5 (o_id self) FILLED) (\<lambda>s. Inr (s, p)))
      else Inr (s5, p3)) = Inr (s6, p6)"
    "ms' = ms\<lparr>ms_db := s6, ms_pipe := p6, ms_unfilled := ms_unfilled ms - m,
             ms_status := if ms_unfilled ms - m = 0 then FILLED else ms_status ms, ms_pairs := ms_pairs ms @ [tp],
             ms_filled := if m = unfilled_amount y maker then ms_filled ms @ [maker] else ms_filled ms,
             ms_ocos := if o_oco maker \<noteq> None then ms_ocos ms @ [maker] else ms_ocos ms,
             ms_stop := ms_unfilled ms - m = 0\<rparr>"
  using assms unfolding match_one_def Let_def by (elim bindE_InrE) (auto simp: case_prod_eq_Inr elim!: bindE_InrE split: prod.splits)

lemma match_one_keeps:
  assumes "match_one env tether y self tw maker m ms = Inr ms'"
    and "block_ok (ms_db ms) (ms_pipe ms)" and "known (ms_db ms) tw"
  shows "block_ok (ms_db ms') (ms_pipe ms') \<and> known (ms_db ms') tw"
  using assms(1)
proof (rule match_one_steps)
  fix irt usdt mw gid s0 tp0 p1 p2 tp s3 p3 s4 s5 s6 p6
  assume w: "row_of_wallet (ms_db ms) (o_wallet maker) = Inr mw" and u: "uuid4 (ms_db ms) = (gid, s0)"
    and r1: "release_order_lock s0 (ms_pipe ms) self tw m = Inr p1" and r2: "release_order_lock s0 p1 maker mw m = Inr p2"
    and t: "register_transactions env False y (o_side maker) mw tw tp0 s0 p2 = Inr (tp, s3, p3)"
    and f: "update_filled_amount s3 [o_id self, o_id maker] m = Inr s4"
    and sv: "(if m = unfilled_amount y maker then save_status s4 (o_id maker) FILLED else Inr s4) = Inr s5"
    and e: "(if ms_unfilled ms - m = 0
      then bindE (if o_fill_type self = MARKET then release_lock s5 p3 (o_group self) None else Inr p3) (\<lambda>p.
           bindE (save_status s5 (o_id self) FILLED) (\<lambda>s. Inr (s, p)))
      else Inr (s5, p3)) = Inr (s6, p6)"
    and ms': "ms' = ms\<lparr>ms_db := s6, ms_pipe := p6, ms_unfilled := ms_unfilled ms - m,
             ms_status := if ms_unfilled ms - m = 0 then FILLED else ms_status ms, ms_pairs := ms_pairs ms @ [tp],
             ms_filled := if m = unfilled_amount y maker then ms_filled ms @ [maker] else ms_filled ms,
             ms_ocos := if o_oco maker \<noteq> None then ms_ocos ms @ [maker] else ms_ocos ms,
             ms_stop := ms_unfilled ms - m = 0\<rparr>"
  note s0 = uuid4_same [OF u, THEN same_ledger_block(1)] uuid4_same [OF u, THEN same_ledger_block(2)]
  have "block_ok s0 p2"
    using release_order_lock_keeps [OF r2 release_order_lock_keeps [OF r1]] assms(2) s0 by simp
  moreover have "known s0 mw" "known s0 tw" using s0 row_of_wallet_known [OF w] assms(3) by simp_all
  ultimately have s3: "block_ok s3 p3" "known s3 tw"
    using register_transactions_keeps [OF t] by blast+
  have s45: "same_ledger s3 s5"
    using update_filled_amount_same [OF f] sv by (auto split: if_splits dest: save_status_same intro: same_ledger_trans)
  then have s5: "block_ok s5 p3" "known s5 tw" using s3 by (simp_all add: same_ledger_block)
  have "block_ok s6 p6 \<and> known s6 tw"
  proof (cases "ms_unfilled ms - m = 0")
    case False
    with e s5 show ?thesis by simp
  next
    case True
    with e obtain q where q: "(if o_fill_type self = MARKET then release_lock s5 p3 (o_group self) None else Inr p3) = Inr q"
        "save_status s5 (o_id self) FILLED = Inr s6" "p6 = q"
      by (auto elim!: bindE_InrE)
    then have "block_ok s5 q" using s5(1) by (auto split: if_splits intro: release_lock_inv)
    with save_status_same [OF q(2)] q(3) s5(2) show ?thesis by (simp add: same_ledger_block)
  qed
  then show ?thesis by (simp add: ms')
qed

lemma match_step_keeps:
  assumes "match_step env tether y self tw ms maker = Inr ms'"
    and "block_ok (ms_db ms) (ms_pipe ms) \<and> known (ms_db ms) tw"
  shows "block_ok (ms_db ms') (ms_pipe ms') \<and> known (ms_db ms') tw"
  using assms by (auto simp: match_step_def Let_def split: if_splits dest: match_one_keeps)

lemma cancel_rest_keeps:
  assumes "cancel_rest self st s p = Inr (s', p')" and "block_ok s p"
  shows "block_ok s' p'" and "known s' w = known s w"
proof -
  from assms(1) consider "s' = s" "p' = p"
    | "release_lock s p (o_group self) None = Inr p'" "save_status s (o_id self) CANCELED = Inr s'"
    by (auto simp: cancel_rest_def result_simps split: if_splits)
  then show "block_ok s' p'" "known s' w = known s w"
    using assms(2) by (cases; auto dest!: save_status_same simp: same_ledger_block intro: release_lock_inv)+
qed

lemma add_trade_volume_same: "same_ledger s (foldl add_trade_volume s ts)"
proof (induction ts arbitrary: s)
  case (Cons t ts)
  have "same_ledger s (add_trade_volume s t)" by (simp add: add_trade_volume_def same_ledger_def Let_def)
  with Cons show ?case by (auto intro: same_ledger_trans)
qed simp

lemma record_trades_keeps:
  assumes "record_trades env y tw xs ts s p = Inr (s', p')" and "block_ok s p"
  shows "block_ok s' p'" and "known s' w = known s w"
proof -
  have "block_ok s' p' \<and> known s' w = known s w"
  proof (cases "ts = []")
    case True
    with assms show ?thesis by (simp add: record_trades_def)
  next
    case False
    with assms(1) obtain r where r: "update_ocos env xs (set_last_trade env y (bt_price (last ts)) s) p = Inr (r, p')"
        "s' = create_trade_revenues env y tw (pair_up ts) r"
      by (auto simp: record_trades_def elim!: bindE_InrE)
    have "(\<lambda>(t, q). block_ok t q \<and> known t w = known s w) (r, p')"
      by (rule foldE_invariant [OF r(1) [unfolded update_ocos_def]])
        (use assms(2) in \<open>auto simp: set_last_trade_def handle_oco_updates_keeps split: option.splits\<close>)
    with r(2) show ?thesis by (simp add: create_trade_revenues_def)
  qed
  then show "block_ok s' p'" "known s' w = known s w" by blast+
qed

lemma finish_match_keeps:
  assumes "finish_match env y self tw ms = Inr (m, s', p')" and "block_ok (ms_db ms) (ms_pipe ms)"
  shows "block_ok s' p'" and "known s' w = known (ms_db ms) w"
proof -
  from assms(1) obtain s1 p1 ts s2 s3 where
    c: "cancel_rest self (ms_status ms) (ms_db ms) (ms_pipe ms) = Inr (s1, p1)"
    and b: "bulk_create_trades s1 (concat (map pair_trades (ms_pairs ms))) = Inr (ts, s2)"
    and r: "record_trades env y tw (ms_ocos ms) ts s2 p1 = Inr (s3, p')"
    and e: "s' = foldl add_trade_volume s3 ts"
    by (auto simp: finish_match_def elim!: bindE_InrE)
  note k1 = cancel_rest_keeps [OF c assms(2)]
  have k2: "block_ok s2 p1" "known s2 w = known (ms_db ms) w"
    using bulk_create_trades_same [OF b] k1 by (simp_all add: same_ledger_block)
  from record_trades_keeps [OF r k2(1)] k2(2) add_trade_volume_same [of s3 ts] e
  show "block_ok s' p'" "known s' w = known (ms_db ms) w" by (simp_all add: same_ledger_block)
qed

lemma match_loop_keeps:
  assumes "match_loop env tether y self tw unf makers s p = Inr ms" and "block_ok s p" and "known s tw"
  shows "block_ok (ms_db ms) (ms_pipe ms) \<and> known (ms_db ms) tw"
  by (rule foldE_invariant [OF assms(1) [unfolded match_loop_def], where P = "\<lambda>ms. block_ok (ms_db ms) (ms_pipe ms) \<and> known (ms_db ms) tw"])
    (simp add: assms(2,3), rule match_step_keeps)

text \<open>The ways through a match.\<close>

lemma make_match_cases:
  assumes "make_match env self ov s p = Inr (m, s', p')"
  obtains y tw where "symbol_row s (o_symbol self) = Inr y" "row_of_wallet s (o_wallet self) = Inr tw"
      "m = no_trades" "release_lock s p (o_group self) None = Inr p'" "save_status s (o_id self) CANCELED = Inr s'"
      "o_tif self = FOK" "sum_of (\<lambda>x. o_amount x - o_filled x) (matching_orders s self) < to_fill y self ov"
  | y tw where "symbol_row s (o_symbol self) = Inr y" "row_of_wallet s (o_wallet self) = Inr tw"
      "m = no_trades" "matching_orders s self = []" "cancel_rest self (o_status self) s p = Inr (s', p')"
  | y tw tether ms where "symbol_row s (o_symbol self) = Inr y" "row_of_wallet s (o_wallet self) = Inr tw"
      "o_tif self = FOK \<Longrightarrow> to_fill y self ov \<le> sum_of (\<lambda>x. o_amount x - o_filled x) (matching_orders s self)"
      "match_loop env tether y self tw (to_fill y self ov) (matching_orders s self) s p = Inr ms"
      "finish_match env y self tw ms = Inr (m, s', p')"
proof -
  from assms obtain y tw where y: "symbol_row s (o_symbol self) = Inr y" and w: "row_of_wallet s (o_wallet self) = Inr tw"
    by (auto simp: make_match_def elim!: bindE_InrE)
  note body = assms [unfolded make_match_def y w bindE_simps Let_def]
  show ?thesis
  proof (cases "o_tif self = FOK \<and> sum_of (\<lambda>x. o_amount x - o_filled x) (matching_orders s self) < to_fill y self ov")
    case True
    with body y w show ?thesis by (intro that(1) [OF y w]) (auto elim!: bindE_InrE)
  next
    case False
    show ?thesis
    proof (cases "matching_orders s self = []")
      case True
      with body y w False show ?thesis by (intro that(2) [OF y w]) (auto elim!: bindE_InrE)
    next
      case f: False
      with body False obtain tether ms where
        "match_loop env tether y self tw (to_fill y self ov) (matching_orders s self) s p = Inr ms"
        "finish_match env y self tw ms = Inr (m, s', p')"
        by (auto elim!: bindE_InrE)
      with False show ?thesis by (intro that(3) [OF y w]) auto
    qed
  qed
qed

lemma make_match_keeps:
  assumes "make_match env self ov s p = Inr (m, s', p')" and "block_ok s p"
  shows "block_ok s' p'"
  using assms(1)
proof (cases rule: make_match_cases)
  case 1
  with assms(2) save_status_same [OF 1(5)] show ?thesis by (simp add: same_ledger_block release_lock_inv)
next
  case 2
  from cancel_rest_keeps(1) [OF 2(5) assms(2)] show ?thesis .
next
  case (3 y tw tether ms)
  from match_loop_keeps [OF 3(4) assms(2) row_of_wallet_known [OF 3(2)]] finish_match_keeps [OF 3(5)]
  show ?thesis by blast
qed

section \<open>What a match does to the queue\<close>

text \<open>
  The specification: the queue gives in its order, each order all it has or what is left to
  fill. \<open>allocate\<close> says which order gives how much at which price.
\<close>

fun allocate :: "pair_symbol \<Rightarrow> decimal \<Rightarrow> order list \<Rightarrow> (nat \<times> decimal \<times> decimal) list" where
  "allocate y u [] = []"
| "allocate y u (x # xs) =
     (let m = min (unfilled_amount y x) u in
      if m \<le> 0 then allocate y u xs else (o_id x, o_price x, m) # allocate y (u - m) xs)"

text \<open>An order with ME\_IOC stops at the first order of another account.\<close>

definition reachable_queue :: "order \<Rightarrow> order list \<Rightarrow> order list" where
  "reachable_queue self xs =
     (if o_tif self = ME_IOC then takeWhile (\<lambda>x. acc_id (o_account x) = acc_id (o_account self)) xs else xs)"

definition trade_fill :: "trade \<Rightarrow> nat \<times> decimal \<times> decimal" where
  "trade_fill t = (tr_order t, bt_price t, bt_amount t)"

definition fills_of :: "order \<Rightarrow> nat \<times> decimal \<times> decimal \<Rightarrow> nat \<times> decimal \<times> decimal" where
  "fills_of self f = (o_id self, snd f)"

definition pair_fill :: "trades_pair \<Rightarrow> (nat \<times> decimal \<times> decimal) \<times> (nat \<times> decimal \<times> decimal)" where
  "pair_fill tp = (trade_fill (maker_trade tp), trade_fill (taker_trade tp))"

lemma match_one_effect:
  assumes "match_one env tether y self tw maker m ms = Inr ms'"
  shows "ms_unfilled ms' = ms_unfilled ms - m" and "ms_stop ms' \<longleftrightarrow> ms_unfilled ms' = 0"
    and "ms_status ms' = (if ms_unfilled ms' = 0 then FILLED else ms_status ms)"
    and "\<exists>tp. ms_pairs ms' = ms_pairs ms @ [tp] \<and> trade_fill (maker_trade tp) = (o_id maker, o_price maker, m)
      \<and> trade_fill (taker_trade tp) = (o_id self, o_price maker, m)"
  using assms
  by (rule match_one_steps; use register_transactions_fields in
      \<open>fastforce simp: init_pair_def init_trade_def result_simps trade_fill_def\<close>)+

lemma foldE_stop: "ms_stop ms \<Longrightarrow> foldE (match_step env tether y self tw) ms xs = Inr ms"
  by (induction xs) (simp_all add: match_step_def)

lemma allocate_nothing: "u \<le> 0 \<Longrightarrow> allocate y u xs = []"
  by (induction xs) (auto simp: Let_def min_def)

lemma match_loop_allocates:
  assumes "foldE (match_step env tether y self tw) ms xs = Inr ms'" and "\<not> ms_stop ms"
  shows "map pair_fill (ms_pairs ms') = map pair_fill (ms_pairs ms)
      @ map (\<lambda>f. (f, fills_of self f)) (allocate y (ms_unfilled ms) (reachable_queue self xs))"
  using assms
proof (induction xs arbitrary: ms)
  case Nil
  then show ?case by (simp add: reachable_queue_def)
next
  case (Cons x xs)
  let ?al = "\<lambda>ms xs. map (\<lambda>f. (f, fills_of self f)) (allocate y (ms_unfilled ms) (reachable_queue self xs))"
  from Cons.prems(1) obtain t where t: "match_step env tether y self tw ms x = Inr t"
      "foldE (match_step env tether y self tw) t xs = Inr ms'"
    by (auto simp only: foldE.simps bindE_eq_Inr)
  show ?case
  proof (cases "o_tif self = ME_IOC \<and> acc_id (o_account x) \<noteq> acc_id (o_account self)")
    case True
    with t(1) Cons.prems(2) have "t = ms\<lparr>ms_stop := True\<rparr>" by (simp add: match_step_def)
    with t(2) have "ms' = ms\<lparr>ms_stop := True\<rparr>" by (simp add: foldE_stop)
    with True show ?thesis by (simp add: reachable_queue_def)
  next
    case False
    then have q: "reachable_queue self (x # xs) = x # reachable_queue self xs" by (auto simp: reachable_queue_def)
    let ?m = "min (unfilled_amount y x) (ms_unfilled ms)"
    show ?thesis
    proof (cases "?m \<le> 0")
      case True
      with t(1) False Cons.prems(2) have "t = ms" by (auto simp: match_step_def Let_def)
      with Cons.IH t(2) Cons.prems(2) True show ?thesis by (simp add: q)
    next
      case m: False
      with t(1) False Cons.prems(2) have one: "match_one env tether y self tw x ?m ms = Inr t"
        by (auto simp: match_step_def Let_def)
      note e = match_one_effect [OF one]
      have "map pair_fill (ms_pairs ms') = map pair_fill (ms_pairs t) @ ?al t xs"
      proof (cases "ms_stop t")
        case True
        with t(2) e(2) show ?thesis by (simp add: foldE_stop allocate_nothing)
      next
        case s: False
        from Cons.IH [OF t(2) s] show ?thesis .
      qed
      moreover from e(4) obtain tp where "ms_pairs t = ms_pairs ms @ [tp]"
          "pair_fill tp = ((o_id x, o_price x, ?m), (o_id self, o_price x, ?m))"
        by (auto simp: pair_fill_def)
      ultimately show ?thesis using e(1) m by (simp add: q Let_def fills_of_def)
    qed
  qed
qed

lemma number_trades_simps [simp]:
  "number_trades i [] = []"
  "number_trades i (t # ts) = t\<lparr>tr_id := i\<rparr> # number_trades (Suc i) ts"
  by (simp_all add: number_trades_def upt_conv_Cons del: upt_Suc)

lemma number_trades_fill [simp]: "trade_fill (t\<lparr>tr_id := i\<rparr>) = trade_fill t"
  by (simp add: trade_fill_def)

definition stored_fill :: "trade \<times> trade \<Rightarrow> (nat \<times> decimal \<times> decimal) \<times> (nat \<times> decimal \<times> decimal)" where
  "stored_fill tt = (trade_fill (fst tt), trade_fill (snd tt))"

lemma pair_up_numbered:
  "map stored_fill (pair_up (number_trades i (concat (map pair_trades tps)))) = map pair_fill tps"
  by (induction tps arbitrary: i) (simp_all add: pair_trades_def stored_fill_def pair_fill_def)

lemma finish_match_pairs:
  assumes "finish_match env y self tw ms = Inr (m, s', p')"
  shows "map stored_fill (mt_pairs m) = map pair_fill (ms_pairs ms)" and "mt_pairs m = pair_up (mt_trades m)"
proof -
  from assms obtain i where i: "mt_trades m = number_trades i (concat (map pair_trades (ms_pairs ms)))"
      "mt_pairs m = pair_up (mt_trades m)"
    by (auto simp: finish_match_def bulk_create_trades_def Let_def result_simps)
  with pair_up_numbered [of i "ms_pairs ms"]
  show "map stored_fill (mt_pairs m) = map pair_fill (ms_pairs ms)" and "mt_pairs m = pair_up (mt_trades m)"
    by simp_all
qed

text \<open>The fills of an order, from the book alone.\<close>

definition expected_fills ::
  "('z) market_db_scheme \<Rightarrow> pair_symbol \<Rightarrow> order \<Rightarrow> decimal option \<Rightarrow> (nat \<times> decimal \<times> decimal) list" where
  "expected_fills s y self ov =
     (if o_tif self = FOK \<and> sum_of (\<lambda>x. o_amount x - o_filled x) (matching_orders s self) < to_fill y self ov then []
      else allocate y (to_fill y self ov) (reachable_queue self (matching_orders s self)))"

lemma make_match_fills:
  assumes "make_match env self ov s p = Inr (m, s', p')"
  shows "\<exists>y. symbol_row s (o_symbol self) = Inr y
      \<and> map stored_fill (mt_pairs m) = map (\<lambda>f. (f, fills_of self f)) (expected_fills s y self ov)"
  using assms
proof (cases rule: make_match_cases)
  case (1 y tw)
  then show ?thesis by (simp add: expected_fills_def no_trades_def)
next
  case (2 y tw)
  then show ?thesis by (simp add: expected_fills_def no_trades_def reachable_queue_def)
next
  case (3 y tw tether ms)
  have "expected_fills s y self ov = allocate y (to_fill y self ov) (reachable_queue self (matching_orders s self))"
    using 3(3) by (auto simp: expected_fills_def)
  with 3(1) match_loop_allocates [OF 3(4) [unfolded match_loop_def]] finish_match_pairs(1) [OF 3(5)]
  show ?thesis by simp
qed

section \<open>What the queue promises\<close>

lemma allocate_mem:
  "(i, pr, a) \<in> set (allocate y u xs) \<Longrightarrow>
     \<exists>x\<in>set xs. o_id x = i \<and> o_price x = pr \<and> 0 < a \<and> a \<le> unfilled_amount y x \<and> a \<le> u"
proof (induction xs arbitrary: u)
  case (Cons x xs)
  show ?case
  proof (cases "min (unfilled_amount y x) u \<le> 0")
    case True
    with Cons show ?thesis by auto
  next
    case False
    with Cons.prems Cons.IH [of "u - min (unfilled_amount y x) u"] show ?thesis
      by (fastforce simp: Let_def)
  qed
qed simp

lemma allocate_total:
  "0 \<le> u \<Longrightarrow> sum_of (\<lambda>f. snd (snd f)) (allocate y u xs) = min u (sum_of (\<lambda>x. max 0 (unfilled_amount y x)) xs)"
proof (induction xs arbitrary: u)
  case (Cons x xs)
  have n: "0 \<le> sum_of (\<lambda>x. max 0 (unfilled_amount y x)) xs" by (rule sum_of_nonneg) simp
  show ?case
  proof (cases "min (unfilled_amount y x) u \<le> 0")
    case True
    with Cons n show ?thesis by (auto simp: min_def max_def split: if_splits)
  next
    case False
    with Cons.IH [of "u - min (unfilled_amount y x) u"] Cons.prems n show ?thesis
      by (auto simp: Let_def min_def max_def)
  qed
qed simp

text \<open>An order behind another gets a fill only once the one before gave all it had.\<close>

lemma allocate_exhausts:
  assumes "(o_id z, pr, a) \<in> set (allocate y u (xs @ zs))" and "o_id z \<notin> o_id ` set xs"
    and "x \<in> set xs" and "0 < unfilled_amount y x"
  shows "(o_id x, o_price x, unfilled_amount y x) \<in> set (allocate y u (xs @ zs))"
  using assms
proof (induction xs arbitrary: u)
  case (Cons w ws)
  let ?m = "min (unfilled_amount y w) u"
  show ?case
  proof (cases "?m \<le> 0")
    case True
    show ?thesis
    proof (cases "u \<le> 0")
      case u: True
      with Cons.prems(1) show ?thesis by (simp add: allocate_nothing del: allocate.simps(2))
    next
      case False
      with True Cons.prems(3,4) have "x \<in> set ws" by (auto simp: min_def split: if_splits)
      with Cons True show ?thesis by simp
    qed
  next
    case False
    with Cons.prems(1,2) have later: "(o_id z, pr, a) \<in> set (allocate y (u - ?m) (ws @ zs))" by (auto simp: Let_def)
    show ?thesis
    proof (cases "x = w")
      case True
      have "0 < u - ?m" using later by (rule contrapos_pp) (simp add: allocate_nothing not_less)
      then have "?m = unfilled_amount y w" by (auto simp: min_def split: if_splits)
      with True False show ?thesis by (simp add: Let_def)
    next
      case x: False
      with Cons.prems(2,3) Cons.IH [OF later _ _ Cons.prems(4)] False show ?thesis by (auto simp: Let_def)
    qed
  qed
qed simp

lemma reachable_queue_prefix: "\<exists>ys. xs = reachable_queue self xs @ ys"
  by (auto simp: reachable_queue_def intro: exI [of _ "dropWhile _ xs"]) (metis takeWhile_dropWhile_id)

section \<open>The taker's row\<close>

definition has_status :: "('z) market_db_scheme \<Rightarrow> nat \<Rightarrow> order_status \<Rightarrow> bool" where
  "has_status s i st \<longleftrightarrow> i \<in> o_id ` set (orders s) \<and> (\<forall>x\<in>set (orders s). o_id x = i \<longrightarrow> o_status x = st)"

lemma has_statusD: "has_status s i st \<Longrightarrow> i \<in> o_id ` set (orders s)"
  by (simp add: has_status_def)

lemma save_status_orders:
  "save_status s j st = Inr s' \<Longrightarrow> orders s' = map (\<lambda>x. if o_id x = j then x\<lparr>o_status := st\<rparr> else x) (orders s)"
  by (auto simp: save_status_def Let_def result_simps)

lemma save_status_ids: "save_status s j st = Inr s' \<Longrightarrow> o_id ` set (orders s') = o_id ` set (orders s)"
proof -
  assume "save_status s j st = Inr s'"
  then have "map o_id (orders s') = map o_id (orders s)" by (auto dest: save_status_orders)
  from arg_cong [OF this, of set] show ?thesis by simp
qed

lemma save_status_has:
  assumes "save_status s j st = Inr s'"
  shows "i \<in> o_id ` set (orders s) \<Longrightarrow> i = j \<Longrightarrow> has_status s' i st"
    and "has_status s i st' \<Longrightarrow> i \<noteq> j \<Longrightarrow> has_status s' i st'"
proof -
  assume "i \<in> o_id ` set (orders s)" "i = j"
  moreover have "\<forall>x\<in>set (orders s'). o_id x = j \<longrightarrow> o_status x = st"
    unfolding save_status_orders [OF assms] set_map ball_simps by simp
  ultimately show "has_status s' i st" by (simp add: has_status_def save_status_ids [OF assms])
next
  assume h: "has_status s i st'" "i \<noteq> j"
  then have "\<forall>x\<in>set (orders s'). o_id x = i \<longrightarrow> o_status x = st'"
    unfolding save_status_orders [OF assms] set_map ball_simps by (simp add: has_status_def)
  with h show "has_status s' i st'" by (simp add: has_status_def save_status_ids [OF assms])
qed

lemma update_filled_has:
  assumes "update_filled_amount s ids m = Inr s'" and "has_status s i st"
  shows "has_status s' i st"
proof -
  from assms(1) have o: "orders s' = map (\<lambda>x. if o_id x \<in> set ids then x\<lparr>o_filled := o_filled x + m\<rparr> else x) (orders s)"
    by (auto simp: update_filled_amount_def Let_def result_simps)
  have "map o_id (orders s') = map o_id (orders s)" by (auto simp: o)
  from arg_cong [OF this, of set] have "o_id ` set (orders s') = o_id ` set (orders s)" by simp
  moreover have "\<forall>x\<in>set (orders s'). o_id x = i \<longrightarrow> o_status x = st"
    using assms(2) by (auto simp: o has_status_def)
  ultimately show ?thesis using assms(2) by (simp add: has_status_def)
qed

lemma get_or_create_wallet_orders:
  "get_or_create_wallet s a acc c m v e = (w, s') \<Longrightarrow> orders s' = orders s"
  by (auto simp: get_or_create_wallet_def Let_def split: option.splits)

lemma get_wallet_orders: "get_wallet s a acc m v e = (w, s') \<Longrightarrow> orders s' = orders s"
  by (simp add: get_wallet_def get_or_create_wallet_orders)

lemma get_wallet_by_id_orders: "get_wallet_by_id c s a i m v = Inr (w, s') \<Longrightarrow> orders s' = orders s"
  by (auto simp: get_wallet_by_id_def result_simps dest: get_or_create_wallet_orders)

lemma register_fee_of_orders:
  assumes "register_fee_of env y t w s p = Inr (t', s', p')"
  shows "orders s' = orders s"
proof -
  from assms obtain bw r i where b: "base_wallet_of s y w = (bw, r)"
      "register_fee_transactions (cfg env) (now env) False t w bw (tr_group t) r p = Inr (i, s', p')"
    by (auto simp: register_fee_of_def result_simps Let_def)
  from b(2) have "orders s' = orders r"
    by (auto simp: register_fee_transactions_def Let_def case_prod_eq_Inr split: option.splits if_splits elim!: bindE_InrE
        dest!: get_wallet_by_id_orders get_wallet_orders)
  with get_wallet_orders [OF b(1) [unfolded base_wallet_of_def]] show ?thesis by simp
qed

lemma register_transactions_orders:
  assumes "register_transactions env False y sd mw tw tp s p = Inr (tp', s', p')"
  shows "orders s' = orders s"
proof -
  from assms obtain q s1 p1 tt s2 p2 mt where
    1: "register_trade_base_transaction y sd mw tw (maker_trade tp) s q = Inr (s1, p1)"
    and 2: "register_fee_of env y (taker_trade tp) tw s1 p1 = Inr (tt, s2, p2)"
    and 3: "register_fee_of env y (maker_trade tp) mw s2 p2 = Inr (mt, s', p')"
    by (auto simp: register_transactions_def result_simps)
  from 1 have "orders s1 = orders s"
    by (auto simp: register_trade_base_transaction_def base_wallet_of_def result_simps Let_def split: if_splits
        dest!: get_wallet_orders)
  with register_fee_of_orders [OF 2] register_fee_of_orders [OF 3] show ?thesis by simp
qed

lemma match_one_status:
  assumes "match_one env tether y self tw maker m ms = Inr ms'" and "o_id maker \<noteq> o_id self"
    and "has_status (ms_db ms) (o_id self) (ms_status ms)"
  shows "has_status (ms_db ms') (o_id self) (ms_status ms')"
  using assms(1)
proof (rule match_one_steps)
  fix irt usdt mw gid s0 tp0 p1 p2 tp s3 p3 s4 s5 s6 p6
  assume u: "uuid4 (ms_db ms) = (gid, s0)"
    and t: "register_transactions env False y (o_side maker) mw tw tp0 s0 p2 = Inr (tp, s3, p3)"
    and f: "update_filled_amount s3 [o_id self, o_id maker] m = Inr s4"
    and sv: "(if m = unfilled_amount y maker then save_status s4 (o_id maker) FILLED else Inr s4) = Inr s5"
    and e: "(if ms_unfilled ms - m = 0
      then bindE (if o_fill_type self = MARKET then release_lock s5 p3 (o_group self) None else Inr p3) (\<lambda>p.
           bindE (save_status s5 (o_id self) FILLED) (\<lambda>s. Inr (s, p)))
      else Inr (s5, p3)) = Inr (s6, p6)"
    and ms': "ms' = ms\<lparr>ms_db := s6, ms_pipe := p6, ms_unfilled := ms_unfilled ms - m,
             ms_status := if ms_unfilled ms - m = 0 then FILLED else ms_status ms, ms_pairs := ms_pairs ms @ [tp],
             ms_filled := if m = unfilled_amount y maker then ms_filled ms @ [maker] else ms_filled ms,
             ms_ocos := if o_oco maker \<noteq> None then ms_ocos ms @ [maker] else ms_ocos ms,
             ms_stop := ms_unfilled ms - m = 0\<rparr>"
  have "orders s3 = orders (ms_db ms)"
    using register_transactions_orders [OF t] u by (auto simp: uuid4_def)
  then have "has_status s3 (o_id self) (ms_status ms)" using assms(3) by (simp add: has_status_def)
  then have "has_status s4 (o_id self) (ms_status ms)" by (rule update_filled_has [OF f])
  then have s5: "has_status s5 (o_id self) (ms_status ms)"
    using sv assms(2) by (auto split: if_splits intro: save_status_has(2))
  then have "has_status s6 (o_id self) (if ms_unfilled ms - m = 0 then FILLED else ms_status ms)"
    using e has_statusD [OF s5] by (auto elim!: bindE_InrE intro: save_status_has(1))
  then show ?thesis by (simp add: ms')
qed

lemma match_loop_status:
  assumes "match_loop env tether y self tw unf makers s p = Inr ms" and "has_status s (o_id self) (o_status self)"
    and "\<forall>x\<in>set makers. o_id x \<noteq> o_id self"
  shows "has_status (ms_db ms) (o_id self) (ms_status ms)"
proof (rule foldE_invariant [OF assms(1) [unfolded match_loop_def], where P = "\<lambda>ms. has_status (ms_db ms) (o_id self) (ms_status ms)"])
  fix t x t'
  assume "has_status (ms_db t) (o_id self) (ms_status t)" "x \<in> set makers" "match_step env tether y self tw t x = Inr t'"
  then show "has_status (ms_db t') (o_id self) (ms_status t')"
    using assms(3) match_one_status by (fastforce simp: match_step_def Let_def split: if_splits)
qed (simp add: assms(2))

lemma cancel_rest_status:
  assumes "cancel_rest self st s p = Inr (s', p')" and "has_status s (o_id self) st"
  shows "has_status s' (o_id self) (if never_rests self \<and> st = NEW then CANCELED else st)"
  using assms(1,2) has_statusD [OF assms(2)]
  by (auto simp: cancel_rest_def elim!: bindE_InrE split: if_splits intro: save_status_has(1))

lemma handle_oco_updates_orders:
  assumes "handle_oco_updates env x i s p = Inr (s', p')"
  shows "orders s' = orders s"
proof -
  have c: "orders t = orders s" if "cancel_another env s i OCO_STOPLOSS False = Inr t" for t
    using that by (auto simp: cancel_another_def cancel_stop_loss_def split: option.splits if_splits)
  from assms obtain t where "cancel_another env s i OCO_STOPLOSS False = Inr t" "orders s' = orders t"
    by (auto simp: handle_oco_updates_def elim!: bindE_InrE split: if_splits)
  with c show ?thesis by simp
qed

lemma record_trades_orders:
  assumes "record_trades env y tw xs ts s p = Inr (s', p')"
  shows "orders s' = orders s"
proof (cases "ts = []")
  case True
  with assms show ?thesis by (simp add: record_trades_def)
next
  case False
  with assms obtain r where r: "update_ocos env xs (set_last_trade env y (bt_price (last ts)) s) p = Inr (r, p')"
      "s' = create_trade_revenues env y tw (pair_up ts) r"
    by (auto simp: record_trades_def elim!: bindE_InrE)
  have "(\<lambda>(t, q). orders t = orders s) (r, p')"
    by (rule foldE_invariant [OF r(1) [unfolded update_ocos_def]])
      (auto simp: set_last_trade_def handle_oco_updates_orders split: option.splits)
  with r(2) show ?thesis by (simp add: create_trade_revenues_def)
qed

lemma finish_match_status:
  assumes "finish_match env y self tw ms = Inr (m, s', p')" and "has_status (ms_db ms) (o_id self) (ms_status ms)"
  shows "has_status s' (o_id self) (if never_rests self \<and> ms_status ms = NEW then CANCELED else ms_status ms)"
proof -
  from assms(1) obtain s1 p1 ts s2 s3 where
    c: "cancel_rest self (ms_status ms) (ms_db ms) (ms_pipe ms) = Inr (s1, p1)"
    and b: "bulk_create_trades s1 (concat (map pair_trades (ms_pairs ms))) = Inr (ts, s2)"
    and r: "record_trades env y tw (ms_ocos ms) ts s2 p1 = Inr (s3, p')"
    and e: "s' = foldl add_trade_volume s3 ts"
    by (auto simp: finish_match_def elim!: bindE_InrE)
  have "orders (foldl add_trade_volume s3 ts) = orders s3"
    by (induction ts arbitrary: s3) (simp_all add: add_trade_volume_def Let_def)
  moreover have "orders s2 = orders s1" using b by (auto simp: bulk_create_trades_def Let_def result_simps)
  ultimately have "orders s' = orders s1" using record_trades_orders [OF r] e by simp
  with cancel_rest_status [OF c assms(2)] show ?thesis by (simp add: has_status_def)
qed

section \<open>The properties of a match\<close>

lemma matching_orders_distinct:
  assumes "distinct (map o_id (orders s))"
  shows "distinct (map o_id (matching_orders s self))"
proof -
  let ?f = "filter (\<lambda>x. o_symbol x = o_symbol self \<and> o_side x = get_opposite_side (o_side self)
      \<and> price_crosses (get_opposite_side (o_side self)) (o_price self) x) (open_orders s)"
  have "mset (map o_id (matching_orders s self)) = mset (map o_id ?f)"
    by (simp add: matching_orders_def Let_def sort_orders_mset)
  moreover have "distinct (map o_id ?f)" unfolding open_orders_def by (intro distinct_map_filter assms)
  ultimately show ?thesis by (metis mset_eq_imp_distinct_iff)
qed

lemma not_fok_queue:
  "o_tif self \<noteq> ME_IOC \<Longrightarrow> reachable_queue self xs = xs"
  by (simp add: reachable_queue_def)

lemma expected_fills_mem:
  "f \<in> set (expected_fills s y self ov) \<Longrightarrow> f \<in> set (allocate y (to_fill y self ov) (reachable_queue self (matching_orders s self)))"
  by (auto simp: expected_fills_def split: if_splits)

lemma expected_fills_order:
  assumes d: "distinct (map o_id (orders s))" and xz: "x \<in> set (matching_orders s self)" "z \<in> set (matching_orders s self)"
    and b: "better (get_opposite_side (o_side self)) x z" "o_id x \<noteq> o_id z"
    and tif: "o_tif self \<noteq> ME_IOC" and some: "0 < unfilled_amount y x"
    and f: "(o_id z, pr, a) \<in> set (expected_fills s y self ov)"
  shows "(o_id x, o_price x, unfilled_amount y x) \<in> set (expected_fills s y self ov)"
proof -
  let ?q = "matching_orders s self"
  from f have eq: "expected_fills s y self ov = allocate y (to_fill y self ov) ?q"
    using tif by (auto simp: expected_fills_def not_fok_queue split: if_splits)
  from xz(2) obtain xs zs where q: "?q = xs @ z # zs" by (meson split_list)
  have dq: "distinct (map o_id (xs @ z # zs))" using matching_orders_distinct [OF d] q by metis
  have "x \<notin> set zs"
  proof
    assume "x \<in> set zs"
    with matching_orders_sorted [of self s] have "better (get_opposite_side (o_side self)) z x"
      by (simp add: q sorted_wrt_append)
    with b show False by (auto simp: better_def order_key_def)
  qed
  with xz(1) b(2) have "x \<in> set xs" by (auto simp: q)
  moreover have "o_id z \<notin> o_id ` set xs" using dq by auto
  ultimately show ?thesis
    using allocate_exhausts [of z pr a y "to_fill y self ov" xs "z # zs" x] f some unfolding eq q by blast
qed

lemma stored_fills_mem:
  assumes "map stored_fill ps = map (\<lambda>f. (f, fills_of self f)) fs"
  shows "t \<in> set ps \<Longrightarrow> trade_fill (fst t) \<in> set fs \<and> trade_fill (snd t) = fills_of self (trade_fill (fst t))"
    and "f \<in> set fs \<Longrightarrow> \<exists>t\<in>set ps. trade_fill (fst t) = f"
proof -
  have s: "stored_fill ` set ps = (\<lambda>f. (f, fills_of self f)) ` set fs" using assms by (metis set_map)
  then show "t \<in> set ps \<Longrightarrow> trade_fill (fst t) \<in> set fs \<and> trade_fill (snd t) = fills_of self (trade_fill (fst t))"
    by (auto simp: stored_fill_def dest!: equalityD1 subsetD [of "stored_fill ` set ps"])
  show "f \<in> set fs \<Longrightarrow> \<exists>t\<in>set ps. trade_fill (fst t) = f"
    using s by (auto simp: stored_fill_def dest!: equalityD2)
qed


text \<open>
  C13. Every trade of a match has the price of the maker's order, which is never worse for the
  taker than the taker's own limit, and a positive amount that the maker still had.
\<close>

theorem trades_within_limits:
  assumes "make_match env self ov s p = Inr (m, s', p')" and "symbol_row s (o_symbol self) = Inr y"
    and "t \<in> set (mt_pairs m)"
  shows "\<exists>x\<in>set (orders s). o_id x = tr_order (fst t) \<and> o_status x = NEW \<and> o_symbol x = o_symbol self
      \<and> o_side x \<noteq> o_side self \<and> bt_price (fst t) = o_price x \<and> bt_price (snd t) = o_price x
      \<and> (if o_side self = BUY then o_price x \<le> o_price self else o_price self \<le> o_price x)
      \<and> 0 < bt_amount (fst t) \<and> bt_amount (fst t) \<le> unfilled_amount y x
      \<and> bt_amount (snd t) = bt_amount (fst t) \<and> tr_order (snd t) = o_id self"
proof -
  from make_match_fills [OF assms(1)] assms(2)
  have e: "map stored_fill (mt_pairs m) = map (\<lambda>f. (f, fills_of self f)) (expected_fills s y self ov)" by auto
  from stored_fills_mem(1) [OF e assms(3)]
  have f: "trade_fill (fst t) \<in> set (expected_fills s y self ov)" "trade_fill (snd t) = (o_id self, snd (trade_fill (fst t)))"
    by (simp_all add: fills_of_def)
  obtain x where x: "x \<in> set (reachable_queue self (matching_orders s self))" "o_id x = tr_order (fst t)"
      "o_price x = bt_price (fst t)" "0 < bt_amount (fst t)" "bt_amount (fst t) \<le> unfilled_amount y x"
    using allocate_mem [OF expected_fills_mem [OF f(1) [unfolded trade_fill_def]]] by blast
  then have "x \<in> set (matching_orders s self)"
    by (auto simp: reachable_queue_def dest: set_takeWhileD split: if_splits)
  note q = matching_orders_props [OF this]
  have "o_side x \<noteq> o_side self" using q(4) by (cases "o_side self") (simp_all add: get_opposite_side_def)
  with q(1-3) q(5) [unfolded price_crosses_limit] x(2-5) f(2) show ?thesis
    by (intro bexI [of _ x]) (auto simp: trade_fill_def)
qed



text \<open>
  C15. No market order and no immediate-or-cancel order ever rests in the book: after the
  match its row is filled or canceled.
\<close>

theorem immediate_orders_never_rest:
  assumes "make_match env self ov s p = Inr (m, s', p')" and "never_rests self" and "self \<in> set (orders s)"
    and "distinct (map o_id (orders s))" and "x \<in> set (orders s')" and "o_id x = o_id self"
  shows "o_status x \<noteq> NEW"
proof -
  have hs: "has_status s (o_id self) (o_status self)"
    unfolding has_status_def using assms(3,4) by (auto simp: distinct_map dest: inj_onD)
  have other: "\<forall>z\<in>set (matching_orders s self). o_id z \<noteq> o_id self"
  proof
    fix z assume "z \<in> set (matching_orders s self)"
    note q = matching_orders_props [OF this]
    show "o_id z \<noteq> o_id self"
    proof
      assume "o_id z = o_id self"
      with q(1) assms(3,4) have "z = self" by (auto simp: distinct_map dest: inj_onD)
      with q(4) show False by (cases "o_side self") (simp_all add: get_opposite_side_def)
    qed
  qed
  have "\<exists>st. has_status s' (o_id self) st \<and> st \<noteq> NEW"
    using assms(1)
  proof (cases rule: make_match_cases)
    case 1
    from save_status_has(1) [OF 1(5), of "o_id self"] has_statusD [OF hs] show ?thesis by auto
  next
    case 2
    from cancel_rest_status [OF 2(5) hs] assms(2) show ?thesis by (auto split: if_splits)
  next
    case (3 y tw tether ms)
    from finish_match_status [OF 3(5) match_loop_status [OF 3(4) hs other]] assms(2) show ?thesis
      by (auto split: if_splits)
  qed
  with assms(5,6) show ?thesis by (auto simp: has_status_def)
qed

end
