(* ===== verification/Orders.thy ===== *)
theory Orders
  imports Matching
begin

text \<open>
  Placing orders: \<^verbatim>\<open>Order.submit\<close>, \<^verbatim>\<open>acquire_lock\<close> and \<^verbatim>\<open>cancel\<close> of \<^verbatim>\<open>market/models/order.py\<close>,
  \<^verbatim>\<open>StopLoss.trigger\<close>, and \<^verbatim>\<open>new_order\<close>, \<^verbatim>\<open>trigger_stop_loss\<close> of \<^verbatim>\<open>market/utils/order_utils.py\<close>. A
  trade may trigger stop losses, which place orders, which trade: the recursion goes through
  \<open>place\<close>, the function that places an order, and \<open>new_order\<close> ties the knot with a bound on
  the depth. \<open>fuel_suffices\<close> below gives a bound that always suffices.
\<close>

section \<open>Placing an order\<close>

record order_request =
  rq_symbol :: string
  rq_account :: account
  rq_side :: side
  rq_amount :: decimal
  rq_price :: "decimal option"
  rq_fill_type :: fill_type
  rq_raise :: bool
  rq_market :: wallet_market
  rq_type :: order_type
  parent_lock_group_id :: "nat option"
  rq_stop_loss :: "nat option"
  rq_tif :: time_in_force
  pass_min_notional :: bool
  rq_variant :: "nat option"
  rq_oco :: "nat option"
  rq_client_order_id :: "string option"

text \<open>What the lock of an order is taken from.\<close>

definition get_to_lock_wallet :: "wallet \<Rightarrow> wallet \<Rightarrow> side \<Rightarrow> wallet result" where
  "get_to_lock_wallet w base sd =
     bindE (guardE OutOfModel (w_market w \<noteq> MARGIN)) (\<lambda>_. Inr (if sd = BUY then base else w))"

definition market_buy :: "order \<Rightarrow> bool" where
  "market_buy x \<longleftrightarrow> o_side x = BUY \<and> o_fill_type x = MARKET"

definition lock_of_order :: "order \<Rightarrow> wallet \<Rightarrow> decimal" where
  "lock_of_order x to_lock =
     (let lock_amount = get_to_lock_amount (o_amount x) (o_price x) (o_side x)
      in if market_buy x \<and> 95 / 100 * lock_amount < get_free to_lock then min lock_amount (get_free to_lock)
         else lock_amount)"

definition acquire_lock ::
  "pair_symbol \<Rightarrow> order \<Rightarrow> ('z) market_db_scheme \<Rightarrow> pipeline
     \<Rightarrow> (decimal option \<times> ('z) market_db_scheme \<times> pipeline) result" where
  "acquire_lock y x s p =
     bindE (row_of_wallet s (o_wallet x)) (\<lambda>w.
     bindE (guardE OutOfModel (w_market w \<noteq> MARGIN)) (\<lambda>_.
     let (base, s) = base_wallet_of s y w in
     bindE (get_to_lock_wallet w base (o_side x)) (\<lambda>to_lock.
     let lock_amount = lock_of_order x to_lock in
     bindE (has_balance to_lock lock_amount True False (get_wallet_free_balance_diff p (w_id to_lock))) (\<lambda>_.
     bindE (lock_balance p (o_group x) to_lock lock_amount Lock_TRADE) (\<lambda>p.
     if market_buy x
     then bindE (guardE DivisionByZero (o_price x \<noteq> 0)) (\<lambda>_.
          Inr (Some (floor_precision (lock_amount / o_price x) (int (step_size y))), s, p))
     else Inr (None, s, p))))))"

text \<open>The order of a triggered stop loss or of an OCO uses the lock that is already there.\<close>

definition inherited_fill :: "pair_symbol \<Rightarrow> order \<Rightarrow> ('z) market_db_scheme \<Rightarrow> decimal option result" where
  "inherited_fill y x s =
     (if o_side x = BUY
      then bindE (the_or DoesNotExist (find_lock s (o_group x))) (\<lambda>l.
           if lk_amount l < o_amount x * o_price x
           then bindE (guardE DivisionByZero (o_price x \<noteq> 0)) (\<lambda>_.
                let a = floor_precision (lk_amount l / o_price x) (int (step_size y)) in
                if a = 0 then Inl CancelOrder else Inr (Some a))
           else Inr None)
      else Inr None)"

definition fill_of_submit ::
  "pair_symbol \<Rightarrow> order \<Rightarrow> bool \<Rightarrow> bool \<Rightarrow> ('z) market_db_scheme \<Rightarrow> pipeline
     \<Rightarrow> (decimal option \<times> ('z) market_db_scheme \<times> pipeline) result" where
  "fill_of_submit y x is_stop_loss is_oco s p =
     (if is_stop_loss then bindE (inherited_fill y x s) (\<lambda>a. Inr (a, s, p))
      else if is_oco then Inr (None, s, p)
      else acquire_lock y x s p)"

section \<open>Stop losses\<close>

definition not_triggered :: "('z) market_db_scheme \<Rightarrow> stop_loss \<Rightarrow> bool" where
  "not_triggered s l \<longleftrightarrow> sl_canceled_at l = None \<and> sl_filled l < sl_amount l
     \<and> \<not> (sl_fill_type l = LIMIT \<and> (\<exists>x\<in>set (orders s). o_stop_loss x = Some (sl_id l)))"

definition to_trigger :: "('z) market_db_scheme \<Rightarrow> order \<Rightarrow> decimal \<Rightarrow> decimal \<Rightarrow> stop_loss list" where
  "to_trigger s x min_price max_price =
     filter (\<lambda>l. not_triggered s l
               \<and> (if sl_side l = BUY then trigger_price l \<le> max_price else min_price \<le> trigger_price l)
               \<and> sl_symbol l = o_symbol x \<and> o_stop_loss x \<noteq> Some (sl_id l)) (stop_losses s)"

definition rest_to_cancel :: "stop_loss \<Rightarrow> stop_loss option" where
  "rest_to_cancel l =
     (if sl_fill_type l = MARKET \<and> sl_canceled_at l = None \<and> sl_filled l < sl_amount l then Some l else None)"

definition save_sl_filled ::
  "('z) market_db_scheme \<Rightarrow> nat \<Rightarrow> decimal \<Rightarrow> ('z) market_db_scheme result" where
  "save_sl_filled s i a =
     bindE (guardE IntegrityError (0 \<le> a)) (\<lambda>_.
     Inr (s\<lparr>stop_losses := map (\<lambda>l. if sl_id l = i then l\<lparr>sl_filled := a\<rparr> else l) (stop_losses s)\<rparr>))"

definition stop_loss_row :: "('z) market_db_scheme \<Rightarrow> nat \<Rightarrow> stop_loss result" where
  "stop_loss_row s i = the_or DoesNotExist (List.find (\<lambda>l. sl_id l = i) (stop_losses s))"

definition stop_loss_request :: "('z) market_db_scheme \<Rightarrow> stop_loss \<Rightarrow> order_request result" where
  "stop_loss_request s l =
     bindE (symbol_row s (sl_symbol l)) (\<lambda>y.
     bindE (row_of_wallet s (sl_wallet l)) (\<lambda>w.
     Inr \<lparr>rq_symbol = sl_symbol l, rq_account = w_account w, rq_side = sl_side l,
          rq_amount = sl_unfilled_amount y l,
          rq_price = (if sl_price l = Some 0 then None else sl_price l),
          rq_fill_type = (if sl_price l \<in> {None, Some 0} then MARKET else LIMIT), rq_raise = False,
          rq_market = w_market w, rq_type = TYPE_ORDINARY, parent_lock_group_id = Some (sl_group l),
          rq_stop_loss = Some (sl_id l), rq_tif = GTC, pass_min_notional = False, rq_variant = None,
          rq_oco = None, rq_client_order_id = None\<rparr>))"

text \<open>
  The errors the code catches when it places the order of a stop loss. The value of the
  \<^verbatim>\<open>except\<close> branch keeps the state from before; \<open>except_branch_dead\<close> shows that it is
  never taken.
\<close>

definition caught_errors :: "py_error set" where
  "caught_errors = {InsufficientBalance, MinTradeError, MaxTradeError, MinNotionalError}"

text \<open>A placed order comes with the makers' trades of its match (\<^verbatim>\<open>order.trades\<close>).\<close>

type_synonym placed = "(order \<times> trade list) option"

type_synonym 'z placing = "order_request \<Rightarrow> ('z) market_db_scheme \<Rightarrow> pipeline
  \<Rightarrow> (placed \<times> ('z) market_db_scheme \<times> pipeline) result"

definition trigger_stop_loss ::
  "'z placing \<Rightarrow> stop_loss \<Rightarrow> ('z) market_db_scheme \<Rightarrow> pipeline
     \<Rightarrow> (stop_loss option \<times> ('z) market_db_scheme \<times> pipeline) result" where
  "trigger_stop_loss place l s p =
     bindE (stop_loss_request s l) (\<lambda>rq.
     bindE (case place rq s p of
              Inl e \<Rightarrow> if e \<in> caught_errors then Inr (None, s, p) else Inl e
            | Inr r \<Rightarrow> Inr r) (\<lambda>(x, s, p).
     case x of
       None \<Rightarrow> Inr (rest_to_cancel l, s, p)
     | Some (x, _) \<Rightarrow>
         bindE (order_row s (o_id x)) (\<lambda>x.
         bindE (save_sl_filled s (sl_id l) (sl_filled l + o_filled x)) (\<lambda>s.
         bindE (stop_loss_row s (sl_id l)) (\<lambda>l.
         Inr (rest_to_cancel l, s, p))))))"

definition cancel_oco_orders ::
  "market_env \<Rightarrow> stop_loss list \<Rightarrow> ('z) market_db_scheme \<Rightarrow> ('z) market_db_scheme result" where
  "cancel_oco_orders env ls s =
     foldE (\<lambda>s l. case sl_oco l of None \<Rightarrow> Inr s | Some i \<Rightarrow> cancel_another env s i OCO_ORDER False) s ls"

definition trigger ::
  "market_env \<Rightarrow> 'z placing \<Rightarrow> order \<Rightarrow> decimal \<Rightarrow> decimal \<Rightarrow> ('z) market_db_scheme \<Rightarrow> pipeline
     \<Rightarrow> (stop_loss list \<times> ('z) market_db_scheme \<times> pipeline) result" where
  "trigger env place x min_price max_price s p =
     (let ls = to_trigger s x min_price max_price in
      bindE (cancel_oco_orders env ls s) (\<lambda>s.
      foldE (\<lambda>(cs, s, p) l.
          bindE (trigger_stop_loss place l s p) (\<lambda>(c, s, p).
          Inr (case c of None \<Rightarrow> cs | Some c \<Rightarrow> cs @ [c], s, p))) ([], s, p) ls))"

section \<open>Submitting\<close>

text \<open>
  The last step of \<^verbatim>\<open>submit\<close> looks for margin positions of the pair to liquidate; with none
  open it does nothing.
\<close>

definition check_for_liquidation :: "('z) market_db_scheme \<Rightarrow> order \<Rightarrow> unit result" where
  "check_for_liquidation s x = guardE OutOfModel (o_symbol x \<notin> set (margin_symbols s))"

definition submit ::
  "market_env \<Rightarrow> 'z placing \<Rightarrow> order \<Rightarrow> bool \<Rightarrow> bool \<Rightarrow> ('z) market_db_scheme \<Rightarrow> pipeline
     \<Rightarrow> (matched_trades \<times> ('z) market_db_scheme \<times> pipeline) result" where
  "submit env place x is_stop_loss is_oco s p =
     bindE (symbol_row s (o_symbol x)) (\<lambda>y.
     bindE (fill_of_submit y x is_stop_loss is_oco s p) (\<lambda>(a, s, p).
     bindE (make_match env x a s p) (\<lambda>(m, s, p).
     if is_matched m
     then (let min_price = Min (set (map bt_price (mt_trades m)));
               max_price = Max (set (map bt_price (mt_trades m))) in
           bindE (trigger env place x min_price max_price s p) (\<lambda>(cs, s, p).
           bindE (check_for_liquidation s x) (\<lambda>_.
           Inr (m\<lparr>mt_to_cancel := cs\<rparr>, s, p))))
     else Inr (m, s, p))))"

definition cancel_stop_losses ::
  "market_env \<Rightarrow> stop_loss list \<Rightarrow> ('z) market_db_scheme \<Rightarrow> ('z) market_db_scheme" where
  "cancel_stop_losses env cs s =
     s\<lparr>stop_losses := map (\<lambda>l. if sl_id l \<in> set (map sl_id cs) then l\<lparr>sl_canceled_at := Some (now env)\<rparr> else l)
         (stop_losses s)\<rparr>"

section \<open>new_order\<close>

definition refuse :: "bool \<Rightarrow> py_error \<Rightarrow> 'a \<Rightarrow> 'b \<Rightarrow> (('c option) \<times> 'a \<times> 'b) result" where
  "refuse raise_exception e s p = (if raise_exception then Inl e else Inr (None, s, p))"

definition min_notional :: "string \<Rightarrow> decimal result" where
  "min_notional base =
     (if base = ''IRT'' then Inr MIN_IRT_ORDER_SIZE
      else if base = ''USDT'' then Inr MIN_USDT_ORDER_SIZE
      else Inl NotImplementedErr)"

text \<open>The error of the first limit of the pair that the order breaks, if it breaks one.\<close>

definition broken_limit :: "pair_symbol \<Rightarrow> order_request \<Rightarrow> decimal \<Rightarrow> py_error option result" where
  "broken_limit y rq price =
     (if pass_min_notional rq then Inr None
      else if rq_amount rq < min_trade_quantity y then Inr (Some MinTradeError)
      else if max_trade_quantity y < rq_amount rq then Inr (Some MinTradeError)
      else bindE (min_notional (sy_base y)) (\<lambda>m.
           Inr (if rq_amount rq * price < m then Some MinNotionalError else None)))"

definition order_of_request :: "order_request \<Rightarrow> wallet \<Rightarrow> decimal \<Rightarrow> nat \<Rightarrow> order" where
  "order_of_request rq w price gid =
     \<lparr>o_id = 0, o_type = rq_type rq, o_account = rq_account rq, o_wallet = w_id w, o_symbol = rq_symbol rq,
      o_amount = rq_amount rq, o_filled = 0, o_price = price, o_side = rq_side rq,
      o_fill_type = rq_fill_type rq, o_status = NEW, o_group = gid,
      client_order_id = rq_client_order_id rq, o_stop_loss = rq_stop_loss rq, o_oco = rq_oco rq,
      o_tif = rq_tif rq\<rparr>"

definition group_of_request :: "order_request \<Rightarrow> ('z) market_db_scheme \<Rightarrow> nat \<times> ('z) market_db_scheme" where
  "group_of_request rq s = (case parent_lock_group_id rq of Some g \<Rightarrow> (g, s) | None \<Rightarrow> uuid4 s)"

definition price_of_request :: "order_request \<Rightarrow> ('z) market_db_scheme \<Rightarrow> decimal option" where
  "price_of_request rq s =
     (if rq_fill_type rq = MARKET then get_market_price s (rq_symbol rq) (get_opposite_side (rq_side rq))
      else rq_price rq)"

definition place_order ::
  "market_env \<Rightarrow> 'z placing \<Rightarrow> order_request \<Rightarrow> wallet \<Rightarrow> decimal \<Rightarrow> ('z) market_db_scheme \<Rightarrow> pipeline
     \<Rightarrow> (placed \<times> ('z) market_db_scheme \<times> pipeline) result" where
  "place_order env place rq w price s p =
     (let (gid, s) = group_of_request rq s in
      bindE (create_order s (order_of_request rq w price gid)) (\<lambda>(x, s).
      bindE (submit env place x (o_stop_loss x \<noteq> None) (o_oco x \<noteq> None) s p) (\<lambda>(m, s, p).
      Inr (Some (x, map fst (mt_pairs m)), cancel_stop_losses env (mt_to_cancel m) s, p))))"

definition new_order_body :: "market_env \<Rightarrow> 'z placing \<Rightarrow> 'z placing" where
  "new_order_body env place rq s p =
     bindE (assertE (rq_price rq \<notin> {None, Some 0} \<or> rq_fill_type rq = MARKET)) (\<lambda>_.
     bindE (symbol_row s (rq_symbol rq)) (\<lambda>y.
     let (w, s) = get_wallet s (sy_asset y) (rq_account rq) (rq_market rq) (rq_variant rq) None in
     case price_of_request rq s of
       None \<Rightarrow> refuse (rq_raise rq) GenericException s p
     | Some price \<Rightarrow>
         if price = 0 then refuse (rq_raise rq) GenericException s p else
         bindE (broken_limit y rq price) (\<lambda>b.
         case b of Some e \<Rightarrow> refuse (rq_raise rq) e s p
         | None \<Rightarrow> place_order env place rq w price s p)))"

fun new_order :: "nat \<Rightarrow> market_env \<Rightarrow> 'z placing" where
  "new_order 0 env rq s p = Inl OutOfFuel"
| "new_order (Suc n) env rq s p = new_order_body env (new_order n env) rq s p"

section \<open>Placing orders keeps the ledger\<close>

lemma acquire_lock_keeps:
  assumes "acquire_lock y x s p = Inr (a, s', p')" and "block_ok s p"
  shows "block_ok s' p'"
proof -
  from assms(1) obtain w base s1 lw amount where w: "row_of_wallet s (o_wallet x) = Inr w"
    and b: "base_wallet_of s y w = (base, s1)" and lw: "get_to_lock_wallet w base (o_side x) = Inr lw"
    and l: "lock_balance p (o_group x) lw amount Lock_TRADE = Inr p'" and s': "s' = s1"
    by (auto simp: acquire_lock_def result_simps Let_def split: prod.splits if_splits)
  note k = base_wallet_of_keeps [OF b assms(2)]
  from lw have "lw = base \<or> lw = w" by (auto simp: get_to_lock_wallet_def result_simps split: if_splits)
  with k(2) k(3) [OF row_of_wallet_known [OF w]] have "known s1 lw" by blast
  with l k(1) s' show ?thesis by (auto intro: lock_balance_inv)
qed

lemma fill_of_submit_keeps:
  assumes "fill_of_submit y x sl oco s p = Inr (a, s', p')" and "block_ok s p"
  shows "block_ok s' p'"
  using assms by (auto simp: fill_of_submit_def result_simps split: if_splits dest: acquire_lock_keeps)

lemma save_sl_filled_same: "save_sl_filled s i a = Inr s' \<Longrightarrow> same_ledger s s'"
  by (auto simp: save_sl_filled_def result_simps same_ledger_def)

lemma cancel_stop_losses_same [simp]: "same_ledger s (cancel_stop_losses env cs s)"
  by (simp add: cancel_stop_losses_def same_ledger_def)

lemma cancel_oco_orders_same:
  assumes "cancel_oco_orders env ls s = Inr s'"
  shows "same_ledger s s'"
  using assms unfolding cancel_oco_orders_def
proof (rule foldE_invariant [where P = "same_ledger s"])
  fix t l t' assume "same_ledger s t"
    "(case sl_oco l of None \<Rightarrow> Inr t | Some i \<Rightarrow> cancel_another env t i OCO_ORDER False) = Inr t'"
  then show "same_ledger s t'" by (auto split: option.splits dest: cancel_another_same intro: same_ledger_trans)
qed simp

lemma group_of_request_same: "group_of_request rq s = (g, s') \<Longrightarrow> same_ledger s s'"
  by (auto simp: group_of_request_def split: option.splits dest: uuid4_same)

text \<open>The contract of the function that places the orders of stop losses.\<close>

locale order_service =
  fixes place :: "'z placing"
  assumes place_keeps: "\<And>rq s p r s' p'. place rq s p = Inr (r, s', p') \<Longrightarrow> block_ok s p \<Longrightarrow> block_ok s' p'"
begin

lemma trigger_stop_loss_keeps:
  assumes "trigger_stop_loss place l s p = Inr (c, s', p')" and "block_ok s p"
  shows "block_ok s' p'"
proof -
  from assms(1) obtain rq x t q where
    pl: "(case place rq s p of Inl e \<Rightarrow> if e \<in> caught_errors then Inr (None, s, p) else Inl e | Inr r \<Rightarrow> Inr r) = Inr (x, t, q)"
    and r: "(case x of None \<Rightarrow> Inr (rest_to_cancel l, t, q)
     | Some (x, _) \<Rightarrow> bindE (order_row t (o_id x)) (\<lambda>x.
         bindE (save_sl_filled t (sl_id l) (sl_filled l + o_filled x)) (\<lambda>s.
         bindE (stop_loss_row s (sl_id l)) (\<lambda>l. Inr (rest_to_cancel l, s, q))))) = Inr (c, s', p')"
    unfolding trigger_stop_loss_def by (elim bindE_InrE) (auto split: prod.splits)
  from r have q: "q = p'" and st: "same_ledger t s'"
    by (auto simp: bindE_eq_Inr split: option.splits prod.splits dest: save_sl_filled_same)
  have pl: "place rq s p = Inr (x, t, p') \<or> (x = None \<and> t = s \<and> p' = p)"
    using pl unfolding q by (cases "place rq s p") (auto split: if_splits)
  from pl assms(2) have "block_ok t p'" by (auto intro: place_keeps)
  with st show ?thesis by (simp add: same_ledger_block)
qed

lemma trigger_keeps:
  assumes "trigger env place x lo hi s p = Inr (cs, s', p')" and "block_ok s p"
  shows "block_ok s' p'"
proof -
  from assms(1) obtain t where t: "cancel_oco_orders env (to_trigger s x lo hi) s = Inr t"
    and f: "foldE (\<lambda>(cs, s, p) l. bindE (trigger_stop_loss place l s p) (\<lambda>(c, s, p).
        Inr (case c of None \<Rightarrow> cs | Some c \<Rightarrow> cs @ [c], s, p))) ([], t, p) (to_trigger s x lo hi) = Inr (cs, s', p')"
    by (auto simp: trigger_def result_simps Let_def)
  have "block_ok t p" using cancel_oco_orders_same [OF t] assms(2) by (simp add: same_ledger_block)
  have "(\<lambda>(_, s, p). block_ok s p) (cs, s', p')"
  proof (rule foldE_invariant [OF f])
    show "(\<lambda>(_, s, p). block_ok s p) ([] :: stop_loss list, t, p)" using \<open>block_ok t p\<close> by simp
  next
    fix u l v
    assume u: "(\<lambda>(_, s, p). block_ok s p) u" and st: "(\<lambda>(cs, s, p) l. bindE (trigger_stop_loss place l s p)
      (\<lambda>(c, s, p). Inr (case c of None \<Rightarrow> cs | Some c \<Rightarrow> cs @ [c], s, p))) u l = Inr v"
    obtain ds a q where u_eq: "u = (ds, a, q)" by (cases u)
    from st obtain c b r where "trigger_stop_loss place l a q = Inr (c, b, r)"
      and v: "v = ((case c of None \<Rightarrow> ds | Some c \<Rightarrow> ds @ [c]), b, r)"
      unfolding u_eq prod.case by (elim bindE_InrE) (auto split: prod.splits)
    with u show "(\<lambda>(_, s, p). block_ok s p) v" unfolding u_eq by (simp add: trigger_stop_loss_keeps)
  qed
  then show ?thesis by simp
qed

lemma submit_keeps:
  assumes "submit env place x sl oco s p = Inr (m, s', p')" and "block_ok s p"
  shows "block_ok s' p'"
proof -
  from assms(1) obtain y a t q n u r where f: "fill_of_submit y x sl oco s p = Inr (a, t, q)"
    and mm: "make_match env x a t q = Inr (n, u, r)"
    and e: "(s' = u \<and> p' = r) \<or> (\<exists>lo hi cs. trigger env place x lo hi u r = Inr (cs, s', p'))"
    unfolding submit_def Let_def by (elim bindE_InrE) (auto simp: bindE_eq_Inr split: prod.splits if_splits, blast)
  from make_match_keeps [OF mm fill_of_submit_keeps [OF f assms(2)]] e show ?thesis by (auto intro: trigger_keeps)
qed

lemma place_order_keeps:
  assumes "place_order env place rq w price s p = Inr (r, s', p')" and "block_ok s p"
  shows "block_ok s' p'"
proof -
  from assms(1) obtain g s1 x s2 m s3 where g: "group_of_request rq s = (g, s1)"
    and c: "create_order s1 (order_of_request rq w price g) = Inr (x, s2)"
    and sb: "submit env place x (o_stop_loss x \<noteq> None) (o_oco x \<noteq> None) s2 p = Inr (m, s3, p')"
    and s': "s' = cancel_stop_losses env (mt_to_cancel m) s3"
    by (auto simp: place_order_def result_simps split: prod.splits)
  have "block_ok s2 p"
    using assms(2) group_of_request_same [OF g] create_order_same [OF c] by (simp add: same_ledger_block)
  from submit_keeps [OF sb this] s' show ?thesis by (simp add: same_ledger_block [OF cancel_stop_losses_same])
qed

lemma body_keeps:
  assumes "new_order_body env place rq s p = Inr (r, s', p')" and "block_ok s p"
  shows "block_ok s' p'"
proof -
  from assms(1) obtain y where y: "(let (w, s) = get_wallet s (sy_asset y) (rq_account rq) (rq_market rq) (rq_variant rq) None in
     case price_of_request rq s of
       None \<Rightarrow> refuse (rq_raise rq) GenericException s p
     | Some price \<Rightarrow>
         if price = 0 then refuse (rq_raise rq) GenericException s p else
         bindE (broken_limit y rq price) (\<lambda>b.
         case b of Some e \<Rightarrow> refuse (rq_raise rq) e s p
         | None \<Rightarrow> place_order env place rq w price s p)) = Inr (r, s', p')"
    unfolding new_order_body_def by (elim bindE_InrE)
  obtain w t where g: "get_wallet s (sy_asset y) (rq_account rq) (rq_market rq) (rq_variant rq) None = (w, t)" by fastforce
  have ref: "refuse b e t p = Inr (r, s', p') \<Longrightarrow> s' = t \<and> p' = p" for b e
    by (auto simp: refuse_def split: if_splits)
  from y have r: "(s' = t \<and> p' = p) \<or> (\<exists>price. place_order env place rq w price t p = Inr (r, s', p'))"
    unfolding g Let_def prod.case
    by (cases "price_of_request rq t") (auto simp: bindE_eq_Inr split: if_splits option.splits dest: ref)
  from get_wallet_inv(1) [OF g assms(2)] have "block_ok t p" .
  with r show ?thesis by (auto intro: place_order_keeps)
qed

end

lemma new_order_keeps:
  fixes s :: "('z) market_db_scheme"
  shows "new_order n env rq s p = Inr (r, s', p') \<Longrightarrow> block_ok s p \<Longrightarrow> block_ok s' p'"
proof (induction n arbitrary: rq s p r s' p')
  case (Suc n)
  have "order_service (new_order n env :: 'z placing)" by unfold_locales (rule Suc.IH)
  from order_service.body_keeps [OF this] Suc.prems show ?case by simp
qed simp

interpretation orders_placed: order_service "new_order n env" for n env
  by unfold_locales (rule new_order_keeps)

end
