(* ===== verification/Order_Recursion.thy ===== *)
theory Order_Recursion
  imports Orders
begin

text \<open>
  Two facts about the recursion of \<^verbatim>\<open>new_order\<close> through the stop losses it triggers: which
  errors a step may raise, so that the \<^verbatim>\<open>except\<close> branch of \<^verbatim>\<open>trigger_stop_loss\<close> is dead code,
  and how deep it goes: each level adds an order row for a stop loss, of which the unique
  constraint on stop loss and status allows three.
\<close>

section \<open>The errors of the engine\<close>

definition engine_errors :: "py_error set" where
  "engine_errors = {AssertionError, IntegrityError, DoesNotExist, DivisionByZero, IndexErr, GenericException, TypeErr, OutOfModel}"

lemma engine_errors_mem [simp]:
  "AssertionError \<in> engine_errors" "IntegrityError \<in> engine_errors" "DoesNotExist \<in> engine_errors"
  "DivisionByZero \<in> engine_errors" "IndexErr \<in> engine_errors" "GenericException \<in> engine_errors" "TypeErr \<in> engine_errors"
  "OutOfModel \<in> engine_errors"
  by (simp_all add: engine_errors_def)

lemma engine_errors_not [simp]:
  "OutOfFuel \<notin> engine_errors" "CancelOrder \<notin> engine_errors" "e \<in> caught_errors \<Longrightarrow> e \<notin> engine_errors"
  by (auto simp: engine_errors_def caught_errors_def)

named_theorems engine_raises

lemma release_lock_raises [engine_raises]: "raises engine_errors (release_lock s p k a)"
  unfolding release_lock_def by (intro raises_rules) simp_all

lemma new_trx_raises [engine_raises]: "raises engine_errors (new_trx p a b x sc g)"
  unfolding new_trx_def by (intro raises_rules) simp_all

lemma post_raises [engine_raises]: "raises engine_errors (post p a b x sc g)"
  unfolding post_def by (intro raises_rules engine_raises)

lemma new_lock_raises [engine_raises]: "raises engine_errors (new_lock p k w x r)"
  unfolding new_lock_def by (intro raises_rules) simp_all

lemma lock_balance_raises [engine_raises]: "raises engine_errors (lock_balance p k w x r)"
  unfolding lock_balance_def by (intro raises_rules engine_raises)

lemma get_wallet_by_id_raises [engine_raises]: "raises engine_errors (get_wallet_by_id c s a i m v)"
  unfolding get_wallet_by_id_def by (intro raises_rules) simp_all

lemma row_raises [engine_raises]:
  "raises engine_errors (symbol_row s n)" "raises engine_errors (row_of_wallet s i)"
  "raises engine_errors (order_row s i)" "raises engine_errors (oco_row s i)" "raises engine_errors (stop_loss_row s i)"
  unfolding symbol_row_def row_of_wallet_def order_row_def oco_row_def stop_loss_row_def
  by (intro raises_rules; simp)+

lemma find_account_raises [engine_raises]: "raises engine_errors (find_account s i)"
  unfolding find_account_def by (intro raises_rules) simp

lemma write_raises [engine_raises]:
  "raises engine_errors (save_status s i st)" "raises engine_errors (create_order s x)"
  "raises engine_errors (update_filled_amount s ids m)" "raises engine_errors (bulk_create_trades s ts)"
  "raises engine_errors (save_sl_filled s i a)"
  unfolding save_status_def create_order_def update_filled_amount_def bulk_create_trades_def save_sl_filled_def
  by (intro raises_rules; simp)+

lemma oco_order_raises [engine_raises]: "raises engine_errors (oco_order s i)"
  unfolding oco_order_def Let_def by (auto simp: raises_def split: list.splits)

lemma cancel_another_raises [engine_raises]: "raises engine_errors (cancel_another env s i part d)"
  unfolding cancel_another_def by (cases part) (simp_all, (intro raises_rules engine_raises)+)

lemma handle_oco_updates_raises [engine_raises]: "raises engine_errors (handle_oco_updates env x i s p)"
  unfolding handle_oco_updates_def by (intro raises_rules engine_raises)

lemma register_fee_transactions_raises [engine_raises]:
  "raises engine_errors (register_fee_transactions c t pos tr w bw g s p)"
  unfolding register_fee_transactions_def by (intro raises_rules engine_raises) simp_all

lemma register_fee_of_raises [engine_raises]: "raises engine_errors (register_fee_of env y t w s p)"
  unfolding register_fee_of_def by (intro raises_rules engine_raises)

lemma register_transactions_raises [engine_raises]:
  "raises engine_errors (register_transactions env fake y sd mw tw tp s p)"
  unfolding register_transactions_def register_margin_transaction_def register_trade_transaction_def
    register_trade_base_transaction_def
  by (intro raises_rules engine_raises) simp_all

lemma match_parts_raises [engine_raises]:
  "raises engine_errors (init_pair y m mw t tw a pr src irt usdt g)"
  "raises engine_errors (release_order_lock s p x w a)" "raises engine_errors (base_prices y tether)"
  "raises engine_errors (get_last_usdt_irt env s)" "raises engine_errors (cancel_rest x st s p)"
  unfolding init_pair_def release_order_lock_def base_prices_def get_last_usdt_irt_def cancel_rest_def
  by (intro raises_rules engine_raises; simp)+

lemma match_one_raises [engine_raises]: "raises engine_errors (match_one env tether y self tw maker a ms)"
  unfolding match_one_def by (intro raises_rules engine_raises)

lemma match_step_raises [engine_raises]: "raises engine_errors (match_step env tether y self tw ms maker)"
  unfolding match_step_def by (intro raises_rules engine_raises)

lemma match_loop_raises [engine_raises]: "raises engine_errors (match_loop env tether y self tw u ms s p)"
  unfolding match_loop_def by (intro raises_rules engine_raises)

lemma update_ocos_raises [engine_raises]: "raises engine_errors (update_ocos env xs s p)"
  unfolding update_ocos_def
proof (rule raises_foldE)
  fix t :: "('a) market_db_scheme \<times> pipeline" and x
  show "raises engine_errors ((\<lambda>(s, p) x. case o_oco x of None \<Rightarrow> Inr (s, p) | Some i \<Rightarrow> handle_oco_updates env x i s p) t x)"
    by (cases t) (auto intro!: raises_rules engine_raises)
qed

lemma finish_match_raises [engine_raises]: "raises engine_errors (finish_match env y self tw ms)"
  unfolding finish_match_def record_trades_def by (intro raises_rules engine_raises)

lemma make_match_raises [engine_raises]: "raises engine_errors (make_match env self ov s p)"
  unfolding make_match_def by (intro raises_rules engine_raises)


section \<open>The errors of placing an order\<close>

definition placing_errors :: "py_error set" where
  "placing_errors = engine_errors \<union> {CancelOrder, NotImplementedErr, OutOfFuel}"

lemma placing_errors_mem [simp]:
  "CancelOrder \<in> placing_errors" "NotImplementedErr \<in> placing_errors" "OutOfFuel \<in> placing_errors"
  "e \<in> engine_errors \<Longrightarrow> e \<in> placing_errors" "e \<in> caught_errors \<Longrightarrow> e \<notin> placing_errors"
  by (auto simp: placing_errors_def engine_errors_def caught_errors_def)

lemma raises_mono: "raises E r \<Longrightarrow> (\<And>e. e \<in> E \<Longrightarrow> e \<in> F) \<Longrightarrow> raises F r"
  by (simp add: raises_def)

lemma placing_raises: "raises engine_errors r \<Longrightarrow> raises placing_errors r"
  by (erule raises_mono) simp

text \<open>An order for a stop loss, as \<^verbatim>\<open>trigger_stop_loss\<close> asks for it.\<close>

definition for_stop_loss :: "order_request \<Rightarrow> bool" where
  "for_stop_loss rq \<longleftrightarrow> rq_stop_loss rq \<noteq> None \<and> \<not> rq_raise rq"

lemma stop_loss_request_for: "stop_loss_request s l = Inr rq \<Longrightarrow> for_stop_loss rq \<and> rq_stop_loss rq = Some (sl_id l)"
  by (auto simp: stop_loss_request_def for_stop_loss_def result_simps)

lemma stop_loss_request_raises: "raises engine_errors (stop_loss_request s l)"
  unfolding stop_loss_request_def by (intro raises_rules engine_raises)

lemma inherited_fill_raises: "raises placing_errors (inherited_fill y x s)"
  unfolding inherited_fill_def by (intro raises_rules) simp_all

lemma cancel_oco_orders_raises: "raises engine_errors (cancel_oco_orders env ls s)"
  unfolding cancel_oco_orders_def by (intro raises_rules engine_raises)

text \<open>What is asked of the recursive call.\<close>

locale quiet_service = order_service place for place :: "'z placing" +
  assumes quiet: "\<And>rq s p. for_stop_loss rq \<Longrightarrow> raises placing_errors (place rq s p)"
begin

lemma trigger_stop_loss_quiet: "raises placing_errors (trigger_stop_loss place l s p)"
  unfolding trigger_stop_loss_def
proof (intro raises_rules placing_raises [OF stop_loss_request_raises] placing_raises [OF row_raises(3)]
    placing_raises [OF row_raises(5)] placing_raises [OF write_raises(5)])
  fix rq assume "stop_loss_request s l = Inr rq"
  then have "raises placing_errors (place rq s p)" by (blast dest: stop_loss_request_for intro: quiet)
  then show "raises placing_errors (case place rq s p of
      Inl e \<Rightarrow> if e \<in> caught_errors then Inr (None, s, p) else Inl e | Inr r \<Rightarrow> Inr r)"
    by (auto simp: raises_def split: sum.splits)
qed

lemma trigger_quiet: "raises placing_errors (trigger env place x lo hi s p)"
  unfolding trigger_def
proof (intro raises_rules placing_raises [OF cancel_oco_orders_raises])
  fix u :: "stop_loss list \<times> ('z) market_db_scheme \<times> pipeline" and l
  show "raises placing_errors ((\<lambda>(cs, s, p) l. bindE (trigger_stop_loss place l s p) (\<lambda>(c, s, p).
      Inr (case c of None \<Rightarrow> cs | Some c \<Rightarrow> cs @ [c], s, p))) u l)"
    by (cases u) (auto intro!: raises_rules trigger_stop_loss_quiet)
qed

lemma submit_quiet: "sl \<Longrightarrow> raises placing_errors (submit env place x sl oco s p)"
  unfolding submit_def fill_of_submit_def check_for_liquidation_def
  by (intro raises_rules trigger_quiet inherited_fill_raises placing_raises [OF make_match_raises]
      placing_raises [OF row_raises(1)]) simp_all

lemma place_order_quiet:
  assumes "for_stop_loss rq"
  shows "raises placing_errors (place_order env place rq w price s p)"
proof -
  have "o_stop_loss x \<noteq> None" if "create_order t (order_of_request rq w price g) = Inr (x, u)" for t x u g
    using that assms by (auto simp: create_order_def order_of_request_def for_stop_loss_def result_simps Let_def)
  then show ?thesis unfolding place_order_def
    by (intro raises_rules placing_raises [OF write_raises(2)] submit_quiet) simp
qed

lemma body_quiet:
  assumes "for_stop_loss rq"
  shows "raises placing_errors (new_order_body env place rq s p)"
proof -
  have r: "raises placing_errors (refuse (rq_raise rq) e t p)" for e and t :: "('z) market_db_scheme"
    using assms by (simp add: refuse_def for_stop_loss_def)
  have "raises placing_errors (broken_limit y rq price)" for y price
    unfolding broken_limit_def min_notional_def by (intro raises_rules) simp_all
  then show ?thesis unfolding new_order_body_def
    by (intro raises_rules placing_raises [OF row_raises(1)] place_order_quiet [OF assms] r) simp_all
qed

end

lemma new_order_quiet:
  fixes s :: "('z) market_db_scheme"
  shows "for_stop_loss rq \<Longrightarrow> raises placing_errors (new_order n env rq s p)"
proof (induction n arbitrary: rq s p)
  case (Suc n)
  have "quiet_service (new_order n env :: 'z placing)" by unfold_locales (rule Suc.IH)
  from quiet_service.body_quiet [OF this Suc.prems] show ?case by simp
qed (simp add: raises_def)

interpretation quiet_orders: quiet_service "new_order n env" for n env
  by unfold_locales (rule new_order_quiet)

section \<open>The depth of the recursion\<close>

definition orders_unique :: "('z) market_db_scheme \<Rightarrow> bool" where
  "orders_unique s \<longleftrightarrow> distinct (map o_id (orders s)) \<and> (\<forall>x\<in>set (orders s). \<forall>y\<in>set (orders s). \<not> orders_clash x y)"

definition sl_ids :: "('z) market_db_scheme \<Rightarrow> nat set" where
  "sl_ids s = sl_id ` set (stop_losses s)"

text \<open>The orders that were placed for stop losses.\<close>

definition sl_orders :: "('z) market_db_scheme \<Rightarrow> nat" where
  "sl_orders s = length (filter (\<lambda>i. i \<in> Some ` sl_ids s) (map o_stop_loss (orders s)))"

definition grown :: "('z) market_db_scheme \<Rightarrow> ('z) market_db_scheme \<Rightarrow> bool" where
  "grown s s' \<longleftrightarrow> sl_ids s' = sl_ids s \<and> sl_orders s \<le> sl_orders s' \<and> (orders_unique s \<longrightarrow> orders_unique s')"

lemma grown_refl [simp]: "grown s s"
  by (simp add: grown_def)

lemma grown_trans: "grown s t \<Longrightarrow> grown t u \<Longrightarrow> grown s u"
  by (auto simp: grown_def)

lemma grown_same: "orders s' = orders s \<Longrightarrow> stop_losses s' = stop_losses s \<Longrightarrow> grown s s'"
  by (simp add: grown_def sl_ids_def sl_orders_def orders_unique_def)

text \<open>
  The contract of every step: what is grown since \<open>z\<close> stays grown. Stated for results, so
  that the rules go through the code.
\<close>

named_theorems grown_rules

lemma grown_upd:
  "grown z s \<Longrightarrow> grown z (s\<lparr>wallets := a\<rparr>)" "grown z s \<Longrightarrow> grown z (s\<lparr>referral_trxs := b\<rparr>)"
  "grown z s \<Longrightarrow> grown z (s\<lparr>trades := c\<rparr>)" "grown z s \<Longrightarrow> grown z (s\<lparr>revenues := d\<rparr>)"
  "grown z s \<Longrightarrow> grown z (s\<lparr>symbols := e\<rparr>)" "grown z s \<Longrightarrow> grown z (s\<lparr>ocos := f\<rparr>)"
  "grown z s \<Longrightarrow> grown z (s\<lparr>trade_volumes := g\<rparr>)" "grown z s \<Longrightarrow> grown z (s\<lparr>uuids := u\<rparr>)"
  by (rule grown_trans, assumption, rule grown_same, simp, simp)+

lemma get_wallet_grown: "get_wallet s a acc m v e = (w, s') \<Longrightarrow> grown z s \<Longrightarrow> grown z s'"
  by (auto simp: get_wallet_def get_or_create_wallet_def Let_def intro: grown_upd split: option.splits)

lemma base_wallet_of_grown: "base_wallet_of s y w = (b, s') \<Longrightarrow> grown z s \<Longrightarrow> grown z s'"
  unfolding base_wallet_of_def by (rule get_wallet_grown)

lemma uuid4_grown: "uuid4 s = (g, s') \<Longrightarrow> grown z s \<Longrightarrow> grown z s'"
  by (auto simp: uuid4_def intro: grown_upd)

lemma get_wallet_by_id_grown [grown_rules]:
  "grown z s \<Longrightarrow> ensures (\<lambda>(w, s'). grown z s') (get_wallet_by_id c s a i m v)"
  by (auto simp: ensures_def get_wallet_by_id_def get_or_create_wallet_def bindE_eq_Inr Let_def intro: grown_upd split: option.splits)

lemma register_fee_transactions_grown [grown_rules]:
  "grown z s \<Longrightarrow> ensures (\<lambda>(i, s', p'). grown z s') (register_fee_transactions c t pos tr w bw g s p)"
proof -
  assume z: "grown z s"
  show ?thesis
    unfolding ensures_def
  proof (intro allI impI)
    fix r assume r: "register_fee_transactions c t pos tr w bw g s p = Inr r"
    show "(\<lambda>(i, s', p'). grown z s') r"
      using r z
      by (auto simp: register_fee_transactions_def Let_def case_prod_eq_Inr split: option.splits if_splits elim!: bindE_InrE
          dest!: ensuresD [OF get_wallet_by_id_grown, rotated] get_wallet_grown intro!: grown_upd)
  qed
qed

lemma register_fee_of_grown [grown_rules]:
  "grown z s \<Longrightarrow> ensures (\<lambda>(t', s', p'). grown z s') (register_fee_of env y t w s p)"
  unfolding register_fee_of_def
  by (intro ensures_rules ensures_bind [OF register_fee_transactions_grown]) (auto intro: base_wallet_of_grown [OF sym])

lemma register_transactions_grown [grown_rules]:
  assumes "grown z s"
  shows "ensures (\<lambda>(tp', s', p'). grown z s') (register_transactions env fake y sd mw tw tp s p)"
proof -
  have b: "ensures (\<lambda>(s', p'). grown z s') (register_trade_base_transaction y sd mw tw t s q)" for t q
    unfolding register_trade_base_transaction_def
    by (intro ensures_rules ensures_skip) (simp, metis base_wallet_of_grown assms)
  have f: "ensures (\<lambda>(s', p'). grown z s') (if fake then Inr (s, p) else
              bindE (register_margin_transaction mw tw) (\<lambda>_.
              bindE (register_trade_transaction p sd mw tw (maker_trade tp)) (\<lambda>p.
              register_trade_base_transaction y sd mw tw (maker_trade tp) s p)))"
    by (intro ensures_rules ensures_skip b) (auto simp: assms)
  show ?thesis unfolding register_transactions_def
    by (rule ensures_bind [OF f]) (auto intro!: ensures_rules ensures_bind [OF register_fee_of_grown])
qed

lemma clash_sym: "orders_clash x y \<Longrightarrow> orders_clash y x"
  unfolding orders_clash_def by metis

lemma save_status_grown [grown_rules]:
  assumes "grown z s"
  shows "ensures (grown z) (save_status s i st)"
  unfolding ensures_def
proof (intro allI impI)
  fix t assume t: "save_status s i st = Inr t"
  let ?f = "\<lambda>x. if o_id x = i then x\<lparr>o_status := st\<rparr> else x"
  have o: "orders t = map ?f (orders s)" by (rule save_status_orders [OF t])
  have c: "\<forall>x\<in>set (orders t). o_id x = i \<longrightarrow> (\<forall>y\<in>set (orders t). \<not> orders_clash x y)"
    and sl: "stop_losses t = stop_losses s"
    using t by (auto simp: save_status_def Let_def bindE_eq_Inr simp del: set_map)
  have "map o_id (orders t) = map o_id (orders s)" by (auto simp: o)
  moreover have "\<not> orders_clash x y" if u: "orders_unique s" and xy: "x \<in> set (orders t)" "y \<in> set (orders t)" for x y
  proof (cases "o_id x = i \<or> o_id y = i")
    case True
    with c xy show ?thesis by (blast dest: clash_sym)
  next
    case False
    with xy have "x \<in> set (orders s)" "y \<in> set (orders s)" by (auto simp: o split: if_splits)
    with u show ?thesis by (simp add: orders_unique_def)
  qed
  ultimately have "orders_unique s \<longrightarrow> orders_unique t" by (simp add: orders_unique_def)
  moreover have "map o_stop_loss (orders t) = map o_stop_loss (orders s)" by (simp add: o)
  ultimately have "grown s t" by (simp add: grown_def sl_ids_def sl_orders_def sl)
  with assms show "grown z t" by (rule grown_trans)
qed

lemma update_filled_amount_grown [grown_rules]:
  assumes "grown z s"
  shows "ensures (grown z) (update_filled_amount s ids m)"
  unfolding ensures_def
proof (intro allI impI)
  fix t assume t: "update_filled_amount s ids m = Inr t"
  let ?f = "\<lambda>x. if o_id x \<in> set ids then x\<lparr>o_filled := o_filled x + m\<rparr> else x"
  have o: "orders t = map ?f (orders s)" using t by (auto simp: update_filled_amount_def Let_def result_simps)
  have f: "orders_clash (?f x) (?f y) = orders_clash x y" for x y by (simp add: orders_clash_def)
  have "map sl_id (stop_losses t) = map sl_id (stop_losses s)"
    using t by (auto simp: update_filled_amount_def Let_def result_simps)
  from arg_cong [OF this, of set] have sl: "sl_ids t = sl_ids s" by (simp add: sl_ids_def)
  have "map o_id (orders t) = map o_id (orders s)" "map o_stop_loss (orders t) = map o_stop_loss (orders s)"
    by (auto simp: o)
  moreover have "orders_unique s \<longrightarrow> (\<forall>x\<in>set (orders t). \<forall>y\<in>set (orders t). \<not> orders_clash x y)"
    unfolding o set_map ball_simps f by (simp add: orders_unique_def)
  ultimately have "grown s t" by (simp add: grown_def sl_orders_def sl orders_unique_def)
  with assms show "grown z t" by (rule grown_trans)
qed

lemma sl_upd_grown:
  assumes "grown z s" and "map sl_id ls = map sl_id (stop_losses s)"
  shows "grown z (s\<lparr>stop_losses := ls\<rparr>)"
proof -
  have "sl_id ` set ls = sl_id ` set (stop_losses s)" using arg_cong [OF assms(2), of set] by simp
  then have "grown s (s\<lparr>stop_losses := ls\<rparr>)" by (simp add: grown_def sl_ids_def sl_orders_def orders_unique_def)
  with assms(1) show ?thesis by (rule grown_trans)
qed

lemma stop_loss_writes_grown:
  "grown z s \<Longrightarrow> grown z (cancel_stop_loss s t i)" "grown z s \<Longrightarrow> grown z (cancel_stop_losses env cs s)"
  "grown z s \<Longrightarrow> ensures (grown z) (save_sl_filled s i a)"
  by (auto simp: cancel_stop_loss_def cancel_stop_losses_def save_sl_filled_def ensures_def bindE_eq_Inr intro!: sl_upd_grown)

lemma create_order_grown:
  assumes c: "create_order s x = Inr (x', t)"
  shows "grown s t" and "o_stop_loss x \<in> Some ` sl_ids s \<Longrightarrow> sl_orders t = Suc (sl_orders s)"
    and "o_stop_loss x' = o_stop_loss x"
proof -
  from c have x': "x' = x\<lparr>o_id := fresh_id (map o_id (orders s))\<rparr>" and t: "t = s\<lparr>orders := orders s @ [x']\<rparr>"
    and n: "\<forall>y\<in>set (orders s). \<not> orders_clash x' y"
    by (auto simp: create_order_def Let_def result_simps)
  have "o_id x' \<notin> set (map o_id (orders s))" using fresh_id_notin [of "map o_id (orders s)"] by (simp add: x')
  moreover have "\<not> orders_clash x' x'" by (simp add: orders_clash_def)
  ultimately have "orders_unique s \<longrightarrow> orders_unique t"
    using n unfolding orders_unique_def t by (auto dest: clash_sym)
  then show "grown s t" by (simp add: grown_def t sl_ids_def sl_orders_def)
  show "o_stop_loss x' = o_stop_loss x" by (simp add: x')
  then show "o_stop_loss x \<in> Some ` sl_ids s \<Longrightarrow> sl_orders t = Suc (sl_orders s)"
    by (simp add: t sl_orders_def sl_ids_def)
qed

lemma match_parts_grown [grown_rules]:
  assumes "grown z s"
  shows "ensures (\<lambda>(s', p'). grown z s') (cancel_rest self st s p)"
    and "ensures (\<lambda>(ts', s'). grown z s') (bulk_create_trades s ts)"
    and "ensures (grown z) (cancel_another env s i part d)"
proof -
  show "ensures (\<lambda>(s', p'). grown z s') (cancel_rest self st s p)"
    unfolding cancel_rest_def
    by (intro ensures_rules ensures_skip ensures_bind [OF save_status_grown [OF assms]]) (auto simp: assms intro!: ensures_rules dest: ensuresD [OF save_status_grown [OF assms]])
  show "ensures (\<lambda>(ts', s'). grown z s') (bulk_create_trades s ts)"
    unfolding bulk_create_trades_def Let_def by (intro ensures_rules ensures_skip) (simp add: assms grown_upd)
  have c: "grown z (oco_delete env t i)" if "grown z t" for t using that by (simp add: oco_delete_def grown_upd)
  show "ensures (grown z) (cancel_another env s i part d)"
    unfolding cancel_another_def
    by (rule ensures_bind [where Q = "grown z"], cases part)
      (auto intro!: ensures_rules ensures_skip stop_loss_writes_grown save_status_grown c assms split: option.splits)
qed

lemma handle_oco_updates_grown [grown_rules]:
  assumes "grown z s"
  shows "ensures (\<lambda>(s', p'). grown z s') (handle_oco_updates env x i s p)"
  unfolding handle_oco_updates_def
  by (intro ensures_skip [of "oco_row s i"] ensures_bind [OF match_parts_grown(3) [OF assms]] ensures_rules)
    (auto intro!: ensures_skip ensures_rules grown_upd)

lemma match_one_grown [grown_rules]:
  assumes "grown z (ms_db ms)"
  shows "ensures (\<lambda>ms'. grown z (ms_db ms')) (match_one env tether y self tw maker m ms)"
  unfolding ensures_def
proof (intro allI impI)
  fix ms' assume "match_one env tether y self tw maker m ms = Inr ms'"
  then show "grown z (ms_db ms')"
  proof (rule match_one_steps)
    fix irt usdt mw gid s0 tp0 p1 p2 tp s3 p3 s4 s5 s6 p6
    assume u: "uuid4 (ms_db ms) = (gid, s0)"
      and t: "register_transactions env False y (o_side maker) mw tw tp0 s0 p2 = Inr (tp, s3, p3)"
      and f: "update_filled_amount s3 [o_id self, o_id maker] m = Inr s4"
      and sv: "(if m = unfilled_amount y maker then save_status s4 (o_id maker) FILLED else Inr s4) = Inr s5"
      and e: "(if ms_unfilled ms - m = 0
        then bindE (if o_fill_type self = MARKET then release_lock s5 p3 (o_group self) None else Inr p3) (\<lambda>p.
             bindE (save_status s5 (o_id self) FILLED) (\<lambda>s. Inr (s, p)))
        else Inr (s5, p3)) = Inr (s6, p6)"
      and ms': "ms' = ms\<lparr>ms_db := s6, ms_pipe := p6, ms_unfilled := ms_unfilled ms - m,
             ms_status := if ms_unfilled ms - m = 0 then FILLED else ms_status ms, ms_pairs := ms_pairs ms @ [tp],
             ms_filled := if m = unfilled_amount y maker then ms_filled ms @ [maker] else ms_filled ms,
             ms_ocos := if o_oco maker \<noteq> None then ms_ocos ms @ [maker] else ms_ocos ms,
             ms_stop := ms_unfilled ms - m = 0\<rparr>"
    have "grown z s3" using ensuresD [OF register_transactions_grown [OF uuid4_grown [OF u assms]] t] by simp
    then have s4: "grown z s4" by (rule ensuresD [OF update_filled_amount_grown f])
    have s5: "grown z s5" using sv s4 by (auto split: if_splits intro: ensuresD [OF save_status_grown [OF s4]])
    have "grown z s6" using e s5 by (auto split: if_splits elim!: bindE_InrE intro: ensuresD [OF save_status_grown [OF s5]])
    then show ?thesis by (simp add: ms')
  qed
qed

lemma match_loop_grown [grown_rules]:
  assumes "grown z s"
  shows "ensures (\<lambda>ms'. grown z (ms_db ms')) (match_loop env tether y self tw u makers s p)"
  unfolding match_loop_def
proof (rule ensures_foldE)
  fix ms :: "'a match_state" and x assume "grown z (ms_db ms)"
  then show "ensures (\<lambda>ms'. grown z (ms_db ms')) (match_step env tether y self tw ms x)"
    unfolding match_step_def by (intro ensures_rules match_one_grown) simp_all
qed (simp add: assms)

lemma finish_match_grown [grown_rules]:
  assumes "grown z (ms_db ms)"
  shows "ensures (\<lambda>(m, s', p'). grown z s') (finish_match env y self tw ms)"
proof -
  have vol: "grown z (foldl add_trade_volume s ts)" if "grown z s" for s ts
    using that by (induction ts arbitrary: s) (auto simp: add_trade_volume_def Let_def intro: grown_upd)
  have oc: "ensures (\<lambda>(s', p'). grown z s') (update_ocos env xs s p)" if "grown z s" for xs s p
    unfolding update_ocos_def
    by (rule ensures_foldE) (auto simp: that intro!: ensures_rules handle_oco_updates_grown split: option.splits)
  have rec: "ensures (\<lambda>(s', p'). grown z s') (record_trades env y tw xs ts s p)" if "grown z s" for xs ts s p
    unfolding record_trades_def using that
    by (intro ensures_rules ensures_bind [OF oc]) (auto simp: set_last_trade_def create_trade_revenues_def intro!: grown_upd)
  show ?thesis unfolding finish_match_def
    by (rule ensures_bind [OF match_parts_grown(1) [OF assms]])
      (auto intro!: ensures_rules ensures_bind [OF match_parts_grown(2)] ensures_bind [OF rec] vol)
qed

lemma make_match_grown [grown_rules]:
  assumes "grown z s"
  shows "ensures (\<lambda>(m, s', p'). grown z s') (make_match env self ov s p)"
  unfolding ensures_def
proof (intro allI impI)
  fix r assume r: "make_match env self ov s p = Inr r"
  obtain m s' p' where r_eq: "r = (m, s', p')" by (cases r)
  from r have "grown z s'" unfolding r_eq
  proof (cases rule: make_match_cases)
    case 1
    then show ?thesis by (intro ensuresD [OF save_status_grown [OF assms]])
  next
    case 2
    from ensuresD [OF match_parts_grown(1) [OF assms] 2(5)] show ?thesis by simp
  next
    case (3 y tw tether ms)
    from ensuresD [OF finish_match_grown [OF ensuresD [OF match_loop_grown [OF assms] 3(4)]] 3(5)] show ?thesis by simp
  qed
  then show "(\<lambda>(m, s', p'). grown z s') r" by (simp add: r_eq)
qed

text \<open>The stop losses that an order may still be placed for.\<close>

definition sl_budget :: "('z) market_db_scheme \<Rightarrow> nat" where
  "sl_budget s = 3 * card (sl_ids s) - sl_orders s"

lemma grown_budget: "grown s t \<Longrightarrow> sl_budget t \<le> sl_budget s"
  by (auto simp: grown_def sl_budget_def intro: diff_le_mono2)

text \<open>Three statuses, one order for each stop loss and status.\<close>

lemma sl_orders_bound:
  assumes "orders_unique s"
  shows "sl_orders s \<le> 3 * card (sl_ids s)"
proof -
  let ?xs = "filter (\<lambda>x. o_stop_loss x \<in> Some ` sl_ids s) (orders s)"
  let ?k = "\<lambda>x. (the (o_stop_loss x), o_status x)"
  have d: "distinct (map o_id (orders s))" using assms by (simp add: orders_unique_def)
  then have dx: "distinct ?xs" by (simp add: distinct_map)
  have inj: "inj_on ?k (set ?xs)"
  proof (rule inj_onI)
    fix x y assume x: "x \<in> set ?xs" and y: "y \<in> set ?xs" and k: "?k x = ?k y"
    then have "o_stop_loss x = o_stop_loss y" "o_stop_loss x \<noteq> None" "o_status x = o_status y" by auto
    moreover have "\<not> orders_clash x y" using assms x y by (simp add: orders_unique_def)
    ultimately have "o_id x = o_id y" by (auto simp: orders_clash_def)
    with d x y show "x = y" by (auto simp: distinct_map dest: inj_onD)
  qed
  have "length ?xs = card (set ?xs)" by (rule distinct_card [OF dx, symmetric])
  also have "\<dots> = card (?k ` set ?xs)" by (rule card_image [OF inj, symmetric])
  also have "\<dots> \<le> card (sl_ids s \<times> {NEW, CANCELED, FILLED})"
  proof (rule card_mono)
    show "finite (sl_ids s \<times> {NEW, CANCELED, FILLED})" by (simp add: sl_ids_def)
    have "o_status x \<in> {NEW, CANCELED, FILLED}" for x by (cases "o_status x") simp_all
    then show "?k ` set ?xs \<subseteq> sl_ids s \<times> {NEW, CANCELED, FILLED}" by auto
  qed
  also have "\<dots> = 3 * card (sl_ids s)" by (simp add: card_cartesian_product)
  finally show ?thesis by (simp add: sl_orders_def filter_map comp_def)
qed

locale growing_service = order_service place for place :: "'z placing" +
  assumes grows_db: "\<And>z rq s p. grown z s \<Longrightarrow> ensures (\<lambda>(x, s', p'). grown z s') (place rq s p)"
begin

lemma trigger_stop_loss_grown:
  assumes "grown z s"
  shows "ensures (\<lambda>(c, s', p'). grown z s') (trigger_stop_loss place l s p)"
  unfolding trigger_stop_loss_def
proof (intro ensures_skip [of "stop_loss_request s l"])
  fix rq
  have "ensures (\<lambda>(x, s', p'). grown z s') (case place rq s p of
      Inl e \<Rightarrow> if e \<in> caught_errors then Inr (None, s, p) else Inl e | Inr r \<Rightarrow> Inr r)"
    using grows_db [OF assms, of rq p] assms by (auto simp: ensures_def split: sum.splits)
  then show "ensures (\<lambda>(c, s', p'). grown z s') (bindE (case place rq s p of
      Inl e \<Rightarrow> if e \<in> caught_errors then Inr (None, s, p) else Inl e | Inr r \<Rightarrow> Inr r) (\<lambda>(x, s, p).
     case x of
       None \<Rightarrow> Inr (rest_to_cancel l, s, p)
     | Some (x, _) \<Rightarrow>
         bindE (order_row s (o_id x)) (\<lambda>x.
         bindE (save_sl_filled s (sl_id l) (sl_filled l + o_filled x)) (\<lambda>s.
         bindE (stop_loss_row s (sl_id l)) (\<lambda>l.
         Inr (rest_to_cancel l, s, p))))))"
    by (rule ensures_bind)
      (auto intro!: ensures_rules ensures_skip [of "order_row s i" for s i] ensures_bind [OF stop_loss_writes_grown(3)]
        ensures_skip [of "stop_loss_row s i" for s i])
qed

lemma trigger_grown:
  assumes "grown z s"
  shows "ensures (\<lambda>(cs, s', p'). grown z s') (trigger env place x lo hi s p)"
proof -
  have c: "ensures (grown z) (cancel_oco_orders env ls s)" for ls
    unfolding cancel_oco_orders_def
    by (rule ensures_foldE) (auto simp: assms intro!: ensures_rules match_parts_grown(3))
  have loop: "ensures (\<lambda>(cs, s', p'). grown z s') (foldE (\<lambda>(cs, s, p) l. bindE (trigger_stop_loss place l s p) (\<lambda>(c, s, p).
          Inr (case c of None \<Rightarrow> cs | Some c \<Rightarrow> cs @ [c], s, p))) (cs, t, q) ls)" if "grown z t" for t cs q ls
    by (rule ensures_foldE) (auto simp: that intro!: ensures_bind [OF trigger_stop_loss_grown] ensures_rules)
  show ?thesis unfolding trigger_def Let_def by (rule ensures_bind [OF c loop])
qed

lemma fill_of_submit_grown:
  assumes "grown z s"
  shows "ensures (\<lambda>(a, s', p'). grown z s') (fill_of_submit y x sl oco s p)"
proof -
  have "ensures (\<lambda>(a, s', p'). grown z s') (acquire_lock y x s p)"
    unfolding acquire_lock_def Let_def
    by (intro ensures_skip ensures_rules) (auto intro: base_wallet_of_grown [OF _ assms])
  then show ?thesis unfolding fill_of_submit_def by (intro ensures_rules ensures_skip) (simp_all add: assms)
qed

lemma submit_grown:
  assumes "grown z s"
  shows "ensures (\<lambda>(m, s', p'). grown z s') (submit env place x sl oco s p)"
  unfolding ensures_def
proof (intro allI impI)
  fix r assume "submit env place x sl oco s p = Inr r"
  moreover obtain m s' p' where r: "r = (m, s', p')" by (cases r)
  ultimately obtain y a t q n u v where f: "fill_of_submit y x sl oco s p = Inr (a, t, q)"
    and mm: "make_match env x a t q = Inr (n, u, v)"
    and e: "s' = u \<or> (\<exists>lo hi cs. trigger env place x lo hi u v = Inr (cs, s', p'))"
    unfolding submit_def Let_def by (elim bindE_InrE) (auto simp: bindE_eq_Inr split: prod.splits if_splits, blast)
  have "grown z t" using ensuresD [OF fill_of_submit_grown [OF assms] f] by simp
  from ensuresD [OF make_match_grown [OF this] mm] have u: "grown z u" by simp
  from e show "(\<lambda>(m, s', p'). grown z s') r"
    using u ensuresD [OF trigger_grown [OF u]] by (auto simp: r)
qed

lemma place_order_grown:
  assumes "grown z s"
  shows "ensures (\<lambda>(x, s', p'). grown z s') (place_order env place rq w price s p)"
  unfolding ensures_def
proof (intro allI impI)
  fix r assume "place_order env place rq w price s p = Inr r"
  moreover obtain o' s' p' where r: "r = (o', s', p')" by (cases r)
  ultimately obtain g s1 x s2 m s3 where g: "group_of_request rq s = (g, s1)"
    and c: "create_order s1 (order_of_request rq w price g) = Inr (x, s2)"
    and sb: "submit env place x (o_stop_loss x \<noteq> None) (o_oco x \<noteq> None) s2 p = Inr (m, s3, p')"
    and s': "s' = cancel_stop_losses env (mt_to_cancel m) s3"
    by (auto simp: place_order_def result_simps split: prod.splits)
  from g assms have "grown z s1" by (auto simp: group_of_request_def split: option.splits intro: uuid4_grown)
  with create_order_grown(1) [OF c] have "grown z s2" by (blast intro: grown_trans)
  from ensuresD [OF submit_grown [OF this] sb] show "(\<lambda>(x, s', p'). grown z s') r"
    by (simp add: r s' stop_loss_writes_grown(2))
qed

lemma body_grown:
  assumes "grown z s"
  shows "ensures (\<lambda>(x, s', p'). grown z s') (new_order_body env place rq s p)"
proof -
  have ref: "ensures (\<lambda>(x, s', p'). grown z s') (refuse b e t q)" if "grown z t" for b e and t :: "('z) market_db_scheme" and q
    using that by (simp add: refuse_def ensures_def)
  show ?thesis unfolding new_order_body_def
  proof (rule ensures_skip, rule ensures_skip, rule ensures_let, rule ensures_prod)
    fix y :: pair_symbol and r w t
    assume "r = get_wallet s (sy_asset y) (rq_account rq) (rq_market rq) (rq_variant rq) None" "r = (w, t)"
    then have t: "grown z t" using get_wallet_grown assms by metis
    show "ensures (\<lambda>(x, s', p'). grown z s') (case price_of_request rq t of
       None \<Rightarrow> refuse (rq_raise rq) GenericException t p
     | Some price \<Rightarrow>
         if price = 0 then refuse (rq_raise rq) GenericException t p else
         bindE (broken_limit y rq price) (\<lambda>b.
         case b of Some e \<Rightarrow> refuse (rq_raise rq) e t p
         | None \<Rightarrow> place_order env place rq w price t p))"
      by (intro ensures_rules ensures_skip ref place_order_grown t)
  qed
qed

end

lemma new_order_grown:
  fixes s :: "('z) market_db_scheme"
  shows "grown z s \<Longrightarrow> ensures (\<lambda>(x, s', p'). grown z s') (new_order n env rq s p)"
proof (induction n arbitrary: z rq s p)
  case (Suc n)
  have "growing_service (new_order n env :: 'z placing)" by unfold_locales (rule Suc.IH)
  from growing_service.body_grown [OF this Suc.prems] show ?case by simp
qed (simp add: ensures_def)

interpretation growing_orders: growing_service "new_order n env" for n env
  by unfold_locales (rule new_order_grown)

section \<open>Enough fuel\<close>

abbreviation fueled :: "py_error + 'a \<Rightarrow> bool" where
  "fueled \<equiv> raises (- {OutOfFuel})"

lemma engine_fueled: "raises engine_errors r \<Longrightarrow> fueled r"
  by (erule raises_mono) (auto simp: engine_errors_def)

lemma raises_foldE_inv:
  assumes "P s" and "\<And>t x. x \<in> set xs \<Longrightarrow> P t \<Longrightarrow> raises E (f t x) \<and> ensures P (f t x)"
  shows "raises E (foldE f s xs)"
  using assms
proof (induction xs arbitrary: s)
  case (Cons x xs)
  have "raises E (bindE (f s x) (\<lambda>t. foldE f t xs))"
  proof (rule raises_bind)
    show "raises E (f s x)" using Cons.prems by simp
    fix t assume "f s x = Inr t"
    then have "P t" using Cons.prems by (auto dest: ensuresD)
    with Cons show "raises E (foldE f t xs)" by simp
  qed
  then show ?case by simp
qed simp

text \<open>The recursive call has enough fuel for a stop loss of the tables with budget below \<open>k\<close>.\<close>

locale bounded_service = growing_service place for place :: "'z placing" +
  fixes k :: nat
  assumes enough: "\<And>rq s p. for_stop_loss rq \<Longrightarrow> rq_stop_loss rq \<in> Some ` sl_ids s \<Longrightarrow> orders_unique s
    \<Longrightarrow> sl_budget s < k \<Longrightarrow> fueled (place rq s p)"
begin

lemma trigger_stop_loss_fueled:
  assumes "sl_id l \<in> sl_ids s" and "orders_unique s" and "sl_budget s < k"
  shows "fueled (trigger_stop_loss place l s p)"
  unfolding trigger_stop_loss_def
proof (intro raises_rules engine_fueled [OF stop_loss_request_raises] engine_fueled [OF row_raises(3)]
    engine_fueled [OF row_raises(5)] engine_fueled [OF write_raises(5)])
  fix rq assume "stop_loss_request s l = Inr rq"
  from stop_loss_request_for [OF this] assms have "fueled (place rq s p)" by (intro enough) simp_all
  then show "fueled (case place rq s p of
      Inl e \<Rightarrow> if e \<in> caught_errors then Inr (None, s, p) else Inl e | Inr r \<Rightarrow> Inr r)"
    by (auto simp: raises_def split: sum.splits)
qed

lemma trigger_fueled:
  assumes "orders_unique s" and "sl_budget s < k"
  shows "fueled (trigger env place x lo hi s p)"
  unfolding trigger_def Let_def
proof (rule raises_bind [OF engine_fueled [OF cancel_oco_orders_raises]])
  fix t assume "cancel_oco_orders env (to_trigger s x lo hi) s = Inr t"
  moreover have "ensures (grown s) (cancel_oco_orders env (to_trigger s x lo hi) s)"
    unfolding cancel_oco_orders_def
    by (rule ensures_foldE) (auto intro!: ensures_rules match_parts_grown(3))
  ultimately have t: "grown s t" by (rule ensuresD [rotated])
  let ?f = "\<lambda>(cs, s, p) l. bindE (trigger_stop_loss place l s p) (\<lambda>(c, s, p).
          Inr (case c of None \<Rightarrow> cs | Some c \<Rightarrow> cs @ [c], s, p))"
  show "fueled (foldE ?f ([], t, p) (to_trigger s x lo hi))"
  proof (rule raises_foldE_inv [where P = "\<lambda>(cs, s', p'). grown s s'"])
    fix u :: "stop_loss list \<times> ('z) market_db_scheme \<times> pipeline" and l
    assume l: "l \<in> set (to_trigger s x lo hi)" and u: "(\<lambda>(cs, s', p'). grown s s') u"
    obtain cs a q where u_eq: "u = (cs, a, q)" by (cases u)
    from u have a: "grown s a" by (simp add: u_eq)
    have "sl_id l \<in> sl_ids a" using l a by (auto simp: to_trigger_def sl_ids_def grown_def)
    moreover have "orders_unique a" using a assms(1) by (simp add: grown_def)
    moreover have "sl_budget a < k" using grown_budget [OF a] assms(2) by simp
    ultimately have f: "fueled (trigger_stop_loss place l a q)" by (rule trigger_stop_loss_fueled)
    show "fueled (?f u l) \<and> ensures (\<lambda>(cs, s', p'). grown s s') (?f u l)"
      unfolding u_eq prod.case
      by (auto intro!: raises_bind [OF f] raises_rules ensures_bind [OF trigger_stop_loss_grown [OF a]] ensures_rules)
  qed (simp add: t)
qed

lemma submit_fueled:
  assumes "orders_unique s" and "sl_budget s < k"
  shows "fueled (submit env place x sl oco s p)"
proof -
  have acq: "fueled (acquire_lock y x s p)" for y
    unfolding acquire_lock_def get_to_lock_wallet_def has_balance_def
    by (intro raises_rules engine_fueled [OF row_raises(2)] engine_fueled [OF lock_balance_raises]) (auto intro!: raises_rules)
  have inh: "fueled (inherited_fill y x s)" for y
    unfolding inherited_fill_def by (intro raises_rules) simp_all
  have f: "fueled (fill_of_submit y x sl oco s p)" for y
    unfolding fill_of_submit_def by (intro raises_rules acq inh)
  show ?thesis unfolding submit_def Let_def
  proof (rule raises_bind [OF engine_fueled [OF row_raises(1)]], rule raises_bind [OF f], rule raises_prod, rule raises_prod,
      rule raises_bind [OF engine_fueled [OF make_match_raises]], rule raises_prod, rule raises_prod, rule raises_if)
    fix y a b r t q c m d u v
    assume h: "fill_of_submit y x sl oco s p = Inr a" "a = (b, r)" "r = (t, q)"
      and mm: "make_match env x b t q = Inr c" "c = (m, d)" "d = (u, v)"
    have "grown s t" using ensuresD [OF fill_of_submit_grown [OF grown_refl] h(1)] h(2,3) by simp
    from ensuresD [OF make_match_grown [OF this] mm(1)] mm(2,3) have u: "grown s u" by simp
    have "orders_unique u" "sl_budget u < k" using u assms grown_budget [OF u] by (simp_all add: grown_def)
    then have "fueled (trigger env place x lo hi u v)" for lo hi by (rule trigger_fueled)
    then show "fueled (bindE (trigger env place x (Min (set (map bt_price (mt_trades m)))) (Max (set (map bt_price (mt_trades m)))) u v)
           (\<lambda>(cs, s, p). bindE (check_for_liquidation s x) (\<lambda>_. Inr (m\<lparr>mt_to_cancel := cs\<rparr>, s, p))))"
      unfolding check_for_liquidation_def by (intro raises_rules) simp_all
    show "fueled (Inr (m, u, v))" by simp
  qed
qed

lemma place_order_fueled:
  assumes "orders_unique s" and "sl_budget s < k \<or> (rq_stop_loss rq \<in> Some ` sl_ids s \<and> sl_budget s \<le> k)"
  shows "fueled (place_order env place rq w price s p)"
  unfolding place_order_def
proof (rule raises_let, rule raises_prod, rule raises_bind [OF engine_fueled [OF write_raises(2)]], rule raises_prod)
  fix g t c x u h
  assume h: "h = group_of_request rq s" "h = (g, t)"
    and c: "create_order t (order_of_request rq w price g) = Inr c" "c = (x, u)"
  have t: "orders t = orders s" "stop_losses t = stop_losses s"
    using h by (auto simp: group_of_request_def uuid4_def split: option.splits)
  then have st: "sl_budget t = sl_budget s" "sl_ids t = sl_ids s" "orders_unique t"
    using assms(1) by (simp_all add: sl_budget_def sl_orders_def sl_ids_def orders_unique_def)
  note cg = create_order_grown [OF c(1) [unfolded c(2)]]
  have u: "orders_unique u" using cg(1) st(3) by (simp add: grown_def)
  have "sl_budget u < k"
  proof (cases "sl_budget s < k")
    case True
    with grown_budget [OF cg(1)] st(1) show ?thesis by simp
  next
    case False
    with assms(2) have "rq_stop_loss rq \<in> Some ` sl_ids s" and k: "sl_budget s = k" by auto
    then have "sl_orders u = Suc (sl_orders t)" using cg(2) st(2) by (simp add: order_of_request_def)
    moreover have "sl_orders u \<le> 3 * card (sl_ids u)" by (rule sl_orders_bound [OF u])
    moreover have "sl_ids u = sl_ids t" using cg(1) by (simp add: grown_def)
    ultimately show ?thesis using k st(1) by (simp add: sl_budget_def)
  qed
  from submit_fueled [OF u this]
  show "fueled (bindE (submit env place x (o_stop_loss x \<noteq> None) (o_oco x \<noteq> None) u p) (\<lambda>(m, s, p).
      Inr (Some (x, map fst (mt_pairs m)), cancel_stop_losses env (mt_to_cancel m) s, p)))"
    by (intro raises_rules)
qed

lemma body_fueled:
  assumes "orders_unique s" and "sl_budget s < k \<or> (rq_stop_loss rq \<in> Some ` sl_ids s \<and> sl_budget s \<le> k)"
  shows "fueled (new_order_body env place rq s p)"
  unfolding new_order_body_def
proof (rule raises_bind [OF raises_assert], simp, rule raises_bind [OF engine_fueled [OF row_raises(1)]], rule raises_let, rule raises_prod)
  fix y :: pair_symbol and r w t
  assume r: "r = get_wallet s (sy_asset y) (rq_account rq) (rq_market rq) (rq_variant rq) None" "r = (w, t)"
  then have "orders t = orders s" "stop_losses t = stop_losses s"
    by (auto simp: get_wallet_def get_or_create_wallet_def Let_def split: option.splits)
  then have st: "sl_budget t = sl_budget s" "sl_ids t = sl_ids s" "orders_unique t"
    using assms(1) by (simp_all add: sl_budget_def sl_orders_def sl_ids_def orders_unique_def)
  have po: "fueled (place_order env place rq w price t p)" for price
    using assms(2) by (intro place_order_fueled) (simp_all add: st)
  have ref: "fueled (refuse b e t p)" if "e \<noteq> OutOfFuel" for b e using that by (simp add: refuse_def raises_def)
  have bl: "fueled (broken_limit y rq price)" "broken_limit y rq price = Inr (Some e) \<Longrightarrow> e \<noteq> OutOfFuel" for price e
    by (auto simp: broken_limit_def min_notional_def raises_def bindE_eq_Inr split: if_splits)
  show "fueled (case price_of_request rq t of
       None \<Rightarrow> refuse (rq_raise rq) GenericException t p
     | Some price \<Rightarrow>
         if price = 0 then refuse (rq_raise rq) GenericException t p else
         bindE (broken_limit y rq price) (\<lambda>b.
         case b of Some e \<Rightarrow> refuse (rq_raise rq) e t p
         | None \<Rightarrow> place_order env place rq w price t p))"
    by (intro raises_rules po ref bl(1)) (auto dest: bl(2))
qed

end

lemma new_order_bounded:
  fixes s :: "('z) market_db_scheme"
  shows "orders_unique s \<Longrightarrow> Suc (sl_budget s) < n \<or> (rq_stop_loss rq \<in> Some ` sl_ids s \<and> sl_budget s < n)
    \<Longrightarrow> fueled (new_order n env rq s p)"
proof (induction n arbitrary: rq s p)
  case (Suc n)
  have "bounded_service (new_order n env :: 'z placing) n"
    by unfold_locales (rule Suc.IH, simp_all)
  from bounded_service.body_fueled [OF this] Suc.prems show ?case by auto
qed simp

interpretation bounded_orders: bounded_service "new_order n env" n for n env
  by unfold_locales (rule new_order_bounded, simp_all)

end
