(* ===== verification/Order_Requests.thy ===== *)
theory Order_Requests
  imports Order_Recursion
begin

text \<open>
  The requests of a user: placing an order, a stop loss, an OCO (the serializers of
  \<^verbatim>\<open>market/serializers/\<close>), and canceling them one by one or in bulk (\<^verbatim>\<open>Order.cancel\<close>,
  \<^verbatim>\<open>bulk_cancel_simple_orders\<close>, \<^verbatim>\<open>CancelRequestSerializer\<close>). The serializers turn the exceptions
  of the engine into answers as they do in production (\<^verbatim>\<open>DEBUG_OR_TESTING_OR_STAGING\<close> off).
\<close>

section \<open>Canceling\<close>

definition cancel_body ::
  "order \<Rightarrow> ('z) market_db_scheme \<Rightarrow> pipeline \<Rightarrow> (unit \<times> ('z) market_db_scheme \<times> pipeline) result" where
  "cancel_body x s p =
     bindE (symbol_row s (o_symbol x)) (\<lambda>_.
     case List.find (\<lambda>y. o_status y = NEW \<and> o_id y = o_id x) (orders s) of
       None \<Rightarrow> Inr ((), s, p)
     | Some y \<Rightarrow>
         bindE (save_status s (o_id y) CANCELED) (\<lambda>s.
         bindE (release_lock s p (o_group y) None) (\<lambda>p.
         bindE (row_of_wallet s (o_wallet y)) (\<lambda>w.
         bindE (guardE OutOfModel (w_market w \<noteq> MARGIN)) (\<lambda>_. Inr ((), s, p))))))"

definition cancel :: "market_env \<Rightarrow> order \<Rightarrow> ('z) market_db_scheme \<Rightarrow> ('z) market_db_scheme result" where
  "cancel env x s =
     bindE (case o_oco x of Some i \<Rightarrow> cancel_another env s i OCO_STOPLOSS True | None \<Rightarrow> Inr s) (\<lambda>s.
     if o_status x \<noteq> NEW then Inr s
     else bindE (with_pipeline (cancel_body x) s) (\<lambda>(_, s). Inr s))"

definition cancel_rows :: "('z) market_db_scheme \<Rightarrow> nat list \<Rightarrow> ('z) market_db_scheme result" where
  "cancel_rows s ids =
     (let os = map (\<lambda>x. if o_id x \<in> set ids \<and> o_status x = NEW then x\<lparr>o_status := CANCELED\<rparr> else x) (orders s) in
      bindE (guardE IntegrityError (\<forall>x\<in>set os. o_id x \<in> set ids \<longrightarrow> (\<forall>y\<in>set os. \<not> orders_clash x y))) (\<lambda>_.
      Inr (s\<lparr>orders := os\<rparr>)))"

definition bulk_cancel_body ::
  "nat list \<Rightarrow> ('z) market_db_scheme \<Rightarrow> pipeline \<Rightarrow> (unit \<times> ('z) market_db_scheme \<times> pipeline) result" where
  "bulk_cancel_body ids s p =
     (let os = filter (\<lambda>x. o_id x \<in> set ids) (open_orders s) in
      bindE (foldE (\<lambda>p x. release_lock s p (o_group x) None) p os) (\<lambda>p.
      bindE (cancel_rows s (map o_id os)) (\<lambda>s.
      let new_ids = filter (\<lambda>i. i \<notin> set (cancel_requests s)) (map o_id os) in
      Inr ((), s\<lparr>cancel_requests := cancel_requests s @ new_ids\<rparr>, p))))"

definition bulk_cancel_simple_orders :: "nat list \<Rightarrow> ('z) market_db_scheme \<Rightarrow> (unit \<times> ('z) market_db_scheme) result" where
  "bulk_cancel_simple_orders ids s =
     with_pipeline (bulk_cancel_body
       (map o_id (filter (\<lambda>x. o_id x \<in> set ids \<and> o_oco x = None) (open_orders s)))) s"

text \<open>The bulk view: the account's open orders among the ids and the client's ids.\<close>

definition bulk_cancel_view ::
  "account \<Rightarrow> nat list \<Rightarrow> string list \<Rightarrow> ('z) market_db_scheme \<Rightarrow> (unit \<times> ('z) market_db_scheme) result" where
  "bulk_cancel_view a ids client_ids s =
     (if ids = [] \<and> client_ids = [] then Inr ((), s)
      else bulk_cancel_simple_orders
        (map o_id (filter (\<lambda>x. acc_id (o_account x) = acc_id a
            \<and> (o_id x \<in> set ids \<or> client_order_id x \<in> Some ` set client_ids)) (open_orders s))) s)"

text \<open>
  The target of a cancel request: the id text \<^verbatim>\<open>sl-<id>\<close> names a stop loss, another id an
  order.
\<close>

datatype cancel_target = By_stop_loss nat | By_order_id nat | By_client_id string | No_target

definition cancel_order :: "market_env \<Rightarrow> order \<Rightarrow> ('z) market_db_scheme \<Rightarrow> ('z) market_db_scheme result" where
  "cancel_order env x s =
     (if o_id x \<in> set (cancel_requests s) then Inr s
      else case cancel env x (s\<lparr>cancel_requests := cancel_requests s @ [o_id x]\<rparr>) of
             Inl e \<Rightarrow> Inl (if e \<in> {OutOfFuel, OutOfModel} then e else APIException)
           | Inr s \<Rightarrow> Inr s)"

definition stop_loss_delete ::
  "market_env \<Rightarrow> stop_loss \<Rightarrow> ('z) market_db_scheme \<Rightarrow> ('z) market_db_scheme result" where
  "stop_loss_delete env l s =
     (let s = cancel_stop_loss s (now env) (sl_id l) in
      case sl_oco l of None \<Rightarrow> Inr s | Some i \<Rightarrow> cancel_another env s i OCO_ORDER True)"

definition first_sl_order :: "('z) market_db_scheme \<Rightarrow> nat \<Rightarrow> order option" where
  "first_sl_order s i =
     (let own = filter (\<lambda>x. o_stop_loss x = Some i) (orders s) in
      case concat (map (\<lambda>st. filter (\<lambda>x. o_status x = st) own) [CANCELED, FILLED, NEW]) of
        [] \<Rightarrow> None | x # xs \<Rightarrow> Some x)"

definition stop_loss_release :: "pair_symbol \<Rightarrow> stop_loss \<Rightarrow> decimal" where
  "stop_loss_release y l =
     (let price = (case sl_price l of
             Some p \<Rightarrow> if p \<noteq> 0 then p else trigger_price l * (if sl_side l = BUY then 101 / 100 else 1)
           | None \<Rightarrow> trigger_price l * (if sl_side l = BUY then 101 / 100 else 1))
      in get_to_lock_amount (sl_unfilled_amount y l) price (sl_side l))"

definition cancel_stop_loss_body ::
  "market_env \<Rightarrow> stop_loss \<Rightarrow> ('z) market_db_scheme \<Rightarrow> pipeline \<Rightarrow> (unit \<times> ('z) market_db_scheme \<times> pipeline) result" where
  "cancel_stop_loss_body env l s p =
     bindE (stop_loss_delete env l s) (\<lambda>s.
     case first_sl_order s (sl_id l) of
       Some x \<Rightarrow> bindE (cancel_order env x s) (\<lambda>s. Inr ((), s, p))
     | None \<Rightarrow>
         bindE (symbol_row s (sl_symbol l)) (\<lambda>y.
         bindE (release_lock s p (sl_group l) (Some (stop_loss_release y l))) (\<lambda>p. Inr ((), s, p))))"

definition is_for_strategy :: "('z) market_db_scheme \<Rightarrow> wallet \<Rightarrow> bool" where
  "is_for_strategy s w \<longleftrightarrow> (case variant w of None \<Rightarrow> False | Some v \<Rightarrow> v \<in> set (reserve_groups s))"

definition wallet_of_account :: "('z) ledger_scheme \<Rightarrow> account \<Rightarrow> nat \<Rightarrow> bool" where
  "wallet_of_account s a i \<longleftrightarrow>
     (case find_wallet s i of Some w \<Rightarrow> acc_id (w_account w) = acc_id a | None \<Rightarrow> False)"

definition create_cancel_request ::
  "market_env \<Rightarrow> account \<Rightarrow> bool \<Rightarrow> cancel_target \<Rightarrow> ('z) market_db_scheme \<Rightarrow> ('z) market_db_scheme result" where
  "create_cancel_request env a allow_strategy target s =
     (case target of
        No_target \<Rightarrow> Inl NotFound
      | By_stop_loss i \<Rightarrow>
          bindE (the_or NotFound (List.find (\<lambda>l. sl_canceled_at l = None \<and> sl_filled l < sl_amount l
                    \<and> wallet_of_account s a (sl_wallet l) \<and> sl_id l = i) (stop_losses s))) (\<lambda>l.
          bindE (row_of_wallet s (sl_wallet l)) (\<lambda>w.
          bindE (guardE PermissionDenied (\<not> (is_for_strategy s w \<and> \<not> allow_strategy))) (\<lambda>_.
          bindE (guardE OutOfModel (w_market w \<noteq> MARGIN)) (\<lambda>_.
          bindE (with_pipeline (cancel_stop_loss_body env l) s) (\<lambda>(_, s). Inr s)))))
      | _ \<Rightarrow>
          bindE (the_or NotFound (List.find (\<lambda>x. acc_id (o_account x) = acc_id a
                    \<and> (case target of By_order_id i \<Rightarrow> o_id x = i | By_client_id c \<Rightarrow> client_order_id x = Some c | _ \<Rightarrow> False))
                  (open_orders s))) (\<lambda>x.
          bindE (guardE NotFound (o_stop_loss x = None)) (\<lambda>_.
          bindE (row_of_wallet s (o_wallet x)) (\<lambda>w.
          bindE (guardE PermissionDenied (\<not> (is_for_strategy s w \<and> \<not> allow_strategy))) (\<lambda>_.
          cancel_order env x s)))))"

section \<open>Placing orders\<close>

text \<open>What a request carries after the fields are parsed, with the account of the caller.\<close>

record order_input =
  in_symbol :: string
  in_account :: account
  in_variant :: "nat option"
  in_side :: side
  in_fill_type :: fill_type
  in_amount :: decimal
  in_price :: "pydec option"
  in_market :: wallet_market
  in_tif :: time_in_force
  in_client_order_id :: "string option"

definition upper_char :: "char \<Rightarrow> char" where
  "upper_char c = (let n = of_char c :: nat in if 97 \<le> n \<and> n \<le> 122 then char_of (n - 32) else c)"

definition enabled_symbol :: "('z) market_db_scheme \<Rightarrow> string \<Rightarrow> pair_symbol result" where
  "enabled_symbol s n =
     the_or NotFound (List.find (\<lambda>y. sy_name y = map upper_char n \<and> sy_enable y) (symbols s))"

definition post_validate_amount :: "pair_symbol \<Rightarrow> decimal \<Rightarrow> decimal result" where
  "post_validate_amount y amount =
     (let quantize_amount = floor_precision amount (int (step_size y)) in
      bindE (guardE ValidationErr (\<not> quantize_amount < min_trade_quantity y)) (\<lambda>_.
      bindE (guardE ValidationErr (\<not> max_trade_quantity y < quantize_amount)) (\<lambda>_.
      Inr quantize_amount)))"

definition validate_order_size :: "decimal \<Rightarrow> decimal \<Rightarrow> decimal \<Rightarrow> unit result" where
  "validate_order_size amount price min_order_size =
     guardE ValidationErr (\<not> amount * price < min_order_size)"

definition post_validate_price :: "pair_symbol \<Rightarrow> pydec \<Rightarrow> pydec result" where
  "post_validate_price y price =
     bindE (guardE ValidationErr (\<not> int (tick_size y) < get_precision price)) (\<lambda>_. Inr price)"

definition post_validate ::
  "market_env \<Rightarrow> pair_symbol \<Rightarrow> order_input \<Rightarrow> decimal \<Rightarrow> ('z) market_db_scheme
     \<Rightarrow> (decimal \<times> wallet \<times> ('z) market_db_scheme) result" where
  "post_validate env y inp price s =
     bindE (guardE ValidationErr (sy_asset y \<in> set (enabled_assets s))) (\<lambda>_.
     bindE (guardE ValidationErr (sy_enable y \<or> acc_id (in_account inp) = MARKET_MAKER_ACCOUNT_ID (cfg env))) (\<lambda>_.
     bindE (post_validate_amount y (in_amount inp)) (\<lambda>amount.
     bindE (guardE OutOfModel (in_market inp \<noteq> MARGIN)) (\<lambda>_.
     let (w, s) = get_wallet s (sy_asset y) (in_account inp) (in_market inp) (in_variant inp) None;
         min_order_size = (if sy_base y = ''IRT'' then MIN_IRT_ORDER_SIZE else MIN_USDT_ORDER_SIZE) in
     bindE (validate_order_size amount price min_order_size) (\<lambda>_.
     Inr (amount, w, s))))))"

text \<open>The price of the order: given and with no more decimals than the tick, or the market's.\<close>

definition price_of_input :: "pair_symbol \<Rightarrow> order_input \<Rightarrow> ('z) market_db_scheme \<Rightarrow> decimal result" where
  "price_of_input y inp s =
     (case in_fill_type inp of
        LIMIT \<Rightarrow>
          bindE (the_or ValidationErr (in_price inp)) (\<lambda>p.
          bindE (guardE ValidationErr (dec_val p \<noteq> 0)) (\<lambda>_.
          bindE (post_validate_price y p) (\<lambda>p. Inr (dec_val p))))
      | MARKET \<Rightarrow> the_or GenericException (get_market_price s (sy_name y) (get_opposite_side (in_side inp))))"

definition order_of_input :: "order_input \<Rightarrow> pair_symbol \<Rightarrow> wallet \<Rightarrow> decimal \<Rightarrow> decimal \<Rightarrow> nat \<Rightarrow> order" where
  "order_of_input inp y w amount price gid =
     \<lparr>o_id = 0, o_type = TYPE_ORDINARY, o_account = w_account w, o_wallet = w_id w, o_symbol = sy_name y,
      o_amount = amount, o_filled = 0, o_price = price, o_side = in_side inp,
      o_fill_type = in_fill_type inp, o_status = NEW, o_group = gid,
      client_order_id = in_client_order_id inp, o_stop_loss = None, o_oco = None, o_tif = in_tif inp\<rparr>"

definition create_and_submit ::
  "nat \<Rightarrow> market_env \<Rightarrow> (nat \<Rightarrow> order) \<Rightarrow> ('z) market_db_scheme \<Rightarrow> pipeline
     \<Rightarrow> ((order \<times> matched_trades) \<times> ('z) market_db_scheme \<times> pipeline) result" where
  "create_and_submit n env mk s p =
     (let (gid, s) = uuid4 s in
      bindE (create_order s (mk gid)) (\<lambda>(x, s).
      bindE (submit env (new_order n env) x False False s p) (\<lambda>(m, s, p).
      Inr ((x, m), s, p))))"

text \<open>The answer to an exception while the order is placed.\<close>

definition order_failure :: "py_error \<Rightarrow> py_error" where
  "order_failure e =
     (case e of
        InsufficientBalance \<Rightarrow> ValidationErr | SmallDepthError _ \<Rightarrow> ValidationErr
      | OutOfFuel \<Rightarrow> OutOfFuel | OutOfModel \<Rightarrow> OutOfModel | _ \<Rightarrow> APIException)"

definition filled_of :: "order \<Rightarrow> matched_trades \<Rightarrow> decimal \<times> decimal" where
  "filled_of x m =
     (let ts = filter (\<lambda>t. tr_order t = o_id x) (mt_trades m)
      in (sum_of bt_amount ts, sum_of (\<lambda>t. bt_price t * bt_amount t) ts))"

definition create_order_request ::
  "nat \<Rightarrow> market_env \<Rightarrow> order_input \<Rightarrow> ('z) market_db_scheme
     \<Rightarrow> ((order \<times> decimal \<times> decimal) \<times> ('z) market_db_scheme) result" where
  "create_order_request n env inp s =
     bindE (guardE ValidationErr (can_trade env)) (\<lambda>_.
     bindE (guardE ValidationErr (MARKET_TRADE_ENABLE env \<or> is_system (in_account inp))) (\<lambda>_.
     bindE (enabled_symbol s (in_symbol inp)) (\<lambda>y.
     bindE (price_of_input y inp s) (\<lambda>price.
     bindE (post_validate env y inp price s) (\<lambda>(amount, w, s).
     case with_pipeline (create_and_submit n env (order_of_input inp y w amount price)) s of
       Inl e \<Rightarrow> Inl (order_failure e)
     | Inr ((x, m), s) \<Rightarrow>
         Inr ((x\<lparr>o_filled := fst (filled_of x m)\<rparr>, filled_of x m), cancel_stop_losses env (mt_to_cancel m) s))))))"

text \<open>\<^verbatim>\<open>get_filled_price\<close>: the average price of an order's trades.\<close>

definition get_filled_price :: "pair_symbol \<Rightarrow> decimal \<times> decimal \<Rightarrow> decimal option" where
  "get_filled_price y f =
     (let (fills_amount, fills_value) = f in
      if fills_amount = 0 then None
      else Some (floor_precision (fills_value / fills_amount) (int (tick_size y))))"

section \<open>Stop losses and OCOs\<close>

definition create_stop_loss ::
  "('z) market_db_scheme \<Rightarrow> stop_loss \<Rightarrow> (stop_loss \<times> ('z) market_db_scheme) result" where
  "create_stop_loss s l =
     (let l = l\<lparr>sl_id := fresh_id (map sl_id (stop_losses s))\<rparr> in
      bindE (guardE IntegrityError (0 \<le> sl_amount l \<and> 0 \<le> sl_filled l
        \<and> (case sl_price l of None \<Rightarrow> True | Some p \<Rightarrow> 0 \<le> p)
        \<and> (sl_oco l = None \<or> sl_oco l \<notin> set (map sl_oco (stop_losses s))))) (\<lambda>_.
      Inr (l, s\<lparr>stop_losses := stop_losses s @ [l]\<rparr>)))"

text \<open>The wallet the lock is taken from, once it has the balance.\<close>

definition lock_source ::
  "pair_symbol \<Rightarrow> wallet \<Rightarrow> side \<Rightarrow> decimal \<Rightarrow> ('z) market_db_scheme \<Rightarrow> (wallet \<times> ('z) market_db_scheme) result" where
  "lock_source y w sd lock_amount s =
     (let (base, s) = get_wallet s (sy_base y) (w_account w) (w_market w) None None in
      bindE (get_to_lock_wallet w base sd) (\<lambda>lw.
      bindE (has_balance lw lock_amount True False 0) (\<lambda>_. Inr (lw, s))))"

definition stop_loss_body ::
  "pair_symbol \<Rightarrow> order_input \<Rightarrow> pydec \<Rightarrow> wallet \<Rightarrow> decimal \<Rightarrow> ('z) market_db_scheme \<Rightarrow> pipeline
     \<Rightarrow> (stop_loss \<times> ('z) market_db_scheme \<times> pipeline) result" where
  "stop_loss_body y inp trigger_at w order_price s p =
     (let lock_amount = get_to_lock_amount (in_amount inp) order_price (in_side inp) in
      bindE (lock_source y w (in_side inp) lock_amount s) (\<lambda>(lw, s).
      let (gid, s) = uuid4 s in
      bindE (create_stop_loss s
        \<lparr>sl_id = 0, sl_wallet = w_id w, sl_symbol = sy_name y, sl_fill_type = in_fill_type inp,
         sl_amount = in_amount inp, sl_filled = 0, trigger_price = dec_val trigger_at,
         sl_price = map_option dec_val (in_price inp), sl_side = in_side inp, sl_canceled_at = None,
         sl_group = gid, sl_oco = None\<rparr>) (\<lambda>(l, s).
      bindE (lock_balance p gid lw lock_amount Lock_TRADE) (\<lambda>p.
      Inr (l, s, p)))))"

definition insufficient_to_validation :: "'a result \<Rightarrow> 'a result" where
  "insufficient_to_validation r = (case r of Inl InsufficientBalance \<Rightarrow> Inl ValidationErr | _ \<Rightarrow> r)"

definition create_stop_loss_request ::
  "market_env \<Rightarrow> order_input \<Rightarrow> pydec \<Rightarrow> ('z) market_db_scheme \<Rightarrow> (stop_loss \<times> ('z) market_db_scheme) result" where
  "create_stop_loss_request env inp trigger_at s =
     bindE (enabled_symbol s (in_symbol inp)) (\<lambda>y.
     let priced = (case in_price inp of None \<Rightarrow> False | Some p \<Rightarrow> dec_val p \<noteq> 0);
         conservative_factor = (if \<not> priced \<and> in_side inp = BUY then 101 / 100 else 1);
         order_price = (case in_price inp of None \<Rightarrow> dec_val trigger_at | Some p \<Rightarrow> dec_val p) * conservative_factor;
         price = (case in_price inp of None \<Rightarrow> order_price | Some p \<Rightarrow> dec_val p) in
     bindE (if priced then bindE (post_validate_price y (the (in_price inp))) (\<lambda>_. Inr ()) else Inr ()) (\<lambda>_.
     bindE (post_validate env y inp price s) (\<lambda>(_, w, s).
     bindE (post_validate_price y trigger_at) (\<lambda>_.
     insufficient_to_validation (with_pipeline (stop_loss_body y inp trigger_at w order_price) s)))))"

definition create_oco :: "('z) market_db_scheme \<Rightarrow> oco \<Rightarrow> (oco \<times> ('z) market_db_scheme) result" where
  "create_oco s c =
     (let c = c\<lparr>oc_id := fresh_id (map oc_id (ocos s))\<rparr> in
      bindE (guardE IntegrityError (0 \<le> oc_amount c \<and> (case oc_price c of None \<Rightarrow> True | Some p \<Rightarrow> 0 \<le> p))) (\<lambda>_.
      Inr (c, s\<lparr>ocos := ocos s @ [c]\<rparr>)))"

definition oco_body ::
  "nat \<Rightarrow> market_env \<Rightarrow> pair_symbol \<Rightarrow> order_input \<Rightarrow> decimal \<Rightarrow> decimal \<Rightarrow> decimal \<Rightarrow> wallet
     \<Rightarrow> ('z) market_db_scheme \<Rightarrow> pipeline \<Rightarrow> (oco \<times> ('z) market_db_scheme \<times> pipeline) result" where
  "oco_body n env y inp price sl_price' sl_trigger w s p =
     (let amount = in_amount inp;
          lock_amount = get_to_lock_amount amount (max price sl_price') (in_side inp);
          releasable = (if in_side inp = BUY then (sl_price' - price) * amount else 0) in
      bindE (lock_source y w (in_side inp) lock_amount s) (\<lambda>(lw, s).
      let (gid, s) = uuid4 s in
      bindE (create_oco s
        \<lparr>oc_id = 0, oc_wallet = w_id w, oc_symbol = sy_name y, oc_amount = amount, releasable_lock = releasable,
         stop_loss_price = sl_price', stop_loss_trigger_price = sl_trigger, oc_price = Some price,
         oc_side = in_side inp, oc_canceled_at = None, oc_group = gid\<rparr>) (\<lambda>(c, s).
      bindE (lock_balance p gid lw lock_amount Lock_TRADE) (\<lambda>p.
      bindE (new_order n env
        \<lparr>rq_symbol = sy_name y, rq_account = w_account w, rq_side = in_side inp, rq_amount = amount,
         rq_price = Some price, rq_fill_type = LIMIT, rq_raise = False, rq_market = w_market w,
         rq_type = TYPE_ORDINARY, parent_lock_group_id = Some gid, rq_stop_loss = None, rq_tif = GTC,
         pass_min_notional = False, rq_variant = None, rq_oco = Some (oc_id c), rq_client_order_id = None\<rparr> s p)
        (\<lambda>(x, s, p).
      bindE (the_or GenericException x) (\<lambda>(_, ts).
      if ts = []
      then bindE (create_stop_loss s
             \<lparr>sl_id = 0, sl_wallet = w_id w, sl_symbol = sy_name y, sl_fill_type = LIMIT, sl_amount = amount,
              sl_filled = 0, trigger_price = sl_trigger, sl_price = Some sl_price', sl_side = in_side inp,
              sl_canceled_at = None, sl_group = gid, sl_oco = Some (oc_id c)\<rparr>) (\<lambda>(_, s). Inr (c, s, p))
      else Inr (c, s, p)))))))"

definition create_oco_request ::
  "nat \<Rightarrow> market_env \<Rightarrow> order_input \<Rightarrow> pydec \<Rightarrow> pydec \<Rightarrow> ('z) market_db_scheme
     \<Rightarrow> (oco \<times> ('z) market_db_scheme) result" where
  "create_oco_request n env inp sl_price' sl_trigger s =
     bindE (enabled_symbol s (in_symbol inp)) (\<lambda>y.
     bindE (the_or ValidationErr (in_price inp)) (\<lambda>p.
     bindE (post_validate_price y p) (\<lambda>_.
     bindE (post_validate_price y sl_price') (\<lambda>_.
     bindE (post_validate_price y sl_trigger) (\<lambda>_.
     bindE (post_validate env y inp (min (dec_val p) (dec_val sl_price')) s) (\<lambda>(_, w, s).
     insufficient_to_validation
       (with_pipeline (oco_body n env y inp (dec_val p) (dec_val sl_price') (dec_val sl_trigger) w) s)))))))"

section \<open>Every request keeps the ledger\<close>

lemma cancel_rows_same: "cancel_rows s ids = Inr s' \<Longrightarrow> same_ledger s s'"
  by (auto simp: cancel_rows_def Let_def result_simps same_ledger_def)

lemma create_stop_loss_same: "create_stop_loss s l = Inr (l', s') \<Longrightarrow> same_ledger s s'"
  by (auto simp: create_stop_loss_def Let_def result_simps same_ledger_def)

lemma create_oco_same: "create_oco s c = Inr (c', s') \<Longrightarrow> same_ledger s s'"
  by (auto simp: create_oco_def Let_def result_simps same_ledger_def)

lemma stop_loss_delete_same: "stop_loss_delete env l s = Inr s' \<Longrightarrow> same_ledger s s'"
  by (auto simp: stop_loss_delete_def Let_def split: option.splits dest: cancel_another_same
      intro: same_ledger_trans [OF cancel_stop_loss_same])

lemma cancel_body_keeps: "cancel_body x s p = Inr (u, s', p') \<Longrightarrow> block_ok s p \<Longrightarrow> block_ok s' p'"
  by (auto simp: cancel_body_def result_simps split: option.splits
      dest!: save_status_same release_lock_inv simp: same_ledger_block)

interpretation cancel_block: ledger_block "\<lambda>s. True" "cancel_body x" for x
  by unfold_locales (rule cancel_body_keeps)

lemma release_orders_keeps:
  "foldE (\<lambda>p x. release_lock s p (o_group x) None) p os = Inr p' \<Longrightarrow> block_ok s p \<Longrightarrow> block_ok s p'"
  by (rule foldE_invariant [where P = "block_ok s"]) (auto intro: release_lock_inv)

lemma bulk_cancel_body_keeps: "bulk_cancel_body ids s p = Inr (u, s', p') \<Longrightarrow> block_ok s p \<Longrightarrow> block_ok s' p'"
  by (auto simp: bulk_cancel_body_def result_simps Let_def same_ledger_block dest!: cancel_rows_same release_orders_keeps)

interpretation bulk_cancel_block: ledger_block "\<lambda>s. True" "bulk_cancel_body ids" for ids
  by unfold_locales (rule bulk_cancel_body_keeps)

lemma create_and_submit_keeps:
  assumes "create_and_submit n env mk s p = Inr (r, s', p')" and "block_ok s p"
  shows "block_ok s' p'"
proof -
  from assms(1) obtain g s1 x s2 m where u: "uuid4 s = (g, s1)" and c: "create_order s1 (mk g) = Inr (x, s2)"
    and sb: "submit env (new_order n env) x False False s2 p = Inr (m, s', p')"
    by (auto simp: create_and_submit_def result_simps split: prod.splits)
  have "block_ok s2 p" using assms(2) uuid4_same [OF u] create_order_same [OF c] by (simp add: same_ledger_block)
  with sb show ?thesis by (rule orders_placed.submit_keeps)
qed

interpretation submit_block: ledger_block "\<lambda>s. True" "create_and_submit n env mk" for n env mk
  by unfold_locales (rule create_and_submit_keeps)

lemma lock_source_keeps:
  assumes "lock_source y w sd a s = Inr (lw, s')" and "block_ok s p" and "known s w"
  shows "block_ok s' p" and "known s' lw"
proof -
  from assms(1) obtain base where g: "get_wallet s (sy_base y) (w_account w) (w_market w) None None = (base, s')"
    and lw: "get_to_lock_wallet w base sd = Inr lw"
    by (auto simp: lock_source_def result_simps Let_def split: prod.splits)
  note k = get_wallet_inv [OF g assms(2)]
  from lw have "lw = base \<or> lw = w" by (auto simp: get_to_lock_wallet_def result_simps split: if_splits)
  with k(2) k(3) [OF assms(3)] show "known s' lw" by blast
  from k(1) show "block_ok s' p" .
qed

lemma stop_loss_body_keeps:
  assumes "stop_loss_body y inp tp w op s p = Inr (r, s', p')" and "block_ok s p" and "known s w"
  shows "block_ok s' p'"
proof -
  from assms(1) obtain a lw s1 g s2 l0 l s3 where lw: "lock_source y w (in_side inp) a s = Inr (lw, s1)"
    and u: "uuid4 s1 = (g, s2)" and c: "create_stop_loss s2 l0 = Inr (l, s3)"
    and lb: "lock_balance p g lw a Lock_TRADE = Inr p'" and s': "s' = s3"
    by (auto simp: stop_loss_body_def result_simps Let_def split: prod.splits)
  note k = lock_source_keeps [OF lw assms(2,3)]
  have "block_ok s3 p" "known s3 lw"
    using k uuid4_same [OF u] create_stop_loss_same [OF c] by (simp_all add: same_ledger_block)
  with lb s' show ?thesis by (blast intro: lock_balance_inv)
qed

interpretation stop_loss_block: ledger_block "\<lambda>s. known s w" "stop_loss_body y inp tp w op" for y inp tp w op
  by unfold_locales (rule stop_loss_body_keeps)

lemma oco_body_keeps:
  assumes "oco_body n env y inp pr slp slt w s p = Inr (r, s', p')" and "block_ok s p" and "known s w"
  shows "block_ok s' p'"
proof -
  from assms(1) obtain a lw s1 g s2 c0 c s3 p1 rq x s4 where lw: "lock_source y w (in_side inp) a s = Inr (lw, s1)"
    and u: "uuid4 s1 = (g, s2)" and c: "create_oco s2 c0 = Inr (c, s3)"
    and lb: "lock_balance p g lw a Lock_TRADE = Inr p1" and no: "new_order n env rq s3 p1 = Inr (x, s4, p')"
    and s': "s' = s4 \<or> (\<exists>l0 l. create_stop_loss s4 l0 = Inr (l, s'))"
    unfolding oco_body_def Let_def
    by (elim bindE_InrE) (auto simp: bindE_eq_Inr split: prod.splits if_splits; blast)
  note k = lock_source_keeps [OF lw assms(2,3)]
  have "block_ok s3 p" "known s3 lw"
    using k uuid4_same [OF u] create_oco_same [OF c] by (simp_all add: same_ledger_block)
  with lb have "block_ok s3 p1" by (blast intro: lock_balance_inv)
  from new_order_keeps [OF no this] s' show ?thesis by (auto dest: create_stop_loss_same simp: same_ledger_block)
qed

interpretation oco_block: ledger_block "\<lambda>s. known s w" "oco_body n env y inp pr slp slt w" for n env y inp pr slp slt w
  by unfold_locales (rule oco_body_keeps)

lemma cancel_keeps:
  assumes "cancel env x s = Inr s'" and "ledger_ok s"
  shows "ledger_ok s'"
proof -
  from assms(1) obtain t where t: "(case o_oco x of Some i \<Rightarrow> cancel_another env s i OCO_STOPLOSS True | None \<Rightarrow> Inr s) = Inr t"
    and r: "s' = t \<or> (\<exists>u. with_pipeline (cancel_body x) t = Inr (u, s'))"
    by (auto simp: cancel_def result_simps split: if_splits)
  from t have "same_ledger s t" by (auto split: option.splits dest: cancel_another_same)
  with assms(2) have "ledger_ok t" by (simp add: same_ledger_block)
  with r show ?thesis by (auto intro: cancel_block.run_ok)
qed

lemma cancel_order_keeps:
  assumes "cancel_order env x s = Inr s'" and "ledger_ok s"
  shows "ledger_ok s'"
proof (cases "o_id x \<in> set (cancel_requests s)")
  case False
  let ?t = "s\<lparr>cancel_requests := cancel_requests s @ [o_id x]\<rparr>"
  have "same_ledger s ?t" by (simp add: same_ledger_def)
  then have "ledger_ok ?t" using assms(2) by (simp add: same_ledger_block)
  moreover have "cancel env x ?t = Inr s'" using assms(1) False by (auto simp: cancel_order_def split: sum.splits)
  ultimately show ?thesis by (blast intro: cancel_keeps)
qed (use assms in \<open>simp add: cancel_order_def\<close>)

lemma cancel_stop_loss_run_keeps:
  assumes "with_pipeline (cancel_stop_loss_body env l) s = Inr (u, s')" and "ledger_ok s"
  shows "ledger_ok s'"
proof -
  from assms(1) obtain t p where b: "cancel_stop_loss_body env l s new_pipeline = Inr (u, t, p)" and e: "execute t p = Inr s'"
    by (auto simp: with_pipeline_def result_simps)
  from b obtain v where v: "stop_loss_delete env l s = Inr v"
    and r: "(\<exists>x. cancel_order env x v = Inr t \<and> p = new_pipeline)
      \<or> (t = v \<and> (\<exists>k a. release_lock v new_pipeline k a = Inr p))"
    unfolding cancel_stop_loss_body_def by (elim bindE_InrE) (auto simp: bindE_eq_Inr split: option.splits)
  have "ledger_ok v" using stop_loss_delete_same [OF v] assms(2) by (simp add: same_ledger_block)
  then have "block_ok t p"
    using r new_pipeline_inv by (auto simp: block_ok_def intro: cancel_order_keeps dest: release_lock_inv [unfolded block_ok_def])
  with e show ?thesis by (rule execute_ok)
qed

lemma create_cancel_request_keeps:
  assumes "create_cancel_request env a allow tg s = Inr s'" and "ledger_ok s"
  shows "ledger_ok s'"
  using assms
  by (cases tg) (auto simp: create_cancel_request_def result_simps intro: cancel_order_keeps cancel_stop_loss_run_keeps)

text \<open>Validating creates the wallet of the pair's asset.\<close>

lemma post_validate_keeps:
  assumes "post_validate env y inp pr s = Inr (a, w, s')" and "ledger_ok s"
  shows "ledger_ok s'" and "known s' w"
proof -
  from assms(1) have g: "get_wallet s (sy_asset y) (in_account inp) (in_market inp) (in_variant inp) None = (w, s')"
    by (auto simp: post_validate_def result_simps Let_def split: prod.splits)
  have "block_ok s new_pipeline" using assms(2) new_pipeline_inv by (simp add: block_ok_def)
  from get_wallet_inv [OF g this] show "ledger_ok s'" "known s' w" by (simp_all add: block_ok_def)
qed

lemma create_order_request_keeps:
  assumes "create_order_request n env inp s = Inr (r, s')" and "ledger_ok s"
  shows "ledger_ok s'"
proof -
  from assms(1) obtain y pr a w t q v m where pv: "post_validate env y inp pr s = Inr (a, w, t)"
    and run: "with_pipeline (create_and_submit n env (order_of_input inp y w a pr)) t = Inr (q, v)"
    and s': "s' = cancel_stop_losses env m v"
    unfolding create_order_request_def by (elim bindE_InrE) (auto split: prod.splits sum.splits)
  from submit_block.run_ok [OF run post_validate_keeps(1) [OF pv assms(2)]] have "ledger_ok v" by simp
  then show ?thesis unfolding s' same_ledger_block(3) [OF cancel_stop_losses_same] .
qed

lemma insufficient_to_validation_Inr [simp]: "insufficient_to_validation r = Inr x \<longleftrightarrow> r = Inr x"
  by (auto simp: insufficient_to_validation_def split: sum.splits py_error.splits)

lemma create_stop_loss_request_keeps:
  assumes "create_stop_loss_request env inp tp s = Inr (l, s')" and "ledger_ok s"
  shows "ledger_ok s'"
proof -
  from assms(1) obtain y pr a w t op where pv: "post_validate env y inp pr s = Inr (a, w, t)"
    and run: "with_pipeline (stop_loss_body y inp tp w op) t = Inr (l, s')"
    unfolding create_stop_loss_request_def Let_def by (elim bindE_InrE) (auto elim!: bindE_InrE split: prod.splits)
  from stop_loss_block.run_ok [OF run post_validate_keeps [OF pv assms(2)]] show ?thesis .
qed

lemma create_oco_request_keeps:
  assumes "create_oco_request n env inp slp slt s = Inr (c, s')" and "ledger_ok s"
  shows "ledger_ok s'"
proof -
  from assms(1) obtain y pr a w t p1 p2 p3 where pv: "post_validate env y inp pr s = Inr (a, w, t)"
    and run: "with_pipeline (oco_body n env y inp p1 p2 p3 w) t = Inr (c, s')"
    unfolding create_oco_request_def Let_def by (elim bindE_InrE) (auto elim!: bindE_InrE split: prod.splits)
  from oco_block.run_ok [OF run post_validate_keeps [OF pv assms(2)]] show ?thesis .
qed

end
