(* ===== verification/Wallet_Ops.thy ===== *)
theory Wallet_Ops
  imports Pipeline
begin

text \<open>
  The simplest blocks over the pipeline: airdrops, seizing, reserve wallets
  (\<^verbatim>\<open>ledger/models/wallet.py\<close>), reverting a group of transactions
  (\<^verbatim>\<open>ledger/utils/revert.py\<close>), clearing debts (\<^verbatim>\<open>ledger/fix/revert_trade.py\<close>,
  \<^verbatim>\<open>ledger/tasks/debt.py\<close>) and freeing orphaned locks (\<^verbatim>\<open>ledger/tasks/locks.py\<close>). The result
  of \<^verbatim>\<open>uuid4()\<close> is the argument \<open>gid\<close>.
\<close>

section \<open>Airdrop, seizing, reserve wallets\<close>

definition airdrop_body ::
  "wallet \<Rightarrow> decimal \<Rightarrow> nat \<Rightarrow> ('z) ledger_scheme \<Rightarrow> pipeline \<Rightarrow> (unit \<times> ('z) ledger_scheme \<times> pipeline) result" where
  "airdrop_body self amount gid s p =
     bindE (out_account s) (\<lambda>out.
     let (w, s) = get_wallet s (w_asset self) out SPOT None None in
     bindE (post p w self amount SC_AIRDROP gid) (\<lambda>p. Inr ((), s, p)))"

definition airdrop ::
  "bool \<Rightarrow> wallet \<Rightarrow> decimal \<Rightarrow> nat \<Rightarrow> ('z) ledger_scheme \<Rightarrow> (unit \<times> ('z) ledger_scheme) result" where
  "airdrop debug_or_testing self amount gid s =
     bindE (assertE debug_or_testing) (\<lambda>_. with_pipeline (airdrop_body self amount gid) s)"

definition seize_body ::
  "wallet \<Rightarrow> decimal option \<Rightarrow> nat \<Rightarrow> ('z) ledger_scheme \<Rightarrow> pipeline \<Rightarrow> (unit \<times> ('z) ledger_scheme \<times> pipeline) result" where
  "seize_body self amount gid s p =
     bindE (system_account s) (\<lambda>system.
     let (w, s) = get_wallet s (w_asset self) system SPOT None None;
         amount = (case amount of Some a \<Rightarrow> if a \<noteq> 0 then a else balance self | None \<Rightarrow> balance self) in
     bindE (post p self w amount SC_SEIZE gid) (\<lambda>p. Inr ((), s, p)))"

definition seize_funds ::
  "wallet \<Rightarrow> decimal option \<Rightarrow> nat \<Rightarrow> ('z) ledger_scheme \<Rightarrow> (unit \<times> ('z) ledger_scheme) result" where
  "seize_funds self amount gid = with_pipeline (seize_body self amount gid)"

record reserve_wallet =
  rv_sender :: nat
  rv_receiver :: nat
  rv_amount :: decimal
  rv_group_id :: nat
  refund_completed :: bool
  rv_request_id :: "string option"

record reserve_db = ledger +
  reserves :: "reserve_wallet list"

text \<open>\<^verbatim>\<open>Wallet.objects.create\<close>: the uniqueness constraints of the table decide.\<close>

definition create_variant_wallet ::
  "wallet \<Rightarrow> nat \<Rightarrow> ('z) ledger_scheme \<Rightarrow> (wallet \<times> ('z) ledger_scheme) result" where
  "create_variant_wallet self v s =
     bindE (guardE IntegrityError (\<forall>w\<in>set (wallets s). \<not> (acc_id (w_account w) = acc_id (w_account self)
              \<and> w_asset w = w_asset self \<and> w_market w = w_market self \<and> variant w = Some v))) (\<lambda>_.
     Inr (get_or_create_wallet s (w_asset self) (w_account self) True (w_market self) (Some v) None))"

definition create_reserve ::
  "wallet \<Rightarrow> wallet \<Rightarrow> decimal \<Rightarrow> nat \<Rightarrow> string option \<Rightarrow> ('z) reserve_db_scheme \<Rightarrow> ('z) reserve_db_scheme result" where
  "create_reserve self child amount gid request_id s =
     bindE (assertE (w_asset self = w_asset child \<and> w_id self \<noteq> w_id child \<and> 0 < amount)) (\<lambda>_.
     bindE (guardE IntegrityError (\<forall>r\<in>set (reserves s).
              \<not> (rv_group_id r = gid \<and> rv_sender r = w_id self \<and> rv_receiver r = w_id child))) (\<lambda>_.
     Inr (s\<lparr>reserves := reserves s @ [\<lparr>rv_sender = w_id self, rv_receiver = w_id child, rv_amount = amount,
            rv_group_id = gid, refund_completed = False, rv_request_id = request_id\<rparr>]\<rparr>)))"

definition reserve_body ::
  "wallet \<Rightarrow> decimal \<Rightarrow> string option \<Rightarrow> nat \<Rightarrow> ('z) reserve_db_scheme \<Rightarrow> pipeline
     \<Rightarrow> (nat \<times> ('z) reserve_db_scheme \<times> pipeline) result" where
  "reserve_body self amount request_id gid s p =
     bindE (create_variant_wallet self gid s) (\<lambda>(child, s).
     bindE (post p self child amount SC_RESERVE gid) (\<lambda>p.
     bindE (create_reserve self child amount gid request_id s) (\<lambda>s.
     Inr (gid, s, p))))"

definition reserve_funds ::
  "wallet \<Rightarrow> decimal \<Rightarrow> string option \<Rightarrow> nat \<Rightarrow> ('z) reserve_db_scheme \<Rightarrow> (nat \<times> ('z) reserve_db_scheme) result" where
  "reserve_funds self amount request_id gid s =
     bindE (assertE (w_market self \<in> {SPOT, MARGIN} \<and> variant self = None)) (\<lambda>_.
     case (if request_id \<noteq> None \<and> request_id \<noteq> Some []
           then List.find (\<lambda>r. rv_request_id r = request_id) (reserves s) else None) of
       Some existing \<Rightarrow> Inr (rv_group_id existing, s)
     | None \<Rightarrow>
         bindE (has_balance self amount True False 0) (\<lambda>_.
         with_pipeline (reserve_body self amount request_id gid) s))"

definition refund_child ::
  "nat \<Rightarrow> ('z) ledger_scheme \<times> pipeline \<Rightarrow> wallet \<Rightarrow> (('z) ledger_scheme \<times> pipeline) result" where
  "refund_child gid sp child =
     (let (s, p) = sp in
      bindE (guardE GenericException (\<not> 0 < locked child)) (\<lambda>_.
      let (parent, s) = get_wallet s (w_asset child) (w_account child) (w_market child) None None in
      bindE (post p child parent (balance child) SC_RESERVE gid) (\<lambda>p. Inr (s, p))))"

definition refund_body ::
  "reserve_wallet \<Rightarrow> ('z) reserve_db_scheme \<Rightarrow> pipeline \<Rightarrow> (bool \<times> ('z) reserve_db_scheme \<times> pipeline) result" where
  "refund_body r s p =
     (let children = filter (\<lambda>w. variant w = Some (rv_group_id r) \<and> 0 < balance w) (wallets s) in
      bindE (foldE (refund_child (rv_group_id r)) (s, p) children) (\<lambda>(s, p).
      Inr (True, s\<lparr>reserves := map (\<lambda>q. if (rv_group_id q, rv_sender q, rv_receiver q)
                                            = (rv_group_id r, rv_sender r, rv_receiver r)
                                         then q\<lparr>refund_completed := True\<rparr> else q) (reserves s)\<rparr>, p)))"

definition refund :: "reserve_wallet \<Rightarrow> ('z) reserve_db_scheme \<Rightarrow> (bool \<times> ('z) reserve_db_scheme) result" where
  "refund r s =
     bindE (guardE GenericException (\<not> refund_completed r)) (\<lambda>_. with_pipeline (refund_body r) s)"

section \<open>Reverting a group of transactions\<close>

definition wallet_row :: "('z) ledger_scheme \<Rightarrow> nat \<Rightarrow> wallet result" where
  "wallet_row s i = the_or DoesNotExist (find_wallet s i)"

definition group_trxs :: "('z) ledger_scheme \<Rightarrow> nat \<Rightarrow> trx list" where
  "group_trxs s gid = filter (\<lambda>t. group_id t = gid) (trxs s)"

text \<open>\<^verbatim>\<open>Trx.revert\<close>\<close>

definition trx_revert :: "('z) ledger_scheme \<Rightarrow> pipeline \<Rightarrow> trx \<Rightarrow> pipeline result" where
  "trx_revert s p t =
     bindE (wallet_row s (receiver t)) (\<lambda>r.
     bindE (wallet_row s (sender t)) (\<lambda>w.
     post p r w (trx_amount t) SC_REVERT (group_id t)))"

definition revert_one ::
  "bool \<Rightarrow> ('z) ledger_scheme \<times> pipeline \<Rightarrow> trx \<Rightarrow> (('z) ledger_scheme \<times> pipeline) result" where
  "revert_one allow_debt sp t =
     (let (s, p) = sp in
      bindE (wallet_row s (receiver t)) (\<lambda>r.
      bindE (if \<not> allow_debt then Inr True else has_balance r (trx_amount t) False False 0) (\<lambda>direct.
      if direct
      then bindE (wallet_row s (sender t)) (\<lambda>w.
           bindE (post p r w (trx_amount t) SC_REVERT (group_id t)) (\<lambda>p. Inr (s, p)))
      else (let (d, s) = get_wallet s (w_asset r) (w_account r) DEBT None None in
           bindE (wallet_row s (sender t)) (\<lambda>w.
           bindE (post p d w (trx_amount t) SC_REVERT (group_id t)) (\<lambda>p. Inr (s, p)))))))"

definition revert_trx_group ::
  "nat \<Rightarrow> bool \<Rightarrow> ('z) ledger_scheme \<Rightarrow> pipeline \<Rightarrow> (('z) ledger_scheme \<times> pipeline) result" where
  "revert_trx_group gid allow_debt s p = foldE (revert_one allow_debt) (s, p) (group_trxs s gid)"

definition helper_pay ::
  "settings \<Rightarrow> nat \<Rightarrow> ('z) ledger_scheme \<times> pipeline \<Rightarrow> trx \<Rightarrow> (('z) ledger_scheme \<times> pipeline) result" where
  "helper_pay cfg gid sp t =
     (let (s, p) = sp in
      bindE (wallet_row s (sender t)) (\<lambda>w.
      bindE (get_wallet_by_id cfg s (w_asset w) (REVERT_HELPER_ACCOUNT cfg) SPOT None) (\<lambda>(h, s).
      bindE (post p h w (trx_amount t) SC_REVERT gid) (\<lambda>p. Inr (s, p)))))"

definition helper_take ::
  "settings \<Rightarrow> nat \<Rightarrow> ('z) ledger_scheme \<times> pipeline \<Rightarrow> trx \<Rightarrow> (('z) ledger_scheme \<times> pipeline) result" where
  "helper_take cfg gid sp t =
     (let (s, p) = sp in
      bindE (wallet_row s (receiver t)) (\<lambda>sndr.
      bindE (has_balance sndr (trx_amount t) False False 0) (\<lambda>can.
      let (sndr, s) = (if \<not> can then get_wallet s (w_asset sndr) (w_account sndr) DEBT None None else (sndr, s)) in
      bindE (get_wallet_by_id cfg s (w_asset sndr) (REVERT_HELPER_ACCOUNT cfg) SPOT None) (\<lambda>(h, s).
      bindE (post p sndr h (trx_amount t) SC_REVERT gid) (\<lambda>p. Inr (s, p))))))"

definition revert_trx_group_via_revert_helper ::
  "settings \<Rightarrow> account \<Rightarrow> nat \<Rightarrow> ('z) ledger_scheme \<Rightarrow> pipeline \<Rightarrow> (('z) ledger_scheme \<times> pipeline) result" where
  "revert_trx_group_via_revert_helper cfg account gid s p =
     (let ts = group_trxs s gid in
      bindE (foldE (helper_pay cfg gid) (s, p) (filter (\<lambda>t. account_wallet s account (sender t)) ts)) (\<lambda>sp.
      foldE (helper_take cfg gid) sp (filter (\<lambda>t. account_wallet s account (receiver t)) ts)))"

section \<open>Clearing debts, freeing locks\<close>

definition debt_amount :: "wallet \<Rightarrow> wallet \<Rightarrow> decimal" where
  "debt_amount spot_wallet debt_wallet = min (get_free spot_wallet) (- balance debt_wallet)"

definition clear_debt ::
  "wallet \<Rightarrow> wallet \<Rightarrow> nat \<Rightarrow> ('z) ledger_scheme \<Rightarrow> ('z) ledger_scheme result" where
  "clear_debt spot_wallet debt_wallet gid s =
     (let amount = debt_amount spot_wallet debt_wallet in
      if 0 < amount
      then bindE (with_pipeline (transfer_body spot_wallet debt_wallet amount SC_DEBT_CLEAR gid) s) (\<lambda>(_, s). Inr s)
      else Inr s)"

text \<open>The dictionaries keep the last wallet of an asset; each block gets a fresh group id.\<close>

definition by_asset :: "wallet list \<Rightarrow> (string \<times> wallet) list" where
  "by_asset ws = fold (\<lambda>w. AList.update (w_asset w) w) ws []"

definition clear_user_debts ::
  "(string \<Rightarrow> nat) \<Rightarrow> account \<Rightarrow> ('z) ledger_scheme \<Rightarrow> ('z) ledger_scheme result" where
  "clear_user_debts gid account s =
     (let own = \<lambda>m. by_asset (filter (\<lambda>w. acc_id (w_account w) = acc_id account \<and> w_market w = m \<and> balance w \<noteq> 0) (wallets s));
          spot_dict = own SPOT; debt_dict = own DEBT
      in foldE (\<lambda>s (asset, sw). case map_of debt_dict asset of
                  None \<Rightarrow> Inr s | Some dw \<Rightarrow> clear_debt sw dw (gid asset) s) s spot_dict)"

definition auto_clear_debts :: "(nat \<Rightarrow> nat) \<Rightarrow> ('z) ledger_scheme \<Rightarrow> ('z) ledger_scheme result" where
  "auto_clear_debts gid s =
     foldE (\<lambda>s dw. case List.find (\<lambda>w. acc_id (w_account w) = acc_id (w_account dw) \<and> w_asset w = w_asset dw
                          \<and> w_market w = SPOT \<and> variant w = None \<and> 0 < balance w) (wallets s) of
              None \<Rightarrow> Inr s | Some sw \<Rightarrow> clear_debt sw dw (gid (w_id dw)) s)
       s (filter (\<lambda>w. w_market w = DEBT \<and> balance w < 0) (wallets s))"

text \<open>
  \<open>in_use\<close> are the group ids of the open orders and stop losses and of the pending OTC
  trades, which other components keep.
\<close>

definition missing_locks :: "nat list \<Rightarrow> ('z) ledger_scheme \<Rightarrow> nat list" where
  "missing_locks in_use s =
     map lk_key (filter (\<lambda>l. lk_reason l = Lock_TRADE \<and> 0 < lk_amount l \<and> lk_key l \<notin> set in_use) (locks s))"

definition release_body ::
  "nat list \<Rightarrow> ('z) ledger_scheme \<Rightarrow> pipeline \<Rightarrow> (unit \<times> ('z) ledger_scheme \<times> pipeline) result" where
  "release_body keys s p = bindE (foldE (\<lambda>p k. release_lock s p k None) p keys) (\<lambda>p. Inr ((), s, p))"

definition free_missing_locks :: "nat list \<Rightarrow> ('z) ledger_scheme \<Rightarrow> (unit \<times> ('z) ledger_scheme) result" where
  "free_missing_locks in_use s = with_pipeline (release_body (missing_locks in_use s)) s"

section \<open>The blocks keep the ledger\<close>

lemma airdrop_keeps:
  assumes "airdrop_body self amount gid s p = Inr (x, s', p')" and "block_ok s p" and "known s self"
  shows "block_ok s' p'"
proof -
  from assms(1) obtain out w where out: "get_wallet s (w_asset self) out SPOT None None = (w, s')"
      "post p w self amount SC_AIRDROP gid = Inr p'"
    by (auto simp: airdrop_body_def result_simps Let_def)
  from get_wallet_inv [OF out(1) assms(2)] assms(3) out(2) show ?thesis by (blast intro: post_inv)
qed

lemma seize_keeps:
  assumes "seize_body self amount gid s p = Inr (x, s', p')" and "block_ok s p" and "known s self"
  shows "block_ok s' p'"
proof -
  from assms(1) obtain system w y where sys: "get_wallet s (w_asset self) system SPOT None None = (w, s')"
      "post p self w y SC_SEIZE gid = Inr p'"
    by (auto simp: seize_body_def result_simps Let_def)
  from get_wallet_inv [OF sys(1) assms(2)] assms(3) sys(2) show ?thesis by (blast intro: post_inv)
qed

interpretation airdrop_block: ledger_block "\<lambda>s. known s self" "airdrop_body self amount gid" for self amount gid
  by unfold_locales (rule airdrop_keeps)

interpretation seize_block: ledger_block "\<lambda>s. known s self" "seize_body self amount gid" for self amount gid
  by unfold_locales (rule seize_keeps)

lemma reserves_cong [simp]:
  "block_ok (s\<lparr>reserves := r\<rparr>) p = block_ok s p" "known (s\<lparr>reserves := r\<rparr>) w = known s w"
  "ledger_ok (s\<lparr>reserves := r\<rparr>) = ledger_ok s"
  by (rule base_cong; simp)+

lemma reserve_keeps:
  assumes "reserve_body self amount rid gid s p = Inr (x, s', p')" and "block_ok s p" and "known s self"
  shows "block_ok s' p'"
proof -
  from assms(1) obtain child t where
    c: "get_or_create_wallet s (w_asset self) (w_account self) True (w_market self) (Some gid) None = (child, t)"
      "post p self child amount SC_RESERVE gid = Inr p'"
      "\<exists>r. s' = t\<lparr>reserves := r\<rparr>"
    by (auto simp: reserve_body_def create_variant_wallet_def create_reserve_def result_simps Let_def)
  from get_or_create_wallet_inv [OF c(1) assms(2)] assms(3) c(2,3) show ?thesis
    by (auto intro: post_inv)
qed

interpretation reserve_block: ledger_block "\<lambda>s. known s self" "reserve_body self amount rid gid" for self amount rid gid
  by unfold_locales (rule reserve_keeps)

lemma refund_child_keeps:
  assumes "refund_child gid (s, p) c = Inr (s', p')" and "block_ok s p" and "known s c"
  shows "block_ok s' p'" and "known s u \<Longrightarrow> known s' u"
proof -
  from assms(1) obtain parent where
    c: "get_wallet s (w_asset c) (w_account c) (w_market c) None None = (parent, s')"
      "post p c parent (balance c) SC_RESERVE gid = Inr p'"
    by (auto simp: refund_child_def result_simps Let_def)
  note g = get_wallet_inv [OF c(1) assms(2)]
  from g assms(3) c(2) show "block_ok s' p'" by (blast intro: post_inv)
  from g show "known s u \<Longrightarrow> known s' u" by blast
qed

lemma fold_block_keeps:
  assumes "foldE f (s, p) xs = Inr (s', p')" and "block_ok s p" and "\<forall>x\<in>set xs. P s x"
    and "\<And>s p x s' p'. f (s, p) x = Inr (s', p') \<Longrightarrow> block_ok s p \<Longrightarrow> P s x \<Longrightarrow> block_ok s' p' \<and> (\<forall>y. P s y \<longrightarrow> P s' y)"
  shows "block_ok s' p' \<and> (\<forall>y. P s y \<longrightarrow> P s' y)"
  using assms(1-3)
proof (induction xs arbitrary: s p)
  case (Cons x xs)
  then obtain t q where t: "f (s, p) x = Inr (t, q)" "foldE f (t, q) xs = Inr (s', p')"
    by (auto simp: result_simps)
  with assms(4) Cons.prems have tq: "block_ok t q" "\<forall>y. P s y \<longrightarrow> P t y" by auto
  with Cons.prems(3) have "\<forall>x\<in>set xs. P t x" by simp
  with Cons.IH [OF t(2) tq(1)] tq(2) show ?case by blast
qed simp

lemma refund_keeps:
  assumes "refund_body r s p = Inr (x, s', p')" and "block_ok s p"
  shows "block_ok s' p'"
proof -
  from assms(1) obtain t q where
    f: "foldE (refund_child (rv_group_id r)) (s, p)
        (filter (\<lambda>w. variant w = Some (rv_group_id r) \<and> 0 < balance w) (wallets s)) = Inr (t, p')"
      "s' = t\<lparr>reserves := q\<rparr>"
    by (auto simp: refund_body_def result_simps)
  have "block_ok t p' \<and> (\<forall>y. known s y \<longrightarrow> known t y)"
    by (rule fold_block_keeps [OF f(1) assms(2), where P = known])
      (use assms(2) known_row refund_child_keeps in auto)
  with f(2) show ?thesis by simp
qed

interpretation refund_block: ledger_block "\<lambda>s. True" "refund_body r" for r
  by unfold_locales (rule refund_keeps)

lemma revert_one_keeps:
  assumes "revert_one allow_debt (s, p) t = Inr (s', p')" and "block_ok s p"
  shows "block_ok s' p'"
proof -
  from assms(1) obtain r where r: "find_wallet s (receiver t) = Some r"
    by (auto simp: revert_one_def wallet_row_def result_simps)
  from assms(1) r consider
    w where "find_wallet s (sender t) = Some w" "post p r w (trx_amount t) SC_REVERT (group_id t) = Inr p'" "s' = s"
  | d w where "get_wallet s (w_asset r) (w_account r) DEBT None None = (d, s')" "find_wallet s' (sender t) = Some w"
      "post p d w (trx_amount t) SC_REVERT (group_id t) = Inr p'"
    by (auto simp: revert_one_def wallet_row_def result_simps Let_def split: if_splits)
  then show ?thesis
  proof cases
    case 1
    with r assms(2) show ?thesis by (blast intro: post_inv known_found)
  next
    case 2
    from get_wallet_inv [OF 2(1) assms(2)] known_found [OF 2(2)] 2(3) show ?thesis by (blast intro: post_inv)
  qed
qed

lemma revert_trx_group_keeps [block_intros]:
  assumes "revert_trx_group gid allow_debt s p = Inr (s', p')" and "block_ok s p"
  shows "block_ok s' p'"
  using fold_block_keeps [OF assms(1) [unfolded revert_trx_group_def] assms(2), where P = "\<lambda>_ _. True"]
    revert_one_keeps by blast

lemma helper_keeps:
  assumes "block_ok s p"
  shows "helper_pay cfg gid (s, p) t = Inr (s', p') \<Longrightarrow> block_ok s' p'"
    and "helper_take cfg gid (s, p) t = Inr (s', p') \<Longrightarrow> block_ok s' p'"
proof -
  assume "helper_pay cfg gid (s, p) t = Inr (s', p')"
  then obtain w h where h: "find_wallet s (sender t) = Some w"
      "get_wallet_by_id cfg s (w_asset w) (REVERT_HELPER_ACCOUNT cfg) SPOT None = Inr (h, s')"
      "post p h w (trx_amount t) SC_REVERT gid = Inr p'"
    by (auto simp: helper_pay_def wallet_row_def result_simps)
  from get_wallet_by_id_inv [OF h(2) assms] known_found [OF h(1)] h(3) show "block_ok s' p'"
    by (blast intro: post_inv)
next
  assume "helper_take cfg gid (s, p) t = Inr (s', p')"
  then obtain r can sndr u h where h: "find_wallet s (receiver t) = Some r"
      "(if \<not> can then get_wallet s (w_asset r) (w_account r) DEBT None None else (r, s)) = (sndr, u)"
      "get_wallet_by_id cfg u (w_asset sndr) (REVERT_HELPER_ACCOUNT cfg) SPOT None = Inr (h, s')"
      "post p sndr h (trx_amount t) SC_REVERT gid = Inr p'"
    by (auto simp: helper_take_def wallet_row_def result_simps Let_def)
  from h(2) get_wallet_inv [OF _ assms] known_found [OF h(1)] assms have "block_ok u p" "known u sndr"
    by (auto split: if_splits)
  from get_wallet_by_id_inv [OF h(3) this(1)] this(2) h(4) show "block_ok s' p'"
    by (blast intro: post_inv)
qed

lemma revert_via_helper_keeps [block_intros]:
  assumes "revert_trx_group_via_revert_helper cfg account gid s p = Inr (s', p')" and "block_ok s p"
  shows "block_ok s' p'"
proof -
  let ?ts = "group_trxs s gid"
  from assms(1) obtain t q where
    f: "foldE (helper_pay cfg gid) (s, p) (filter (\<lambda>t. account_wallet s account (sender t)) ?ts) = Inr (t, q)"
      "foldE (helper_take cfg gid) (t, q) (filter (\<lambda>t. account_wallet s account (receiver t)) ?ts) = Inr (s', p')"
    by (auto simp: revert_trx_group_via_revert_helper_def result_simps Let_def)
  have "block_ok t q"
    using fold_block_keeps [OF f(1) assms(2), where P = "\<lambda>_ _. True"] helper_keeps(1) by blast
  then show ?thesis
    using fold_block_keeps [OF f(2), where P = "\<lambda>_ _. True"] helper_keeps(2) by blast
qed

lemma release_keeps:
  assumes "release_body keys s p = Inr (x, s', p')" and "block_ok s p"
  shows "block_ok s' p'"
proof -
  from assms(1) have f: "foldE (\<lambda>p k. release_lock s p k None) p keys = Inr p'" "s' = s"
    by (auto simp: release_body_def result_simps)
  from f(1) assms(2) have "block_ok s p'"
    by (rule foldE_invariant [where P = "block_ok s"]) (rule release_lock_inv)
  with f(2) show ?thesis by simp
qed

interpretation release_block: ledger_block "\<lambda>s. True" "release_body keys" for keys
  by unfold_locales (rule release_keeps)

section \<open>Clearing a debt\<close>

lemma moved_find:
  assumes "find_wallet s (w_id a) = Some a" and "find_wallet s (w_id b) = Some b" and "w_id a \<noteq> w_id b"
  shows "find_wallet (moved a b y sc gid s) (w_id a) = Some (shift_wallet (- y) 0 a)"
    and "find_wallet (moved a b y sc gid s) (w_id b) = Some (shift_wallet y 0 b)"
proof -
  let ?f = "\<lambda>w. if w_id w = w_id a then shift_wallet (- y) 0 w else if w_id w = w_id b then shift_wallet y 0 w else w"
  have "find_wallet (moved a b y sc gid s) i = map_option ?f (find_wallet s i)" for i
    by (simp add: moved_def find_wallet_def find_map_key [of w_id ?f])
  with assms show "find_wallet (moved a b y sc gid s) (w_id a) = Some (shift_wallet (- y) 0 a)"
    and "find_wallet (moved a b y sc gid s) (w_id b) = Some (shift_wallet y 0 b)"
    by simp_all
qed

lemma clear_debt_result:
  assumes ok: "ledger_ok s" and a: "find_wallet s (w_id sw) = Some sw" and b: "find_wallet s (w_id dw) = Some dw"
    and as: "w_asset sw = w_asset dw" and m: "w_market sw = SPOT" "w_market dw = DEBT"
    and sys: "\<not> is_system (w_account sw)" and cr: "0 \<le> credit sw"
    and fresh: "\<forall>t\<in>set (trxs s). group_id t \<noteq> gid" and d: "d = max 0 (min (get_free sw) (- balance dw))"
  shows "\<exists>s'. clear_debt sw dw gid s = Inr s' \<and> ledger_ok s'
      \<and> find_wallet s' (w_id sw) = Some (shift_wallet (- d) 0 sw)
      \<and> find_wallet s' (w_id dw) = Some (shift_wallet d 0 dw)"
proof (cases "0 < min (get_free sw) (- balance dw)")
  case False
  then have "d = 0" by (auto simp: d max_def)
  with False ok a b show ?thesis by (simp add: clear_debt_def debt_amount_def del: min_less_iff_conj)
next
  case True
  then have dd: "d = min (get_free sw) (- balance dw)" "0 < d" by (simp_all add: d)
  have ne: "w_id sw \<noteq> w_id dw"
  proof
    assume e: "w_id sw = w_id dw"
    have "Some sw = Some dw" using a b unfolding e by (rule trans [OF sym])
    then have "sw = dw" by simp
    with m show False by simp
  qed
  from a b have mem: "sw \<in> set (wallets s)" "dw \<in> set (wallets s)" using find_wallet_Some by blast+
  then have grid: "on_grid 8 (get_free sw)" "on_grid 8 (- balance dw)"
    by (simp_all add: get_free_def on_grid_diff on_grid_minus wallet_grid [OF ok])
  then have "on_grid 8 d" by (simp add: dd(1) min_def)
  then have fl: "d = floor_precision d 8" by (simp add: floor_precision_on_grid)
  have rows: "row_valid sw" "row_valid dw" using ok mem unfolding ledger_ok_def rows_ok_def by blast+
  have "d \<le> get_free sw" "d \<le> - balance dw" by (simp_all add: dd(1))
  with rows m cr have valid: "row_valid (shift_wallet (- d) 0 sw)" "row_valid (shift_wallet d 0 dw)"
    by (auto simp: row_valid_def valid_balance_constraint_def valid_locked_constraint_def get_free_def)
  from transfer_block_result [OF ok a b as ne _ fl dd(2) fresh, of SC_DEBT_CLEAR] sys valid
  have run: "with_pipeline (transfer_body sw dw d SC_DEBT_CLEAR gid) s = Inr ((), moved sw dw d SC_DEBT_CLEAR gid s)"
    by simp
  have "ledger_ok (moved sw dw d SC_DEBT_CLEAR gid s)"
    by (rule transfer_block.run_ok [OF run ok]) (simp add: known_found [OF a] known_found [OF b])
  moreover have "clear_debt sw dw gid s = Inr (moved sw dw d SC_DEBT_CLEAR gid s)"
    using True dd run by (simp add: clear_debt_def debt_amount_def)
  ultimately show ?thesis using moved_find [OF a b ne] by blast
qed

section \<open>Reverting undoes\<close>

text \<open>No transaction between two system accounts is ever stored.\<close>

definition no_system_pair :: "('z) ledger_scheme \<Rightarrow> trx \<Rightarrow> bool" where
  "no_system_pair s t \<longleftrightarrow>
     (case (find_wallet s (sender t), find_wallet s (receiver t)) of
        (Some a, Some b) \<Rightarrow> \<not> (is_system (w_account a) \<and> is_system (w_account b)) | _ \<Rightarrow> False)"

lemma revert_one_direct:
  assumes ok: "block_ok s p" and t: "t \<in> set (trxs s)" and nsp: "no_system_pair s t"
  shows "\<exists>q. revert_one False (s, p) t = Inr (s, q)
      \<and> (\<forall>i. trx_flow i (p_trxs q) = trx_flow i (p_trxs p) - trx_flow i [t])
      \<and> wallet_locks q = wallet_locks p \<and> trx_key ` set (p_trxs q) = insert (receiver t, sender t, SC_REVERT, group_id t) (trx_key ` set (p_trxs p))"
proof -
  from ok have lo: "ledger_ok s" and pi: "pipe_inv s p" by (simp_all add: block_ok_def)
  from lo have r: "refs_ok s (trxs s)" "0 < trx_amount t" "on_grid 8 (trx_amount t)"
    using t by (auto simp: ledger_ok_def rows_ok_def trx_grid_def)
  from refs_okD [OF r(1) t] obtain a b where ab: "find_wallet s (sender t) = Some a" "find_wallet s (receiver t) = Some b"
      "w_asset a = w_asset b" "sender t \<noteq> receiver t"
    by (auto simp: asset_of_def)
  then have ids: "w_id a = sender t" "w_id b = receiver t" using find_wallet_Some by blast+
  let ?u = "\<lparr>sender = receiver t, receiver = sender t, trx_amount = trx_amount t, group_id = group_id t, trx_scope = SC_REVERT\<rparr>"
  let ?q = "p\<lparr>p_trxs := add_trx ?u (p_trxs p),
       wallet_balances := dd_add (dd_add (wallet_balances p) (receiver t) (- trx_amount t)) (sender t) (trx_amount t)\<rparr>"
  have "\<not> (is_system (w_account b) \<and> is_system (w_account a))" using nsp ab by (auto simp: no_system_pair_def)
  then have "revert_one False (s, p) t = Inr (s, ?q)"
    using ab ids r(2,3)
    by (cases "is_system (w_account b)")
      (simp_all add: revert_one_def wallet_row_def post_def new_trx_def floor_precision_on_grid Let_def)
  moreover have "trx_flow i (p_trxs ?q) = trx_flow i (p_trxs p) - trx_flow i [t]" for i
    using pi by (simp add: pipe_inv_def add_trx_flow)
  moreover have "trx_key ` set (p_trxs ?q) = insert (receiver t, sender t, SC_REVERT, group_id t) (trx_key ` set (p_trxs p))"
    by (simp add: add_trx_key_set) (simp add: trx_key_def)
  ultimately show ?thesis by auto
qed

lemma revert_fold_direct:
  assumes "block_ok s p" and "set ts \<subseteq> set (trxs s)" and "\<forall>t\<in>set ts. no_system_pair s t"
  shows "\<exists>q. foldE (revert_one False) (s, p) ts = Inr (s, q) \<and> block_ok s q
      \<and> (\<forall>i. trx_flow i (p_trxs q) = trx_flow i (p_trxs p) - trx_flow i ts)
      \<and> wallet_locks q = wallet_locks p
      \<and> trx_key ` set (p_trxs q) = (\<lambda>t. (receiver t, sender t, SC_REVERT, group_id t)) ` set ts \<union> trx_key ` set (p_trxs p)"
  using assms
proof (induction ts arbitrary: p)
  case (Cons t ts)
  then obtain q where q: "revert_one False (s, p) t = Inr (s, q)"
      "\<And>i. trx_flow i (p_trxs q) = trx_flow i (p_trxs p) - trx_flow i [t]" "wallet_locks q = wallet_locks p"
      "trx_key ` set (p_trxs q) = insert (receiver t, sender t, SC_REVERT, group_id t) (trx_key ` set (p_trxs p))"
    using revert_one_direct [of s p t] by auto
  have "block_ok s q" by (rule revert_one_keeps [OF q(1) Cons.prems(1)])
  with Cons.IH [OF this] Cons.prems(2,3) obtain u where u: "foldE (revert_one False) (s, q) ts = Inr (s, u)" "block_ok s u"
      "\<And>i. trx_flow i (p_trxs u) = trx_flow i (p_trxs q) - trx_flow i ts" "wallet_locks u = wallet_locks q"
      "trx_key ` set (p_trxs u) = (\<lambda>t. (receiver t, sender t, SC_REVERT, group_id t)) ` set ts \<union> trx_key ` set (p_trxs q)"
    by auto
  show ?case
    by (rule exI [of _ u]) (simp add: q u algebra_simps)
qed simp

definition revert_block ::
  "nat \<Rightarrow> bool \<Rightarrow> ('z) ledger_scheme \<Rightarrow> pipeline \<Rightarrow> (unit \<times> ('z) ledger_scheme \<times> pipeline) result" where
  "revert_block gid allow_debt s p = bindE (revert_trx_group gid allow_debt s p) (\<lambda>(s, p). Inr ((), s, p))"

interpretation revert_run: ledger_block "\<lambda>s. True" "revert_block gid allow_debt" for gid allow_debt
  by unfold_locales (auto simp: revert_block_def result_simps intro: revert_trx_group_keeps)

lemma revert_run_cases:
  assumes "ledger_ok s" and "\<forall>t\<in>set (group_trxs s gid). no_system_pair s t"
  obtains q where "revert_block gid False s new_pipeline = Inr ((), s, q)" "block_ok s q"
    "\<And>i. trx_flow i (p_trxs q) = - trx_flow i (group_trxs s gid)" "\<And>i. dd_get (wallet_locks q) i = 0"
    "trx_key ` set (p_trxs q) = (\<lambda>t. (receiver t, sender t, SC_REVERT, gid)) ` set (group_trxs s gid)"
proof -
  have "block_ok s new_pipeline" using assms(1) new_pipeline_inv by (simp add: block_ok_def)
  moreover have "set (group_trxs s gid) \<subseteq> set (trxs s)" by (auto simp: group_trxs_def)
  ultimately obtain q where q: "foldE (revert_one False) (s, new_pipeline) (group_trxs s gid) = Inr (s, q)" "block_ok s q"
      "\<And>i. trx_flow i (p_trxs q) = trx_flow i (p_trxs new_pipeline) - trx_flow i (group_trxs s gid)"
      "wallet_locks q = wallet_locks new_pipeline"
      "trx_key ` set (p_trxs q) = (\<lambda>t. (receiver t, sender t, SC_REVERT, group_id t)) ` set (group_trxs s gid)
         \<union> trx_key ` set (p_trxs new_pipeline)"
    using revert_fold_direct [OF _ _ assms(2)] by blast
  have "(\<lambda>t. (receiver t, sender t, SC_REVERT, group_id t)) ` set (group_trxs s gid)
      = (\<lambda>t. (receiver t, sender t, SC_REVERT, gid)) ` set (group_trxs s gid)"
    by (rule image_cong) (simp_all add: group_trxs_def)
  with q show ?thesis
    by (intro that [of q]) (simp_all add: revert_block_def revert_trx_group_def new_pipeline_def)
qed

lemma revert_undoes_lemma:
  assumes run: "with_pipeline (revert_block gid False) s = Inr (u, s')" and ok: "ledger_ok s"
    and nsp: "\<forall>t\<in>set (group_trxs s gid). no_system_pair s t"
  shows "find_wallet s' i = map_option (shift_wallet (- trx_flow i (group_trxs s gid)) 0) (find_wallet s i)"
    and "trx_flow i (group_trxs s' gid) = 0"
proof -
  obtain q where q: "revert_block gid False s new_pipeline = Inr ((), s, q)" "block_ok s q"
    "\<And>i. trx_flow i (p_trxs q) = - trx_flow i (group_trxs s gid)" "\<And>i. dd_get (wallet_locks q) i = 0"
    "trx_key ` set (p_trxs q) = (\<lambda>t. (receiver t, sender t, SC_REVERT, gid)) ` set (group_trxs s gid)"
    using revert_run_cases [OF ok nsp] by blast
  from run q(1) have e: "execute s q = Inr s'" by (simp add: with_pipeline_def result_simps)
  from execute_wallet [OF e q(2), of i]
  show "find_wallet s' i = map_option (shift_wallet (- trx_flow i (group_trxs s gid)) 0) (find_wallet s i)"
    by (simp add: q(3,4))
  have "s' = posted s q" using execute_ok [OF e q(2)] by blast
  moreover have "filter (\<lambda>t. group_id t = gid) (p_trxs q) = p_trxs q"
  proof (rule filter_True, rule ballI)
    fix t assume "t \<in> set (p_trxs q)"
    with q(5) have "trx_key t \<in> (\<lambda>t. (receiver t, sender t, SC_REVERT, gid)) ` set (group_trxs s gid)" by blast
    then show "group_id t = gid" by (auto simp: trx_key_def)
  qed
  ultimately have "group_trxs s' gid = group_trxs s gid @ p_trxs q"
    by (simp add: group_trxs_def posted_simps)
  then show "trx_flow i (group_trxs s' gid) = 0" by (simp add: q(3))
qed

lemma revert_again_lemma:
  assumes run: "with_pipeline (revert_block gid False) s = Inr (u, s')" and ok: "ledger_ok s"
    and nsp: "\<forall>t\<in>set (group_trxs s gid). no_system_pair s t" and some: "group_trxs s gid \<noteq> []"
  shows "with_pipeline (revert_block gid False) s' = Inl IntegrityError"
proof -
  obtain q where q: "revert_block gid False s new_pipeline = Inr ((), s, q)" "block_ok s q"
    "trx_key ` set (p_trxs q) = (\<lambda>t. (receiver t, sender t, SC_REVERT, gid)) ` set (group_trxs s gid)"
    by (rule revert_run_cases [OF ok nsp])
  from run q(1) have e: "execute s q = Inr s'" by (simp add: with_pipeline_def result_simps)
  have s': "s' = posted s q" using execute_ok [OF e q(2)] by blast
  have ok': "ledger_ok s'" by (rule revert_run.run_ok [OF run ok TrueI])
  have tr: "trxs s' = trxs s @ p_trxs q" by (simp add: s' posted_simps)
  have old: "no_system_pair s' t \<longleftrightarrow> no_system_pair s t" for t
    by (auto simp: s' no_system_pair_def find_wallet_posted split: option.splits)
  have "no_system_pair s t" if "t \<in> set (p_trxs q)" for t
  proof -
    from that q(3) obtain v where "v \<in> set (group_trxs s gid)" "sender t = receiver v" "receiver t = sender v"
      by (auto simp: trx_key_def dest!: equalityD1 subsetD)
    with nsp show ?thesis by (auto simp: no_system_pair_def split: option.splits)
  qed
  with nsp old have nsp': "\<forall>t\<in>set (group_trxs s' gid). no_system_pair s' t"
    by (auto simp: group_trxs_def tr)
  obtain r where r: "revert_block gid False s' new_pipeline = Inr ((), s', r)" "block_ok s' r"
    "trx_key ` set (p_trxs r) = (\<lambda>t. (receiver t, sender t, SC_REVERT, gid)) ` set (group_trxs s' gid)"
    by (rule revert_run_cases [OF ok' nsp'])
  from some obtain t where t: "t \<in> set (group_trxs s gid)" by (cases "group_trxs s gid") auto
  then have "(receiver t, sender t, SC_REVERT, gid) \<in> trx_key ` set (p_trxs q)"
    "(receiver t, sender t, SC_REVERT, gid) \<in> trx_key ` set (p_trxs r)"
    by (auto simp: q(3) r(3) group_trxs_def tr)
  then have "\<not> distinct (map trx_key (trxs s' @ p_trxs r))" by (auto simp: tr)
  then have "\<not> postable s' r" unfolding postable_def rows_ok_def posted_simps by blast
  with execute_eq [of s' r] r(2) have "execute s' r = Inl IntegrityError"
    by (auto simp: block_ok_def ledger_ok_def)
  with r(1) show ?thesis by (simp add: with_pipeline_def)
qed

section \<open>Freeing orphaned locks\<close>

lemma release_full:
  assumes "p_locks p = []"
  shows "\<exists>q. release_lock s p k None = Inr q \<and> p_locks q = [] \<and> p_trxs q = p_trxs p \<and>
    (\<forall>j. dd_get (locks_amount q) j =
       (if j = k then (case find_lock s k of Some l \<Rightarrow> - lk_amount l | None \<Rightarrow> dd_get (locks_amount p) k)
        else dd_get (locks_amount p) j))"
  using assms by (auto simp: release_lock_def Let_def split: option.splits)

lemma release_all:
  assumes "p_locks p = []" and "\<forall>k\<in>set ks. find_lock s k \<noteq> None"
  shows "\<exists>q. foldE (\<lambda>p k. release_lock s p k None) p ks = Inr q \<and> p_locks q = [] \<and> p_trxs q = p_trxs p \<and>
    (\<forall>j. dd_get (locks_amount q) j =
       (if j \<in> set ks then - lk_amount (the (find_lock s j)) else dd_get (locks_amount p) j))"
  using assms
proof (induction ks arbitrary: p)
  case (Cons k ks)
  from release_full [OF Cons.prems(1), of s k] Cons.prems(2) obtain q where
    q: "release_lock s p k None = Inr q" "p_locks q = []" "p_trxs q = p_trxs p"
      "\<And>j. dd_get (locks_amount q) j = (if j = k then - lk_amount (the (find_lock s k)) else dd_get (locks_amount p) j)"
    by fastforce
  from Cons.IH [OF q(2)] Cons.prems(2) q show ?case by auto
qed simp

lemma find_lock_mem:
  assumes "distinct (map lk_key (locks s))" and "l \<in> set (locks s)"
  shows "find_lock s (lk_key l) = Some l"
proof (cases "find_lock s (lk_key l)")
  case None
  with assms show ?thesis by (auto simp: find_lock_def find_None_iff')
next
  case (Some m)
  then have "m \<in> set (locks s)" "lk_key m = lk_key l" by (auto simp: find_lock_def dest: find_SomeD)
  with assms have "m = l" by (meson distinct_map inj_onD)
  with Some show ?thesis by simp
qed

lemma lock_sum_mono_zero:
  assumes "\<forall>l\<in>set ls. 0 \<le> lk_amount l \<and> 0 \<le> lk_amount (f l) \<and> lk_amount (f l) \<le> lk_amount l \<and> lk_wallet (f l) = lk_wallet l"
  shows "0 \<le> lock_sum i (map f ls) \<and> lock_sum i (map f ls) \<le> lock_sum i ls"
  using assms by (induction ls) (auto intro: add_mono)

text \<open>A block that only empties locks is never refused.\<close>

lemma emptying_postable:
  assumes ok: "ledger_ok s" and bo: "block_ok s q" and q: "p_locks q = []" "p_trxs q = []"
    and taken: "\<And>l. l \<in> set (locks s) \<Longrightarrow> dd_get (locks_amount q) (lk_key l) \<in> {0, - lk_amount l}"
  shows "execute s q = Inr (posted s q)" and "dd_get (wallet_balances q) i = 0"
proof -
  let ?f = "\<lambda>l. upd_lock (dd_get (locks_amount q) (lk_key l)) l"
  have ro: "rows_ok s" using ok by (simp add: ledger_ok_def)
  then have dk: "distinct (map lk_key (locks s))" by (simp add: rows_ok_def)
  from bo have pi: "pipe_inv s q" by (simp add: block_ok_def)
  have bal: "dd_get (wallet_balances q) i = 0" for i using pi q by (simp add: pipe_inv_def)
  then show "dd_get (wallet_balances q) i = 0" .
  have amounts: "\<forall>l\<in>set (locks s). 0 \<le> lk_amount l" using ro by (simp add: rows_ok_def)
  have low: "\<forall>l\<in>set (locks s). 0 \<le> lk_amount l \<and> 0 \<le> lk_amount (?f l) \<and> lk_amount (?f l) \<le> lk_amount l \<and> lk_wallet (?f l) = lk_wallet l"
    using amounts taken by (fastforce simp: upd_lock_def)
  have sums: "0 \<le> lock_sum i (map ?f (locks s)) \<and> lock_sum i (map ?f (locks s)) \<le> lock_sum i (locks s)" for i
    by (rule lock_sum_mono_zero [OF low])
  have valid: "row_valid (shift_wallet (dd_get (wallet_balances q) (w_id w)) (dd_get (wallet_locks q) (w_id w)) w)"
    if w: "w \<in> set (wallets s)" for w
  proof -
    have "lock_sum (w_id w) (map ?f (locks s)) = lock_sum (w_id w) (locks s) + dd_get (wallet_locks q) (w_id w)"
    proof -
      have "lock_sum (w_id w) (map ?f (locks s)) = lock_sum (w_id w) (locks s)
          + sum_of (\<lambda>l. if lk_wallet l = w_id w then dd_get (locks_amount q) (lk_key l) else 0) (locks s)"
        by (simp add: sum_of_add [symmetric] lock_sum_def upd_lock_def sum_of_map) (rule sum_of_cong, simp)
      then show ?thesis using pi releases_by_wallet [OF _ dk, of "locks_amount q" "w_id w"] q(1)
        by (simp add: pipe_inv_def)
    qed
    moreover have "locked w = lock_sum (w_id w) (locks s)" using ok w by (simp add: ledger_ok_def audited_def)
    ultimately have "0 \<le> locked w + dd_get (wallet_locks q) (w_id w)" "dd_get (wallet_locks q) (w_id w) \<le> 0"
      using sums [of "w_id w"] by auto
    moreover have "row_valid w" using ro w by (simp add: rows_ok_def)
    ultimately show ?thesis
      by (auto simp: row_valid_def valid_balance_constraint_def valid_locked_constraint_def bal)
  qed
  have "postable s q"
    unfolding postable_def rows_ok_def using ro valid low dk
    by (auto simp: rows_ok_def posted_simps q comp_def upd_lock_def)
  then show "execute s q = Inr (posted s q)" using execute_eq [OF ro pi] by simp
qed

text \<open>Freeing never fails, zeroes exactly the orphaned locks and gives their amount back.\<close>

lemma free_missing_locks_lemma:
  assumes ok: "ledger_ok s"
  shows "\<exists>s'. free_missing_locks in_use s = Inr ((), s') \<and> ledger_ok s' \<and> trxs s' = trxs s
    \<and> locks s' = map (\<lambda>l. if lk_key l \<in> set (missing_locks in_use s) then l\<lparr>lk_amount := 0\<rparr> else l) (locks s)
    \<and> map balance (wallets s') = map balance (wallets s)"
proof -
  let ?ks = "missing_locks in_use s"
  let ?f = "\<lambda>l. if lk_key l \<in> set ?ks then l\<lparr>lk_amount := 0\<rparr> else l"
  have ro: "rows_ok s" using ok by (simp add: ledger_ok_def)
  then have dk: "distinct (map lk_key (locks s))" by (simp add: rows_ok_def)
  have ks: "\<forall>k\<in>set ?ks. find_lock s k \<noteq> None"
    using find_lock_mem [OF dk] by (auto simp: missing_locks_def)
  obtain q where q: "foldE (\<lambda>p k. release_lock s p k None) new_pipeline ?ks = Inr q" "p_locks q = []" "p_trxs q = []"
      "\<And>j. dd_get (locks_amount q) j = (if j \<in> set ?ks then - lk_amount (the (find_lock s j)) else 0)"
    using release_all [OF _ ks, of new_pipeline] by (auto simp: new_pipeline_def)
  then have body: "release_body ?ks s new_pipeline = Inr ((), s, q)" by (simp add: release_body_def)
  have "block_ok s new_pipeline" using ok by (simp add: block_ok_def new_pipeline_inv)
  with body have bo: "block_ok s q" by (rule release_keeps)
  have lk: "locks (posted s q) = map ?f (locks s)"
    unfolding posted_simps q(2,4) by (auto simp: find_lock_mem [OF dk] upd_lock_def)
  have "dd_get (locks_amount q) (lk_key l) \<in> {0, - lk_amount l}" if "l \<in> set (locks s)" for l
    using find_lock_mem [OF dk that] by (simp add: q(4))
  note ex = emptying_postable [OF ok bo q(2,3) this]
  have run: "free_missing_locks in_use s = Inr ((), posted s q)"
    by (simp add: free_missing_locks_def with_pipeline_def body ex(1))
  moreover have "ledger_ok (posted s q)" using execute_ok [OF ex(1) bo] by simp
  moreover have "map balance (wallets (posted s q)) = map balance (wallets s)" by (simp add: posted_simps ex(2))
  ultimately show ?thesis using lk by (auto simp: posted_simps q(3))
qed

end
