(* ===== verification/Samples.thy ===== *)
theory Samples
  imports Order_Requests Wallet_Ops
begin

text \<open>
  A small exchange on which the properties are evaluated: two users, three pairs, a book of two
  asks with their locks, and one stop loss. Its ledger is audited.
\<close>

definition plain_account :: "nat \<Rightarrow> account_type \<Rightarrow> account" where
  "plain_account i t = \<lparr>acc_id = i, acc_type = t, acc_primary = (i = 1), custom_maker_fee = None,
     custom_taker_fee = None, custom_max_margin_leverage = None, referred_by = None, acc_owned = False\<rparr>"

definition plain_wallet :: "nat \<Rightarrow> account \<Rightarrow> string \<Rightarrow> decimal \<Rightarrow> decimal \<Rightarrow> wallet" where
  "plain_wallet i a asset b l = \<lparr>w_id = i, w_account = a, w_asset = asset, w_market = SPOT,
     check_balance = (acc_type a = ORDINARY), balance = b, locked = l, variant = None, expiration = None, credit = 0\<rparr>"

definition the_system :: account where "the_system = plain_account 1 SYSTEM"
definition alice :: account where "alice = plain_account 10 ORDINARY"
definition bob :: account where "bob = plain_account 11 ORDINARY"

definition sample_settings :: settings where
  "sample_settings = \<lparr>SYSTEM_ACCOUNT_ID = 1, OTC_ACCOUNT_ID = 2, MARKET_MAKER_ACCOUNT_ID = 3, TRADER_ACCOUNT_ID = 4,
     REVERT_HELPER_ACCOUNT = 5, MARGIN_POOL_ACCOUNT = 6, MARGIN_INSURANCE_ACCOUNT = 7\<rparr>"

definition sample_env :: market_env where
  "sample_env = \<lparr>cfg = sample_settings, now = 1000, hedge_irt_by_internal_market = False,
     external_usdt_irt = Some 60000, can_trade = True, MARKET_TRADE_ENABLE = True\<rparr>"

definition plain_pair :: "string \<Rightarrow> string \<Rightarrow> pair_symbol" where
  "plain_pair asset base = \<lparr>sy_name = asset @ base, sy_asset = asset, sy_base = base, sy_maker_fee = None,
     sy_taker_fee = None, tick_size = 2, step_size = 4, min_trade_quantity = 1 / 100, max_trade_quantity = 10000,
     sy_enable = True, margin_enable = False, last_trade_time = None, last_trade_price = None\<rparr>"

definition plain_order :: "nat \<Rightarrow> account \<Rightarrow> nat \<Rightarrow> side \<Rightarrow> decimal \<Rightarrow> decimal \<Rightarrow> nat \<Rightarrow> order" where
  "plain_order i a w sd amount price g = \<lparr>o_id = i, o_type = TYPE_ORDINARY, o_account = a, o_wallet = w,
     o_symbol = ''BTCUSDT'', o_amount = amount, o_filled = 0, o_price = price, o_side = sd, o_fill_type = LIMIT,
     o_status = NEW, o_group = g, client_order_id = None, o_stop_loss = None, o_oco = None, o_tif = GTC\<rparr>"

definition sample_lock :: "nat \<Rightarrow> nat \<Rightarrow> decimal \<Rightarrow> balance_lock" where
  "sample_lock k w a = \<lparr>lk_key = k, lk_wallet = w, original_amount = a, lk_amount = a, lk_reason = Lock_TRADE\<rparr>"

definition sample_trx :: "nat \<Rightarrow> nat \<Rightarrow> decimal \<Rightarrow> nat \<Rightarrow> trx" where
  "sample_trx a b x g = \<lparr>sender = a, receiver = b, trx_amount = x, group_id = g, trx_scope = SC_TRANSFER\<rparr>"

text \<open>A ledger with a debt, a lock and two transfers.\<close>

definition small_ledger :: ledger where
  "small_ledger = \<lparr>accounts = [the_system, alice, bob, plain_account 20 OUT],
     wallets = [plain_wallet 1 the_system ''USDT'' (- 80) 0, plain_wallet 2 alice ''USDT'' 90 10,
                (plain_wallet 3 alice ''USDT'' (- 20) 0)\<lparr>w_market := DEBT\<rparr>, plain_wallet 4 bob ''USDT'' 10 0],
     trxs = [sample_trx 1 2 100 50, sample_trx 2 4 10 51, sample_trx 3 1 20 52],
     locks = [sample_lock 100 2 10], equities = []\<rparr>"

definition sample_stop_loss :: stop_loss where
  "sample_stop_loss = \<lparr>sl_id = 1, sl_wallet = 4, sl_symbol = ''BTCUSDT'', sl_fill_type = LIMIT, sl_amount = 1,
     sl_filled = 0, trigger_price = 105, sl_price = Some 90, sl_side = SELL, sl_canceled_at = None, sl_group = 102,
     sl_oco = None\<rparr>"

definition sample_db :: market_db where
  "sample_db = \<lparr>accounts = [the_system, alice, bob],
     wallets = [plain_wallet 1 the_system ''USDT'' (- 1000) 0, plain_wallet 2 the_system ''BTC'' (- 10) 0,
                plain_wallet 3 alice ''USDT'' 1000 0, plain_wallet 4 bob ''BTC'' 10 6, plain_wallet 5 alice ''BTC'' 0 0],
     trxs = [sample_trx 1 3 1000 50, sample_trx 2 4 10 51],
     locks = [sample_lock 100 4 2, sample_lock 101 4 3, sample_lock 102 4 1],
     equities = [], referral_trxs = [],
     symbols = [plain_pair ''BTC'' ''USDT''], 
     orders = [plain_order 1 bob 4 SELL 2 100 100, plain_order 2 bob 4 SELL 3 110 101],
     stop_losses = [sample_stop_loss], ocos = [], trades = [], revenues = [], cancel_requests = [],
     trade_volumes = [], enabled_assets = [''BTC'', ''USDT''], reserve_groups = [], margin_symbols = [], uuids = 200\<rparr>"

definition sample_request :: order_request where
  "sample_request = \<lparr>rq_symbol = ''BTCUSDT'', rq_account = alice, rq_side = BUY, rq_amount = 3, rq_price = Some 120,
     rq_fill_type = LIMIT, rq_raise = True, rq_market = SPOT, rq_type = TYPE_ORDINARY, parent_lock_group_id = None,
     rq_stop_loss = None, rq_tif = GTC, pass_min_notional = False, rq_variant = None, rq_oco = None,
     rq_client_order_id = None\<rparr>"

end
