(* ===== verification/Request_Properties.thy ===== *)
theory Request_Properties
  imports Samples
begin

text \<open>
  What a request promises from the outside: placing an order conserves money and returns for a
  known bound on the depth of triggered stop losses, what is placed is within the limits of its
  pair, and canceling gives exactly the lock back, once.
\<close>

section \<open>Placing\<close>

interpretation new_order_block: ledger_block "\<lambda>s. True" "new_order n env rq" for n env rq
  by unfold_locales (rule new_order_keeps)

text \<open>
  C5. Placing an order, with every trade, fee and stop loss it causes, conserves every asset and
  keeps the ledger audited.
\<close>

theorem new_order_conserves:
  assumes "with_pipeline (new_order n env rq) s = Inr (r, s')" and "ledger_ok s"
  shows "ledger_ok s' \<and> total_of s' asset = total_of s asset"
  using new_order_block.run_ok [OF assms TrueI] new_order_block.run_conserves [OF assms TrueI] by blast

definition resting_request :: order_request where
  "resting_request = sample_request\<lparr>rq_price := Some 90\<rparr>"

lemma sample_db_ok: "ledger_ok sample_db"
  by code_simp

theorem new_order_conserves_witness:
  "\<exists>r s'. with_pipeline (new_order 5 sample_env resting_request) sample_db = Inr (r, s')
     \<and> ledger_ok s' \<and> total_of s' ''USDT'' = total_of sample_db ''USDT''"
proof -
  have "case with_pipeline (new_order 5 sample_env resting_request) sample_db of Inr _ \<Rightarrow> True | Inl _ \<Rightarrow> False"
    by code_simp
  then obtain r s' where r: "with_pipeline (new_order 5 sample_env resting_request) sample_db = Inr (r, s')"
    by (auto split: sum.splits)
  from new_order_conserves [OF r sample_db_ok, of "''USDT''"] r show ?thesis by blast
qed

text \<open>
  C12. The recursion through triggered stop losses ends: with three levels for each stop loss and
  two more, placing an order never runs out of fuel.
\<close>

theorem fuel_suffices:
  assumes "orders_unique s" and "3 * length (stop_losses s) + 2 \<le> n"
  shows "new_order n env rq s p \<noteq> Inl OutOfFuel"
proof -
  have "card (sl_ids s) \<le> length (stop_losses s)"
    unfolding sl_ids_def using card_length [of "map sl_id (stop_losses s)"] by simp
  then have "Suc (sl_budget s) < n" using assms(2) by (simp add: sl_budget_def)
  then have "raises (- {OutOfFuel}) (new_order n env rq s p)" using assms(1) by (blast intro: new_order_bounded)
  then show ?thesis by (auto simp: raises_def)
qed

theorem fuel_suffices_witness:
  "new_order 5 sample_env sample_request sample_db new_pipeline \<noteq> Inl OutOfFuel \<and> length (stop_losses sample_db) = 1"
proof -
  have u: "orders_unique sample_db" and l: "length (stop_losses sample_db) = 1" by code_simp+
  have "3 * length (stop_losses sample_db) + 2 \<le> 5" unfolding l by simp
  from fuel_suffices [OF u this] l show ?thesis by blast
qed


definition starved_request :: order_request where
  "starved_request = sample_request\<lparr>rq_side := BUY, rq_stop_loss := Some 1, rq_raise := False,
     parent_lock_group_id := Some 103, rq_price := Some 90\<rparr>"

definition starved_db :: market_db where
  "starved_db = sample_db\<lparr>locks := locks sample_db @ [sample_lock 103 3 0]\<rparr>"


section \<open>What is placed\<close>

lemma create_order_fields: "create_order s x = Inr (x', s') \<Longrightarrow> o_amount x' = o_amount x \<and> o_price x' = o_price x
    \<and> o_symbol x' = o_symbol x \<and> o_status x' = o_status x"
  by (auto simp: create_order_def Let_def result_simps)

lemma create_order_request_steps:
  assumes "create_order_request n env inp s = Inr ((x, f), s')"
  obtains y price amount w t x0 where
    "enabled_symbol s (in_symbol inp) = Inr y" "price_of_input y inp s = Inr price"
    "post_validate env y inp price s = Inr (amount, w, t)" "can_trade env"
    "o_amount x = amount" "o_price x = price" "o_symbol x = sy_name y"
proof -
  from assms obtain y price amount w t where v: "can_trade env" "enabled_symbol s (in_symbol inp) = Inr y"
    "price_of_input y inp s = Inr price" "post_validate env y inp price s = Inr (amount, w, t)"
    and r: "(case with_pipeline (create_and_submit n env (order_of_input inp y w amount price)) t of
       Inl e \<Rightarrow> Inl (order_failure e)
     | Inr ((x, m), s) \<Rightarrow>
         Inr ((x\<lparr>o_filled := fst (filled_of x m)\<rparr>, filled_of x m), cancel_stop_losses env (mt_to_cancel m) s)) = Inr ((x, f), s')"
    unfolding create_order_request_def by (elim bindE_InrE) (auto split: prod.splits)
  from r obtain x1 m u where run: "with_pipeline (create_and_submit n env (order_of_input inp y w amount price)) t = Inr ((x1, m), u)"
    and x: "x = x1\<lparr>o_filled := fst (filled_of x1 m)\<rparr>"
    by (auto split: sum.splits prod.splits)
  from run obtain a b where "create_and_submit n env (order_of_input inp y w amount price) t new_pipeline = Inr ((x1, m), a, b)"
    by (auto simp: with_pipeline_def result_simps)
  then obtain g s1 s2 where "uuid4 t = (g, s1)" "create_order s1 (order_of_input inp y w amount price g) = Inr (x1, s2)"
    by (auto simp: create_and_submit_def result_simps split: prod.splits)
  from create_order_fields [OF this(2)] have "o_amount x = amount" "o_price x = price" "o_symbol x = sy_name y"
    by (simp_all add: x order_of_input_def)
  with v show thesis by (intro that)
qed

text \<open>
  C20. An order that a user places has whole steps of its pair's amount, between the smallest and
  the largest quantity, and at least the smallest notional value, in an enabled pair.
\<close>

theorem placed_order_within_limits:
  assumes "create_order_request n env inp s = Inr ((x, f), s')"
  shows "\<exists>y\<in>set (symbols s). sy_name y = o_symbol x \<and> sy_enable y \<and> on_grid (int (step_size y)) (o_amount x)
    \<and> min_trade_quantity y \<le> o_amount x \<and> o_amount x \<le> max_trade_quantity y
    \<and> (if sy_base y = ''IRT'' then 100000 else 5) \<le> o_amount x * o_price x"
  using assms
proof (rule create_order_request_steps)
  fix y price amount w t
  assume y: "enabled_symbol s (in_symbol inp) = Inr y" and v: "post_validate env y inp price s = Inr (amount, w, t)"
    and x: "o_amount x = amount" "o_price x = price" "o_symbol x = sy_name y"
  from y have "y \<in> set (symbols s)" "sy_enable y"
    by (auto simp: enabled_symbol_def dest: find_SomeD)
  moreover from v have "on_grid (int (step_size y)) amount \<and> min_trade_quantity y \<le> amount
      \<and> amount \<le> max_trade_quantity y \<and> (if sy_base y = ''IRT'' then 100000 else 5) \<le> amount * price"
    by (auto simp: post_validate_def post_validate_amount_def validate_order_size_def Let_def result_simps
        MIN_IRT_ORDER_SIZE_def MIN_USDT_ORDER_SIZE_def split: if_splits prod.splits)
  ultimately show ?thesis using x by (intro bexI [of _ y]) simp_all
qed

definition sample_input :: order_input where
  "sample_input = \<lparr>in_symbol = ''btcusdt'', in_account = alice, in_variant = None, in_side = BUY, in_fill_type = LIMIT,
     in_amount = 30003 / 10000, in_price = Some (Dec 905 (- 1)), in_market = SPOT, in_tif = GTC,
     in_client_order_id = None\<rparr>"

lemma sample_placed:
  "case create_order_request 5 sample_env sample_input sample_db of
     Inr ((x, f), s) \<Rightarrow> o_amount x = 30003 / 10000 | Inl _ \<Rightarrow> False"
  by code_simp

theorem placed_order_within_limits_witness:
  "\<exists>x f s'. create_order_request 5 sample_env sample_input sample_db = Inr ((x, f), s')
     \<and> (\<exists>y\<in>set (symbols sample_db). on_grid (int (step_size y)) (o_amount x))"
proof -
  obtain x f s' where r: "create_order_request 5 sample_env sample_input sample_db = Inr ((x, f), s')"
    using sample_placed by (auto split: sum.splits prod.splits)
  from placed_order_within_limits [OF r] r show ?thesis by blast
qed

section \<open>Canceling\<close>

lemma execute_empty: "rows_ok s \<Longrightarrow> execute s new_pipeline = Inr s"
proof -
  assume r: "rows_ok s"
  have "posted s new_pipeline = s" by (simp add: posted_def new_pipeline_def upd_lock_def)
  moreover from this r have "postable s new_pipeline" by (simp add: postable_def new_pipeline_def)
  ultimately show ?thesis using execute_eq [OF r new_pipeline_inv] by simp
qed

lemma find_unique:
  assumes "distinct (map o_id xs)" and "x \<in> set xs" and "P x"
  shows "List.find (\<lambda>y. P y \<and> o_id y = o_id x) xs = Some x"
proof (cases "List.find (\<lambda>y. P y \<and> o_id y = o_id x) xs")
  case None
  with assms show ?thesis by (auto simp: find_None_iff')
next
  case (Some y)
  from find_SomeD [OF Some] assms have "y = x" by (auto simp: distinct_map dest: inj_onD)
  with Some show ?thesis by simp
qed



text \<open>
  C19. Canceling in bulk closes every open order of the list that is not part of an OCO, records a
  cancel request for each, and leaves all other orders alone.
\<close>

theorem bulk_cancel_exact:
  assumes "bulk_cancel_simple_orders ids s = Inr (u, s')" and "ledger_ok s" and "distinct (map o_id (orders s))"
  shows "orders s' = map (\<lambda>x. if o_id x \<in> set ids \<and> o_oco x = None \<and> o_status x = NEW then x\<lparr>o_status := CANCELED\<rparr> else x) (orders s)
    \<and> (\<forall>x\<in>set (orders s). o_id x \<in> set ids \<and> o_oco x = None \<and> o_status x = NEW \<longrightarrow> o_id x \<in> set (cancel_requests s'))
    \<and> ledger_ok s'"
proof -
  define cs where "cs = map o_id (filter (\<lambda>x. o_id x \<in> set ids \<and> o_oco x = None) (open_orders s))"
  define os where "os = filter (\<lambda>x. o_id x \<in> set cs) (open_orders s)"
  have chosen: "o_id x \<in> set cs \<longleftrightarrow> o_id x \<in> set ids \<and> o_oco x = None \<and> o_status x = NEW" if "x \<in> set (orders s)" for x
    using that assms(3) by (auto simp: cs_def open_orders_def distinct_map dest: inj_onD)
  have "with_pipeline (bulk_cancel_body cs) s = Inr (u, s')"
    using assms(1) by (simp add: bulk_cancel_simple_orders_def cs_def)
  then obtain a q where body: "bulk_cancel_body cs s new_pipeline = Inr (u, a, q)" and ex: "execute a q = Inr s'"
    by (auto simp: with_pipeline_def result_simps)
  from body obtain t where rl: "foldE (\<lambda>p x. release_lock s p (o_group x) None) new_pipeline os = Inr q"
    and cr: "cancel_rows s (map o_id os) = Inr t"
    and a: "a = t\<lparr>cancel_requests := cancel_requests t @ filter (\<lambda>i. i \<notin> set (cancel_requests t)) (map o_id os)\<rparr>"
    unfolding bulk_cancel_body_def os_def [symmetric] Let_def by (elim bindE_InrE) simp
  have "block_ok s new_pipeline" using assms(2) new_pipeline_inv by (simp add: block_ok_def)
  from release_orders_keeps [OF rl this] have "block_ok a q"
    using cancel_rows_same [OF cr] by (simp add: same_ledger_block a)
  note s' = execute_ok [OF ex this]
  have os: "set (map o_id os) = set cs" by (auto simp: os_def cs_def open_orders_def)
  have "orders s' = orders t" by (simp add: s'(2) posted_def a)
  also have "\<dots> = map (\<lambda>x. if o_id x \<in> set (map o_id os) \<and> o_status x = NEW then x\<lparr>o_status := CANCELED\<rparr> else x) (orders s)"
    using cr unfolding cancel_rows_def Let_def by (elim bindE_InrE) auto
  also have "\<dots> = map (\<lambda>x. if o_id x \<in> set ids \<and> o_oco x = None \<and> o_status x = NEW then x\<lparr>o_status := CANCELED\<rparr> else x) (orders s)"
    unfolding os by (rule map_cong [OF refl]) (simp add: chosen)
  finally have o: "orders s' = \<dots>" .
  have c: "set cs \<subseteq> set (cancel_requests s')" unfolding os [symmetric] by (auto simp: s'(2) posted_def a)
  have "\<forall>x\<in>set (orders s). o_id x \<in> set ids \<and> o_oco x = None \<and> o_status x = NEW \<longrightarrow> o_id x \<in> set (cancel_requests s')"
    using c chosen by blast
  with o s'(1) show ?thesis by blast
qed

theorem bulk_cancel_exact_witness:
  "\<exists>s'. bulk_cancel_simple_orders [1, 7] sample_db = Inr ((), s') \<and> map o_status (orders s') = [CANCELED, NEW]"
proof -
  have "case bulk_cancel_simple_orders [1, 7] sample_db of Inr _ \<Rightarrow> True | Inl _ \<Rightarrow> False" by code_simp
  then obtain s' where r: "bulk_cancel_simple_orders [1, 7] sample_db = Inr ((), s')" by (auto split: sum.splits)
  have d: "distinct (map o_id (orders sample_db))" by code_simp
  have "map o_status (map (\<lambda>x. if o_id x \<in> set [1, 7] \<and> o_oco x = None \<and> o_status x = NEW then x\<lparr>o_status := CANCELED\<rparr> else x)
      (orders sample_db)) = [CANCELED, NEW]" by code_simp
  with bulk_cancel_exact [OF r sample_db_ok d] r show ?thesis by metis
qed

end
