(* ===== verification/Exchange.thy ===== *)
theory Exchange
  imports Request_Properties
begin

text \<open>
  The exchange as a state machine: every request of a user and every operation of the staff is a
  step on the tables. The ledger's promise is the invariant of the reachable states.
\<close>

section \<open>Clearing debts in a loop\<close>

lemma known_mem: "ledger_ok s \<Longrightarrow> w \<in> set (wallets s) \<Longrightarrow> known s w"
  by (rule known_found, rule find_wallet_mem) (simp_all add: ledger_ok_def rows_ok_def)

lemma transfer_run_known:
  assumes "with_pipeline (transfer_body a b x sc gid) s = Inr (u, s')" and "ledger_ok s" and "known s a" and "known s b"
  shows "known s' w = known s w"
proof -
  from assms(1) obtain t p where b: "transfer_body a b x sc gid s new_pipeline = Inr (u, t, p)" and e: "execute t p = Inr s'"
    by (auto simp: with_pipeline_def result_simps)
  have "block_ok s new_pipeline" using assms(2) new_pipeline_inv by (simp add: block_ok_def)
  then have "block_ok t p" using transfer_block.keeps assms(3,4) b by blast
  from execute_ok(2) [OF e this] have "known s' w = known t w" by (simp add: known_def)
  moreover have "t = s" using b by (auto simp: transfer_body_def result_simps)
  ultimately show ?thesis by simp
qed

lemma clear_debt_keeps:
  assumes "clear_debt sw dw gid s = Inr s'" and "ledger_ok s" and "known s sw" and "known s dw"
  shows "ledger_ok s' \<and> (\<forall>w. known s w \<longrightarrow> known s' w)"
proof -
  from assms(1) have "s' = s \<or> (\<exists>a u. with_pipeline (transfer_body sw dw a SC_DEBT_CLEAR gid) s = Inr (u, s'))"
    by (auto simp: clear_debt_def Let_def result_simps split: if_splits)
  with assms(2-4) show ?thesis
    using transfer_block.run_ok [of sw dw] transfer_run_known [of sw dw] by blast
qed

lemma by_asset_mem: "(x, w) \<in> set (by_asset ws) \<Longrightarrow> w \<in> set ws"
proof -
  have upd: "(x, w) \<in> set (AList.update k v d) \<Longrightarrow> w = v \<or> (x, w) \<in> set d" for k v and d :: "(string \<times> wallet) list"
    by (induction d) (auto split: if_splits)
  have "(x, w) \<in> set (fold (\<lambda>w. AList.update (w_asset w) w) ws d) \<Longrightarrow> w \<in> set ws \<or> (x, w) \<in> set d" for d
    by (induction ws arbitrary: d) (auto dest: upd)
  from this [of "[]"] show "(x, w) \<in> set (by_asset ws) \<Longrightarrow> w \<in> set ws" by (simp add: by_asset_def)
qed

lemma clear_user_debts_keeps:
  assumes "clear_user_debts gid a s = Inr s'" and "ledger_ok s"
  shows "ledger_ok s'"
proof -
  let ?own = "\<lambda>m. by_asset (filter (\<lambda>w. acc_id (w_account w) = acc_id a \<and> w_market w = m \<and> balance w \<noteq> 0) (wallets s))"
  let ?f = "\<lambda>s (asset, sw). case map_of (?own DEBT) asset of None \<Rightarrow> Inr s | Some dw \<Rightarrow> clear_debt sw dw (gid asset) s"
  from assms(1) have f: "foldE ?f s (?own SPOT) = Inr s'" by (simp add: clear_user_debts_def Let_def)
  have "ledger_ok s' \<and> (\<forall>w\<in>set (wallets s). known s' w)"
  proof (rule foldE_invariant [OF f, where P = "\<lambda>t. ledger_ok t \<and> (\<forall>w\<in>set (wallets s). known t w)"])
    show "ledger_ok s \<and> (\<forall>w\<in>set (wallets s). known s w)" using assms(2) known_mem by blast
  next
    fix t x t'
    assume t: "ledger_ok t \<and> (\<forall>w\<in>set (wallets s). known t w)" and x: "x \<in> set (?own SPOT)" and r: "?f t x = Inr t'"
    obtain asset sw where x_eq: "x = (asset, sw)" by (cases x)
    with x have "known t sw" using t by (auto dest!: by_asset_mem)
    moreover have "known t dw" if "map_of (?own DEBT) asset = Some dw" for dw
      using map_of_SomeD [OF that] t by (auto dest!: by_asset_mem)
    ultimately show "ledger_ok t' \<and> (\<forall>w\<in>set (wallets s). known t' w)"
      using r t by (auto simp: x_eq split: option.splits dest: clear_debt_keeps)
  qed
  then show ?thesis by blast
qed

lemma auto_clear_debts_keeps:
  assumes "auto_clear_debts gid s = Inr s'" and "ledger_ok s"
  shows "ledger_ok s'"
proof -
  have "ledger_ok s' \<and> (\<forall>w\<in>set (wallets s). known s' w)"
  proof (rule foldE_invariant [OF assms(1) [unfolded auto_clear_debts_def], where P = "\<lambda>t. ledger_ok t \<and> (\<forall>w\<in>set (wallets s). known t w)"])
    show "ledger_ok s \<and> (\<forall>w\<in>set (wallets s). known s w)" using assms(2) known_mem by blast
  next
    fix t dw t'
    assume t: "ledger_ok t \<and> (\<forall>w\<in>set (wallets s). known t w)"
      and dw: "dw \<in> set (filter (\<lambda>w. w_market w = DEBT \<and> balance w < 0) (wallets s))"
      and r: "(case List.find (\<lambda>w. acc_id (w_account w) = acc_id (w_account dw) \<and> w_asset w = w_asset dw
                          \<and> w_market w = SPOT \<and> variant w = None \<and> 0 < balance w) (wallets t) of
              None \<Rightarrow> Inr t | Some sw \<Rightarrow> clear_debt sw dw (gid (w_id dw)) t) = Inr t'"
    have "known t dw" using dw t by simp
    then show "ledger_ok t' \<and> (\<forall>w\<in>set (wallets s). known t' w)"
      using r t by (auto split: option.splits dest!: find_SomeD dest: known_mem clear_debt_keeps)
  qed
  then show ?thesis by blast
qed

section \<open>Steps\<close>

inductive exchange_step :: "market_db \<Rightarrow> market_db \<Rightarrow> bool" where
  place_order: "create_order_request n env inp s = Inr (r, s') \<Longrightarrow> exchange_step s s'"
| place_stop_loss: "create_stop_loss_request env inp tp s = Inr (l, s') \<Longrightarrow> exchange_step s s'"
| place_oco: "create_oco_request n env inp slp slt s = Inr (c, s') \<Longrightarrow> exchange_step s s'"
| cancel_one: "create_cancel_request env a allow target s = Inr s' \<Longrightarrow> exchange_step s s'"
| cancel_bulk: "bulk_cancel_view a ids cids s = Inr (u, s') \<Longrightarrow> exchange_step s s'"
| seize: "w \<in> set (wallets s) \<Longrightarrow> seize_funds w amount gid s = Inr (u, s') \<Longrightarrow> exchange_step s s'"
| drop: "w \<in> set (wallets s) \<Longrightarrow> airdrop debug w a gid s = Inr (u, s') \<Longrightarrow> exchange_step s s'"
| clear_debts: "clear_user_debts gids a s = Inr s' \<Longrightarrow> exchange_step s s'"
| auto_clear: "auto_clear_debts gids' s = Inr s' \<Longrightarrow> exchange_step s s'"
| free_locks: "free_missing_locks in_use s = Inr (u, s') \<Longrightarrow> exchange_step s s'"
| revert: "with_pipeline (revert_block gid allow) s = Inr (u, s') \<Longrightarrow> exchange_step s s'"

inductive exchange_run :: "market_db \<Rightarrow> market_db \<Rightarrow> bool" where
  start: "exchange_run s s"
| run_step: "exchange_run s t \<Longrightarrow> exchange_step t u \<Longrightarrow> exchange_run s u"

lemma exchange_step_keeps: "exchange_step s s' \<Longrightarrow> ledger_ok s \<Longrightarrow> ledger_ok s'"
proof (induction rule: exchange_step.induct)
  case (place_order n env inp s r s')
  then show ?case by (rule create_order_request_keeps)
next
  case (place_stop_loss env inp tp s l s')
  then show ?case by (rule create_stop_loss_request_keeps)
next
  case (place_oco n env inp slp slt s c s')
  then show ?case by (rule create_oco_request_keeps)
next
  case (cancel_one env a allow target s s')
  then show ?case by (rule create_cancel_request_keeps)
next
  case (cancel_bulk a ids cids s u s')
  then show ?case
    by (auto simp: bulk_cancel_view_def bulk_cancel_simple_orders_def split: if_splits intro: bulk_cancel_block.run_ok)
next
  case (seize w s amount gid u s')
  then show ?case by (auto simp: seize_funds_def intro: seize_block.run_ok known_mem)
next
  case (drop w s debug a gid u s')
  then show ?case by (auto simp: airdrop_def result_simps intro: airdrop_block.run_ok known_mem)
next
  case (clear_debts gids a s s')
  then show ?case by (rule clear_user_debts_keeps)
next
  case (auto_clear gids' s s')
  then show ?case by (rule auto_clear_debts_keeps)
next
  case (free_locks in_use s u s')
  then show ?case by (auto simp: free_missing_locks_def intro: release_block.run_ok)
next
  case (revert gid allow s u s')
  then show ?case by (auto intro: revert_run.run_ok)
qed

lemma exchange_run_keeps: "exchange_run s s' \<Longrightarrow> ledger_ok s \<Longrightarrow> ledger_ok s'"
  by (induction rule: exchange_run.induct) (auto intro: exchange_step_keeps)

text \<open>
  C1. In every state the exchange reaches from an audited one, every wallet's balance and locked
  amount are those of its transactions and locks, every asset sums to zero over all wallets
  (nothing is created or lost), and no checked spot wallet is overdrawn.
\<close>

theorem reachable_ledger_sound:
  assumes "exchange_run s s'" and "ledger_ok s"
  shows "(\<forall>w\<in>set (wallets s'). balance w = trx_flow (w_id w) (trxs s') \<and> locked w = lock_sum (w_id w) (locks s')
            \<and> (check_balance w \<and> w_market w = SPOT \<longrightarrow> - credit w \<le> get_free w))
    \<and> total_of s' asset = 0"
proof -
  have ok: "ledger_ok s'" by (rule exchange_run_keeps [OF assms])
  then have "\<forall>w\<in>set (wallets s'). check_balance w \<and> w_market w = SPOT \<longrightarrow> - credit w \<le> get_free w"
    by (auto simp: ledger_ok_def rows_ok_def intro: row_valid_free)
  with ok total_of_zero [OF ok, of asset] show ?thesis by (auto simp: ledger_ok_def audited_def)
qed

theorem reachable_ledger_sound_witness:
  "\<exists>s'. exchange_run sample_db s' \<and> map o_status (orders s') = [CANCELED, NEW] \<and> total_of s' ''BTC'' = 0"
proof -
  have "case bulk_cancel_view bob [1] [] sample_db of Inr (u, s') \<Rightarrow> map o_status (orders s') = [CANCELED, NEW] | Inl _ \<Rightarrow> False"
    by code_simp
  then obtain s' where r: "bulk_cancel_view bob [1] [] sample_db = Inr ((), s')" and o: "map o_status (orders s') = [CANCELED, NEW]"
    by (auto split: sum.splits prod.splits)
  have run: "exchange_run sample_db s'" by (rule run_step [OF start cancel_bulk [OF r]])
  with reachable_ledger_sound [OF run sample_db_ok, of "''BTC''"] o
  show ?thesis by (intro exI [of _ s']) simp
qed

end
