(* ===== verification/Market_Properties.thy ===== *)
theory Market_Properties
  imports Samples
begin

text \<open>
  Orders from the request to the match: what placing, matching and canceling promise as whole
  operations, with the witnesses of the properties of \<open>Fees\<close> and \<open>Matching\<close>, evaluated on the
  book of \<open>Samples\<close>.
\<close>

section \<open>Witnesses of the matching properties\<close>

definition sample_taker :: "time_in_force \<Rightarrow> decimal \<Rightarrow> order" where
  "sample_taker tif amount = (plain_order 3 alice 5 BUY amount 120 103)\<lparr>o_tif := tif\<rparr>"

definition taker_db :: "order \<Rightarrow> order list \<Rightarrow> market_db" where
  "taker_db x asks = sample_db\<lparr>orders := asks @ [x]\<rparr>"

definition taker_pipe :: pipeline where
  "taker_pipe = (case lock_balance new_pipeline 103 (plain_wallet 3 alice ''USDT'' 1000 0) 360 Lock_TRADE of
     Inr p \<Rightarrow> p | Inl _ \<Rightarrow> new_pipeline)"

definition two_asks :: "order list" where
  "two_asks = [plain_order 1 bob 4 SELL 2 100 100, plain_order 2 bob 4 SELL 3 110 101]"

definition one_ask :: "order list" where
  "one_ask = [plain_order 1 bob 4 SELL 2 100 100]"

lemma two_asks_run:
  "case make_match sample_env (sample_taker GTC 3) None (taker_db (sample_taker GTC 3) two_asks) taker_pipe of
     Inr (m, s, p) \<Rightarrow> (\<exists>t\<in>set (mt_pairs m). tr_order (fst t) = 2) | Inl _ \<Rightarrow> False"
  by code_simp

lemma two_asks_match:
  obtains m s p t where
    "make_match sample_env (sample_taker GTC 3) None (taker_db (sample_taker GTC 3) two_asks) taker_pipe = Inr (m, s, p)"
    "t \<in> set (mt_pairs m)" "tr_order (fst t) = 2"
  using two_asks_run that by (auto split: sum.splits prod.splits)

lemma two_asks_facts:
  "symbol_row (taker_db (sample_taker GTC 3) two_asks) (o_symbol (sample_taker GTC 3)) = Inr (plain_pair ''BTC'' ''USDT'')"
  "distinct (map o_id (orders (taker_db (sample_taker GTC 3) two_asks)))"
  "plain_order 1 bob 4 SELL 2 100 100 \<in> set (matching_orders (taker_db (sample_taker GTC 3) two_asks) (sample_taker GTC 3))"
  "plain_order 2 bob 4 SELL 3 110 101 \<in> set (matching_orders (taker_db (sample_taker GTC 3) two_asks) (sample_taker GTC 3))"
  "better (get_opposite_side (o_side (sample_taker GTC 3))) (plain_order 1 bob 4 SELL 2 100 100) (plain_order 2 bob 4 SELL 3 110 101)"
  "unfilled_amount (plain_pair ''BTC'' ''USDT'') (plain_order 1 bob 4 SELL 2 100 100) = 2"
  by code_simp+


theorem trades_within_limits_witness:
  "\<exists>m s p t. make_match sample_env (sample_taker GTC 3) None (taker_db (sample_taker GTC 3) two_asks) taker_pipe = Inr (m, s, p)
     \<and> t \<in> set (mt_pairs m) \<and> 0 < bt_amount (fst t) \<and> bt_amount (snd t) = bt_amount (fst t)"
proof -
  obtain m s p t where r: "make_match sample_env (sample_taker GTC 3) None (taker_db (sample_taker GTC 3) two_asks) taker_pipe = Inr (m, s, p)"
    and t: "t \<in> set (mt_pairs m)" by (rule two_asks_match)
  from trades_within_limits [OF r two_asks_facts(1) t] r t show ?thesis by blast
qed


lemma fok_run:
  "case make_match sample_env (sample_taker FOK 1) None (taker_db (sample_taker FOK 1) one_ask) taker_pipe of
     Inr (m, s, p) \<Rightarrow> mt_pairs m \<noteq> [] | Inl _ \<Rightarrow> False"
  by code_simp


lemma ioc_run:
  "case make_match sample_env (sample_taker IOC 3) None (taker_db (sample_taker IOC 3) one_ask) taker_pipe of
     Inr (m, s, p) \<Rightarrow> (\<exists>x\<in>set (orders s). o_id x = 3) | Inl _ \<Rightarrow> False"
  by code_simp

theorem immediate_orders_never_rest_witness:
  "\<exists>m s p. make_match sample_env (sample_taker IOC 3) None (taker_db (sample_taker IOC 3) one_ask) taker_pipe = Inr (m, s, p)
     \<and> (\<exists>x\<in>set (orders s). o_id x = 3 \<and> o_status x \<noteq> NEW)"
proof -
  obtain m s p x where r: "make_match sample_env (sample_taker IOC 3) None (taker_db (sample_taker IOC 3) one_ask) taker_pipe = Inr (m, s, p)"
    and x: "x \<in> set (orders s)" "o_id x = 3" using ioc_run by (auto split: sum.splits prod.splits)
  have n: "never_rests (sample_taker IOC 3)" and s: "sample_taker IOC 3 \<in> set (orders (taker_db (sample_taker IOC 3) one_ask))"
    and d: "distinct (map o_id (orders (taker_db (sample_taker IOC 3) one_ask)))"
    by code_simp+
  have i: "o_id x = o_id (sample_taker IOC 3)" using x(2) by (simp add: sample_taker_def plain_order_def)
  from immediate_orders_never_rest [OF r n s d x(1) i] r x show ?thesis by blast
qed

theorem fee_bounds_witness:
  "0 < trader_fee_amount (get_fee_info sample_db 0 (init_trade (plain_pair ''BTC'' ''USDT'') (sample_taker GTC 3)
      (plain_wallet 5 alice ''BTC'' 0 0) False 3 100 SRC_MARKET 60000 1 7))
   \<and> trader_fee_amount (get_fee_info sample_db 0 (init_trade (plain_pair ''BTC'' ''USDT'') (sample_taker GTC 3)
      (plain_wallet 5 alice ''BTC'' 0 0) False 3 100 SRC_MARKET 60000 1 7)) \<le> 3"
proof -
  let ?t = "init_trade (plain_pair ''BTC'' ''USDT'') (sample_taker GTC 3) (plain_wallet 5 alice ''BTC'' 0 0) False 3 100 SRC_MARKET 60000 1 7"
  have h: "rates_ok (bt_symbol ?t) (bt_account ?t)"
    by (simp add: rates_ok_def init_trade_def plain_pair_def plain_wallet_def alice_def plain_account_def)
  have v: "0 \<le> bt_amount ?t" "0 \<le> bt_price ?t" "0 \<le> base_irt_price ?t" "0 \<le> base_usdt_price ?t"
    by (simp_all add: init_trade_def)
  have f: "trader_fee_amount (get_fee_info sample_db 0 ?t) = 6 / 1000" "get_receiving_amount ?t = 3" by code_simp+
  from fee_bounds [OF h v, of sample_db 0] f show ?thesis by simp
qed

end
