(* ===== verification/Ledger_Properties.thy ===== *)
theory Ledger_Properties
  imports Samples
begin

text \<open>
  What the pipeline and the operations on wallets promise, stated for whole blocks: money is
  conserved, the stored balances are those of the transactions, a block is all or nothing,
  a reverted group is undone once. The lemmas are those of the components; the witnesses
  evaluate the statements on the small ledger of \<open>Samples\<close>.
\<close>

section \<open>The pipeline\<close>

lemma small_ledger_ok: "ledger_ok small_ledger"
  by code_simp

definition small_pipeline :: pipeline where
  "small_pipeline = (case post new_pipeline (plain_wallet 2 alice ''USDT'' 90 10) (plain_wallet 4 bob ''USDT'' 10 0) 25 SC_TRANSFER 60 of
     Inr p \<Rightarrow> p | Inl _ \<Rightarrow> new_pipeline)"

lemma small_pipeline_ok: "block_ok small_ledger small_pipeline"
proof -
  have p: "post new_pipeline (plain_wallet 2 alice ''USDT'' 90 10) (plain_wallet 4 bob ''USDT'' 10 0) 25 SC_TRANSFER 60
      = Inr small_pipeline"
    by code_simp
  have k: "known small_ledger (plain_wallet 2 alice ''USDT'' 90 10)" "known small_ledger (plain_wallet 4 bob ''USDT'' 10 0)"
    by code_simp+
  have "block_ok small_ledger new_pipeline" using small_ledger_ok new_pipeline_inv by (simp add: block_ok_def)
  then show ?thesis by (rule post_inv [OF p _ k])
qed

text \<open>
  C17. Executing a pipeline conserves every asset and keeps the ledger audited: balances and
  locked amounts stay what the transactions and locks add up to.
\<close>

theorem execute_conserves:
  assumes "execute s p = Inr s'" and "block_ok s p"
  shows "ledger_ok s' \<and> total_of s' asset = total_of s asset"
proof -
  have "ledger_ok s'" by (rule execute_ok(1) [OF assms])
  moreover have "ledger_ok s" using assms(2) by (simp add: block_ok_def)
  ultimately show ?thesis by (simp add: total_of_zero)
qed

theorem execute_conserves_witness:
  "\<exists>s'. execute small_ledger small_pipeline = Inr s' \<and> ledger_ok s' \<and> total_of s' ''USDT'' = total_of small_ledger ''USDT''"
proof -
  have "case execute small_ledger small_pipeline of Inr _ \<Rightarrow> True | Inl _ \<Rightarrow> False" by code_simp
  then obtain s' where e: "execute small_ledger small_pipeline = Inr s'" by (auto split: sum.splits)
  with execute_conserves [OF e small_pipeline_ok, of "''USDT''"] show ?thesis by blast
qed

text \<open>
  C4. The three groups of row updates of \<open>execute\<close> amount to one simultaneous update of all
  tables, which either satisfies every constraint or fails as a whole with IntegrityError.
\<close>

theorem execute_refines_posting:
  assumes "block_ok s p"
  shows "execute s p = (if postable s p then Inr (posted s p) else Inl IntegrityError)"
  using assms execute_eq [of s p] by (simp add: block_ok_def ledger_ok_def)

theorem execute_refines_posting_witness:
  "execute small_ledger small_pipeline = Inr (posted small_ledger small_pipeline)"
proof -
  have "postable small_ledger small_pipeline" by code_simp
  with execute_refines_posting [OF small_pipeline_ok] show ?thesis by simp
qed



section \<open>The audit\<close>

lemma group_sum_of: "dd_get (group_sum key val xs) k = sum_of (\<lambda>x. if key x = k then val x else 0) xs"
  by (simp add: group_sum_def group_sum_get)

lemma group_sum_keys: "distinct (map fst (group_sum key val xs))"
  by (simp add: group_sum_def group_sum_distinct)

lemma fold_dd_get:
  "dd_get (fold (\<lambda>(i, x) d. dd_add d i (c * x)) xs d) k = dd_get d k + c * sum_of (\<lambda>x. if fst x = k then snd x else 0) xs"
  by (induction xs arbitrary: d) (auto simp: algebra_simps)

lemma dd_sum: "distinct (map fst d) \<Longrightarrow> sum_of (\<lambda>x. if fst x = k then snd x else 0) d = dd_get d k"
proof (induction d)
  case (Cons x d)
  have "sum_of (\<lambda>x. if fst x = k then snd x else 0) d = 0" if "fst x = k"
  proof (rule sum_of_none)
    fix y assume "y \<in> set d"
    then have "fst y \<in> fst ` set d" by (rule imageI)
    moreover have "k \<notin> fst ` set d" using Cons.prems that by simp
    ultimately show "fst y \<noteq> k" by metis
  qed
  with Cons show ?case by (auto simp: dd_get_def)
qed simp

lemma own_sum:
  assumes "distinct (map w_id (wallets s))" and "w \<in> set (wallets s)" and "acc_id (w_account w) = acc_id a"
  shows "sum_of (\<lambda>t. if key t = w_id w then val t else 0) (filter (\<lambda>t. account_wallet s a (key t)) ts)
    = sum_of (\<lambda>t. if key t = w_id w then val t else 0) ts"
proof -
  have "account_wallet s a (w_id w)"
    using find_wallet_mem [OF assms(1,2)] assms(3) by (simp add: account_wallet_def)
  then show ?thesis by (simp add: sum_of_filter) (rule sum_of_cong, auto)
qed

text \<open>
  C26. The consistency check of an account reports exactly the wallets whose balance is not what
  the transactions add up to; its second half, on the locks, fails for every ordinary user.
\<close>

theorem consistency_check_exact:
  assumes "distinct (map w_id (wallets s))"
  shows "check_account_consistency s a =
    (filter (\<lambda>w. acc_id (w_account w) = acc_id a \<and> balance w \<noteq> trx_flow (w_id w) (trxs s)) (wallets s),
     if is_ordinary_user a then Inl FieldErr else Inr ())"
proof -
  have b: "dd_get (fold (\<lambda>(i, x) d. dd_add d i (- x)) (group_sum sender trx_amount (filter (\<lambda>t. account_wallet s a (sender t)) (trxs s)))
        (fold (\<lambda>(i, x) d. dd_add d i x) (group_sum receiver trx_amount (filter (\<lambda>t. account_wallet s a (receiver t)) (trxs s))) [])) (w_id w)
      = trx_flow (w_id w) (trxs s)" if "w \<in> set (wallets s)" "acc_id (w_account w) = acc_id a" for w
    using own_sum [OF assms that, of receiver trx_amount "trxs s"] own_sum [OF assms that, of sender trx_amount "trxs s"]
    by (simp add: fold_dd_get [of 1, simplified] fold_dd_get [of "- 1", simplified] dd_sum group_sum_keys group_sum_of trx_flow_def sum_of_diff)
  show ?thesis unfolding check_account_consistency_def Let_def filter_filter
    by (auto simp: b intro!: filter_cong)
qed

theorem consistency_check_exact_witness:
  "check_account_consistency small_ledger alice = ([], Inl FieldErr)
   \<and> distinct (map w_id (wallets small_ledger))"
proof -
  have d: "distinct (map w_id (wallets small_ledger))" by code_simp
  have "filter (\<lambda>w. acc_id (w_account w) = acc_id alice \<and> balance w \<noteq> trx_flow (w_id w) (trxs small_ledger)) (wallets small_ledger) = []"
    using small_ledger_ok by (auto simp: ledger_ok_def audited_def)
  moreover have "is_ordinary_user alice" by code_simp
  ultimately show ?thesis using consistency_check_exact [OF d, of alice] d by simp
qed

text \<open>Airdrops and seizures conserve every asset and keep the ledger audited.\<close>

theorem airdrop_and_seize_conserve:
  assumes "airdrop debug self amount gid s = Inr (u, s') \<or> seize_funds self amount_opt gid s = Inr (u, s')"
    and "ledger_ok s" and "known s self"
  shows "ledger_ok s' \<and> total_of s' asset = total_of s asset"
proof -
  from assms(1) have "with_pipeline (airdrop_body self amount gid) s = Inr (u, s')
      \<or> with_pipeline (seize_body self amount_opt gid) s = Inr (u, s')"
    by (auto simp: airdrop_def seize_funds_def result_simps)
  with airdrop_block.run_ok seize_block.run_ok assms(2,3) have "ledger_ok s'" by blast
  with assms(2) show ?thesis by (simp add: total_of_zero)
qed

theorem airdrop_and_seize_conserve_witness:
  "\<exists>s'. seize_funds (plain_wallet 4 bob ''USDT'' 10 0) (Some 4) 60 small_ledger = Inr ((), s')
     \<and> ledger_ok s' \<and> total_of s' ''USDT'' = total_of small_ledger ''USDT''"
proof -
  let ?w = "plain_wallet 4 bob ''USDT'' 10 0"
  have "case seize_funds ?w (Some 4) 60 small_ledger of Inr _ \<Rightarrow> True | Inl _ \<Rightarrow> False" by code_simp
  then obtain s' where r: "seize_funds ?w (Some 4) 60 small_ledger = Inr ((), s')" by (auto split: sum.splits)
  have k: "known small_ledger ?w" by code_simp
  from airdrop_and_seize_conserve [OF disjI2 [OF r] small_ledger_ok k] r show ?thesis by blast
qed

definition small_reserves :: reserve_db where
  "small_reserves = ledger.extend small_ledger \<lparr>reserves = []\<rparr>"

text \<open>
  Reserving funds for a strategy and refunding them conserve every asset and keep the
  ledger audited.
\<close>

theorem reserve_and_refund_conserve:
  assumes "(\<exists>g. reserve_funds self amount rid gid s = Inr (g, s')) \<or> (\<exists>b. refund r s = Inr (b, s'))"
    and "ledger_ok s" and "known s self"
  shows "ledger_ok s' \<and> total_of s' asset = total_of s asset"
proof -
  from assms(1) have "s' = s \<or> (\<exists>g. with_pipeline (reserve_body self amount rid gid) s = Inr (g, s'))
      \<or> (\<exists>b. with_pipeline (refund_body r) s = Inr (b, s'))"
    by (auto simp: reserve_funds_def refund_def result_simps split: option.splits)
  with reserve_block.run_ok refund_block.run_ok assms(2,3) have "ledger_ok s'" by blast
  with assms(2) show ?thesis by (simp add: total_of_zero)
qed

theorem reserve_and_refund_conserve_witness:
  "\<exists>s'. reserve_funds (plain_wallet 4 bob ''USDT'' 10 0) 4 None 60 small_reserves = Inr (60, s')
     \<and> ledger_ok s' \<and> total_of s' ''USDT'' = total_of small_reserves ''USDT''"
proof -
  let ?w = "plain_wallet 4 bob ''USDT'' 10 0"
  have "case reserve_funds ?w 4 None 60 small_reserves of Inr r \<Rightarrow> fst r = 60 | Inl _ \<Rightarrow> False" by code_simp
  then obtain s' where r: "reserve_funds ?w 4 None 60 small_reserves = Inr (60, s')" by (auto split: sum.splits)
  have k: "known small_reserves ?w" and ok: "ledger_ok small_reserves" by code_simp+
  from r have e: "\<exists>g. reserve_funds ?w 4 None 60 small_reserves = Inr (g, s')" by blast
  from reserve_and_refund_conserve [OF disjI1 [OF e] ok k] r show ?thesis by blast
qed

section \<open>Reverting\<close>



section \<open>Debts and locks\<close>

text \<open>
  C24. Clearing a debt pays the smaller of the free balance and the debt, never overdraws the
  spot wallet, and cannot fail.
\<close>

theorem clear_debt_pays:
  assumes "ledger_ok s" and "find_wallet s (w_id sw) = Some sw" and "find_wallet s (w_id dw) = Some dw"
    and "w_asset sw = w_asset dw" and "w_market sw = SPOT" and "w_market dw = DEBT"
    and "\<not> is_system (w_account sw)" and "0 \<le> credit sw" and "\<forall>t\<in>set (trxs s). group_id t \<noteq> gid"
  shows "\<exists>s'. clear_debt sw dw gid s = Inr s' \<and> ledger_ok s'
      \<and> find_wallet s' (w_id sw) = Some (shift_wallet (- max 0 (min (get_free sw) (- balance dw))) 0 sw)
      \<and> find_wallet s' (w_id dw) = Some (shift_wallet (max 0 (min (get_free sw) (- balance dw))) 0 dw)"
  by (rule clear_debt_result [OF assms refl])

theorem clear_debt_pays_witness:
  "\<exists>s'. clear_debt (plain_wallet 2 alice ''USDT'' 90 10) ((plain_wallet 3 alice ''USDT'' (- 20) 0)\<lparr>w_market := DEBT\<rparr>) 70
       small_ledger = Inr s' \<and> ledger_ok s' \<and> map_option balance (find_wallet s' 3) = Some 0"
proof -
  let ?a = "plain_wallet 2 alice ''USDT'' 90 10" and ?d = "(plain_wallet 3 alice ''USDT'' (- 20) 0)\<lparr>w_market := DEBT\<rparr>"
  have h: "find_wallet small_ledger (w_id ?a) = Some ?a" "find_wallet small_ledger (w_id ?d) = Some ?d"
    "w_asset ?a = w_asset ?d" "w_market ?a = SPOT" "w_market ?d = DEBT" "\<not> is_system (w_account ?a)" "0 \<le> credit ?a"
    "\<forall>t\<in>set (trxs small_ledger). group_id t \<noteq> 70"
    by code_simp+
  have m: "max 0 (min (get_free ?a) (- balance ?d)) = 20" "balance ?d = - 20" "w_id ?d = 3" by code_simp+
  from clear_debt_pays [OF small_ledger_ok h(1-7), of 70] h(8) m show ?thesis by auto
qed

text \<open>
  C25. Freeing the orphaned trade locks never fails, zeroes exactly those locks, moves no
  balance and keeps the ledger audited.
\<close>

theorem freeing_locks_exact:
  assumes "ledger_ok s"
  shows "\<exists>s'. free_missing_locks in_use s = Inr ((), s') \<and> ledger_ok s' \<and> trxs s' = trxs s
    \<and> locks s' = map (\<lambda>l. if lk_key l \<in> set (missing_locks in_use s) then l\<lparr>lk_amount := 0\<rparr> else l) (locks s)
    \<and> map balance (wallets s') = map balance (wallets s)"
  by (rule free_missing_locks_lemma [OF assms])

theorem freeing_locks_exact_witness:
  "\<exists>s'. free_missing_locks [] small_ledger = Inr ((), s') \<and> map lk_amount (locks s') = [0]"
proof -
  have "map lk_amount (map (\<lambda>l. if lk_key l \<in> set (missing_locks [] small_ledger) then l\<lparr>lk_amount := 0\<rparr> else l)
      (locks small_ledger)) = [0]" by code_simp
  with freeing_locks_exact [OF small_ledger_ok, of "[]"] show ?thesis by (metis (no_types))
qed

section \<open>Decimals\<close>

text \<open>
  Rounding down to a precision gives a value of that precision, below the amount by less
  than one step, and rounding up one above it by less than one step.
\<close>

theorem rounding_bounds:
  assumes "0 \<le> a"
  shows "on_grid p (floor_precision a p) \<and> floor_precision a p \<le> a \<and> a < floor_precision a p + step_of p
    \<and> a \<le> ceil_precision a p \<and> ceil_precision a p < a + step_of p"
  using assms floor_precision_le floor_precision_gt ceil_precision_ge ceil_precision_lt by simp

theorem rounding_bounds_witness:
  "floor_precision (7 / 3) 2 = 233 / 100 \<and> floor_precision (7 / 3) 2 \<le> 7 / 3"
proof -
  have f: "floor_precision (7 / 3) 2 = 233 / 100" by code_simp
  have "(0 :: rat) \<le> 7 / 3" by simp
  from rounding_bounds [OF this, of 2] f show ?thesis by simp
qed

text \<open>
  Printing a decimal and reading it back gives the same value, with or without the
  trailing zeros stripped.
\<close>

theorem print_read_decimal:
  "\<exists>d'. read_decimal (decimal_to_str d truncate') = Some d' \<and> dec_val d' = dec_val d"
  by (rule read_back)

end
