(* ===== verification/Effects.thy ===== *)
theory Effects
  imports Wallet_Ops
begin

text \<open>
  What a block of transactions does to the balances of an account: the wallet an operation gets
  by \<^verbatim>\<open>get_wallet\<close>, the amount a transaction moves, and the balances after the block.
\<close>

section \<open>The wallet of an account\<close>

definition own_wallet :: "('z) ledger_scheme \<Rightarrow> account \<Rightarrow> string \<Rightarrow> wallet_market \<Rightarrow> nat option \<Rightarrow> wallet option" where
  "own_wallet s a asset m v =
     List.find (\<lambda>w. w_asset w = asset \<and> w_market w = m \<and> variant w = v \<and> acc_id (w_account w) = acc_id a) (wallets s)"

text \<open>What the account holds in a market: the balance of the wallet without variant, if there is one.\<close>

definition held :: "('z) ledger_scheme \<Rightarrow> account \<Rightarrow> string \<Rightarrow> wallet_market \<Rightarrow> decimal" where
  "held s a asset m = (case own_wallet s a asset m None of Some w \<Rightarrow> balance w | None \<Rightarrow> 0)"

lemma own_walletD:
  assumes "own_wallet s a asset m v = Some w"
  shows "w \<in> set (wallets s)" and "w_asset w = asset" and "w_market w = m" and "variant w = v"
    and "acc_id (w_account w) = acc_id a"
  using find_SomeD [OF assms [unfolded own_wallet_def]] by simp_all

lemma own_wallet_cong: "wallets s' = wallets s \<Longrightarrow> own_wallet s' = own_wallet s"
  by (intro ext) (simp add: own_wallet_def)

lemma held_cong: "wallets s' = wallets s \<Longrightarrow> held s' = held s"
  using own_wallet_cong [of s' s] by (intro ext) (simp add: held_def)

lemma get_wallet_cases:
  assumes "get_wallet s asset a m v e = (w, s')"
  obtains "s' = s" "own_wallet s a asset m v = Some w"
  | "wallets s' = wallets s @ [w]" "own_wallet s a asset m v = None" "balance w = 0"
      "w_asset w = asset" "w_market w = m" "variant w = v" "acc_id (w_account w) = acc_id a"
proof (cases "own_wallet s a asset m v")
  case None
  let ?w = "\<lparr>w_id = fresh_id (map w_id (wallets s)), w_account = a, w_asset = asset, w_market = m,
    check_balance = (acc_type a = ORDINARY), balance = 0, locked = 0, variant = v, expiration = e, credit = 0\<rparr>"
  have w: "w = ?w" "s' = s\<lparr>wallets := wallets s @ [?w]\<rparr>"
    using assms None by (auto simp add: get_wallet_def get_or_create_wallet_def own_wallet_def Let_def)
  show ?thesis by (rule that(2)) (simp_all add: w None)
next
  case (Some q)
  with assms have "s' = s" "w = q" by (simp_all add: get_wallet_def get_or_create_wallet_def own_wallet_def)
  with Some show ?thesis by (intro that(1)) simp_all
qed

lemma own_wallet_append:
  "wallets s' = wallets s @ [w] \<Longrightarrow> own_wallet s' b x n u =
     (case own_wallet s b x n u of Some r \<Rightarrow> Some r
      | None \<Rightarrow> if w_asset w = x \<and> w_market w = n \<and> variant w = u \<and> acc_id (w_account w) = acc_id b then Some w else None)"
  by (simp add: own_wallet_def find_append split: option.split)

lemma get_wallet_own:
  assumes "get_wallet s asset a m v e = (w, s')"
  shows "own_wallet s' a asset m v = Some w"
    and "own_wallet s b x n u = Some r \<Longrightarrow> own_wallet s' b x n u = Some r"
    and "held s' = held s"
proof -
  have "own_wallet s' a asset m v = Some w \<and> (own_wallet s b x n u = Some r \<longrightarrow> own_wallet s' b x n u = Some r)
    \<and> held s' c y k = held s c y k" for c y k
    using assms
  proof (cases rule: get_wallet_cases)
    case 2
    then show ?thesis by (simp add: own_wallet_append held_def split: option.split)
  qed simp
  then show "own_wallet s' a asset m v = Some w" "own_wallet s b x n u = Some r \<Longrightarrow> own_wallet s' b x n u = Some r"
    "held s' = held s" by (simp_all add: ext fun_eq_iff)
qed

lemma own_wallet_held: "own_wallet s a asset m None = Some w \<Longrightarrow> balance w = held s a asset m"
  by (simp add: held_def)

lemma get_wallet_ok:
  assumes "get_wallet s asset a m v e = (w, s')" and "ledger_ok s"
  shows "ledger_ok s'" and "known s' w" and "known s u \<Longrightarrow> known s' u"
proof -
  have "block_ok s new_pipeline" using assms(2) new_pipeline_inv by (simp add: block_ok_def)
  from get_wallet_inv [OF assms(1) this] show "ledger_ok s'" "known s' w" "known s u \<Longrightarrow> known s' u"
    by (auto simp: block_ok_def)
qed

text \<open>Getting a wallet and executing a pipeline leave the tables of a component alone.\<close>

lemma get_wallet_only: "get_wallet s asset a m v e = (w, s') \<Longrightarrow> s' = s\<lparr>wallets := wallets s'\<rparr>"
  by (auto simp: get_wallet_def get_or_create_wallet_def Let_def split: option.splits)

lemma get_wallet_more: "get_wallet s asset a m v e = (w, s') \<Longrightarrow> ledger.more s' = ledger.more s"
  by (drule get_wallet_only) (metis ledger.select_convs(6) ledger.surjective ledger.update_convs(2))

lemma execute_more: "execute s p = Inr s' \<Longrightarrow> ledger.more s' = ledger.more s \<and> accounts s' = accounts s"
  by (auto simp: execute_def bulk_create_trxs_def bulk_create_locks_def result_simps Let_def split: if_splits)

lemma get_wallet_trxs: "get_wallet s asset a m v e = (w, s') \<Longrightarrow> trxs s' = trxs s \<and> locks s' = locks s \<and> accounts s' = accounts s"
  by (auto simp: get_wallet_def get_or_create_wallet_def Let_def split: option.splits)

text \<open>Two wallets of the audited tables that differ in a column have different ids.\<close>

lemma own_wallets_differ:
  assumes "own_wallet s a x m v = Some w" and "own_wallet s b y n u = Some w'" and "ledger_ok s"
    and "x \<noteq> y \<or> m \<noteq> n \<or> v \<noteq> u \<or> acc_id a \<noteq> acc_id b"
  shows "w_id w \<noteq> w_id w'"
proof
  assume eq: "w_id w = w_id w'"
  have "distinct (map w_id (wallets s))" using assms(3) by (simp add: ledger_ok_def rows_ok_def)
  with eq own_walletD [OF assms(1)] own_walletD [OF assms(2)] have "w = w'"
    by (metis find_wallet_mem option.inject)
  with own_walletD [OF assms(1)] own_walletD [OF assms(2)] assms(4) show False by auto
qed

section \<open>What a block moves\<close>

definition moved_amount :: "wallet \<Rightarrow> wallet \<Rightarrow> decimal \<Rightarrow> decimal" where
  "moved_amount a b x =
     (if w_id a = w_id b \<or> is_system (w_account a) \<and> is_system (w_account b) then 0 else floor_precision x 8)"

lemma post_flow:
  assumes "post p a b x sc g = Inr p'" and "pipe_inv s p"
  shows "trx_flow i (p_trxs p') = trx_flow i (p_trxs p) + (if i = w_id b then moved_amount a b x else 0)
           - (if i = w_id a then moved_amount a b x else 0)"
    and "wallet_locks p' = wallet_locks p" and "p_locks p' = p_locks p" and "locks_amount p' = locks_amount p"
proof -
  let ?y = "floor_precision x 8"
  let ?t = "\<lparr>sender = w_id a, receiver = w_id b, trx_amount = ?y, group_id = g, trx_scope = sc\<rparr>"
  have d: "distinct (map trx_key (p_trxs p))" using assms(2) by (simp add: pipe_inv_def)
  consider "moved_amount a b x = 0" "p' = p"
    | "moved_amount a b x = ?y" "p_trxs p' = add_trx ?t (p_trxs p)" "wallet_locks p' = wallet_locks p"
      "p_locks p' = p_locks p" "locks_amount p' = locks_amount p" "w_id a \<noteq> w_id b"
    using assms(1) by (auto simp: post_def new_trx_def moved_amount_def Let_def result_simps split: if_splits)
  then have "trx_flow i (p_trxs p') = trx_flow i (p_trxs p) + (if i = w_id b then moved_amount a b x else 0)
           - (if i = w_id a then moved_amount a b x else 0)
     \<and> wallet_locks p' = wallet_locks p \<and> p_locks p' = p_locks p \<and> locks_amount p' = locks_amount p"
  proof cases
    case 2
    with add_trx_flow [OF d, of i ?t] show ?thesis by (auto simp: trx_flow_def)
  qed simp
  then show "trx_flow i (p_trxs p') = trx_flow i (p_trxs p) + (if i = w_id b then moved_amount a b x else 0)
           - (if i = w_id a then moved_amount a b x else 0)"
    "wallet_locks p' = wallet_locks p" "p_locks p' = p_locks p" "locks_amount p' = locks_amount p" by blast+
qed

lemma moved_amount_exact: "w_id a \<noteq> w_id b \<Longrightarrow> \<not> is_system (w_account a) \<Longrightarrow> on_grid 8 x \<Longrightarrow> moved_amount a b x = x"
  by (simp add: moved_amount_def floor_precision_on_grid)

text \<open>After the block.\<close>

lemma own_wallet_posted:
  assumes "execute s p = Inr s'" and "block_ok s p"
  shows "own_wallet s' a x m v =
    map_option (\<lambda>w. shift_wallet (trx_flow (w_id w) (p_trxs p)) (dd_get (wallet_locks p) (w_id w)) w) (own_wallet s a x m v)"
proof -
  have "wallets s' = map (\<lambda>w. shift_wallet (trx_flow (w_id w) (p_trxs p)) (dd_get (wallet_locks p) (w_id w)) w) (wallets s)"
    using execute_ok(2) [OF assms] assms(2) by (simp add: posted_simps block_ok_def pipe_inv_def)
  moreover have "List.find (\<lambda>w. w_asset w = x \<and> w_market w = m \<and> variant w = v \<and> acc_id (w_account w) = acc_id a)
      (map (\<lambda>w. shift_wallet (f (w_id w)) (g (w_id w)) w) ws)
    = map_option (\<lambda>w. shift_wallet (f (w_id w)) (g (w_id w)) w)
        (List.find (\<lambda>w. w_asset w = x \<and> w_market w = m \<and> variant w = v \<and> acc_id (w_account w) = acc_id a) ws)" for f g ws
    by (induction ws) auto
  ultimately show ?thesis by (simp add: own_wallet_def)
qed

lemma held_posted:
  assumes "execute s p = Inr s'" and "block_ok s p" and "own_wallet s a x m None = Some w"
  shows "held s' a x m = balance w + trx_flow (w_id w) (p_trxs p)"
  using own_wallet_posted [OF assms(1,2), of a x m None] assms(3) by (simp add: held_def)

end
