(* ===== verification/Stake.thy ===== *)
theory Stake
  imports Effects
begin

text \<open>
  Staking (\<^verbatim>\<open>stake/models/\<close>, \<^verbatim>\<open>stake/views/stake_request_view.py\<close>, \<^verbatim>\<open>stake/tasks/\<close>): a request
  moves funds from the spot to the stake wallet of an account, earns revenue while it is done,
  and gives the funds back when it is canceled or finished. Times are seconds; \<open>now\<close> is the
  argument of an operation that reads the clock, \<open>day_of\<close> the date of a time in the default
  time zone. Mails and text messages are not modelled.
\<close>

section \<open>Tables\<close>

datatype stake_type = DEFI | POOL | STAKE_BOT

datatype stake_status =
    ST_PROCESS | ST_PENDING | ST_DONE | ST_FINISHED | CANCEL_PROCESS | CANCEL_PENDING | CANCEL_COMPLETE

record stake_option =
  so_id :: nat
  so_asset :: string
  so_apr :: decimal
  so_type :: stake_type
  user_max_amount :: decimal
  user_min_amount :: decimal
  total_cap :: decimal
  so_enable :: bool
  so_landing :: bool
  so_precision :: int
  so_fee :: decimal

record stake_request =
  sr_id :: nat
  sr_status :: stake_status
  sr_option :: nat
  sr_amount :: decimal
  sr_group :: nat
  sr_account :: account
  sr_created :: int
  start_at :: "int option"
  cancel_request_at :: "int option"
  cancel_pending_at :: "int option"
  end_at :: "int option"

record stake_revenue =
  rv_created :: int
  rv_request :: nat
  rv_group :: nat
  rv_revenue :: decimal
  rv_source :: wallet_market

record stake_db = ledger +
  stake_options :: "stake_option list"
  stake_requests :: "stake_request list"
  stake_revenues :: "stake_revenue list"
  stake_uuids :: nat

definition option_row :: "('z) stake_db_scheme \<Rightarrow> nat \<Rightarrow> stake_option result" where
  "option_row s i = the_or DoesNotExist (List.find (\<lambda>o'. so_id o' = i) (stake_options s))"

text \<open>A column of eight decimals: the database rounds half away from zero.\<close>

definition stored_decimal :: "decimal \<Rightarrow> decimal" where
  "stored_decimal x =
     of_int (if 0 \<le> x then \<lfloor>x * 10 ^ 8 + 1 / 2\<rfloor> else - \<lfloor>1 / 2 - x * 10 ^ 8\<rfloor>) / 10 ^ 8"

section \<open>What is left of an option\<close>

definition uses_cap :: "stake_option \<Rightarrow> stake_request \<Rightarrow> bool" where
  "uses_cap o' r \<longleftrightarrow> sr_option r = so_id o' \<and> sr_status r \<in> {ST_PROCESS, ST_PENDING, ST_DONE}"

definition uses_limit :: "stake_option \<Rightarrow> account \<Rightarrow> stake_request \<Rightarrow> bool" where
  "uses_limit o' a r \<longleftrightarrow> sr_option r = so_id o' \<and> acc_id (sr_account r) = acc_id a
     \<and> sr_status r \<notin> {CANCEL_COMPLETE, ST_FINISHED}"

definition get_free_cap_amount :: "('z) stake_db_scheme \<Rightarrow> stake_option \<Rightarrow> decimal" where
  "get_free_cap_amount s o' = total_cap o' - sum_of sr_amount (filter (uses_cap o') (stake_requests s))"

definition get_filled_cap_percent :: "('z) stake_db_scheme \<Rightarrow> stake_option \<Rightarrow> decimal result" where
  "get_filled_cap_percent s o' =
     bindE (divide_by (get_free_cap_amount s o') (total_cap o')) (\<lambda>free. Inr ((1 - free) * 100))"

definition get_free_amount_per_user :: "('z) stake_db_scheme \<Rightarrow> stake_option \<Rightarrow> account \<Rightarrow> decimal" where
  "get_free_amount_per_user s o' a =
     max (min (user_max_amount o' - sum_of sr_amount (filter (uses_limit o' a) (stake_requests s)))
              (get_free_cap_amount s o')) 0"

definition stake_option_clean :: "stake_option \<Rightarrow> unit result" where
  "stake_option_clean o' =
     bindE (guardE ValidationErr (\<not> user_max_amount o' < user_min_amount o')) (\<lambda>_.
     guardE ValidationErr (\<not> user_min_amount o' < so_fee o'))"

section \<open>Changing the status of a request\<close>

definition locked_revenue :: "('z) stake_db_scheme \<Rightarrow> stake_request \<Rightarrow> decimal" where
  "locked_revenue s r =
     sum_of rv_revenue (filter (\<lambda>v. rv_request v = sr_id r \<and> rv_source v = STAKE) (stake_revenues s))"

definition get_locked_amount ::
  "('z) stake_db_scheme \<Rightarrow> stake_option \<Rightarrow> stake_request \<Rightarrow> decimal \<times> ('z) stake_db_scheme" where
  "get_locked_amount s o' r =
     (let (w, s') = get_wallet s (so_asset o') (sr_account r) STAKE None None
      in (min (sr_amount r + locked_revenue s r) (balance w), s'))"

definition valid_change_status :: "(stake_status \<times> stake_status) list" where
  "valid_change_status =
     [(ST_PROCESS, ST_PENDING), (ST_PROCESS, ST_DONE), (ST_PROCESS, CANCEL_COMPLETE),
      (ST_PENDING, ST_DONE), (ST_PENDING, CANCEL_PROCESS),
      (ST_DONE, CANCEL_PROCESS),
      (ST_PROCESS, CANCEL_PENDING), (ST_PENDING, CANCEL_PENDING), (CANCEL_PROCESS, CANCEL_PENDING),
      (ST_DONE, CANCEL_COMPLETE), (CANCEL_PENDING, CANCEL_COMPLETE), (CANCEL_PROCESS, CANCEL_COMPLETE),
      (ST_DONE, ST_FINISHED)]"

text \<open>\<^verbatim>\<open>updating_datetime_field_mapping\<close>\<close>

definition stamp :: "int \<Rightarrow> stake_status \<Rightarrow> stake_request \<Rightarrow> stake_request" where
  "stamp now new_status r =
     (case new_status of
        CANCEL_PROCESS \<Rightarrow> r\<lparr>cancel_request_at := Some now\<rparr>
      | CANCEL_PENDING \<Rightarrow> r\<lparr>cancel_pending_at := Some now\<rparr>
      | CANCEL_COMPLETE \<Rightarrow> r\<lparr>end_at := Some now\<rparr>
      | ST_DONE \<Rightarrow> r\<lparr>start_at := Some now\<rparr>
      | ST_FINISHED \<Rightarrow> r\<lparr>end_at := Some now\<rparr>
      | _ \<Rightarrow> r)"

definition save_request :: "('z) stake_db_scheme \<Rightarrow> stake_request \<Rightarrow> ('z) stake_db_scheme" where
  "save_request s r = s\<lparr>stake_requests := map (\<lambda>q. if sr_id q = sr_id r then r else q) (stake_requests s)\<rparr>"

definition give_back_body ::
  "stake_option \<Rightarrow> stake_request \<Rightarrow> stake_status \<Rightarrow> decimal \<Rightarrow> wallet \<Rightarrow> wallet \<Rightarrow> wallet
     \<Rightarrow> ('z) stake_db_scheme \<Rightarrow> pipeline \<Rightarrow> (unit \<times> ('z) stake_db_scheme \<times> pipeline) result" where
  "give_back_body o' r new_status fee spot_wallet stake_wallet system_stake_wallet s p =
     (let (amount, s) = get_locked_amount s o' r in
      bindE (if 0 < fee
             then bindE (post p stake_wallet system_stake_wallet fee SC_STAKE_FEE (sr_group r)) (\<lambda>p.
                  Inr (amount - fee, p))
             else Inr (amount, p)) (\<lambda>(amount, p).
      bindE (post p stake_wallet spot_wallet amount SC_STAKE (sr_group r)) (\<lambda>p.
      Inr ((), save_request s (r\<lparr>sr_status := new_status\<rparr>), p))))"

definition fee_of_cancel :: "stake_option \<Rightarrow> stake_status \<Rightarrow> decimal" where
  "fee_of_cancel o' old_status = (if old_status \<noteq> ST_PROCESS \<and> 0 < so_fee o' then so_fee o' else 0)"

definition cancel_complete ::
  "stake_option \<Rightarrow> stake_request \<Rightarrow> stake_status \<Rightarrow> ('z) stake_db_scheme \<Rightarrow> ('z) stake_db_scheme result" where
  "cancel_complete o' r old_status s =
     (let (spot_wallet, s) = get_wallet s (so_asset o') (sr_account r) SPOT None None;
          (stake_wallet, s) = get_wallet s (so_asset o') (sr_account r) STAKE None None in
      bindE (system_account s) (\<lambda>system.
      let (system_stake_wallet, s) = get_wallet s (so_asset o') system STAKE None None in
      bindE (with_pipeline (give_back_body o' r CANCEL_COMPLETE (fee_of_cancel o' old_status)
               spot_wallet stake_wallet system_stake_wallet) s) (\<lambda>(_, s).
      Inr s)))"

definition finish ::
  "stake_option \<Rightarrow> stake_request \<Rightarrow> ('z) stake_db_scheme \<Rightarrow> ('z) stake_db_scheme result" where
  "finish o' r s =
     (let (spot_wallet, s) = get_wallet s (so_asset o') (sr_account r) SPOT None None;
          (stake_wallet, s) = get_wallet s (so_asset o') (sr_account r) STAKE None None in
      bindE (with_pipeline (give_back_body o' r ST_FINISHED 0 spot_wallet stake_wallet stake_wallet) s) (\<lambda>(_, s).
      Inr s))"

definition change_status ::
  "int \<Rightarrow> stake_request \<Rightarrow> stake_status \<Rightarrow> ('z) stake_db_scheme \<Rightarrow> ('z) stake_db_scheme result" where
  "change_status now self new_status s =
     (let old_status = sr_status self in
      bindE (option_row s (sr_option self)) (\<lambda>o'.
      bindE (assertE ((old_status, new_status) \<in> set valid_change_status)) (\<lambda>_.
      let self = stamp now new_status self in
      if new_status = CANCEL_COMPLETE \<and> old_status \<in> {ST_PROCESS, CANCEL_PROCESS, CANCEL_PENDING, ST_DONE}
      then cancel_complete o' self old_status s
      else if (old_status, new_status) = (ST_DONE, ST_FINISHED) then finish o' self s
      else Inr (save_request s (self\<lparr>sr_status := new_status\<rparr>)))))"

section \<open>Requests of a user\<close>

definition validate_stake ::
  "nat \<Rightarrow> account \<Rightarrow> decimal \<Rightarrow> ('z) stake_db_scheme \<Rightarrow> (stake_option \<times> decimal \<times> ('z) stake_db_scheme) result" where
  "validate_stake option_id account amount s =
     bindE (option_row s option_id) (\<lambda>o'.
     let amount = floor_precision amount (so_precision o');
         (wallet, s) = get_wallet s (so_asset o') account SPOT None None in
     bindE (guardE ValidationErr (\<not> amount \<le> 0)) (\<lambda>_.
     bindE (guardE ValidationErr (so_enable o')) (\<lambda>_.
     bindE (guardE ValidationErr (\<not> get_free_cap_amount s o' < amount)) (\<lambda>_.
     bindE (guardE ValidationErr (user_min_amount o' \<le> amount \<and> amount \<le> user_max_amount o')) (\<lambda>_.
     bindE (guardE ValidationErr (\<not> get_free_amount_per_user s o' account < amount)) (\<lambda>_.
     bindE (has_balance wallet amount False False 0) (\<lambda>can.
     bindE (guardE ValidationErr can) (\<lambda>_.
     Inr (o', amount, s)))))))))"

definition create_stake_body ::
  "int \<Rightarrow> stake_option \<Rightarrow> decimal \<Rightarrow> account \<Rightarrow> wallet \<Rightarrow> wallet \<Rightarrow> ('z) stake_db_scheme \<Rightarrow> pipeline
     \<Rightarrow> (stake_request \<times> ('z) stake_db_scheme \<times> pipeline) result" where
  "create_stake_body now o' amount account spot_wallet stake_wallet s p =
     (let r = \<lparr>sr_id = fresh_id (map sr_id (stake_requests s)), sr_status = ST_PROCESS, sr_option = so_id o',
               sr_amount = amount, sr_group = stake_uuids s, sr_account = account, sr_created = now,
               start_at = None, cancel_request_at = None, cancel_pending_at = None, end_at = None\<rparr>;
          s = s\<lparr>stake_requests := stake_requests s @ [r], stake_uuids := Suc (stake_uuids s)\<rparr> in
      bindE (post p spot_wallet stake_wallet amount SC_STAKE (sr_group r)) (\<lambda>p.
      Inr (r, s, p)))"

definition create_stake ::
  "int \<Rightarrow> stake_option \<Rightarrow> decimal \<Rightarrow> account \<Rightarrow> ('z) stake_db_scheme
     \<Rightarrow> (stake_request \<times> ('z) stake_db_scheme) result" where
  "create_stake now o' amount account s =
     (let (spot_wallet, s) = get_wallet s (so_asset o') account SPOT None None;
          (stake_wallet, s) = get_wallet s (so_asset o') account STAKE None None
      in with_pipeline (create_stake_body now o' amount account spot_wallet stake_wallet) s)"

definition stake_request_view ::
  "int \<Rightarrow> nat \<Rightarrow> account \<Rightarrow> decimal \<Rightarrow> ('z) stake_db_scheme \<Rightarrow> (stake_request \<times> ('z) stake_db_scheme) result" where
  "stake_request_view now option_id account amount s =
     bindE (validate_stake option_id account amount s) (\<lambda>(o', amount, s).
     create_stake now o' amount account s)"

definition destroy_view ::
  "int \<Rightarrow> nat \<Rightarrow> account \<Rightarrow> ('z) stake_db_scheme \<Rightarrow> ('z) stake_db_scheme result" where
  "destroy_view now pk account s =
     bindE (the_or NotFound (List.find (\<lambda>r. sr_id r = pk \<and> acc_id (sr_account r) = acc_id account) (stake_requests s))) (\<lambda>r.
     if sr_status r = ST_PROCESS then change_status now r CANCEL_COMPLETE s
     else if sr_status r \<in> {ST_PENDING, ST_DONE} then change_status now r CANCEL_PROCESS s
     else Inr s)"

section \<open>Tasks\<close>

definition after :: "int \<Rightarrow> int option \<Rightarrow> bool" where
  "after now t \<longleftrightarrow> (case t of None \<Rightarrow> True | Some t \<Rightarrow> now < t)"

definition earning_requests :: "int option \<Rightarrow> ('z) stake_db_scheme \<Rightarrow> stake_request list" where
  "earning_requests given s =
     (case given of
        Some now \<Rightarrow> filter (\<lambda>r. after now (end_at r) \<and> after now (cancel_request_at r) \<and> after now (cancel_pending_at r)
                       \<and> (case start_at r of Some t \<Rightarrow> t \<le> now | None \<Rightarrow> False)) (stake_requests s)
      | None \<Rightarrow> filter (\<lambda>r. sr_status r = ST_DONE) (stake_requests s))"

definition revenue_body ::
  "int \<Rightarrow> account \<Rightarrow> stake_option \<Rightarrow> stake_request \<Rightarrow> ('z) stake_db_scheme \<Rightarrow> pipeline
     \<Rightarrow> (unit \<times> ('z) stake_db_scheme \<times> pipeline) result" where
  "revenue_body day system o' r s p =
     (let revenue = sr_amount r * so_apr o' / 100 / 365;
          v = \<lparr>rv_created = day, rv_request = sr_id r, rv_group = stake_uuids s,
               rv_revenue = stored_decimal revenue, rv_source = STAKE\<rparr> in
      bindE (guardE IntegrityError
        (\<forall>u\<in>set (stake_revenues s). \<not> (rv_created u = day \<and> rv_request u = sr_id r))) (\<lambda>_.
      let s = s\<lparr>stake_revenues := stake_revenues s @ [v], stake_uuids := Suc (stake_uuids s)\<rparr>;
          (from_wallet, s) = get_wallet s (so_asset o') system STAKE None None;
          (to_wallet, s) = get_wallet s (so_asset o') (sr_account r) STAKE None None in
      bindE (post p from_wallet to_wallet revenue SC_STAKE_REVENUE (rv_group v)) (\<lambda>p. Inr ((), s, p))))"

definition pay_revenue ::
  "int \<Rightarrow> account \<Rightarrow> ('z) stake_db_scheme \<Rightarrow> stake_request \<Rightarrow> ('z) stake_db_scheme result" where
  "pay_revenue day system s r =
     bindE (option_row s (sr_option r)) (\<lambda>o'.
     case with_pipeline (revenue_body day system o' r) s of
       Inr (_, s') \<Rightarrow> Inr s'
     | Inl e \<Rightarrow> if e = IntegrityError then Inr s else Inl e)"

definition create_stake_revenue ::
  "(int \<Rightarrow> int) \<Rightarrow> int \<Rightarrow> int option \<Rightarrow> ('z) stake_db_scheme \<Rightarrow> ('z) stake_db_scheme \<times> py_error option" where
  "create_stake_revenue day_of clock given s =
     (let now = (case given of Some t \<Rightarrow> t | None \<Rightarrow> clock) in
      case system_account s of
        Inl e \<Rightarrow> (s, Some e)
      | Inr system \<Rightarrow> run_each (pay_revenue (day_of now) system) s (earning_requests given s))"

definition change_all ::
  "int \<Rightarrow> stake_status \<Rightarrow> (stake_request \<Rightarrow> bool) \<Rightarrow> ('z) stake_db_scheme \<times> py_error option
     \<Rightarrow> ('z) stake_db_scheme \<times> py_error option" where
  "change_all now new_status due se =
     (case se of (s, Some e) \<Rightarrow> (s, Some e)
      | (s, None) \<Rightarrow> run_each (\<lambda>s r. change_status now r new_status s) s (filter due (stake_requests s)))"

definition handle_stake_requests_status ::
  "int \<Rightarrow> ('z) stake_db_scheme \<Rightarrow> ('z) stake_db_scheme \<times> py_error option" where
  "handle_stake_requests_status now s =
     (let days = (\<lambda>n. n * 86400 :: int);
          se = change_all now ST_DONE (\<lambda>r. sr_status r = ST_PROCESS \<and> sr_created r \<le> now - days 3 + 3600) (s, None);
          se = change_all now ST_FINISHED (\<lambda>r. sr_status r = ST_DONE \<and> sr_created r \<le> now - days 90) se
      in change_all now CANCEL_COMPLETE (\<lambda>r. sr_status r = CANCEL_PROCESS
           \<and> (case cancel_request_at r of Some t \<Rightarrow> t \<le> now - days 3 + 3600 | None \<Rightarrow> False)) se)"

section \<open>The blocks keep the ledger\<close>

lemma stake_cong [simp]:
  "block_ok (s\<lparr>stake_requests := r\<rparr>) p = block_ok s p" "known (s\<lparr>stake_requests := r\<rparr>) w = known s w"
  "ledger_ok (s\<lparr>stake_requests := r\<rparr>) = ledger_ok s"
  "block_ok (s\<lparr>stake_requests := r, stake_uuids := u\<rparr>) p = block_ok s p"
  "known (s\<lparr>stake_requests := r, stake_uuids := u\<rparr>) w = known s w"
  "block_ok (s\<lparr>stake_revenues := v, stake_uuids := u\<rparr>) p = block_ok s p"
  "block_ok (save_request s q) p = block_ok s p" "ledger_ok (save_request s q) = ledger_ok s"
  by (rule base_cong; simp add: save_request_def)+

lemma stake_tables:
  assumes "ledger.more s' = ledger.more s"
  shows "stake_requests s' = stake_requests s" and "stake_options s' = stake_options s"
    and "stake_revenues s' = stake_revenues s" and "stake_uuids s' = stake_uuids s"
  using assms by (cases s, cases s', simp)+

lemma get_wallet_stake:
  assumes "get_wallet s asset a m v e = (w, s')"
  shows "stake_requests s' = stake_requests s" and "stake_options s' = stake_options s"
    and "stake_revenues s' = stake_revenues s" and "stake_uuids s' = stake_uuids s"
  using stake_tables [OF get_wallet_more [OF assms]] by blast+

lemma execute_stake:
  assumes "execute s p = Inr s'"
  shows "stake_requests s' = stake_requests s" and "stake_options s' = stake_options s"
    and "stake_revenues s' = stake_revenues s" and "stake_uuids s' = stake_uuids s"
  using stake_tables execute_more [OF assms] by blast+

lemma give_back_steps:
  assumes "give_back_body o' r n fee a b c s p = Inr (u, s', p')"
  obtains w t q where "get_wallet s (so_asset o') (sr_account r) STAKE None None = (w, t)"
    and "if 0 < fee then post p b c fee SC_STAKE_FEE (sr_group r) = Inr q else q = p"
    and "post q b a (min (sr_amount r + locked_revenue s r) (balance w) - max 0 fee) SC_STAKE (sr_group r) = Inr p'"
    and "s' = save_request t (r\<lparr>sr_status := n\<rparr>)"
  using assms
  by (auto simp: give_back_body_def get_locked_amount_def result_simps Let_def split: prod.splits if_splits intro: that)

lemma give_back_keeps:
  assumes "give_back_body o' r n fee a b c s p = Inr (u, s', p')" and "block_ok s p"
    and "known s a \<and> known s b \<and> known s c"
  shows "block_ok s' p'"
proof -
  from assms(1) obtain w t q where g: "get_wallet s (so_asset o') (sr_account r) STAKE None None = (w, t)"
    and q: "if 0 < fee then post p b c fee SC_STAKE_FEE (sr_group r) = Inr q else q = p"
    and p': "post q b a (min (sr_amount r + locked_revenue s r) (balance w) - max 0 fee) SC_STAKE (sr_group r) = Inr p'"
    and s': "s' = save_request t (r\<lparr>sr_status := n\<rparr>)"
    by (rule give_back_steps)
  note inv = get_wallet_inv [OF g assms(2)]
  from inv q assms(3) have "block_ok t q" by (auto intro: post_inv split: if_splits)
  with inv p' s' assms(3) show ?thesis by (auto intro: post_inv)
qed

interpretation give_back: ledger_block "\<lambda>s. known s a \<and> known s b \<and> known s c" "give_back_body o' r n fee a b c"
  for o' r n fee a b c
  by unfold_locales (rule give_back_keeps)

interpretation new_stake: ledger_block "\<lambda>s. known s a \<and> known s b" "create_stake_body now o' x account a b"
  for now o' x account a b
  by unfold_locales (auto simp: create_stake_body_def result_simps Let_def intro: post_inv)

lemma revenue_keeps:
  assumes "revenue_body day system o' r s p = Inr (u, s', p')" and "block_ok s p"
  shows "block_ok s' p'"
proof -
  from assms(1) obtain v n a b t x g where
    a: "get_wallet (s\<lparr>stake_revenues := v, stake_uuids := n\<rparr>) (so_asset o') system STAKE None None = (a, t)"
    and b: "get_wallet t (so_asset o') (sr_account r) STAKE None None = (b, s')"
    and p: "post p a b x SC_STAKE_REVENUE g = Inr p'"
    by (auto simp: revenue_body_def result_simps Let_def split: prod.splits)
  have t: "block_ok t p" "known t a" using get_wallet_inv [OF a] assms(2) by simp_all
  from get_wallet_inv [OF b t(1)] t(2) p show ?thesis by (blast intro: post_inv)
qed

interpretation revenue: ledger_block "\<lambda>_. True" "revenue_body day system o' r" for day system o' r
  by unfold_locales (rule revenue_keeps)

section \<open>What a change of status does to the table\<close>

lemma give_back_requests:
  assumes "with_pipeline (give_back_body o' r n fee a b c) s = Inr (u, s')"
  shows "stake_requests s' = map (\<lambda>q. if sr_id q = sr_id r then r\<lparr>sr_status := n\<rparr> else q) (stake_requests s)"
    and "stake_options s' = stake_options s"
proof -
  from assms obtain t p where b: "give_back_body o' r n fee a b c s new_pipeline = Inr (u, t, p)" and e: "execute t p = Inr s'"
    by (auto simp: with_pipeline_def result_simps)
  from b obtain w t' where g: "get_wallet s (so_asset o') (sr_account r) STAKE None None = (w, t')"
    and t: "t = save_request t' (r\<lparr>sr_status := n\<rparr>)" by (rule give_back_steps)
  from get_wallet_stake [OF g] execute_stake [OF e] t
  show "stake_requests s' = map (\<lambda>q. if sr_id q = sr_id r then r\<lparr>sr_status := n\<rparr> else q) (stake_requests s)"
    "stake_options s' = stake_options s" by (simp_all add: save_request_def)
qed

lemma stamp_id [simp]:
  "sr_id (stamp t n r) = sr_id r" "sr_amount (stamp t n r) = sr_amount r" "sr_option (stamp t n r) = sr_option r"
  "sr_account (stamp t n r) = sr_account r" "sr_group (stamp t n r) = sr_group r" "sr_status (stamp t n r) = sr_status r"
  by (simp_all add: stamp_def split: stake_status.split)

lemma change_status_table:
  assumes "change_status now r n s = Inr s'" and "ledger_ok s"
  shows "(sr_status r, n) \<in> set valid_change_status" and "ledger_ok s'" and "stake_options s' = stake_options s"
    and "stake_requests s' = map (\<lambda>q. if sr_id q = sr_id r then (stamp now n r)\<lparr>sr_status := n\<rparr> else q) (stake_requests s)"
proof -
  let ?r = "stamp now n r"
  let ?f = "\<lambda>q. if sr_id q = sr_id r then ?r\<lparr>sr_status := n\<rparr> else q"
  from assms(1) obtain o' where o': "option_row s (sr_option r) = Inr o'"
    and v: "(sr_status r, n) \<in> set valid_change_status"
    by (auto simp: change_status_def result_simps Let_def)
  from assms(1) o' v consider
      "n = CANCEL_COMPLETE" "cancel_complete o' ?r (sr_status r) s = Inr s'"
    | "n = ST_FINISHED" "finish o' ?r s = Inr s'"
    | "s' = save_request s (?r\<lparr>sr_status := n\<rparr>)"
    by (auto simp: change_status_def result_simps Let_def split: if_splits)
  then have "ledger_ok s' \<and> stake_options s' = stake_options s \<and> stake_requests s' = map ?f (stake_requests s)"
  proof cases
    case 1
    then obtain a b c s1 s2 s3 system u where
      a: "get_wallet s (so_asset o') (sr_account ?r) SPOT None None = (a, s1)"
      and b: "get_wallet s1 (so_asset o') (sr_account ?r) STAKE None None = (b, s2)"
      and c: "get_wallet s2 (so_asset o') system STAKE None None = (c, s3)"
      and w: "with_pipeline (give_back_body o' ?r CANCEL_COMPLETE (fee_of_cancel o' (sr_status r)) a b c) s3 = Inr (u, s')"
      by (auto simp: cancel_complete_def result_simps Let_def split: prod.splits)
    note ok1 = get_wallet_ok [OF a assms(2)]
    note ok2 = get_wallet_ok [OF b ok1(1)]
    note ok3 = get_wallet_ok [OF c ok2(1)]
    have k: "known s3 a \<and> known s3 b \<and> known s3 c" using ok1(2) ok2(2,3) ok3(2,3) by blast
    from give_back.run_ok [OF w ok3(1) k] give_back_requests [OF w] 1(1)
      get_wallet_stake [OF a] get_wallet_stake [OF b] get_wallet_stake [OF c]
    show ?thesis by simp
  next
    case 2
    then obtain a b s1 s2 u where
      a: "get_wallet s (so_asset o') (sr_account ?r) SPOT None None = (a, s1)"
      and b: "get_wallet s1 (so_asset o') (sr_account ?r) STAKE None None = (b, s2)"
      and w: "with_pipeline (give_back_body o' ?r ST_FINISHED 0 a b b) s2 = Inr (u, s')"
      by (auto simp: finish_def result_simps Let_def split: prod.splits)
    note ok1 = get_wallet_ok [OF a assms(2)]
    note ok2 = get_wallet_ok [OF b ok1(1)]
    have k: "known s2 a \<and> known s2 b \<and> known s2 b" using ok1(2) ok2(2,3) by blast
    from give_back.run_ok [OF w ok2(1) k] give_back_requests [OF w] 2(1)
      get_wallet_stake [OF a] get_wallet_stake [OF b]
    show ?thesis by simp
  next
    case 3
    with assms(2) show ?thesis by (simp add: save_request_def)
  qed
  with v show "(sr_status r, n) \<in> set valid_change_status" "ledger_ok s'" "stake_options s' = stake_options s"
    "stake_requests s' = map ?f (stake_requests s)" by blast+
qed

end
