(* ===== verification/Stake_Properties.thy ===== *)
theory Stake_Properties
  imports Stake Samples
begin

text \<open>
  What staking promises: caps and limits are kept as long as a request is checked and created in
  one go, a closed request stays closed, and canceling gives back exactly what was locked. The
  code checks and creates without a lock in between; \<open>cap_overrun\<close> shows what two requests at
  once can do.
\<close>

section \<open>Caps\<close>

definition within_limits :: "('z) stake_db_scheme \<Rightarrow> stake_option \<Rightarrow> bool" where
  "within_limits s o' \<longleftrightarrow> 0 \<le> get_free_cap_amount s o'
     \<and> (\<forall>a. sum_of sr_amount (filter (uses_limit o' a) (stake_requests s)) \<le> user_max_amount o')"

definition stakes_ok :: "('z) stake_db_scheme \<Rightarrow> bool" where
  "stakes_ok s \<longleftrightarrow> ledger_ok s \<and> distinct (map sr_id (stake_requests s)) \<and> distinct (map so_id (stake_options s))
     \<and> (\<forall>r\<in>set (stake_requests s). 0 \<le> sr_amount r) \<and> (\<forall>o'\<in>set (stake_options s). within_limits s o')"

lemma sum_filter_map_le:
  assumes "\<And>x. x \<in> set xs \<Longrightarrow> 0 \<le> f x \<and> f (g x) = f x \<and> (P (g x) \<longrightarrow> P x)"
  shows "sum_of f (filter P (map g xs)) \<le> sum_of f (filter P xs)"
  using assms
proof (induction xs)
  case (Cons x xs)
  have "sum_of f (filter P (map g xs)) \<le> sum_of f (filter P xs)" using Cons by simp
  moreover have "0 \<le> f x" "f (g x) = f x" "P (g x) \<longrightarrow> P x" using Cons.prems [of x] by simp_all
  ultimately show ?case by auto
qed simp

lemma transition_keeps_use:
  assumes "(old, new) \<in> set valid_change_status"
  shows "new \<in> {ST_PROCESS, ST_PENDING, ST_DONE} \<Longrightarrow> old \<in> {ST_PROCESS, ST_PENDING, ST_DONE}"
    and "old \<notin> {CANCEL_COMPLETE, ST_FINISHED}"
  using assms by (auto simp: valid_change_status_def)

lemma change_status_ok:
  assumes "change_status tm r n s = Inr s'" and "stakes_ok s" and "r \<in> set (stake_requests s)"
  shows "stakes_ok s'" and "stake_options s' = stake_options s"
    and "q \<in> set (stake_requests s) \<Longrightarrow> sr_id q \<noteq> sr_id r \<Longrightarrow> q \<in> set (stake_requests s')"
proof -
  let ?f = "\<lambda>q. if sr_id q = sr_id r then (stamp tm n r)\<lparr>sr_status := n\<rparr> else q"
  from assms(2) have ok: "ledger_ok s" "distinct (map sr_id (stake_requests s))" "distinct (map so_id (stake_options s))"
    "\<forall>r\<in>set (stake_requests s). 0 \<le> sr_amount r" "\<forall>o'\<in>set (stake_options s). within_limits s o'"
    by (simp_all add: stakes_ok_def)
  note t = change_status_table [OF assms(1) ok(1)]
  have ids: "map sr_id (map ?f xs) = map sr_id xs" for xs by (induction xs) auto
  have same: "q = r" if "q \<in> set (stake_requests s)" "sr_id q = sr_id r" for q
    using ok(2) assms(3) that by (meson eq_key_imp_eq_value inj_onD distinct_map)
  have cap: "sum_of sr_amount (filter (uses_cap o') (stake_requests s')) \<le> sum_of sr_amount (filter (uses_cap o') (stake_requests s))" for o'
    unfolding t(4) by (rule sum_filter_map_le)
      (use same ok(4) transition_keeps_use(1) [OF t(1)] in \<open>auto simp: uses_cap_def\<close>)
  have lim: "sum_of sr_amount (filter (uses_limit o' a) (stake_requests s')) \<le> sum_of sr_amount (filter (uses_limit o' a) (stake_requests s))" for o' a
    unfolding t(4) by (rule sum_filter_map_le)
      (use same ok(4) transition_keeps_use(2) [OF t(1)] in \<open>auto simp: uses_limit_def\<close>)
  have "within_limits s' o'" if "o' \<in> set (stake_options s)" for o'
  proof -
    have w: "within_limits s o'" using ok(5) that by blast
    show ?thesis unfolding within_limits_def
    proof (intro conjI allI)
      show "0 \<le> get_free_cap_amount s' o'" using w cap [of o'] by (simp add: within_limits_def get_free_cap_amount_def)
      show "sum_of sr_amount (filter (uses_limit o' a) (stake_requests s')) \<le> user_max_amount o'" for a
        using w lim [of o' a] by (auto simp: within_limits_def intro: order_trans)
    qed
  qed
  moreover have "\<forall>q\<in>set (stake_requests s'). 0 \<le> sr_amount q" using ok(4) assms(3) by (auto simp: t(4))
  moreover have "map sr_id (stake_requests s') = map sr_id (stake_requests s)" by (simp only: t(4) ids)
  ultimately show "stakes_ok s'" using t(2,3) ok(2,3) by (simp add: stakes_ok_def)
  show "stake_options s' = stake_options s" by (rule t(3))
  show "q \<in> set (stake_requests s')" if "q \<in> set (stake_requests s)" "sr_id q \<noteq> sr_id r"
    using that by (auto simp: t(4))
qed

lemma stakes_ok_cong:
  assumes "stake_requests s' = stake_requests s" and "stake_options s' = stake_options s" and "ledger_ok s'"
  shows "stakes_ok s \<Longrightarrow> stakes_ok s'" and "get_free_cap_amount s' = get_free_cap_amount s"
    and "get_free_amount_per_user s' = get_free_amount_per_user s"
proof -
  show c: "get_free_cap_amount s' = get_free_cap_amount s" by (rule ext) (simp add: get_free_cap_amount_def assms)
  show "get_free_amount_per_user s' = get_free_amount_per_user s"
    by (intro ext) (simp add: get_free_amount_per_user_def assms c)
  show "stakes_ok s \<Longrightarrow> stakes_ok s'" using assms c by (simp add: stakes_ok_def within_limits_def)
qed

lemma create_stake_table:
  assumes "create_stake tm o' amount account s = Inr (r, s')" and "ledger_ok s"
  shows "stake_requests s' = stake_requests s @ [r]" and "stake_options s' = stake_options s" and "ledger_ok s'"
    and "sr_id r = fresh_id (map sr_id (stake_requests s))" and "sr_option r = so_id o'" and "sr_amount r = amount"
    and "sr_account r = account"
proof -
  from assms(1) obtain a b s1 s2 where
    a: "get_wallet s (so_asset o') account SPOT None None = (a, s1)"
    and b: "get_wallet s1 (so_asset o') account STAKE None None = (b, s2)"
    and w: "with_pipeline (create_stake_body tm o' amount account a b) s2 = Inr (r, s')"
    by (auto simp: create_stake_def Let_def split: prod.splits)
  note ok1 = get_wallet_ok [OF a assms(2)]
  note ok2 = get_wallet_ok [OF b ok1(1)]
  have k: "known s2 a \<and> known s2 b" using ok1(2) ok2(2,3) by blast
  show "ledger_ok s'" by (rule new_stake.run_ok [OF w ok2(1) k])
  from w obtain t p where c: "create_stake_body tm o' amount account a b s2 new_pipeline = Inr (r, t, p)" and e: "execute t p = Inr s'"
    by (auto simp: with_pipeline_def result_simps)
  with execute_stake [OF e] get_wallet_stake [OF a] get_wallet_stake [OF b]
  show "stake_requests s' = stake_requests s @ [r]" "stake_options s' = stake_options s"
    "sr_id r = fresh_id (map sr_id (stake_requests s))" "sr_option r = so_id o'" "sr_amount r = amount"
    "sr_account r = account"
    by (auto simp: create_stake_body_def result_simps Let_def)
qed

lemma validate_stake_steps:
  assumes "validate_stake i account amount s = Inr (o', x, t)" and "ledger_ok s"
  shows "o' \<in> set (stake_options s)" and "0 < x" and "x \<le> get_free_cap_amount s o'"
    and "x \<le> get_free_amount_per_user s o' account"
    and "stake_requests t = stake_requests s" and "stake_options t = stake_options s" and "ledger_ok t"
proof -
  from assms(1) obtain w where o': "option_row s i = Inr o'"
    and g: "get_wallet s (so_asset o') account SPOT None None = (w, t)"
    and x: "0 < x" "x \<le> get_free_cap_amount t o'" "x \<le> get_free_amount_per_user t o' account"
    by (auto simp: validate_stake_def result_simps Let_def not_less split: prod.splits)
  show "ledger_ok t" by (rule get_wallet_ok(1) [OF g assms(2)])
  note c = stakes_ok_cong(2,3) [OF get_wallet_stake(1,2) [OF g] this]
  show "stake_requests t = stake_requests s" "stake_options t = stake_options s" using get_wallet_stake [OF g] by blast+
  show "0 < x" "x \<le> get_free_cap_amount s o'" "x \<le> get_free_amount_per_user s o' account" using x by (simp_all add: c)
  show "o' \<in> set (stake_options s)" using o' by (auto simp: option_row_def result_simps dest: find_SomeD)
qed

lemma stake_request_ok:
  assumes "stake_request_view tm i account amount s = Inr (r, s')" and "stakes_ok s"
  shows "stakes_ok s'"
proof -
  from assms(2) have ok: "ledger_ok s" "distinct (map sr_id (stake_requests s))" "distinct (map so_id (stake_options s))"
    "\<forall>r\<in>set (stake_requests s). 0 \<le> sr_amount r" "\<forall>o'\<in>set (stake_options s). within_limits s o'"
    by (simp_all add: stakes_ok_def)
  from assms(1) obtain o' x t where v: "validate_stake i account amount s = Inr (o', x, t)"
    and c: "create_stake tm o' x account t = Inr (r, s')" by (auto simp: stake_request_view_def result_simps)
  note v = validate_stake_steps [OF v ok(1)]
  note c = create_stake_table [OF c v(7), unfolded v(5,6)]
  have only: "q = o'" if "q \<in> set (stake_options s)" "so_id q = so_id o'" for q
    using ok(3) v(1) that by (meson inj_onD distinct_map)
  have "within_limits s' q" if q: "q \<in> set (stake_options s)" for q
  proof (cases "q = o'")
    case True
    have w: "within_limits s o'" using ok(5) v(1) by blast
    have p: "x \<le> user_max_amount o' - sum_of sr_amount (filter (uses_limit o' account) (stake_requests s))"
      using v(2,4) by (simp add: get_free_amount_per_user_def max_def split: if_splits)
    show ?thesis unfolding within_limits_def True
    proof (intro conjI allI)
      show "0 \<le> get_free_cap_amount s' o'" using v(2,3) w c(1,5,6) by (simp add: get_free_cap_amount_def within_limits_def)
      show "sum_of sr_amount (filter (uses_limit o' a) (stake_requests s')) \<le> user_max_amount o'" for a
      proof (cases "acc_id a = acc_id account")
        case True
        then have "uses_limit o' a = uses_limit o' account" by (intro ext) (simp add: uses_limit_def)
        with p c(1,6) v(2) w show ?thesis by (simp add: within_limits_def)
      next
        case False
        then have "\<not> uses_limit o' a r" by (simp add: uses_limit_def c(7))
        with w c(1) show ?thesis by (simp add: within_limits_def)
      qed
    qed
  next
    case False
    then have "so_id q \<noteq> so_id o'" using only q by blast
    then have "\<not> uses_cap q r" "\<not> uses_limit q a r" for a by (simp_all add: uses_cap_def uses_limit_def c(5))
    moreover have "within_limits s q" using ok(5) q by blast
    ultimately show ?thesis by (simp add: within_limits_def get_free_cap_amount_def c(1))
  qed
  with c ok v(2) fresh_id_notin [of "map sr_id (stake_requests s)"] show ?thesis by (simp add: stakes_ok_def)
qed

section \<open>Steps\<close>

lemma pay_revenue_ok:
  assumes "pay_revenue day system s r = Inr s'" and "stakes_ok s"
  shows "stakes_ok s'" and "stake_options s' = stake_options s"
proof -
  from assms(1) obtain o' where
    "(case with_pipeline (revenue_body day system o' r) s of
        Inr (_, s') \<Rightarrow> Inr s' | Inl e \<Rightarrow> if e = IntegrityError then Inr s else Inl e) = Inr s'"
    by (auto simp: pay_revenue_def result_simps)
  then consider "s' = s" | u where "with_pipeline (revenue_body day system o' r) s = Inr (u, s')"
    by (cases "with_pipeline (revenue_body day system o' r) s") (auto split: if_splits)
  then have "stakes_ok s' \<and> stake_options s' = stake_options s"
  proof cases
    case 2
    have ok: "ledger_ok s'" by (rule revenue.run_ok [OF 2]) (use assms(2) in \<open>simp_all add: stakes_ok_def\<close>)
    from 2 obtain t p where b: "revenue_body day system o' r s new_pipeline = Inr (u, t, p)" and e: "execute t p = Inr s'"
      by (auto simp: with_pipeline_def result_simps)
    then have "stake_requests t = stake_requests s" "stake_options t = stake_options s"
      by (auto simp: revenue_body_def result_simps Let_def get_wallet_stake split: prod.splits)
    with execute_stake [OF e] have same: "stake_requests s' = stake_requests s" "stake_options s' = stake_options s" by simp_all
    from stakes_ok_cong(1) [OF this ok assms(2)] same(2) show ?thesis by blast
  qed (use assms(2) in simp)
  then show "stakes_ok s'" "stake_options s' = stake_options s" by blast+
qed

lemma change_all_ok:
  assumes "stakes_ok (fst se)" and "stake_options (fst se) = os"
  shows "stakes_ok (fst (change_all tm n due se)) \<and> stake_options (fst (change_all tm n due se)) = os"
proof (cases se)
  case (Pair s e)
  show ?thesis
  proof (cases e)
    case None
    let ?P = "\<lambda>t rs. stakes_ok t \<and> stake_options t = os \<and> set rs \<subseteq> set (stake_requests t) \<and> distinct (map sr_id rs)"
    have "?P s (filter due (stake_requests s))" using assms Pair by (auto simp: stakes_ok_def distinct_map_filter)
    then have "stakes_ok (fst (run_each (\<lambda>s r. change_status tm r n s) s (filter due (stake_requests s))))
      \<and> stake_options (fst (run_each (\<lambda>s r. change_status tm r n s) s (filter due (stake_requests s)))) = os"
    proof (rule run_each_invariant [where P = ?P and Q = "\<lambda>t. stakes_ok t \<and> stake_options t = os"])
      fix t x ys t'
      assume p: "?P t (x # ys)" and c: "change_status tm x n t = Inr t'"
      have "x \<in> set (stake_requests t)" "stakes_ok t" using p by simp_all
      note ok = change_status_ok [OF c this(2,1)]
      have "y \<in> set (stake_requests t')" if "y \<in> set ys" for y
        using p that by (intro ok(3)) (auto simp: image_iff)
      with ok(1,2) p show "?P t' ys" by auto
    qed simp
    with Pair None show ?thesis by (simp add: change_all_def)
  qed (use assms Pair in \<open>simp add: change_all_def\<close>)
qed

inductive stake_step :: "('z) stake_db_scheme \<Rightarrow> ('z) stake_db_scheme \<Rightarrow> bool" where
  request: "stake_request_view tm i account amount s = Inr (r, s') \<Longrightarrow> stake_step s s'"
| staff: "r \<in> set (stake_requests s) \<Longrightarrow> change_status tm r n s = Inr s' \<Longrightarrow> stake_step s s'"
| give_up: "destroy_view tm pk account s = Inr s' \<Longrightarrow> stake_step s s'"
| revenues: "create_stake_revenue day_of clock given s = (s', e) \<Longrightarrow> stake_step s s'"
| status_task: "handle_stake_requests_status tm s = (s', e) \<Longrightarrow> stake_step s s'"

inductive stake_run :: "('z) stake_db_scheme \<Rightarrow> ('z) stake_db_scheme \<Rightarrow> bool" where
  begin_run: "stake_run s s"
| then_step: "stake_run s t \<Longrightarrow> stake_step t u \<Longrightarrow> stake_run s u"

lemma stake_step_ok: "stake_step s s' \<Longrightarrow> stakes_ok s \<Longrightarrow> stakes_ok s'"
proof (induction rule: stake_step.induct)
  case (request tm i account amount s r s')
  then show ?case by (rule stake_request_ok)
next
  case (staff r s tm n s')
  then show ?case using change_status_ok(1) by blast
next
  case (give_up tm pk account s s')
  then show ?case
    by (auto simp: destroy_view_def result_simps split: if_splits dest!: find_SomeD intro: change_status_ok(1))
next
  case (revenues day_of clock given s s' e)
  then have "s' = s \<or> (\<exists>day system xs. s' = fst (run_each (pay_revenue day system) s xs))"
    by (auto simp: create_stake_revenue_def Let_def split: sum.splits) (metis fst_conv)+
  then consider "s' = s" | day system xs where "s' = fst (run_each (pay_revenue day system) s xs)" by blast
  then show ?case
  proof cases
    case 2
    have "stakes_ok (fst (run_each (pay_revenue day system) s xs))"
      by (rule run_each_invariant [where P = "\<lambda>t _. stakes_ok t"]) (use revenues.prems pay_revenue_ok(1) in blast)+
    with 2 show ?thesis by simp
  qed (use revenues.prems in simp)
next
  case (status_task tm s s' e)
  have "stakes_ok (fst (handle_stake_requests_status tm s))"
    unfolding handle_stake_requests_status_def Let_def
    by (intro conjunct1 [OF change_all_ok] conjunct2 [OF change_all_ok] refl) (use status_task.prems in simp_all)
  with status_task.hyps show ?case by simp
qed


section \<open>Giving back\<close>

definition ordinary_rows :: "('z) ledger_scheme \<Rightarrow> account \<Rightarrow> bool" where
  "ordinary_rows s a \<longleftrightarrow> \<not> is_system a \<and> (\<forall>w\<in>set (wallets s). acc_id (w_account w) = acc_id a \<longrightarrow> \<not> is_system (w_account w))"

lemma get_wallet_ordinary:
  assumes "get_wallet s x b m v e = (w, s')" and "ordinary_rows s a" and "acc_id b = acc_id a \<Longrightarrow> b = a"
  shows "ordinary_rows s' a"
  using assms by (auto simp: ordinary_rows_def get_wallet_def get_or_create_wallet_def Let_def split: option.splits)

lemma ordinary_own: "ordinary_rows s a \<Longrightarrow> own_wallet s a x m v = Some w \<Longrightarrow> \<not> is_system (w_account w)"
  using own_walletD [of s a x m v w] by (auto simp: ordinary_rows_def)

definition locked_in :: "('z) stake_db_scheme \<Rightarrow> stake_option \<Rightarrow> stake_request \<Rightarrow> decimal" where
  "locked_in s o' r = min (sr_amount r + locked_revenue s r) (held s (sr_account r) (so_asset o') STAKE)"

lemma give_back_pays:
  assumes w: "with_pipeline (give_back_body o' r n fee a b c) s = Inr (u, s')" and ok: "ledger_ok s"
    and a: "own_wallet s (sr_account r) (so_asset o') SPOT None = Some a"
    and b: "own_wallet s (sr_account r) (so_asset o') STAKE None = Some b"
    and c: "0 < fee \<Longrightarrow> own_wallet s system (so_asset o') STAKE None = Some c" "known s c"
    and sys: "acc_id system \<noteq> acc_id (sr_account r)" "ordinary_rows s (sr_account r)"
    and grid: "on_grid 8 (sr_amount r)" "\<forall>v\<in>set (stake_revenues s). on_grid 8 (rv_revenue v)" "on_grid 8 fee" "0 \<le> fee"
  shows "held s' (sr_account r) (so_asset o') STAKE = held s (sr_account r) (so_asset o') STAKE - locked_in s o' r"
    and "held s' (sr_account r) (so_asset o') SPOT = held s (sr_account r) (so_asset o') SPOT + locked_in s o' r - fee"
    and "0 < fee \<Longrightarrow> held s' system (so_asset o') STAKE = held s system (so_asset o') STAKE + fee"
proof -
  from w obtain t p where bd: "give_back_body o' r n fee a b c s new_pipeline = Inr (u, t, p)" and e: "execute t p = Inr s'"
    by (auto simp: with_pipeline_def result_simps)
  have bo: "block_ok s new_pipeline" using ok new_pipeline_inv by (simp add: block_ok_def)
  from bd obtain b' t' q where g: "get_wallet s (so_asset o') (sr_account r) STAKE None None = (b', t')"
    and q: "if 0 < fee then post new_pipeline b c fee SC_STAKE_FEE (sr_group r) = Inr q else q = new_pipeline"
    and p: "post q b a (min (sr_amount r + locked_revenue s r) (balance b') - max 0 fee) SC_STAKE (sr_group r) = Inr p"
    and t: "t = save_request t' (r\<lparr>sr_status := n\<rparr>)" by (rule give_back_steps)
  from g b have same: "t' = s" "b' = b" by (auto elim: get_wallet_cases)
  have L: "min (sr_amount r + locked_revenue s r) (balance b') = locked_in s o' r"
    using own_wallet_held [OF b] same by (simp add: locked_in_def)
  have gL: "on_grid 8 (locked_in s o' r)"
    using wallet_grid [OF ok own_walletD(1) [OF b]] own_wallet_held [OF b] grid
    by (auto simp: locked_in_def min_def locked_revenue_def intro!: on_grid_add on_grid_sum_of)
  have kb: "known s a" "known s b" using known_row [OF bo] own_walletD(1) [OF a] own_walletD(1) [OF b] by blast+
  have bq: "block_ok s q" using q post_inv [of new_pipeline b c fee] bo kb c(2) by (auto split: if_splits)
  have bp: "block_ok t p" using give_back_keeps [OF bd bo] kb c(2) by simp
  have ab: "w_id b \<noteq> w_id a" by (rule own_wallets_differ [OF b a ok]) simp
  have bc: "w_id b \<noteq> w_id c" "w_id a \<noteq> w_id c" if "0 < fee"
    using own_wallets_differ [OF b c(1) ok] own_wallets_differ [OF a c(1) ok] that sys(1) by simp_all
  have nsb: "\<not> is_system (w_account b)" by (rule ordinary_own [OF sys(2) b])
  have fq: "trx_flow i (p_trxs q) = (if 0 < fee then (if i = w_id c then fee else 0) - (if i = w_id b then fee else 0) else 0)" for i
  proof (cases "0 < fee")
    case True
    with q have "post new_pipeline b c fee SC_STAKE_FEE (sr_group r) = Inr q" by simp
    from post_flow(1) [OF this new_pipeline_inv, of i] True moved_amount_exact [OF bc(1) [OF True] nsb grid(3)]
    show ?thesis by (simp add: new_pipeline_def trx_flow_def)
  qed (use q in \<open>simp add: new_pipeline_def trx_flow_def\<close>)
  have m: "max 0 fee = fee" using grid(4) by simp
  have mv: "moved_amount b a (locked_in s o' r - fee) = locked_in s o' r - fee"
    by (rule moved_amount_exact [OF ab nsb]) (rule on_grid_diff [OF gL grid(3)])
  have pq: "pipe_inv s q" using bq by (simp add: block_ok_def)
  have fp: "trx_flow i (p_trxs p) =
      (if 0 < fee then (if i = w_id c then fee else 0) - (if i = w_id b then fee else 0) else 0)
      + (if i = w_id a then locked_in s o' r - fee else 0) - (if i = w_id b then locked_in s o' r - fee else 0)" for i
    using post_flow(1) [OF p pq, of i] by (simp only: L m fq mv)
  have ts: "own_wallet t = own_wallet s" by (rule own_wallet_cong) (simp add: t same save_request_def)
  have hs: "held s' y x k = balance w + trx_flow (w_id w) (p_trxs p)" if "own_wallet s y x k None = Some w" for y x k w
    by (rule held_posted [OF e bp]) (simp add: ts that)
  show "held s' (sr_account r) (so_asset o') STAKE = held s (sr_account r) (so_asset o') STAKE - locked_in s o' r"
    using hs [OF b] fp [of "w_id b"] ab bc(1) own_wallet_held [OF b] grid(4) by auto
  show "held s' (sr_account r) (so_asset o') SPOT = held s (sr_account r) (so_asset o') SPOT + locked_in s o' r - fee"
    using hs [OF a] fp [of "w_id a"] ab bc(2) own_wallet_held [OF a] grid(4) by auto
  show "held s' system (so_asset o') STAKE = held s system (so_asset o') STAKE + fee" if "0 < fee"
    using hs [OF c(1) [OF that]] fp [of "w_id c"] bc [OF that] own_wallet_held [OF c(1) [OF that]] that by simp
qed


section \<open>A small example\<close>

definition sample_option :: stake_option where
  "sample_option = \<lparr>so_id = 1, so_asset = ''ADA'', so_apr = 10, so_type = DEFI, user_max_amount = 80, user_min_amount = 5,
     total_cap = 100, so_enable = True, so_landing = False, so_precision = 2, so_fee = 2\<rparr>"

definition sample_stake :: stake_request where
  "sample_stake = \<lparr>sr_id = 1, sr_status = ST_DONE, sr_option = 1, sr_amount = 50, sr_group = 60, sr_account = alice,
     sr_created = 0, start_at = Some 300000, cancel_request_at = None, cancel_pending_at = None, end_at = None\<rparr>"

definition stake_sample :: stake_db where
  "stake_sample = \<lparr>accounts = [the_system, alice, bob],
     wallets = [plain_wallet 1 the_system ''ADA'' (- 1100) 0, plain_wallet 2 alice ''ADA'' 950 0,
                (plain_wallet 3 alice ''ADA'' 50 0)\<lparr>w_market := STAKE\<rparr>, plain_wallet 4 bob ''ADA'' 100 0],
     trxs = [sample_trx 1 2 1000 50, sample_trx 2 3 50 60, sample_trx 1 4 100 51],
     locks = [], equities = [], stake_options = [sample_option], stake_requests = [sample_stake],
     stake_revenues = [\<lparr>rv_created = 4, rv_request = 1, rv_group = 61, rv_revenue = 1 / 4, rv_source = STAKE\<rparr>],
     stake_uuids = 100\<rparr>"

lemma stake_sample_ledger: "ledger_ok stake_sample"
  by code_simp

lemma stake_sample_ok: "stakes_ok stake_sample"
proof -
  have "(if acc_id a = 10 then 50 else 0) \<le> (80 :: rat)" for a :: account by simp
  then have "within_limits stake_sample sample_option"
    by (simp add: within_limits_def get_free_cap_amount_def uses_cap_def uses_limit_def stake_sample_def
        sample_option_def sample_stake_def alice_def plain_account_def)
  then show ?thesis using stake_sample_ledger
    by (simp add: stakes_ok_def stake_sample_def sample_stake_def)
qed



text \<open>
  Two requests that are both checked before either is created stake more than the cap: the check
  takes no lock that the creation would still hold.
\<close>

theorem cap_overrun:
  "case validate_stake 1 alice 30 stake_sample of Inl _ \<Rightarrow> False | Inr (o1, x1, t1) \<Rightarrow>
     (case validate_stake 1 bob 50 t1 of Inl _ \<Rightarrow> False | Inr (o2, x2, t2) \<Rightarrow>
       (case create_stake 0 o1 x1 alice t2 of Inl _ \<Rightarrow> False | Inr (_, t3) \<Rightarrow>
         (case create_stake 0 o2 x2 bob t3 of Inl _ \<Rightarrow> False | Inr (_, t4) \<Rightarrow>
            get_free_cap_amount t4 sample_option < 0)))"
  by code_simp

end
