(* ===== verification/Depth.thy ===== *)
theory Depth
  imports Decimal_Text
begin

text \<open>
  \<^verbatim>\<open>ledger/utils/depth.py\<close>: the order book of an external market as one text. The writer adds up
  the value offered within each of thirteen distances from the top price; the reader finds the
  distance that covers a wanted amount. Prices and amounts are texts in plain notation.
\<close>

section \<open>Reading the book\<close>

definition decimal_of :: "string \<Rightarrow> decimal result" where
  "decimal_of s = the_or InvalidOperation (map_option dec_val (read_decimal s))"

definition THRESHOLD_SPREADS :: "decimal list" where
  "THRESHOLD_SPREADS =
     [0, 1 / 1000, 2 / 1000, 3 / 1000, 5 / 1000, 75 / 10000,
      1 / 100, 15 / 1000, 2 / 100, 25 / 1000, 3 / 100, 4 / 100,
      5 / 100]"

definition BID :: int where "BID = 0"
definition ASK :: int where "ASK = 1"

fun parse_rows :: "decimal \<Rightarrow> decimal \<Rightarrow> decimal \<Rightarrow> (string \<times> string) list \<Rightarrow> (decimal \<times> int) list result" where
  "parse_rows initial_price max_spread cum_value [] = Inr []"
| "parse_rows initial_price max_spread cum_value ((price, amount) # rows) =
     bindE (decimal_of price) (\<lambda>price.
     bindE (decimal_of amount) (\<lambda>amount.
     let cum_value = cum_value + price * amount in
     bindE (divide_by price initial_price) (\<lambda>relative.
     let spread = \<bar>relative - 1\<bar> in
     if max_spread < spread then Inr []
     else bindE (parse_rows initial_price max_spread cum_value rows) (\<lambda>depth_cum.
          Inr ((spread, trunc cum_value) # depth_cum)))))"

definition parse_depth :: "(string \<times> string) list \<Rightarrow> decimal \<Rightarrow> (decimal \<times> int) list option result" where
  "parse_depth depth max_spread =
     (if length depth < 1 then Inr None
      else bindE (decimal_of (fst (hd depth))) (\<lambda>initial_price.
           bindE (parse_rows initial_price max_spread 0 depth) (\<lambda>rows. Inr (Some rows))))"

section \<open>Writing the code\<close>

text \<open>The inner loop: a volume for every distance that the next row exceeds.\<close>

function fill_up :: "decimal \<Rightarrow> int \<Rightarrow> int list \<Rightarrow> decimal \<Rightarrow> int list \<times> decimal" where
  "fill_up spread last_cum_value volumes threshold_spread =
     (if threshold_spread < spread
      then (let volumes = volumes @ [last_cum_value] in
            if length THRESHOLD_SPREADS \<le> length volumes then (volumes, threshold_spread)
            else fill_up spread last_cum_value volumes (THRESHOLD_SPREADS ! length volumes))
      else (volumes, threshold_spread))"
  by pat_completeness auto
termination
  by (relation "measure (\<lambda>(_, _, volumes, _). length THRESHOLD_SPREADS - length volumes)") auto

declare fill_up.simps [simp del]

fun volumes_of :: "(decimal \<times> int) list \<Rightarrow> int \<Rightarrow> int list \<Rightarrow> decimal \<Rightarrow> int list" where
  "volumes_of [] last_cum_value volumes threshold_spread =
     volumes @ replicate (length THRESHOLD_SPREADS - length volumes) last_cum_value"
| "volumes_of ((spread, cum_value) # rows) last_cum_value volumes threshold_spread =
     (let (volumes, threshold_spread) = fill_up spread last_cum_value volumes threshold_spread
      in volumes_of rows cum_value volumes threshold_spread)"

definition int_str :: "int \<Rightarrow> string" where
  "int_str i = (if i < 0 then ''-'' else []) @ nat_str (nat \<bar>i\<bar>)"

fun join_dash :: "string list \<Rightarrow> string" where
  "join_dash [] = []"
| "join_dash [w] = w"
| "join_dash (w # ws) = w @ ''-'' @ join_dash ws"

definition depth_side :: "(string \<times> string) list \<Rightarrow> int result" where
  "depth_side depth =
     (case depth of
        (price, _) # (second, _) # _ \<Rightarrow>
          bindE (decimal_of second) (\<lambda>p1. bindE (decimal_of price) (\<lambda>p0.
          Inr (if p0 < p1 then ASK else BID)))
      | _ \<Rightarrow> Inr BID)"

definition encode_depth :: "(string \<times> string) list \<Rightarrow> string result" where
  "encode_depth depth =
     bindE (parse_depth depth (5 / 100)) (\<lambda>depth_cum.
     if depth = [] then Inl IndexErr
     else bindE (depth_side depth) (\<lambda>side.
          case depth_cum of
            None \<Rightarrow> Inl TypeErr
          | Some rows \<Rightarrow> Inr (join_dash (fst (hd depth) # int_str side #
              map int_str (volumes_of rows 0 [] (THRESHOLD_SPREADS ! 0))))))"

section \<open>Reading the code\<close>

fun split_dash :: "string \<Rightarrow> string list" where
  "split_dash [] = [[]]"
| "split_dash (c # s) =
     (if c = CHR ''-'' then [] # split_dash s
      else case split_dash s of [] \<Rightarrow> [[c]] | w # ws \<Rightarrow> (c # w) # ws)"

definition int_of_text :: "string \<Rightarrow> int result" where
  "int_of_text s = (if s \<noteq> [] \<and> (\<forall>c\<in>set s. is_digit c) then Inr (int (digits_val s)) else Inl ValueErr)"

definition decode_depth :: "string \<Rightarrow> (decimal \<times> int \<times> int list) result" where
  "decode_depth encoded =
     (case split_dash encoded of
        price # side # volumes \<Rightarrow>
          bindE (decimal_of price) (\<lambda>price.
          bindE (int_of_text side) (\<lambda>side.
          bindE (mapE int_of_text volumes) (\<lambda>volumes. Inr (price, side, volumes))))
      | [price] \<Rightarrow> bindE (decimal_of price) (\<lambda>_. Inl IndexErr)
      | [] \<Rightarrow> Inl IndexErr)"

fun first_covering :: "decimal \<Rightarrow> int list \<Rightarrow> nat option" where
  "first_covering value [] = None"
| "first_covering value (v # vs) =
     (if value \<le> of_int v then Some 0 else map_option Suc (first_covering value vs))"

definition get_base_price_and_spread :: "string \<Rightarrow> decimal \<Rightarrow> (decimal \<times> decimal) result" where
  "get_base_price_and_spread encoded amount =
     bindE (decode_depth encoded) (\<lambda>(base_price, side, values).
     bindE (assertE (length values = length THRESHOLD_SPREADS)) (\<lambda>_.
     let value = amount * base_price in
     case first_covering value values of
       None \<Rightarrow> bindE (divide_by (of_int (last values)) base_price) (\<lambda>cover. Inl (NoDepthError cover))
     | Some i \<Rightarrow>
         (let spread = THRESHOLD_SPREADS ! i
          in Inr (base_price, if side = BID then - spread else spread))))"

section \<open>What the volumes are\<close>

text \<open>The value of the rows before the first one farther than \<open>t\<close> from the top.\<close>

definition covered :: "int \<Rightarrow> (decimal \<times> int) list \<Rightarrow> decimal \<Rightarrow> int" where
  "covered start rows t = (case rev (takeWhile (\<lambda>r. fst r \<le> t) rows) of [] \<Rightarrow> start | r # _ \<Rightarrow> snd r)"

lemma covered_simps [simp]:
  "covered start [] t = start"
  "covered start ((s, c) # rows) t = (if s \<le> t then covered c rows t else start)"
  by (auto simp: covered_def split: list.splits)

lemma thresholds_sorted: "i \<le> j \<Longrightarrow> j < 13 \<Longrightarrow> THRESHOLD_SPREADS ! i \<le> THRESHOLD_SPREADS ! j"
proof -
  have "sorted THRESHOLD_SPREADS" by (simp add: THRESHOLD_SPREADS_def)
  moreover assume "i \<le> j" "j < 13"
  ultimately show ?thesis by (simp add: sorted_nth_mono THRESHOLD_SPREADS_def)
qed

lemma thresholds_length [simp]: "length THRESHOLD_SPREADS = 13"
  by (simp add: THRESHOLD_SPREADS_def)

lemma fill_up_correct:
  assumes "fill_up s l vs th = (vs', th')" and "length vs \<le> 12" and "th = THRESHOLD_SPREADS ! length vs"
    and "s \<le> THRESHOLD_SPREADS ! 12"
  shows "\<exists>k. vs' = vs @ replicate k l \<and> length vs' \<le> 12 \<and> th' = THRESHOLD_SPREADS ! length vs'
    \<and> (\<forall>i. length vs \<le> i \<longrightarrow> i < length vs' \<longrightarrow> THRESHOLD_SPREADS ! i < s) \<and> s \<le> th'"
  using assms
proof (induction s l vs th rule: fill_up.induct)
  case (1 s l vs th)
  show ?case
  proof (cases "th < s")
    case False
    with "1.prems"(1) have "vs' = vs" "th' = th" by (simp_all add: fill_up.simps [of s l vs th])
    with False "1.prems"(2,3) show ?thesis by (intro exI [of _ 0]) auto
  next
    case True
    have lt: "length vs < 12" using "1.prems"(2-4) True by (cases "length vs = 12") auto
    with "1.prems"(1) True have rec: "fill_up s l (vs @ [l]) (THRESHOLD_SPREADS ! length (vs @ [l])) = (vs', th')"
      by (simp add: fill_up.simps [of s l vs th])
    from "1.IH" [OF True refl _ this] lt "1.prems"(4) obtain k where
      k: "vs' = (vs @ [l]) @ replicate k l" "length vs' \<le> 12" "th' = THRESHOLD_SPREADS ! length vs'"
        "\<forall>i. length (vs @ [l]) \<le> i \<longrightarrow> i < length vs' \<longrightarrow> THRESHOLD_SPREADS ! i < s" "s \<le> th'"
      by (auto simp: not_le)
    have "\<forall>i. length vs \<le> i \<longrightarrow> i < length vs' \<longrightarrow> THRESHOLD_SPREADS ! i < s"
    proof (intro allI impI)
      fix i assume i: "length vs \<le> i" "i < length vs'"
      show "THRESHOLD_SPREADS ! i < s"
        using k(4) i True "1.prems"(3) by (cases "i = length vs") auto
    qed
    with k show ?thesis by (intro exI [of _ "Suc k"]) simp
  qed
qed

lemma volumes_of_correct:
  assumes "length vs \<le> 12" and "th = THRESHOLD_SPREADS ! length vs" and "\<forall>r\<in>set rows. fst r \<le> THRESHOLD_SPREADS ! 12"
  shows "volumes_of rows l vs th = vs @ map (covered l rows) (drop (length vs) THRESHOLD_SPREADS)"
  using assms
proof (induction rows arbitrary: l vs th)
  case Nil
  show ?case by (simp add: map_replicate_const)
next
  case (Cons r rows)
  obtain s c where r: "r = (s, c)" by (cases r)
  obtain vs' th' where f: "fill_up s l vs th = (vs', th')" by fastforce
  from fill_up_correct [OF f Cons.prems(1,2)] Cons.prems(3) r obtain k where
    k: "vs' = vs @ replicate k l" "length vs' \<le> 12" "th' = THRESHOLD_SPREADS ! length vs'"
      "\<forall>i. length vs \<le> i \<longrightarrow> i < length vs' \<longrightarrow> THRESHOLD_SPREADS ! i < s" "s \<le> th'" by auto
  have "volumes_of (r # rows) l vs th = vs' @ map (covered c rows) (drop (length vs') THRESHOLD_SPREADS)"
    using Cons.IH [OF k(2,3)] Cons.prems(3) f r by simp
  also have "\<dots> = vs @ map (covered l (r # rows)) (drop (length vs) THRESHOLD_SPREADS)"
  proof (rule nth_equalityI)
    fix i assume "i < length (vs' @ map (covered c rows) (drop (length vs') THRESHOLD_SPREADS))"
    then have i: "i < 13" using k(2) by simp
    consider "i < length vs" | "length vs \<le> i" "i < length vs'" | "length vs' \<le> i" by linarith
    then show "(vs' @ map (covered c rows) (drop (length vs') THRESHOLD_SPREADS)) ! i
        = (vs @ map (covered l (r # rows)) (drop (length vs) THRESHOLD_SPREADS)) ! i"
    proof cases
      case 2
      with k(4) have "\<not> s \<le> THRESHOLD_SPREADS ! i" by (meson not_le)
      moreover from 2(2) k(1) have "i - length vs < k" using 2(1) by simp
      ultimately show ?thesis using 2 i k(1) r by (simp add: nth_append)
    next
      case 3
      with k(3,5) thresholds_sorted [of "length vs'" i] i have "s \<le> THRESHOLD_SPREADS ! i" by simp
      moreover from 3 k(1) have "\<not> i - length vs < k" by simp
      ultimately show ?thesis using 3 i k(1) r by (simp add: nth_append)
    qed (use k(1) in \<open>simp add: nth_append\<close>)
  qed (use k(1,2) Cons.prems(1) in simp)
  finally show ?case .
qed

section \<open>Writing and reading back\<close>

lemma split_join:
  assumes "\<forall>w\<in>set ws. CHR ''-'' \<notin> set w" and "ws \<noteq> []"
  shows "split_dash (join_dash ws) = ws"
proof -
  have one: "split_dash w = [w]" if "CHR ''-'' \<notin> set w" for w using that by (induction w) auto
  have more: "split_dash (w @ CHR ''-'' # s) = w # split_dash s" if "CHR ''-'' \<notin> set w" for w s
    using that by (induction w) auto
  from assms show ?thesis by (induction ws rule: join_dash.induct) (simp_all add: one more)
qed

lemma int_str_digits:
  assumes "0 \<le> i"
  shows "CHR ''-'' \<notin> set (int_str i)" and "int_of_text (int_str i) = Inr i"
  using nat_str_props [of "nat \<bar>i\<bar>"] digits_no_mark [of "nat_str (nat \<bar>i\<bar>)"] assms
  by (auto simp: int_str_def int_of_text_def)

lemma ints_back: "\<forall>i\<in>set js. 0 \<le> i \<Longrightarrow> mapE int_of_text (map int_str js) = Inr js"
  by (induction js) (simp_all add: int_str_digits(2))

lemma unsigned_nonneg:
  assumes "decimal_of s = Inr x" and "CHR ''-'' \<notin> set s"
  shows "0 \<le> x"
proof -
  have r: "0 \<le> dec_val d" if "read_unsigned s = Some d" for d
    using that by (auto simp: read_unsigned_def dec_val_def Let_def split: if_splits)
  from assms show ?thesis by (cases s) (auto simp: decimal_of_def read_decimal_def result_simps intro: r)
qed

lemma parse_rows_props:
  assumes "parse_rows p0 m cum rows = Inr ds" and "\<forall>(p, a)\<in>set rows. CHR ''-'' \<notin> set p \<and> CHR ''-'' \<notin> set a" and "0 \<le> cum"
  shows "\<forall>d\<in>set ds. fst d \<le> m \<and> 0 \<le> snd d"
  using assms
proof (induction rows arbitrary: cum ds)
  case (Cons r rows)
  obtain p a where r: "r = (p, a)" by (cases r)
  from Cons.prems(1) r obtain x y where xy: "decimal_of p = Inr x" "decimal_of a = Inr y"
    by (auto simp: result_simps)
  let ?c = "cum + x * y"
  have "0 \<le> x * y" using xy unsigned_nonneg Cons.prems(2) r by (intro mult_nonneg_nonneg) auto
  then have c: "0 \<le> ?c" using Cons.prems(3) by linarith
  then have t: "0 \<le> trunc ?c" by (simp add: trunc_nonneg)
  from Cons.prems(1) r xy consider "ds = []"
    | es where "parse_rows p0 m ?c rows = Inr es" "ds = (\<bar>x / p0 - 1\<bar>, trunc ?c) # es" "\<not> m < \<bar>x / p0 - 1\<bar>"
    by (auto simp: result_simps Let_def divide_by_def split: if_splits)
  then show ?case
  proof cases
    case 2
    with Cons.IH [OF 2(1) _ c] Cons.prems(2) t show ?thesis by auto
  qed simp
qed simp

lemma covered_nonneg: "0 \<le> l \<Longrightarrow> \<forall>d\<in>set ds. 0 \<le> snd d \<Longrightarrow> 0 \<le> covered l ds t"
  by (induction ds arbitrary: l) auto

lemma depth_cases:
  fixes depth :: "('a \<times> 'b) list"
  obtains "depth = []" | r where "depth = [r]" | p0 a0 p1 a1 rows where "depth = (p0, a0) # (p1, a1) # rows"
  by (metis list.exhaust surj_pair)

lemma encode_decode:
  assumes "encode_depth depth = Inr encoded" and "\<forall>(p, a)\<in>set depth. CHR ''-'' \<notin> set p \<and> CHR ''-'' \<notin> set a"
  obtains rows p0 side where "parse_depth depth (5 / 100) = Inr (Some rows)" and "decimal_of (fst (hd depth)) = Inr p0"
    and "side \<in> {BID, ASK}" and "decode_depth encoded = Inr (p0, side, map (covered 0 rows) THRESHOLD_SPREADS)"
proof -
  from assms(1) obtain rows side where ne: "depth \<noteq> []"
    and rows: "parse_depth depth (5 / 100) = Inr (Some rows)" and side: "depth_side depth = Inr side"
    and encoded: "encoded = join_dash (fst (hd depth) # int_str side # map int_str (volumes_of rows 0 [] (THRESHOLD_SPREADS ! 0)))"
    unfolding encode_depth_def by (auto simp: result_simps split: option.splits if_splits)
  from side have side: "side = BID \<or> side = ASK"
    by (cases depth rule: depth_cases) (auto simp: depth_side_def result_simps split: if_splits)
  from rows ne obtain p0 where p0: "decimal_of (fst (hd depth)) = Inr p0" "parse_rows p0 (5 / 100) 0 depth = Inr rows"
    by (auto simp: parse_depth_def result_simps split: if_splits)
  have dash: "CHR ''-'' \<notin> set (fst (hd depth))" using ne assms(2) by (cases depth) auto
  note pr = parse_rows_props [OF p0(2) assms(2) order_refl]
  have vs: "volumes_of rows 0 [] (THRESHOLD_SPREADS ! 0) = map (covered 0 rows) THRESHOLD_SPREADS"
    using volumes_of_correct [of "[]" "THRESHOLD_SPREADS ! 0" rows 0] pr by (simp add: THRESHOLD_SPREADS_def)
  have nn: "\<forall>i\<in>set (map (covered 0 rows) THRESHOLD_SPREADS). 0 \<le> i" using pr by (auto intro: covered_nonneg)
  have s0: "0 \<le> side" using side by (auto simp: BID_def ASK_def)
  have "split_dash encoded = fst (hd depth) # int_str side # map int_str (map (covered 0 rows) THRESHOLD_SPREADS)"
    unfolding encoded vs by (rule split_join) (use nn s0 dash int_str_digits(1) in auto)
  then have "decode_depth encoded = Inr (p0, side, map (covered 0 rows) THRESHOLD_SPREADS)"
    using p0(1) int_str_digits(2) [OF s0] ints_back [OF nn] by (simp add: decode_depth_def)
  with that rows p0(1) side show thesis by auto
qed

lemma first_covering_props:
  "first_covering v vs = Some i \<Longrightarrow> i < length vs \<and> v \<le> of_int (vs ! i) \<and> (\<forall>j<i. of_int (vs ! j) < v)"
  "first_covering v vs = None \<Longrightarrow> \<forall>x\<in>set vs. of_int x < v"
proof (induction vs arbitrary: i)
  case (Cons x vs)
  { case 1
    with Cons.IH(1) show ?case by (auto simp: less_Suc_eq_0_disj not_le split: if_splits)
  next
    case 2
    with Cons.IH(2) show ?case by (auto simp: not_le split: if_splits)
  }
qed simp_all


definition sample_depth :: "(string \<times> string) list" where
  "sample_depth = [(''100'', ''2''), (''101'', ''5'')]"


end
