(* ===== verification/Prices.thy ===== *)
theory Prices
  imports Order_Requests Depth "HOL-Library.AList"
begin

text \<open>
  Prices (\<^verbatim>\<open>ledger/utils/price.py\<close>, \<^verbatim>\<open>external_price.py\<close>, \<^verbatim>\<open>otc.py\<close>, \<^verbatim>\<open>ledger/models/spread.py\<close>):
  from the exchange's own book where it may be used, else from the prices an outside process writes
  to redis, with the spreads of the exchange on top. A redis database is a list of names, each with
  a hash of texts; a Python dict is an association list in insertion order. The memoization of
  \<^verbatim>\<open>cache_for\<close> is not modelled: every call reads the present state.
\<close>

section \<open>State\<close>

datatype otc_status = OTC_ACTIVE | OTC_DISABLED | OTC_BUY | OTC_SELL | OTC_SOON

record asset_row =
  as_symbol :: string
  as_original :: string
  as_enable :: bool
  as_hedge :: bool
  spread_category :: "nat option"
  otc_status :: otc_status
  distribution_factor :: rat
  stale_price :: "decimal option"

record category_spread =
  cs_category :: "nat option"
  cs_side :: side
  cs_step :: nat
  cs_spread :: decimal

record market_spread =
  mk_side :: side
  mk_step :: nat
  mk_spread :: decimal

record price_db = market_db +
  asset_rows :: "asset_row list"
  category_spreads :: "category_spread list"
  market_spreads :: "market_spread list"

type_synonym redis_hash = "(string \<times> string) list"
type_synonym redis = "(string \<times> redis_hash) list"

record price_env = market_env +
  hedge_coin_otc_from_internal_market :: bool
  price_redis :: redis
  master_price_redis :: "redis option"

definition asset_get :: "('z) price_db_scheme \<Rightarrow> string \<Rightarrow> asset_row result" where
  "asset_get s coin = the_or DoesNotExist (List.find (\<lambda>a. as_symbol a = coin) (asset_rows s))"

definition get_original_symbol :: "asset_row \<Rightarrow> string" where
  "get_original_symbol a = (if as_original a \<noteq> [] then as_original a else as_symbol a)"

definition get_coin_multiplier :: "asset_row \<Rightarrow> decimal" where
  "get_coin_multiplier a =
     (if as_original a = [] \<or> as_symbol a = as_original a then 1
      else if take 3 (as_symbol a) = ''1M-'' then 10 ^ 6
      else if take 4 (as_symbol a) = ''1000'' then 10 ^ 3 else 1)"

section \<open>Spreads\<close>

definition get_step :: "decimal option \<Rightarrow> nat" where
  "get_step value =
     (case value of None \<Rightarrow> 1
      | Some v \<Rightarrow> if v = 0 \<or> v \<le> 3 then 1 else if v \<le> 10 then 2 else if v \<le> 1000 then 3
                  else if v \<le> 2000 then 4 else 5)"

definition DEFAULT_SPREAD :: decimal where "DEFAULT_SPREAD = 25 / 100"

text \<open>\<^verbatim>\<open>order_by('-step').first()\<close>\<close>

definition highest_step :: "category_spread list \<Rightarrow> category_spread option" where
  "highest_step rs = (case rs of [] \<Rightarrow> None
     | r # rs \<Rightarrow> Some (foldl (\<lambda>a b. if cs_step a < cs_step b then b else a) r rs))"

definition get_asset_spread :: "('z) price_db_scheme \<Rightarrow> string \<Rightarrow> side \<Rightarrow> decimal option \<Rightarrow> decimal result" where
  "get_asset_spread s coin sd value =
     bindE (asset_get s coin) (\<lambda>asset.
     let step = get_step value;
         category = spread_category asset;
         asset_spread = highest_step (filter (\<lambda>r. cs_category r = category \<and> cs_step r \<le> step \<and> cs_side r = sd)
                          (category_spreads s));
         spread = (case asset_spread of None \<Rightarrow> DEFAULT_SPREAD | Some r \<Rightarrow> cs_spread r);
         spread = (if category = None \<and> 2 / 10 \<le> distribution_factor asset \<and> sd = BUY then spread * (15 / 10) else spread)
     in Inr (spread / 100))"

definition get_market_spread :: "('z) price_db_scheme \<Rightarrow> string \<Rightarrow> side \<Rightarrow> decimal option \<Rightarrow> decimal" where
  "get_market_spread s base_coin sd value =
     (if base_coin = ''IRT''
      then (case List.find (\<lambda>r. mk_step r = get_step value \<and> mk_side r = sd) (market_spreads s) of
              Some r \<Rightarrow> mk_spread r / 100
            | None \<Rightarrow> 0)
      else 0)"

definition get_otc_spread :: "('z) price_db_scheme \<Rightarrow> string \<Rightarrow> side \<Rightarrow> decimal option \<Rightarrow> string \<Rightarrow> decimal result" where
  "get_otc_spread s coin sd value base_coin =
     bindE (get_asset_spread s coin sd value) (\<lambda>spread. Inr (spread + get_market_spread s base_coin sd value))"

definition spread_to_multiplier :: "decimal \<Rightarrow> side \<Rightarrow> decimal" where
  "spread_to_multiplier spread sd = (if sd = BUY then 1 - spread else 1 + spread)"

section \<open>Prices from outside\<close>

definition lower_char :: "char \<Rightarrow> char" where
  "lower_char c = (let n = of_char c :: nat in if 65 \<le> n \<and> n \<le> 90 then char_of (n + 32) else c)"

definition lower :: "string \<Rightarrow> string" where
  "lower = map lower_char"

definition hgetall :: "redis \<Rightarrow> string \<Rightarrow> redis_hash" where
  "hgetall r name = (case map_of r name of None \<Rightarrow> [] | Some d \<Rightarrow> d)"

definition get_price_redis :: "('z) price_env_scheme \<Rightarrow> bool \<Rightarrow> redis" where
  "get_price_redis env allow_stale =
     (case master_price_redis env of
        Some master \<Rightarrow> if \<not> allow_stale \<and> hgetall (price_redis env) ''price:btcusdt'' = [] then master else price_redis env
      | None \<Rightarrow> price_redis env)"

definition get_redis_side :: "side \<Rightarrow> string" where
  "get_redis_side sd = (if sd = SELL then ''a'' else ''b'')"

definition get_other_side :: "side \<Rightarrow> side" where
  "get_other_side sd = (if sd = SELL then BUY else SELL)"

definition get_redis_price_key :: "string \<Rightarrow> bool \<Rightarrow> string" where
  "get_redis_price_key coin futures = (if futures then ''price:'' @ ''f:'' else ''price:'') @ lower coin @ ''usdt''"

definition check_price_dict_time_frame :: "('z) price_env_scheme \<Rightarrow> redis_hash \<Rightarrow> bool \<Rightarrow> bool result" where
  "check_price_dict_time_frame env data allow_stale =
     (if allow_stale \<or> map_of data ''s'' = Some ''c'' then Inr True
      else case map_of data ''t'' of
        None \<Rightarrow> Inr True
      | Some t \<Rightarrow> if t = [] then Inr True
          else (case read_decimal t of None \<Rightarrow> Inl ValueErr
                | Some d \<Rightarrow> Inr (of_int (now env) - 30 \<le> dec_val d \<and> dec_val d \<le> of_int (now env))))"

definition fetch_external_price :: "('z) price_env_scheme \<Rightarrow> string \<Rightarrow> side \<Rightarrow> bool \<Rightarrow> decimal option result" where
  "fetch_external_price env symbol sd allow_stale =
     (let key = get_redis_side sd;
          name = ''price:'' @ lower symbol;
          redis = get_price_redis env allow_stale;
          price = map_of (hgetall redis name) key;
          price = (if (price = None \<or> price = Some []) \<and> allow_stale
                   then map_of (hgetall redis (name @ '':stale'')) key else price)
      in case price of
           None \<Rightarrow> Inr None
         | Some p \<Rightarrow> if p = [] then Inr None else bindE (decimal_of p) (\<lambda>d. Inr (Some d)))"

definition get_manual_staled_prices :: "('z) price_db_scheme \<Rightarrow> (string \<times> decimal) list" where
  "get_manual_staled_prices s =
     List.map_filter (\<lambda>a. map_option (Pair (as_symbol a)) (stale_price a)) (asset_rows s)"

record ext_price =
  ep_coin :: string
  ep_price :: decimal
  ep_side :: side

definition quote_of :: "('z) price_env_scheme \<Rightarrow> redis_hash \<Rightarrow> side \<Rightarrow> bool \<Rightarrow> decimal list result" where
  "quote_of env data sd allow_stale =
     (case map_of data (get_redis_side sd) of
        None \<Rightarrow> Inr []
      | Some p \<Rightarrow>
          bindE (check_price_dict_time_frame env data allow_stale) (\<lambda>fresh.
          if fresh then bindE (decimal_of p) (\<lambda>d. Inr [d]) else Inr []))"

definition side_price ::
  "('z) price_env_scheme \<Rightarrow> ('y) price_db_scheme \<Rightarrow> redis_hash \<Rightarrow> redis_hash \<Rightarrow> string \<Rightarrow> bool \<Rightarrow> side \<Rightarrow> ext_price list result" where
  "side_price env s spot futures c allow_stale sd =
     bindE (quote_of env spot sd allow_stale) (\<lambda>p1.
     bindE (quote_of env futures sd allow_stale) (\<lambda>p2.
     let prices = (case (p1 @ p2, map_of (get_manual_staled_prices s) c) of
                     ([], Some m) \<Rightarrow> if allow_stale then [m] else []
                   | (ps, _) \<Rightarrow> ps)
     in case prices of
          [] \<Rightarrow> Inr []
        | p # ps \<Rightarrow> Inr [\<lparr>ep_coin = c, ep_price = foldl (if sd = BUY then min else max) p ps, ep_side = sd\<rparr>]))"

definition coin_prices ::
  "('z) price_env_scheme \<Rightarrow> ('y) price_db_scheme \<Rightarrow> side list \<Rightarrow> bool \<Rightarrow> string \<Rightarrow> ext_price list result" where
  "coin_prices env s sides allow_stale c =
     (let redis = get_price_redis env allow_stale;
          spot_price_dict = hgetall redis (get_redis_price_key c False);
          futures_price_dict = hgetall redis (get_redis_price_key c True);
          spot_price_dict = (if allow_stale \<and> spot_price_dict = []
                             then hgetall redis (get_redis_price_key c False @ '':stale'') else spot_price_dict);
          futures_price_dict = (if allow_stale \<and> spot_price_dict = [] \<and> futures_price_dict = []
                             then hgetall redis (get_redis_price_key c True @ '':stale'') else futures_price_dict)
      in bindE (mapE (side_price env s spot_price_dict futures_price_dict c allow_stale) sides) (\<lambda>rs. Inr (concat rs)))"

definition fetch_external_redis_prices ::
  "('z) price_env_scheme \<Rightarrow> ('y) price_db_scheme \<Rightarrow> string list \<Rightarrow> side option \<Rightarrow> bool \<Rightarrow> ext_price list result" where
  "fetch_external_redis_prices env s coins sd allow_stale =
     (let sides = (case sd of Some x \<Rightarrow> [x] | None \<Rightarrow> [BUY, SELL])
      in bindE (mapE (coin_prices env s sides allow_stale) coins) (\<lambda>rs. Inr (concat rs)))"

definition fetch_external_depth :: "('z) price_env_scheme \<Rightarrow> string \<Rightarrow> side \<Rightarrow> string option result" where
  "fetch_external_depth env symbol sd =
     (let data = hgetall (get_price_redis env False) (''depth:'' @ lower symbol) in
      if data = [] then Inr None
      else bindE (check_price_dict_time_frame env data False) (\<lambda>fresh.
           if fresh then bindE (the_or KeyErr (map_of data (get_redis_side sd))) (\<lambda>d. Inr (Some d)) else Inr None))"

section \<open>Prices of pairs\<close>

definition USDT_IRT :: string where "USDT_IRT = ''USDTIRT''"

text \<open>\<^verbatim>\<open>symbol[:-n]\<close> and \<^verbatim>\<open>symbol[-n:]\<close>\<close>

definition get_symbol_parts :: "string \<Rightarrow> string \<times> string" where
  "get_symbol_parts symbol =
     (let n = (if drop (length symbol - 4) symbol = ''USDT'' then 4 else 3)
      in (take (length symbol - n) symbol, drop (length symbol - n) symbol))"

fun pair_prices :: "ext_price list \<Rightarrow> (string \<times> decimal) list \<Rightarrow> (string \<times> decimal) list" where
  "pair_prices (a # b # ps) last_prices =
     pair_prices ps (if ep_price a \<noteq> 0 \<and> ep_price b \<noteq> 0
                 then AList.update (ep_coin a) ((ep_price a + ep_price b) / 2) last_prices else last_prices)"
| "pair_prices ps last_prices = last_prices"

definition get_external_last_prices ::
  "('z) price_env_scheme \<Rightarrow> ('y) price_db_scheme \<Rightarrow> string list \<Rightarrow> bool \<Rightarrow> (string \<times> decimal) list result" where
  "get_external_last_prices env s coins allow_stale =
     bindE (fetch_external_redis_prices env s coins None allow_stale) (\<lambda>prices. Inr (pair_prices prices []))"

definition get_all_otc_spreads :: "('y) price_db_scheme \<Rightarrow> side \<Rightarrow> (string \<times> decimal) list result" where
  "get_all_otc_spreads s sd =
     foldE (\<lambda>spreads (asset, base).
              bindE (get_otc_spread s (as_symbol asset) sd None base) (\<lambda>spread.
              Inr (AList.update (as_symbol asset @ base) (spread_to_multiplier spread sd) spreads)))
       [] (List.product (filter (\<lambda>a. as_enable a \<and> otc_status a \<in> {OTC_ACTIVE, OTC_BUY, OTC_SELL}) (asset_rows s))
             [''IRT'', ''USDT''])"

definition internal_price :: "('y) price_db_scheme \<Rightarrow> side \<Rightarrow> string \<Rightarrow> decimal option" where
  "internal_price s sd n =
     (if \<exists>y\<in>set (symbols s). sy_name y = n \<and> sy_enable y
      then top_price sd (filter (\<lambda>x. o_symbol x = n \<and> o_side x = sd) (open_orders s)) else None)"

text \<open>\<^verbatim>\<open>get_prices([USDT_IRT], side)[USDT_IRT]\<close>, see \<open>get_prices_usdt\<close>.\<close>

definition usdt_irt_price :: "('z) price_env_scheme \<Rightarrow> ('y) price_db_scheme \<Rightarrow> side \<Rightarrow> decimal option result" where
  "usdt_irt_price env s sd =
     (case internal_price s sd USDT_IRT of
        Some p \<Rightarrow> Inr (Some p)
      | None \<Rightarrow> fetch_external_price env USDT_IRT sd False)"

definition dict_get :: "(string \<times> decimal option) list \<Rightarrow> string \<Rightarrow> decimal option" where
  "dict_get d k = (case map_of d k of None \<Rightarrow> None | Some v \<Rightarrow> v)"

definition times_usdt :: "(string \<times> decimal option) list \<Rightarrow> decimal \<Rightarrow> decimal option result" where
  "times_usdt prices p = (case dict_get prices USDT_IRT of None \<Rightarrow> Inl TypeErr | Some u \<Rightarrow> Inr (Some (p * u)))"

definition add_price ::
  "('z) price_env_scheme \<Rightarrow> ('y) price_db_scheme \<Rightarrow> side \<Rightarrow> (string \<times> decimal) list \<Rightarrow> (string \<times> decimal) list
     \<Rightarrow> (string \<times> decimal option) list \<Rightarrow> string \<Rightarrow> (string \<times> decimal option) list result" where
  "add_price env s sd otc_spreads external_prices prices symbol =
     (let (coin, base) = get_symbol_parts symbol in
      bindE (if symbol = ''IRTUSDT''
             then bindE (usdt_irt_price env s (get_other_side sd)) (\<lambda>u.
                  case u of None \<Rightarrow> Inl TypeErr | Some u \<Rightarrow> bindE (divide_by 1 u) (\<lambda>x. Inr (Some x)))
             else if coin = base then Inr (Some 1)
             else case map_of external_prices coin of
                    None \<Rightarrow> Inr None
                  | Some p \<Rightarrow> if base = ''IRT'' then times_usdt prices p else Inr (Some p)) (\<lambda>ext_price.
      Inr (case ext_price of
             None \<Rightarrow> prices
           | Some p \<Rightarrow> if p = 0 then prices
               else AList.update symbol (Some (p * (case map_of otc_spreads symbol of None \<Rightarrow> 1 | Some m \<Rightarrow> m))) prices)))"

definition with_usdt :: "string list \<Rightarrow> string list" where
  "with_usdt names = (if USDT_IRT \<in> set names then names else names @ [USDT_IRT])"

definition remaining_coins :: "string list \<Rightarrow> string list" where
  "remaining_coins names = remdups (map (\<lambda>n. fst (get_symbol_parts n)) names)"

definition get_prices ::
  "('z) price_env_scheme \<Rightarrow> ('y) price_db_scheme \<Rightarrow> string list \<Rightarrow> side \<Rightarrow> bool \<Rightarrow> (string \<times> decimal option) list result" where
  "get_prices env s names sd allow_stale =
     (let names = with_usdt names;
          internal_symbols = (if hedge_coin_otc_from_internal_market env then names else [USDT_IRT]);
          prices = List.map_filter (\<lambda>n. map_option (\<lambda>p. (n, Some p)) (internal_price s sd n)) (remdups internal_symbols) in
      bindE (if USDT_IRT \<in> fst ` set prices then Inr prices
             else bindE (fetch_external_price env USDT_IRT sd False) (\<lambda>p. Inr (prices @ [(USDT_IRT, p)]))) (\<lambda>prices.
      if length names = length prices then Inr prices
      else bindE (get_all_otc_spreads s sd) (\<lambda>otc_spreads.
           let remaining_symbols = filter (\<lambda>n. n \<notin> fst ` set prices) (remdups names) in
           bindE (fetch_external_redis_prices env s (remaining_coins remaining_symbols) (Some sd) allow_stale) (\<lambda>rs.
           let external_prices = map (\<lambda>r. (ep_coin r, ep_price r)) (filter (\<lambda>r. ep_price r \<noteq> 0) rs) in
           foldE (add_price env s sd otc_spreads external_prices) prices remaining_symbols))))"

definition get_price :: "('z) price_env_scheme \<Rightarrow> ('y) price_db_scheme \<Rightarrow> string \<Rightarrow> side \<Rightarrow> bool \<Rightarrow> decimal option result" where
  "get_price env s symbol sd allow_stale =
     bindE (get_prices env s [symbol] sd allow_stale) (\<lambda>prices. Inr (dict_get prices symbol))"

definition add_last_price ::
  "(string \<times> decimal) list \<Rightarrow> (string \<times> decimal option) list \<Rightarrow> string \<Rightarrow> (string \<times> decimal option) list result" where
  "add_last_price external_prices last_prices symbol =
     (let (coin, base) = get_symbol_parts symbol in
      bindE (if symbol = ''IRTUSDT''
             then (case dict_get last_prices USDT_IRT of None \<Rightarrow> Inl TypeErr
                   | Some u \<Rightarrow> bindE (divide_by 1 u) (\<lambda>x. Inr (Some x)))
             else if coin = base then Inr (Some 1)
             else case map_of external_prices coin of
                    None \<Rightarrow> Inr None
                  | Some p \<Rightarrow> if base = ''IRT'' then times_usdt last_prices p else Inr (Some p)) (\<lambda>last_price.
      Inr (case last_price of
             None \<Rightarrow> last_prices
           | Some p \<Rightarrow> if p = 0 then last_prices else AList.update symbol (Some p) last_prices)))"

definition get_last_prices ::
  "('z) price_env_scheme \<Rightarrow> ('y) price_db_scheme \<Rightarrow> string list \<Rightarrow> (string \<times> decimal option) list result" where
  "get_last_prices env s names =
     (let names = with_usdt names;
          last_prices = map (\<lambda>y. (sy_name y, last_trade_price y))
            (filter (\<lambda>y. sy_name y \<in> set names \<and> sy_enable y \<and> last_trade_price y \<noteq> None) (symbols s)) in
      bindE (if USDT_IRT \<in> fst ` set last_prices then Inr last_prices
             else bindE (fetch_external_price env USDT_IRT SELL False) (\<lambda>p. Inr (last_prices @ [(USDT_IRT, p)]))) (\<lambda>last_prices.
      let remaining_symbols = filter (\<lambda>n. n \<notin> fst ` set last_prices) (remdups names) in
      if remaining_symbols = [] then Inr last_prices
      else bindE (get_external_last_prices env s (remaining_coins remaining_symbols) True) (\<lambda>external_prices.
           foldE (add_last_price external_prices) last_prices remaining_symbols)))"

definition get_last_price :: "('z) price_env_scheme \<Rightarrow> ('y) price_db_scheme \<Rightarrow> string \<Rightarrow> decimal option result" where
  "get_last_price env s symbol =
     bindE (get_last_prices env s [symbol]) (\<lambda>prices. Inr (dict_get prices symbol))"

section \<open>Prices of amounts\<close>

text \<open>
  The loop over the book: \<open>Inr p\<close> when it returns the price \<open>p\<close>, \<open>Inl cum\<close> when it runs
  out of orders.
\<close>

fun scan_depth :: "(order \<Rightarrow> decimal) \<Rightarrow> bool \<Rightarrow> decimal \<Rightarrow> decimal \<Rightarrow> decimal \<Rightarrow> order list \<Rightarrow> (decimal + decimal) result" where
  "scan_depth remaining spread_check best amount cumulative_sum [] = Inr (Inl cumulative_sum)"
| "scan_depth remaining spread_check best amount cumulative_sum (x # xs) =
     bindE (if spread_check then bindE (divide_by (o_price x) best) (\<lambda>r. Inr (5 / 100 < \<bar>r - 1\<bar>)) else Inr False) (\<lambda>far.
     if far then Inl (SmallDepthError cumulative_sum)
     else (let cumulative_sum = cumulative_sum + remaining x in
           if amount \<le> cumulative_sum then Inr (Inr (o_price x))
           else scan_depth remaining spread_check best amount cumulative_sum xs))"

definition depth_of_orders :: "(order \<Rightarrow> decimal) \<Rightarrow> bool \<Rightarrow> bool \<Rightarrow> decimal \<Rightarrow> order list \<Rightarrow> decimal result" where
  "depth_of_orders remaining spread_check depth_check amount book =
     (case book of
        [] \<Rightarrow> Inl (SmallDepthError 0)
      | best # _ \<Rightarrow>
          bindE (scan_depth remaining spread_check (o_price best) amount 0 book) (\<lambda>r.
          case r of
            Inr p \<Rightarrow> Inr p
          | Inl cumulative_sum \<Rightarrow>
              if depth_check then Inl (SmallDepthError cumulative_sum) else Inr (o_price (last book))))"

definition book_side :: "('y) market_db_scheme \<Rightarrow> string \<Rightarrow> side \<Rightarrow> order list" where
  "book_side s symbol sd = sort_orders sd (filter (\<lambda>x. o_symbol x = symbol \<and> o_side x = sd) (open_orders s))"

definition external_quote ::
  "('z) price_env_scheme \<Rightarrow> ('y) price_db_scheme \<Rightarrow> string \<Rightarrow> string \<Rightarrow> side \<Rightarrow> decimal \<Rightarrow> (decimal \<times> decimal) result" where
  "external_quote env s symbol coin sd amount =
     bindE (fetch_external_depth env symbol sd) (\<lambda>external_depth.
     if external_depth \<noteq> None \<and> external_depth \<noteq> Some []
     then (case bindE (get_base_price_and_spread (the external_depth) amount) (\<lambda>(price, spread).
                bindE (get_otc_spread s coin sd (Some (amount * price)) ''USDT'') (\<lambda>extra_spread.
                Inr (price, spread + (if sd = BUY then - extra_spread else extra_spread)))) of
             Inl (NoDepthError v) \<Rightarrow> Inl (SmallDepthError v)
           | r \<Rightarrow> r)
     else bindE (get_price env s (coin @ ''USDT'') sd False) (\<lambda>price.
          case price of
            None \<Rightarrow> Inl (SmallDepthError 0)
          | Some p \<Rightarrow> if p = 0 then Inl (SmallDepthError 0) else Inr (p, 0)))"

definition get_depth_price ::
  "('z) price_env_scheme \<Rightarrow> ('y) price_db_scheme \<Rightarrow> string \<Rightarrow> side \<Rightarrow> decimal \<Rightarrow> bool \<Rightarrow> decimal result" where
  "get_depth_price env s symbol sd amount depth_check =
     (let pair_symbol = List.find (\<lambda>y. sy_name y = symbol) (symbols s) in
      bindE (if hedge_coin_otc_from_internal_market env
             then bindE (the_or AttributeErr pair_symbol) (\<lambda>y. Inr (sy_enable y)) else Inr False) (\<lambda>internal.
      if internal
      then depth_of_orders (\<lambda>x. o_amount x - o_filled x) depth_check depth_check amount (book_side s symbol sd)
      else (let (coin, base) = get_symbol_parts symbol in
            bindE (if base = ''IRT'' then get_price env s USDT_IRT sd False else Inr (Some 1)) (\<lambda>base_price.
            bindE (external_quote env s (if base = ''IRT'' then coin @ ''USDT'' else symbol) coin sd amount) (\<lambda>(price, spread).
            bindE (the_or TypeErr base_price) (\<lambda>base_price.
            let price = price * base_price * (1 + spread) in
            bindE (the_or AttributeErr pair_symbol) (\<lambda>y.
            Inr (if sd = BUY then floor_precision price (int (tick_size y))
                 else ceil_precision price (int (tick_size y))))))))))"

definition get_base_depth_price ::
  "('y) price_db_scheme \<Rightarrow> string \<Rightarrow> side \<Rightarrow> decimal \<Rightarrow> bool \<Rightarrow> decimal option result" where
  "get_base_depth_price s symbol sd amount depth_check =
     bindE (the_or AttributeErr (List.find (\<lambda>y. sy_name y = symbol) (symbols s))) (\<lambda>pair_symbol.
     if sy_enable pair_symbol
     then bindE (depth_of_orders (\<lambda>x. (o_amount x - o_filled x) * o_price x) True depth_check amount (book_side s symbol sd))
            (\<lambda>p. Inr (Some p))
     else Inr None)"

end
