(* ===== verification/Price_Properties.thy ===== *)
theory Price_Properties
  imports Prices Samples
begin

text \<open>
  What a price promises: the price of an amount is the worst price that the cheapest cover of that
  amount within five percent of the best order takes, and a refusal names what is on offer there.
\<close>

section \<open>The book\<close>

definition remaining_of :: "order \<Rightarrow> decimal" where
  "remaining_of x = o_amount x - o_filled x"

definition near :: "decimal \<Rightarrow> order \<Rightarrow> bool" where
  "near best x \<longleftrightarrow> \<bar>o_price x / best - 1\<bar> \<le> 5 / 100"

lemma far_on:
  assumes "better sd x y" and "price_crosses sd (o_price x) z" and "0 < o_price z" and "near (o_price z) y"
    and "0 \<le> o_price y"
  shows "near (o_price z) x"
proof -
  have p: "a / o_price z \<le> b / o_price z" if "a \<le> b" for a b using assms(3) that by (simp add: divide_right_mono)
  have one: "o_price z / o_price z = 1" using assms(3) by simp
  show ?thesis
  proof (cases sd)
    case BUY
    with assms(1,2) have "o_price y \<le> o_price x" "o_price x \<le> o_price z"
      by (auto simp: better_def order_key_def price_crosses_def)
    with p [of "o_price y" "o_price x"] p [of "o_price x" "o_price z"] one assms(4) show ?thesis
      unfolding near_def by linarith
  next
    case SELL
    with assms(1,2) have "o_price x \<le> o_price y" "o_price z \<le> o_price x"
      by (auto simp: better_def order_key_def price_crosses_def)
    with p [of "o_price x" "o_price y"] p [of "o_price z" "o_price x"] one assms(4) show ?thesis
      unfolding near_def by linarith
  qed
qed

lemma better_crosses: "better sd x y \<Longrightarrow> price_crosses sd (o_price y) x"
  by (auto simp: better_def order_key_def price_crosses_def split: if_splits)

lemma scan_depth_cases:
  assumes "sorted_wrt (better sd) xs" and "\<forall>x\<in>set xs. 0 \<le> remaining_of x \<and> 0 < o_price x" and "cum < amount"
    and "0 < o_price z" and "\<forall>x\<in>set xs. price_crosses sd (o_price x) z"
  shows "case scan_depth remaining_of True (o_price z) amount cum xs of
      Inl e \<Rightarrow> e = SmallDepthError (cum + sum_of remaining_of (filter (near (o_price z)) xs))
        \<and> cum + sum_of remaining_of (filter (near (o_price z)) xs) < amount
    | Inr (Inl c) \<Rightarrow> c = cum + sum_of remaining_of xs \<and> (\<forall>x\<in>set xs. near (o_price z) x) \<and> c < amount
    | Inr (Inr p) \<Rightarrow> (\<exists>x\<in>set xs. near (o_price z) x \<and> p = o_price x)
        \<and> amount \<le> cum + sum_of remaining_of (filter (price_crosses sd p) xs)
        \<and> cum + sum_of remaining_of (filter (\<lambda>x. price_crosses sd p x \<and> o_price x \<noteq> p) xs) < amount"
  using assms
proof (induction xs arbitrary: cum)
  case (Cons x xs)
  have div: "divide_by (o_price x) (o_price z) = Inr (o_price x / o_price z)" using Cons.prems(4) by (simp add: divide_by_def)
  have nn: "0 \<le> sum_of remaining_of (filter P xs)" for P using Cons.prems(2) by (intro sum_of_nonneg) auto
  have rx: "0 \<le> remaining_of x" using Cons.prems(2) by simp
  have self: "price_crosses sd (o_price x) x" by (simp add: price_crosses_def)
  show ?case
  proof (cases "near (o_price z) x")
    case False
    then have "\<not> near (o_price z) y" if "y \<in> set xs" for y
      using far_on [of sd x y z] Cons.prems that by (auto simp: less_imp_le)
    then have "filter (near (o_price z)) xs = []" by (simp add: filter_empty_conv)
    with False div Cons.prems(3) show ?thesis by (simp add: near_def not_le)
  next
    case True
    then have step: "scan_depth remaining_of True (o_price z) amount cum (x # xs) =
        (if amount \<le> cum + remaining_of x then Inr (Inr (o_price x))
         else scan_depth remaining_of True (o_price z) amount (cum + remaining_of x) xs)"
      using div by (simp add: near_def not_less)
    show ?thesis
    proof (cases "amount \<le> cum + remaining_of x")
      case now: True
      have "filter (\<lambda>y. price_crosses sd (o_price x) y \<and> o_price y \<noteq> o_price x) xs = []"
        using Cons.prems(1) by (auto simp: filter_empty_conv price_crosses_def better_def order_key_def split: if_splits)
      with now step True Cons.prems(3) nn [of "price_crosses sd (o_price x)"] self show ?thesis by simp
    next
      case later: False
      then have lt: "cum + remaining_of x < amount" by simp
      have IH: "case scan_depth remaining_of True (o_price z) amount (cum + remaining_of x) xs of
          Inl e \<Rightarrow> e = SmallDepthError (cum + remaining_of x + sum_of remaining_of (filter (near (o_price z)) xs))
            \<and> cum + remaining_of x + sum_of remaining_of (filter (near (o_price z)) xs) < amount
        | Inr (Inl c) \<Rightarrow> c = cum + remaining_of x + sum_of remaining_of xs \<and> (\<forall>x\<in>set xs. near (o_price z) x) \<and> c < amount
        | Inr (Inr p) \<Rightarrow> (\<exists>x\<in>set xs. near (o_price z) x \<and> p = o_price x)
            \<and> amount \<le> cum + remaining_of x + sum_of remaining_of (filter (price_crosses sd p) xs)
            \<and> cum + remaining_of x + sum_of remaining_of (filter (\<lambda>x. price_crosses sd p x \<and> o_price x \<noteq> p) xs) < amount"
        using Cons.IH [of "cum + remaining_of x"] lt Cons.prems by simp
      have cr: "price_crosses sd p x" if "\<exists>y\<in>set xs. near (o_price z) y \<and> p = o_price y" for p
        using that Cons.prems(1) by (auto intro: better_crosses)
      from IH cr rx step later True show ?thesis
        by (auto simp: algebra_simps split: sum.splits)
    qed
  qed
qed simp

lemma book_side_props:
  "sorted_wrt (better sd) (book_side s symbol sd)"
  "x \<in> set (book_side s symbol sd) \<longleftrightarrow> x \<in> set (orders s) \<and> o_status x = NEW \<and> o_symbol x = symbol \<and> o_side x = sd"
  by (auto simp: book_side_def sort_orders_sorted open_orders_def)

text \<open>
  C36. Where the exchange's own book makes the price, the price of an amount is the limit price that
  just covers it: what is open at that price or better is enough, what is open at strictly better
  prices is not, and the price is within five percent of the best. If the amount is refused, then
  because what is open within five percent of the best price is less, and the error carries it.
\<close>

theorem depth_price_fair:
  assumes "hedge_coin_otc_from_internal_market env"
    and "List.find (\<lambda>y. sy_name y = symbol) (symbols s) = Some y" and "sy_enable y"
    and "\<forall>x\<in>set (orders s). o_filled x \<le> o_amount x \<and> 0 < o_price x" and "0 < amount"
  shows "let book = book_side s symbol sd; offered = filter (near (o_price (hd book))) book in
    case get_depth_price env s symbol sd amount True of
      Inl e \<Rightarrow> e = SmallDepthError (sum_of remaining_of offered) \<and> sum_of remaining_of offered < amount
    | Inr p \<Rightarrow> p \<in> o_price ` set offered \<and> amount \<le> sum_of remaining_of (filter (price_crosses sd p) book)
        \<and> sum_of remaining_of (filter (\<lambda>x. price_crosses sd p x \<and> o_price x \<noteq> p) book) < amount"
proof -
  let ?b = "book_side s symbol sd"
  have g: "get_depth_price env s symbol sd amount True = depth_of_orders remaining_of True True amount ?b"
    using assms(1-3) by (simp add: get_depth_price_def remaining_of_def [abs_def])
  show ?thesis
  proof (cases ?b)
    case Nil
    with g assms(5) show ?thesis by (simp add: depth_of_orders_def)
  next
    case (Cons z zs)
    have srt: "sorted_wrt (better sd) ?b" by (rule book_side_props)
    have rows: "\<forall>x\<in>set ?b. 0 \<le> remaining_of x \<and> 0 < o_price x"
      using assms(4) by (auto simp: remaining_of_def book_side_props(2))
    have z: "0 < o_price z" "\<forall>x\<in>set ?b. price_crosses sd (o_price x) z"
      using rows srt Cons better_crosses [of sd z] by (auto simp: price_crosses_def)
    have d: "depth_of_orders remaining_of True True amount ?b =
        bindE (scan_depth remaining_of True (o_price z) amount 0 ?b) (\<lambda>r. case r of Inr p \<Rightarrow> Inr p
          | Inl c \<Rightarrow> Inl (SmallDepthError c))"
      using Cons by (simp add: depth_of_orders_def)
    have all: "filter (near (o_price z)) ?b = ?b" if "\<forall>x\<in>set ?b. near (o_price z) x" using that by simp
    have hd: "hd ?b = z" using Cons by simp
    from scan_depth_cases [OF srt rows assms(5) z] all show ?thesis unfolding g d hd Let_def
      by (auto simp: bindE_def split: sum.splits)
  qed
qed

section \<open>The price of USDT\<close>

lemma get_prices_usdt:
  "get_prices env s [USDT_IRT] sd stale = bindE (usdt_irt_price env s sd) (\<lambda>p. Inr [(USDT_IRT, p)])"
  by (auto simp: get_prices_def usdt_irt_price_def with_usdt_def map_filter_simps bindE_def Let_def
      split: option.splits sum.splits)

lemma find_filter: "List.find P xs = (case filter P xs of [] \<Rightarrow> None | y # _ \<Rightarrow> Some y)"
  by (induction xs) auto


section \<open>A small exchange with prices\<close>

definition plain_asset :: "string \<Rightarrow> asset_row" where
  "plain_asset n = \<lparr>as_symbol = n, as_original = [], as_enable = True, as_hedge = True, spread_category = None, otc_status = OTC_ACTIVE,
     distribution_factor = 0, stale_price = None\<rparr>"

definition sample_prices :: redis where
  "sample_prices = [(''price:usdtirt'', [(''a'', ''60''), (''b'', ''59'')]),
     (''price:adausdt'', [(''b'', ''1'')]), (''price:ethusdt'', [(''a'', ''41''), (''b'', ''40'')])]"

definition price_sample_env :: price_env where
  "price_sample_env = market_env.extend (sample_env\<lparr>external_usdt_irt := Some 60\<rparr>)
     \<lparr>hedge_coin_otc_from_internal_market = True, price_redis = sample_prices, master_price_redis = None\<rparr>"

definition price_sample :: price_db where
  "price_sample = market_db.extend sample_db
     \<lparr>asset_rows = map plain_asset [''USDT'', ''BTC'', ''ADA'', ''ETH''], category_spreads = [], market_spreads = []\<rparr>"

text \<open>
  The last price of a coin quoted on one side only is mixed up with the next coin: the loop
  takes the prices in pairs, but \<^verbatim>\<open>fetch_external_redis_prices\<close> leaves out a side that has no
  price, so that ADA, bought at 1, is valued at 20.5, and ETH, bought at 40, not at all.
\<close>

theorem last_price_misaligned:
  "\<exists>ps. get_last_prices price_sample_env price_sample [''ADAUSDT'', ''ETHUSDT''] = Inr ps
     \<and> dict_get ps ''ADAUSDT'' = Some (41 / 2) \<and> dict_get ps ''ETHUSDT'' = None"
proof -
  have "case get_last_prices price_sample_env price_sample [''ADAUSDT'', ''ETHUSDT''] of Inl _ \<Rightarrow> False
     | Inr ps \<Rightarrow> dict_get ps ''ADAUSDT'' = Some (41 / 2) \<and> dict_get ps ''ETHUSDT'' = None"
    by code_simp
  then show ?thesis by (auto split: sum.splits)
qed


theorem depth_price_fair_witness:
  "case get_depth_price price_sample_env price_sample ''BTCUSDT'' SELL 1 True of Inl _ \<Rightarrow> False
   | Inr p \<Rightarrow> p = 100 \<and> 1 \<le> sum_of remaining_of (filter (price_crosses SELL p) (book_side price_sample ''BTCUSDT'' SELL))"
proof -
  have h: "hedge_coin_otc_from_internal_market price_sample_env"
    and f: "List.find (\<lambda>y. sy_name y = ''BTCUSDT'') (symbols price_sample) = Some (plain_pair ''BTC'' ''USDT'')"
    and e: "sy_enable (plain_pair ''BTC'' ''USDT'')"
    and r: "\<forall>x\<in>set (orders price_sample). o_filled x \<le> o_amount x \<and> 0 < o_price x"
    and a: "(0 :: rat) < 1"
    by code_simp+
  have p: "get_depth_price price_sample_env price_sample ''BTCUSDT'' SELL 1 True = Inr 100"
    by code_simp
  from depth_price_fair [OF h f e r a, of SELL, unfolded Let_def p] show ?thesis unfolding p by simp
qed

end
