(* ===== verification/Names.thy ===== *)
theory Names
  imports Prelude
begin

text \<open>
  Comparing the names of persons (\<^verbatim>\<open>accounts/utils/similarity.py\<close>). A name is a list of code points.
  The rate is the one of \<^verbatim>\<open>difflib.SequenceMatcher\<close>: the longest common block, the earliest in the
  first and then in the second text, and the same again to its left and to its right. In texts of
  200 characters or more the characters that are too frequent do not start a block.
\<close>

type_synonym utext = "int list"

section \<open>Words\<close>

definition SPACE :: int where "SPACE = 32"

text \<open>\<^verbatim>\<open>s.split(' ')\<close> and \<^verbatim>\<open>' '.join(words)\<close>.\<close>

fun split_words :: "utext \<Rightarrow> utext list" where
  "split_words [] = [[]]"
| "split_words (c # s) =
     (if c = SPACE then [] # split_words s
      else case split_words s of w # ws \<Rightarrow> (c # w) # ws | [] \<Rightarrow> [[c]])"

fun join_words :: "utext list \<Rightarrow> utext" where
  "join_words [] = []"
| "join_words [w] = w"
| "join_words (w # v # ws) = w @ SPACE # join_words (v # ws)"

text \<open>What \<^verbatim>\<open>str.strip\<close> removes and \<^verbatim>\<open>\s\<close> matches.\<close>

definition is_space :: "int \<Rightarrow> bool" where
  "is_space c \<longleftrightarrow> 9 \<le> c \<and> c \<le> 13 \<or> 28 \<le> c \<and> c \<le> 32 \<or> 8192 \<le> c \<and> c \<le> 8202
     \<or> c \<in> set [133, 160, 5760, 8232, 8233, 8239, 8287, 12288]"

definition strip :: "utext \<Rightarrow> utext" where
  "strip s = rev (dropWhile is_space (rev (dropWhile is_space s)))"

fun collapse :: "utext \<Rightarrow> utext" where
  "collapse [] = []"
| "collapse (c # s) =
     (if is_space c then (case s of d # _ \<Rightarrow> if is_space d then collapse s else SPACE # collapse s | [] \<Rightarrow> [SPACE])
      else c # collapse s)"

section \<open>Cleaning a name\<close>

definition PERSIAN :: "(int \<times> utext) list" where
  "PERSIAN =
    [(1603, [1705]), (1610, [1740]), (1571, [1575]), (1728, [1607]), (1569, []), (1617, []), (1614, []), (1616, []),
     (1615, []), (1611, []), (1613, []), (1612, []), (1618, []), (1572, [1608]), (1574, [1740]), (1573, [1575]),
     (1570, [1575]), (1577, [1607]), (1619, []), (1648, []), (1620, []), (65235, [1601]), (65228, [1593]),
     (65166, [1575]), (65245, [1604])]"

definition persian :: "int \<Rightarrow> utext" where
  "persian c = (case map_of PERSIAN c of Some t \<Rightarrow> t | None \<Rightarrow> [c])"

definition clean_persian_name :: "utext \<Rightarrow> utext" where
  "clean_persian_name name = (if name = [] then name else collapse (strip (concat (map persian name))))"

section \<open>The rate of two texts\<close>

fun run :: "(int \<Rightarrow> bool) \<Rightarrow> utext \<Rightarrow> utext \<Rightarrow> nat" where
  "run frequent (x # xs) (y # ys) = (if x = y \<and> \<not> frequent y then Suc (run frequent xs ys) else 0)"
| "run frequent _ _ = 0"

definition blocks :: "(int \<Rightarrow> bool) \<Rightarrow> utext \<Rightarrow> utext \<Rightarrow> (nat \<times> nat \<times> nat) list" where
  "blocks frequent a b = [(i, j, run frequent (drop i a) (drop j b)). i \<leftarrow> [0..<length a], j \<leftarrow> [0..<length b]]"

definition longer :: "nat \<times> nat \<times> nat \<Rightarrow> nat \<times> nat \<times> nat \<Rightarrow> nat \<times> nat \<times> nat" where
  "longer c best = (if snd (snd best) < snd (snd c) then c else best)"

text \<open>The longest block, extended on both sides by whatever is equal.\<close>

definition find_longest_match :: "(int \<Rightarrow> bool) \<Rightarrow> utext \<Rightarrow> utext \<Rightarrow> nat \<times> nat \<times> nat" where
  "find_longest_match frequent a b =
     (let (i, j, k) = fold longer (blocks frequent a b) (0, 0, 0);
          back = run (\<lambda>_. False) (rev (take i a)) (rev (take j b));
          ahead = run (\<lambda>_. False) (drop (i + k) a) (drop (j + k) b)
      in (i - back, j - back, back + k + ahead))"

lemma run_le: "run f a b \<le> length a" "run f a b \<le> length b"
  by (induction f a b rule: run.induct) auto

lemma fold_longer:
  "\<exists>c\<in>set (b # cs). fold longer cs b = c \<and> (\<forall>d\<in>set (b # cs). snd (snd d) \<le> snd (snd c))"
proof (induction cs arbitrary: b)
  case Nil
  show ?case by simp
next
  case (Cons c cs)
  from Cons.IH [of "longer c b"] show ?case by (auto simp: longer_def split: if_splits)
qed

lemma best_block:
  assumes "fold longer (blocks f a b) (0, 0, 0) = (i, j, k)"
  shows "i + k \<le> length a" and "j + k \<le> length b" and "k = run f (drop i a) (drop j b) \<or> k = 0 \<and> i = 0 \<and> j = 0"
proof -
  from fold_longer [of "(0, 0, 0)" "blocks f a b"] assms
  have "(i, j, k) = (0, 0, 0) \<or> (i < length a \<and> j < length b \<and> k = run f (drop i a) (drop j b))"
    by (auto simp: blocks_def)
  with run_le [of f "drop i a" "drop j b"]
  show "i + k \<le> length a" "j + k \<le> length b" "k = run f (drop i a) (drop j b) \<or> k = 0 \<and> i = 0 \<and> j = 0" by auto
qed

lemma longest_within:
  assumes "find_longest_match f a b = (i, j, k)"
  shows "i + k \<le> length a" and "j + k \<le> length b"
proof -
  obtain p q l where best: "fold longer (blocks f a b) (0, 0, 0) = (p, q, l)" by (metis prod_cases3)
  have "run (\<lambda>_. False) (rev (take p a)) (rev (take q b)) \<le> p" "run (\<lambda>_. False) (rev (take p a)) (rev (take q b)) \<le> q"
    using run_le [of "\<lambda>_. False" "rev (take p a)" "rev (take q b)"] by simp_all
  moreover have "run (\<lambda>_. False) (drop (p + l) a) (drop (q + l) b) \<le> length a - (p + l)"
    "run (\<lambda>_. False) (drop (p + l) a) (drop (q + l) b) \<le> length b - (q + l)"
    using run_le [of "\<lambda>_. False" "drop (p + l) a" "drop (q + l) b"] by simp_all
  ultimately show "i + k \<le> length a" "j + k \<le> length b"
    using assms best_block(1,2) [OF best] by (auto simp: find_longest_match_def best Let_def)
qed

text \<open>The characters in all matching blocks.\<close>

function matched :: "(int \<Rightarrow> bool) \<Rightarrow> utext \<Rightarrow> utext \<Rightarrow> nat" where
  "matched frequent a b =
     (case find_longest_match frequent a b of (i, j, k) \<Rightarrow>
        if k = 0 then 0
        else matched frequent (take i a) (take j b) + k + matched frequent (drop (i + k) a) (drop (j + k) b))"
  by pat_completeness auto
termination
  by (relation "measure (\<lambda>(f, a, b). length a)") (auto dest!: sym [of "(_, _, _)"] longest_within(1))

declare matched.simps [simp del]

definition frequent_in :: "utext \<Rightarrow> int \<Rightarrow> bool" where
  "frequent_in b c \<longleftrightarrow> 200 \<le> length b \<and> length b div 100 + 1 < count_list b c"

definition str_similar_rate :: "utext \<Rightarrow> utext \<Rightarrow> rat" where
  "str_similar_rate a b =
     (if length a + length b = 0 then 1
      else 2 * of_nat (matched (frequent_in b) a b) / of_nat (length a + length b))"

section \<open>Similar names\<close>

definition rotate_words :: "utext \<Rightarrow> utext" where
  "rotate_words s = (let parts = split_words s in join_words (last parts # butlast parts))"

definition NAME_SIMILARITY_THRESHOLD :: rat where "NAME_SIMILARITY_THRESHOLD = 79 / 100"

text \<open>The loop over the rotations of the first name: whether one is similar, and the name it ends with.\<close>

fun try_rotations :: "nat \<Rightarrow> utext \<Rightarrow> utext \<Rightarrow> bool \<times> utext" where
  "try_rotations 0 name1 name2 = (False, name1)"
| "try_rotations (Suc n) name1 name2 =
     (if NAME_SIMILARITY_THRESHOLD \<le> str_similar_rate name1 name2 then (True, name1)
      else try_rotations n (rotate_words name1) name2)"

text \<open>
  The test \<^verbatim>\<open>len(name1_parts) != name2_parts\<close> compares a number with a list and always holds.
\<close>

definition name_similarity :: "utext \<Rightarrow> utext \<Rightarrow> bool" where
  "name_similarity name1 name2 =
     (let name1 = clean_persian_name name1; name2 = clean_persian_name name2;
          (found, name1) = try_rotations (length (split_words name1)) name1 name2
      in found
         \<or> (let parts1 = split_words name1; parts2 = split_words name2;
               (small, long) = (if length parts2 < length parts1 then (parts2, parts1) else (parts1, parts2))
            in NAME_SIMILARITY_THRESHOLD \<le> str_similar_rate (join_words small) (join_words (take (length small) long))))"

section \<open>First and last name\<close>

definition MULTI_WORD_NAMES :: "(utext \<times> utext) list" where
  "MULTI_WORD_NAMES =
    [([1575, 1605, 1740, 1585], [1585, 1590, 1575]), ([1575, 1605, 1740, 1585], [1581, 1587, 1740, 1606]),
     ([1605, 1581, 1605, 1583], [1581, 1587, 1740, 1606]), ([1585, 1608, 1581], [1575, 1604, 1604, 1607]),
     ([1575, 1605, 1740, 1585], [1593, 1604, 1740]), ([1605, 1581, 1605, 1583], [1581, 1587, 1606]),
     ([1602, 1583, 1605], [1582, 1740, 1585]), ([1575, 1605, 1740, 1585], [1605, 1607, 1583, 1740]),
     ([1606, 1575, 1586, 1606, 1740, 1606], [1586, 1607, 1585, 1575]), ([1605, 1581, 1605, 1583], [1605, 1607, 1583, 1740]),
     ([1605, 1581, 1605, 1583], [1585, 1590, 1575])]"

definition SEYYED :: "utext list" where
  "SEYYED = [[1587, 1740, 1583], [1587, 1740, 1583, 1607]]"

definition split_names :: "utext \<Rightarrow> utext \<times> utext" where
  "split_names name =
     (let parts = split_words (clean_persian_name name); words = length parts; i = 0;
          i = (if 2 < words - i \<and> parts ! i \<in> set SEYYED then i + 1 else i);
          i = (if 2 < words - i \<and> length (parts ! i) \<le> 1 then i + 1 else i);
          i = (if 2 < words - i \<and> (parts ! i, parts ! (i + 1)) \<in> set MULTI_WORD_NAMES then i + 1 else i)
      in (join_words (take (i + 1) parts), join_words (drop (i + 1) parts)))"


section \<open>A name is similar to itself\<close>

definition earlier :: "nat \<times> nat \<times> nat \<Rightarrow> nat \<times> nat \<times> nat \<Rightarrow> bool" where
  "earlier c d \<longleftrightarrow> fst c < fst d \<or> fst c = fst d \<and> fst (snd c) \<le> fst (snd d)"

lemma blocks_sorted: "sorted_wrt earlier ((0, 0, 0) # blocks f a b)"
proof -
  have row: "sorted_wrt earlier (map (\<lambda>j. (i, j, g i j)) [0..<n])" for i g n
    by (induction n) (auto simp: sorted_wrt_append earlier_def)
  then have row: "sorted_wrt (\<lambda>a b. earlier a b) (map (\<lambda>j. (i, j, g i j)) [0..<n])" for i g n .
  have "sorted_wrt earlier [(i, j, g i j). i \<leftarrow> [0..<m], j \<leftarrow> [0..<n]]" for g m n
    by (induction m) (simp_all add: sorted_wrt_append row, auto simp: earlier_def)
  then show ?thesis by (auto simp: blocks_def earlier_def)
qed

lemma fold_first_longest:
  assumes "sorted_wrt earlier (b # cs)" and "fold longer cs b = c"
  shows "\<forall>d\<in>set (b # cs). snd (snd d) < snd (snd c) \<or> snd (snd d) = snd (snd c) \<and> earlier c d"
  using assms
proof (induction cs arbitrary: b)
  case Nil
  then show ?case by (simp add: earlier_def)
next
  case (Cons d cs)
  have "sorted_wrt earlier (longer d b # cs)" using Cons.prems(1) by (simp add: longer_def)
  from Cons.IH [OF this] Cons.prems(2)
  have rest: "\<forall>e\<in>set (longer d b # cs). snd (snd e) < snd (snd c) \<or> snd (snd e) = snd (snd c) \<and> earlier c e" by simp
  show ?case
  proof (cases "snd (snd b) < snd (snd d)")
    case True
    then have "longer d b = d" by (simp add: longer_def)
    with True rest show ?thesis by auto
  next
    case False
    then have "longer d b = b" by (simp add: longer_def)
    with False rest Cons.prems(1) show ?thesis by (auto simp: earlier_def)
  qed
qed

lemma run_same: "run (\<lambda>_. False) a a = length a"
  by (induction a) auto

lemma run_diagonal: "run f x y \<le> run f y y" "run f x y \<le> run f x x"
  by (induction f x y rule: run.induct) auto

lemma longest_self: "find_longest_match f a a = (0, 0, length a)"
proof -
  obtain i j k where best: "fold longer (blocks f a a) (0, 0, 0) = (i, j, k)" by (metis prod_cases3)
  note first = fold_first_longest [OF blocks_sorted best]
  note within = best_block [OF best]
  have same: "i = j"
  proof (cases "k = 0")
    case True
    from first have "earlier (i, j, k) (0, 0, 0)" using True by auto
    then show ?thesis by (simp add: earlier_def)
  next
    case False
    then have k: "k = run f (drop i a) (drop j a)" and l: "i < length a" "j < length a" using within by auto
    have "(i, i, run f (drop i a) (drop i a)) \<in> set (blocks f a a)" "(j, j, run f (drop j a) (drop j a)) \<in> set (blocks f a a)"
      using l unfolding blocks_def by (simp_all add: image_iff) 
    with first run_diagonal [of f "drop i a" "drop j a"] k
    have "earlier (i, j, k) (i, i, run f (drop i a) (drop i a))" "earlier (i, j, k) (j, j, run f (drop j a) (drop j a))"
      by (metis leD list.set_intros(2) snd_conv)+
    then show ?thesis by (auto simp: earlier_def)
  qed
  with within(1) show ?thesis by (simp add: find_longest_match_def best run_same min_def) arith
qed

lemma rate_self: "str_similar_rate a a = 1"
proof -
  have "matched f a a = length a" for f
    by (simp add: matched.simps [of f a] longest_self) (simp add: matched.simps find_longest_match_def blocks_def)
  then show ?thesis by (simp add: str_similar_rate_def flip: of_nat_add)
qed

lemma try_rotations_finds:
  assumes "i < n" shows "fst (try_rotations n a ((rotate_words ^^ i) a))"
  using assms
proof (induction n arbitrary: a i)
  case (Suc n)
  show ?case
  proof (cases i)
    case 0
    then show ?thesis by (simp add: rate_self NAME_SIMILARITY_THRESHOLD_def)
  next
    case (Suc k)
    with Suc.IH [of k "rotate_words a"] Suc.prems show ?thesis by (simp add: funpow_swap1)
  qed
qed simp



section \<open>Splitting a name loses nothing\<close>

lemma split_words_not_empty [simp]: "split_words s \<noteq> []"
  by (induction s) (auto split: list.split)

lemma join_cons: "join_words ((c # w) # ws) = c # join_words (w # ws)"
  by (cases ws) simp_all

lemma join_split [simp]: "join_words (split_words s) = s"
proof (induction s)
  case (Cons c s)
  then show ?case
    by (cases "split_words s") (simp_all add: join_cons)
qed simp

lemma join_append:
  assumes "xs \<noteq> []" and "ys \<noteq> []"
  shows "join_words (xs @ ys) = join_words xs @ SPACE # join_words ys"
  using assms by (induction xs rule: join_words.induct) (auto simp: neq_Nil_conv)

lemma moved_index:
  assumes "i = 0 \<or> Suc i < n"
  shows "(if 2 < n - i \<and> c then i + 1 else i) = 0 \<or> Suc (if 2 < n - i \<and> c then i + 1 else i) < n"
  using assms by auto

lemma split_names_at:
  "\<exists>i. split_names name = (join_words (take (Suc i) (split_words (clean_persian_name name))),
                             join_words (drop (Suc i) (split_words (clean_persian_name name))))
     \<and> (i = 0 \<or> Suc i < length (split_words (clean_persian_name name)))"
  unfolding split_names_def Let_def Suc_eq_plus1 [symmetric]
  by (rule exI, rule conjI, rule refl) (intro moved_index [unfolded Suc_eq_plus1 [symmetric]] disjI1 refl)

text \<open>
  Splitting a name into first and last name loses nothing: with one word the first name is all and
  the last name is empty, with more words the two parts and the space between them are the cleaned name.
\<close>

theorem split_names_joined:
  "\<exists>first last. split_names name = (first, last)
     \<and> clean_persian_name name
         = (if length (split_words (clean_persian_name name)) = 1 then first @ last else first @ SPACE # last)"
proof -
  let ?w = "split_words (clean_persian_name name)"
  obtain i where e: "split_names name = (join_words (take (Suc i) ?w), join_words (drop (Suc i) ?w))"
    and i: "i = 0 \<or> Suc i < length ?w" using split_names_at by blast
  have "join_words (take (Suc i) ?w @ drop (Suc i) ?w) = clean_persian_name name" by simp
  moreover have "length ?w \<noteq> 1 \<Longrightarrow> Suc i < length ?w" using i by (cases ?w) auto
  ultimately show ?thesis using e i join_append [of "take (Suc i) ?w" "drop (Suc i) ?w"] by (cases "length ?w = 1") auto
qed

end
