(* ===== verification/Transfer_Model.thy ===== *)
theory Transfer_Model
  imports Prices Effects Names
begin

text \<open>
  The tables of crypto deposits and withdrawals (\<^verbatim>\<open>ledger/models/transfer.py\<close>, \<^verbatim>\<open>network.py\<close>,
  \<^verbatim>\<open>network_asset.py\<close>, \<^verbatim>\<open>address_key.py\<close>, \<^verbatim>\<open>deposit_address.py\<close>), the users and payments their
  checks read, and the wallet service (\<^verbatim>\<open>blocklink\<close>), an outside system: \<open>network_arch\<close> and
  \<open>created_wallet\<close> are what it answers.
\<close>

section \<open>Tables\<close>

datatype transfer_status = TS_INIT | TS_PROCESS | TS_PENDING | TS_CANCELED | TS_DONE | TS_REFUND

datatype withdraw_source = BY_SELF | BY_INTERNAL | BY_PROVIDER | BY_MANUAL

record network =
  nw_symbol :: string
  nw_can_withdraw :: bool
  nw_can_deposit :: bool
  min_confirm :: int
  deposit_need_memo :: bool
  withdraw_allow_memo :: bool

record network_asset =
  na_asset :: string
  na_network :: string
  withdraw_fee :: decimal
  withdraw_min :: decimal
  withdraw_max :: decimal
  withdraw_precision :: int
  hedger_withdraw_enable :: bool
  hedger_deposit_enable :: bool
  na_can_deposit :: bool
  na_can_withdraw :: bool
  update_fee_with_provider :: bool
  last_provider_update :: "int option"
  deposit_min :: decimal
  max_allowed_daily_deposit_value :: "int option"
  na_withdraw_source :: withdraw_source

record address_key =
  ak_id :: nat
  ak_account :: account
  ak_address :: string
  public_address :: string
  architecture :: string
  ak_memo :: string
  ak_deleted :: bool

record deposit_address =
  da_id :: nat
  da_network :: string
  da_address :: string
  da_key :: nat

datatype risk_reason =
    FIAT_DEBT_RISK | NEW_RECIPIENT_ADDRESS | MULTIPLE_DEVICES | DAY_HIGH_WITHDRAW | DAY_HIGH_CRYPTO_PAIR_DEPOSIT
  | MONTH_HIGH_WITHDRAW | WITHDRAW_VALUE_PEAK | HIGH_DEPOSITS_VALUE | HIGH_TRANSFERS_COUNT | HIGH_WITHDRAW
  | AUTO_WITHDRAW_CEIL | SMALL_TRADE_RATIO

record risk_factor =
  rf_reason :: risk_reason
  rf_value :: rat
  rf_expected :: rat
  rf_whitelist :: bool
  rf_fata :: bool

record crypto_transfer =
  tf_id :: nat
  tf_created :: int
  finished_datetime :: "int option"
  tf_group :: nat
  tf_deposit_address :: "nat option"
  tf_network :: string
  tf_wallet :: nat
  tf_amount :: decimal
  tf_fee :: decimal
  tf_deposit :: bool
  tf_status :: transfer_status
  trx_hash :: "string option"
  block_number :: "int option"
  last_block_number :: "int option"
  out_address :: string
  tf_memo :: string
  tf_source :: withdraw_source
  tf_irt_value :: decimal
  tf_usdt_value :: decimal
  tf_comment :: string
  tf_risks :: "risk_factor list option"
  tf_whitelist :: bool

datatype verify_status = V_INIT | V_PENDING | V_REJECTED | V_VERIFIED

record user_row =
  us_account :: nat
  withdraw_limit_whitelist :: bool
  withdraw_risk_level_multiplier :: decimal
  first_crypto_deposit_date :: "int option"
  first_fiat_deposit_date :: "int option"
  us_level :: nat
  us_staff :: bool
  custom_fiat_withdraw_ceil :: "int option"
  us_verify_status :: verify_status
  us_reject_reason :: string
  national_code :: string
  national_code_verified :: "bool option"
  national_code_phone_verified :: "bool option"
  birth_date :: "int option"
  birth_date_verified :: "bool option"
  first_name :: utext
  first_name_verified :: "bool option"
  last_name :: utext
  last_name_verified :: "bool option"
  selfie_image_verified :: "bool option"
  level_2_verify_datetime :: "int option"
  level_3_verify_datetime :: "int option"
  us_archived :: bool
  company_name :: "utext option"
  ban_credit_cards :: bool
  usable_password :: bool

text \<open>A user with the defaults of the model.\<close>

definition new_user :: "nat \<Rightarrow> user_row" where
  "new_user i =
     \<lparr>us_account = i, withdraw_limit_whitelist = False, withdraw_risk_level_multiplier = 1,
      first_crypto_deposit_date = None, first_fiat_deposit_date = None, us_level = 1, us_staff = False,
      custom_fiat_withdraw_ceil = None, us_verify_status = V_INIT, us_reject_reason = [], national_code = [],
      national_code_verified = None, national_code_phone_verified = None, birth_date = None, birth_date_verified = None,
      first_name = [], first_name_verified = None, last_name = [], last_name_verified = None,
      selfie_image_verified = None, level_2_verify_datetime = None, level_3_verify_datetime = None, us_archived = False,
      company_name = None, ban_credit_cards = False, usable_password = True\<rparr>"

datatype payment_source = IPG | PAY_ID | PAID_MANUALLY

record fiat_payment =
  fp_id :: nat
  fp_account :: nat
  fp_created :: int
  fp_amount :: decimal
  fp_fee :: decimal
  fp_status :: transfer_status
  fp_group :: nat
  fp_source :: payment_source
  fp_ref_id :: "string option"
  fp_ref_status :: "int option"
  fp_card_pan :: string
  fp_description :: string

text \<open>\<open>login_devices\<close> are the devices of the LoginActivity rows of an account's user.\<close>

record transfer_db = price_db +
  networks :: "network list"
  network_assets :: "network_asset list"
  address_keys :: "address_key list"
  deposit_addresses :: "deposit_address list"
  transfers :: "crypto_transfer list"
  users :: "user_row list"
  payments :: "fiat_payment list"
  login_devices :: "(nat \<times> string) list"

datatype transfer_ban = ALLOW | BAN | BAN_CRYPTO | BAN_FIAT

record transfer_env = price_env +
  withdraw_status :: transfer_ban
  deposit_status :: transfer_ban
  default_max_allowed_coin_network_daily_deposit_value :: int
  fiat_daily_auto_verify_limit :: decimal
  network_arch :: "string \<Rightarrow> string"
  created_wallet :: "nat \<Rightarrow> string \<Rightarrow> string \<times> string option"

section \<open>Rows\<close>

definition network_row :: "('z) transfer_db_scheme \<Rightarrow> string \<Rightarrow> network result" where
  "network_row s n = the_or DoesNotExist (List.find (\<lambda>w. nw_symbol w = n) (networks s))"

definition network_asset_row :: "('z) transfer_db_scheme \<Rightarrow> string \<Rightarrow> string \<Rightarrow> network_asset result" where
  "network_asset_row s asset n =
     the_or DoesNotExist (List.find (\<lambda>a. na_asset a = asset \<and> na_network a = n) (network_assets s))"

definition transfer_row :: "('z) transfer_db_scheme \<Rightarrow> nat \<Rightarrow> crypto_transfer result" where
  "transfer_row s i = the_or DoesNotExist (List.find (\<lambda>t. tf_id t = i) (transfers s))"

definition save_transfer :: "('z) transfer_db_scheme \<Rightarrow> nat \<Rightarrow> (crypto_transfer \<Rightarrow> crypto_transfer) \<Rightarrow> ('z) transfer_db_scheme" where
  "save_transfer s i f = s\<lparr>transfers := map (\<lambda>t. if tf_id t = i then f t else t) (transfers s)\<rparr>"

definition COMPLETE_STATUSES :: "transfer_status list" where
  "COMPLETE_STATUSES = [TS_CANCELED, TS_DONE]"

definition FREEZE_SECONDS :: int where "FREEZE_SECONDS = 30"

definition in_freeze_time :: "int \<Rightarrow> crypto_transfer \<Rightarrow> bool" where
  "in_freeze_time t' self \<longleftrightarrow> t' \<le> tf_created self + FREEZE_SECONDS"

definition total_amount :: "crypto_transfer \<Rightarrow> decimal" where
  "total_amount self = tf_amount self + tf_fee self"

text \<open>A block number of zero counts as none, like \<^verbatim>\<open>None\<close>.\<close>

definition get_confirmation_blocks :: "network \<Rightarrow> crypto_transfer \<Rightarrow> int option" where
  "get_confirmation_blocks n self =
     (case (last_block_number self, block_number self) of
        (Some l, Some b) \<Rightarrow> if l \<noteq> 0 \<and> b \<noteq> 0 then Some (min (max (l - b) 0) (min_confirm n)) else None
      | _ \<Rightarrow> None)"

text \<open>The constraints on a transfer and between two of them.\<close>

definition transfer_amounts_ok :: "crypto_transfer \<Rightarrow> bool" where
  "transfer_amounts_ok t \<longleftrightarrow> 0 \<le> tf_amount t \<and> 0 \<le> tf_fee t"

definition transfers_clash :: "crypto_transfer \<Rightarrow> crypto_transfer \<Rightarrow> bool" where
  "transfers_clash t u \<longleftrightarrow> tf_id t \<noteq> tf_id u \<and> tf_source t = BY_SELF \<and> tf_source u = BY_SELF
     \<and> trx_hash t \<noteq> None \<and> trx_hash t = trx_hash u \<and> tf_network t = tf_network u \<and> tf_wallet t = tf_wallet u
     \<and> tf_deposit_address t \<noteq> None \<and> tf_deposit_address t = tf_deposit_address u \<and> out_address t = out_address u"

definition create_transfer ::
  "('z) transfer_db_scheme \<Rightarrow> crypto_transfer \<Rightarrow> (crypto_transfer \<times> ('z) transfer_db_scheme) result" where
  "create_transfer s t =
     (let t = t\<lparr>tf_id := fresh_id (map tf_id (transfers s))\<rparr> in
      bindE (guardE IntegrityError (transfer_amounts_ok t \<and> (\<forall>u\<in>set (transfers s). \<not> transfers_clash t u))) (\<lambda>_.
      Inr (t, s\<lparr>transfers := transfers s @ [t]\<rparr>)))"

definition new_transfer :: "int \<Rightarrow> nat \<Rightarrow> string \<Rightarrow> nat \<Rightarrow> decimal \<Rightarrow> bool \<Rightarrow> crypto_transfer" where
  "new_transfer now' g network wallet amount deposit =
     \<lparr>tf_id = 0, tf_created = now', finished_datetime = None, tf_group = g, tf_deposit_address = None,
      tf_network = network, tf_wallet = wallet, tf_amount = amount, tf_fee = 0, tf_deposit = deposit,
      tf_status = TS_PENDING, trx_hash = None, block_number = None, last_block_number = None,
      out_address = [], tf_memo = [], tf_source = BY_SELF, tf_irt_value = 0, tf_usdt_value = 0, tf_comment = [],
      tf_risks = None, tf_whitelist = False\<rparr>"

section \<open>Networks\<close>

definition can_deposit_enabled :: "network \<Rightarrow> network_asset \<Rightarrow> bool \<Rightarrow> bool" where
  "can_deposit_enabled n a check_provider \<longleftrightarrow>
     (nw_can_deposit n \<and> na_can_deposit a) \<and> (\<not> check_provider \<or> hedger_deposit_enable a)"

definition can_withdraw_enabled :: "network \<Rightarrow> network_asset \<Rightarrow> bool \<Rightarrow> bool" where
  "can_withdraw_enabled n a check_provider \<longleftrightarrow>
     (nw_can_withdraw n \<and> na_can_withdraw a) \<and> (\<not> check_provider \<or> hedger_withdraw_enable a)"

record network_info =
  ni_withdraw_enable :: bool
  ni_deposit_enable :: bool
  ni_withdraw_fee :: decimal
  ni_withdraw_min :: decimal
  ni_withdraw_max :: decimal

text \<open>The fee and the minimum the exchange sets from those of the provider.\<close>

definition provider_fees :: "decimal option \<Rightarrow> network_info \<Rightarrow> decimal \<times> decimal" where
  "provider_fees price info =
     (let withdraw_fee = ni_withdraw_fee info * (15 / 10);
          withdraw_min = max (ni_withdraw_min info) (2 * withdraw_fee);
          withdraw_min = (case price of
              Some p \<Rightarrow> if p \<noteq> 0 \<and> withdraw_min \<noteq> 0
                        then withdraw_min * of_int (max \<lceil>5 / (p * withdraw_min)\<rceil> 1) else withdraw_min
            | None \<Rightarrow> withdraw_min);
          withdraw_fee = (case price of
              Some p \<Rightarrow> if p \<noteq> 0 \<and> withdraw_fee \<noteq> 0
                        then withdraw_fee * of_int (max \<lceil>(2 / 10) / (p * withdraw_fee)\<rceil> 1) else withdraw_fee
            | None \<Rightarrow> withdraw_fee)
      in (withdraw_fee, max withdraw_min (ni_withdraw_min info + withdraw_fee - ni_withdraw_fee info)))"

definition update_network_asset_with_provider ::
  "('y) transfer_env_scheme \<Rightarrow> network_asset \<Rightarrow> network_info \<Rightarrow> int \<Rightarrow> ('z) transfer_db_scheme \<Rightarrow> ('z) transfer_db_scheme result" where
  "update_network_asset_with_provider env self info now' s =
     bindE (if update_fee_with_provider self
            then bindE (get_last_price env s (na_asset self @ ''USDT'')) (\<lambda>price.
                 let (fee, least) = provider_fees price info
                 in Inr (self\<lparr>withdraw_fee := fee, withdraw_min := least, withdraw_max := ni_withdraw_max info\<rparr>))
            else Inr self) (\<lambda>self.
     let self = self\<lparr>hedger_withdraw_enable := ni_withdraw_enable info, hedger_deposit_enable := ni_deposit_enable info,
                     last_provider_update := Some now'\<rparr> in
     bindE (guardE IntegrityError (0 \<le> withdraw_fee self \<and> 0 \<le> withdraw_min self \<and> 0 \<le> withdraw_max self)) (\<lambda>_.
     Inr (s\<lparr>network_assets := map (\<lambda>a. if na_asset a = na_asset self \<and> na_network a = na_network self
                                        then self else a) (network_assets s)\<rparr>)))"

section \<open>Addresses\<close>

text \<open>The unique constraints on the keys of addresses.\<close>

definition keys_clash :: "address_key \<Rightarrow> address_key \<Rightarrow> bool" where
  "keys_clash k l \<longleftrightarrow>
     (acc_id (ak_account k) = acc_id (ak_account l) \<and> ak_address k = ak_address l \<and> ak_memo k = ak_memo l)
     \<or> (acc_id (ak_account k) = acc_id (ak_account l) \<and> architecture k = architecture l \<and> \<not> ak_deleted k \<and> \<not> ak_deleted l)
     \<or> (ak_memo k \<noteq> [] \<and> ak_memo k = ak_memo l \<and> architecture k = architecture l)"

definition address_key_of ::
  "('y) transfer_env_scheme \<Rightarrow> account \<Rightarrow> string \<Rightarrow> ('z) transfer_db_scheme \<Rightarrow> (address_key \<times> ('z) transfer_db_scheme) result" where
  "address_key_of env account arch s =
     (case List.find (\<lambda>k. acc_id (ak_account k) = acc_id account \<and> architecture k = arch \<and> \<not> ak_deleted k) (address_keys s) of
        Some k \<Rightarrow> Inr (k, s)
      | None \<Rightarrow>
          (let (address, memo) = created_wallet env (acc_id account) arch;
               k = \<lparr>ak_id = fresh_id (map ak_id (address_keys s)), ak_account = account, ak_address = address,
                    public_address = address, architecture = arch,
                    ak_memo = (case memo of None \<Rightarrow> [] | Some m \<Rightarrow> m), ak_deleted = False\<rparr>
           in bindE (guardE IntegrityError (\<forall>l\<in>set (address_keys s). \<not> keys_clash k l)) (\<lambda>_.
              Inr (k, s\<lparr>address_keys := address_keys s @ [k]\<rparr>))))"

definition create_deposit_address ::
  "string \<Rightarrow> string \<Rightarrow> nat \<Rightarrow> ('z) transfer_db_scheme \<Rightarrow> deposit_address \<times> ('z) transfer_db_scheme" where
  "create_deposit_address network address key s =
     (let d = \<lparr>da_id = fresh_id (map da_id (deposit_addresses s)), da_network = network, da_address = address, da_key = key\<rparr>
      in (d, s\<lparr>deposit_addresses := deposit_addresses s @ [d]\<rparr>))"

definition get_deposit_address ::
  "('y) transfer_env_scheme \<Rightarrow> account \<Rightarrow> string \<Rightarrow> ('z) transfer_db_scheme
     \<Rightarrow> (deposit_address \<times> ('z) transfer_db_scheme) result" where
  "get_deposit_address env account network s =
     bindE (address_key_of env account (network_arch env network) s) (\<lambda>(k, s).
     case List.find (\<lambda>d. da_key d = ak_id k \<and> da_network d = network) (deposit_addresses s) of
       Some d \<Rightarrow> Inr (d, s)
     | None \<Rightarrow> Inr (create_deposit_address network (public_address k) (ak_id k) s))"

section \<open>What the tables share with the ledger\<close>

lemma transfer_cong [simp]:
  "block_ok (s\<lparr>transfers := t\<rparr>) p = block_ok s p" "known (s\<lparr>transfers := t\<rparr>) w = known s w"
  "ledger_ok (s\<lparr>transfers := t\<rparr>) = ledger_ok s"
  "block_ok (s\<lparr>deposit_addresses := d\<rparr>) p = block_ok s p" "known (s\<lparr>deposit_addresses := d\<rparr>) w = known s w"
  "ledger_ok (s\<lparr>deposit_addresses := d\<rparr>) = ledger_ok s"
  "block_ok (s\<lparr>address_keys := k\<rparr>) p = block_ok s p" "known (s\<lparr>address_keys := k\<rparr>) w = known s w"
  "ledger_ok (s\<lparr>address_keys := k\<rparr>) = ledger_ok s"
  "block_ok (s\<lparr>users := u\<rparr>) p = block_ok s p" "known (s\<lparr>users := u\<rparr>) w = known s w"
  "ledger_ok (s\<lparr>users := u\<rparr>) = ledger_ok s"
  by (rule base_cong; simp)+

end
