(* ===== verification/Withdraw_Risks.thy ===== *)
theory Withdraw_Risks
  imports Transfer_Model
begin

text \<open>
  Which withdrawals pass without a human (\<^verbatim>\<open>ledger/utils/withdraw_verify.py\<close>, \<^verbatim>\<open>fraud.py\<close>, the
  balance totals of \<^verbatim>\<open>accounts/models/account.py\<close>). Floats are rationals; times are seconds.
\<close>

section \<open>Bans\<close>

definition ban_transfer :: "('y) transfer_env_scheme \<Rightarrow> bool \<Rightarrow> bool \<Rightarrow> bool" where
  "ban_transfer env crypto deposit =
     (let st = (if deposit then deposit_status env else withdraw_status env)
      in st = BAN \<or> (crypto \<and> st = BAN_CRYPTO) \<or> (\<not> crypto \<and> st = BAN_FIAT))"

definition verify_crypto_withdraw :: "('y) transfer_env_scheme \<Rightarrow> bool" where
  "verify_crypto_withdraw env \<longleftrightarrow> \<not> ban_transfer env True False"

definition verify_crypto_deposit :: "('y) transfer_env_scheme \<Rightarrow> bool" where
  "verify_crypto_deposit env \<longleftrightarrow> \<not> ban_transfer env True True"

definition verify_fiat_withdraw :: "('y) transfer_env_scheme \<Rightarrow> bool" where
  "verify_fiat_withdraw env \<longleftrightarrow> \<not> ban_transfer env False False"

definition verify_fiat_deposit :: "('y) transfer_env_scheme \<Rightarrow> ('z) transfer_db_scheme \<Rightarrow> nat \<Rightarrow> bool" where
  "verify_fiat_deposit env s payer \<longleftrightarrow>
     \<not> ban_transfer env False True
     \<and> \<not> fiat_daily_auto_verify_limit env <
         sum_of fp_amount (filter (\<lambda>f. fp_account f = payer \<and> now env - 86400 \<le> fp_created f
                                    \<and> fp_status f \<notin> {TS_CANCELED, TS_REFUND}) (payments s))"

section \<open>Totals of an account\<close>

definition price_or_zero :: "('y) price_env_scheme \<Rightarrow> ('z) price_db_scheme \<Rightarrow> string \<Rightarrow> decimal result" where
  "price_or_zero env s symbol =
     bindE (get_last_price env s symbol) (\<lambda>p. Inr (case p of None \<Rightarrow> 0 | Some x \<Rightarrow> x))"

definition get_total_balance_irt ::
  "('y) price_env_scheme \<Rightarrow> ('z) price_db_scheme \<Rightarrow> account \<Rightarrow> wallet_market option \<Rightarrow> decimal result" where
  "get_total_balance_irt env s account market =
     foldE (\<lambda>total w.
         if balance w = 0 then Inr total
         else bindE (price_or_zero env s (w_asset w @ ''IRT'')) (\<lambda>price. Inr (total + balance w * price)))
       0 (filter (\<lambda>w. acc_id (w_account w) = acc_id account
                    \<and> (case market of Some m \<Rightarrow> w_market w = m | None \<Rightarrow> w_market w \<noteq> VOUCHER)) (wallets s))"

definition get_total_balance_usdt :: "('y) price_env_scheme \<Rightarrow> ('z) price_db_scheme \<Rightarrow> account \<Rightarrow> decimal result" where
  "get_total_balance_usdt env s account =
     (let own = filter (\<lambda>w. acc_id (w_account w) = acc_id account \<and> balance w \<noteq> 0 \<and> w_market w \<noteq> VOUCHER) (wallets s)
      in foldE (\<lambda>total coin.
           bindE (price_or_zero env s (coin @ ''USDT'')) (\<lambda>price.
           Inr (total + sum_of balance (filter (\<lambda>w. w_asset w = coin) own) * price)))
         0 (remdups (map w_asset own)))"

section \<open>Risks\<close>

definition system_risk :: "risk_reason \<Rightarrow> rat \<Rightarrow> rat \<Rightarrow> risk_factor" where
  "system_risk reason value expected =
     \<lparr>rf_reason = reason, rf_value = value, rf_expected = expected, rf_whitelist = False, rf_fata = False\<rparr>"

definition fata_risk :: "risk_reason \<Rightarrow> rat \<Rightarrow> rat \<Rightarrow> bool \<Rightarrow> risk_factor" where
  "fata_risk reason value expected whitelist =
     \<lparr>rf_reason = reason, rf_value = value, rf_expected = expected, rf_whitelist = whitelist, rf_fata = True\<rparr>"

definition FATA_SAFE_DEBT_IRT_VALUE :: decimal where "FATA_SAFE_DEBT_IRT_VALUE = - 3000000"
definition FATA_RISKY_DEBT_IRT_VALUE :: decimal where "FATA_RISKY_DEBT_IRT_VALUE = - 10000000"
definition SAFE_DAILY_WITHDRAW_VALUE :: decimal where "SAFE_DAILY_WITHDRAW_VALUE = 400"
definition SAFE_MONTHLY_WITHDRAW_VALUE :: decimal where "SAFE_MONTHLY_WITHDRAW_VALUE = 40000"
definition SAFE_CURRENT_DEPOSITS_VALUE :: decimal where "SAFE_CURRENT_DEPOSITS_VALUE = 500"
definition SAFE_CURRENT_TRANSFERS_COUNT :: nat where "SAFE_CURRENT_TRANSFERS_COUNT = 12"

text \<open>The transfers of an account that were not canceled.\<close>

definition account_transfers :: "('z) transfer_db_scheme \<Rightarrow> account \<Rightarrow> crypto_transfer list" where
  "account_transfers s account =
     filter (\<lambda>t. account_wallet s account (tf_wallet t) \<and> tf_status t \<noteq> TS_CANCELED) (transfers s)"

definition asset_of_transfer :: "('z) transfer_db_scheme \<Rightarrow> crypto_transfer \<Rightarrow> string" where
  "asset_of_transfer s t = (case asset_of s (tf_wallet t) of Some a \<Rightarrow> a | None \<Rightarrow> [])"

definition get_common_system_risks ::
  "('y) transfer_env_scheme \<Rightarrow> ('z) transfer_db_scheme \<Rightarrow> account \<Rightarrow> risk_factor list result" where
  "get_common_system_risks env s account =
     (let deposits = filter (\<lambda>t. tf_deposit t \<and> now env - 86400 \<le> tf_created t) (account_transfers s account);
          key = (\<lambda>t. (tf_network t, asset_of_transfer s t))
      in foldE (\<lambda>risks k.
           bindE (network_asset_row s (snd k) (fst k)) (\<lambda>a.
           let value = sum_of tf_usdt_value (filter (\<lambda>t. key t = k) deposits);
               max_allowed = (case max_allowed_daily_deposit_value a of
                   Some m \<Rightarrow> of_int m
                 | None \<Rightarrow> of_int (default_max_allowed_coin_network_daily_deposit_value env))
           in Inr (if max_allowed < value then risks @ [system_risk DAY_HIGH_CRYPTO_PAIR_DEPOSIT value max_allowed] else risks)))
         [] (remdups (map key deposits)))"

definition user_of :: "('z) transfer_db_scheme \<Rightarrow> account \<Rightarrow> user_row result" where
  "user_of s account = the_or AttributeErr (List.find (\<lambda>u. us_account u = acc_id account) (users s))"

definition get_withdraw_fata_risks ::
  "('y) transfer_env_scheme \<Rightarrow> ('z) transfer_db_scheme \<Rightarrow> account \<Rightarrow> crypto_transfer \<Rightarrow> risk_factor list result" where
  "get_withdraw_fata_risks env s account transfer =
     (let last_48h_fiat_deposit = sum_of fp_amount
            (filter (\<lambda>f. fp_account f = acc_id account \<and> now env - 2 * 86400 \<le> fp_created f) (payments s)) in
      bindE (get_total_balance_irt env s account None) (\<lambda>total.
      let potential_debt = total - tf_irt_value transfer - last_48h_fiat_deposit in
      bindE (user_of s account) (\<lambda>user.
      let safe_debt_irt_val = FATA_SAFE_DEBT_IRT_VALUE * withdraw_risk_level_multiplier user in
      if safe_debt_irt_val \<le> potential_debt
      then Inr [fata_risk FIAT_DEBT_RISK (of_int (round_half_even potential_debt)) (of_int (round_half_even safe_debt_irt_val)) True]
      else
        let risky_debt_irt_value = FATA_RISKY_DEBT_IRT_VALUE * withdraw_risk_level_multiplier user;
            devices = length (remdups (map snd (filter (\<lambda>d. fst d = acc_id account) (login_devices s))));
            withdraws = filter (\<lambda>t. \<not> tf_deposit t) (account_transfers s account)
        in Inr ((if potential_debt \<le> risky_debt_irt_value
                 then [fata_risk FIAT_DEBT_RISK (of_int (round_half_even potential_debt)) (of_int (round_half_even risky_debt_irt_value)) False]
                 else [])
              @ (if 1 < devices then [fata_risk MULTIPLE_DEVICES (of_nat devices) 1 False] else [])
              @ (if \<not> (\<exists>t\<in>set withdraws. tf_id t \<noteq> tf_id transfer \<and> out_address t = out_address transfer)
                 then [fata_risk NEW_RECIPIENT_ADDRESS 1 2 False] else [])))))"

definition get_withdraw_system_risks ::
  "('y) transfer_env_scheme \<Rightarrow> ('z) transfer_db_scheme \<Rightarrow> account \<Rightarrow> crypto_transfer \<Rightarrow> risk_factor list" where
  "get_withdraw_system_risks env s account transfer =
     (let day = 86400;
          ts = account_transfers s account;
          withdraws = filter (\<lambda>t. \<not> tf_deposit t) ts;
          current_day_withdraw_value = sum_of tf_usdt_value (filter (\<lambda>t. now env - day \<le> tf_created t) withdraws);
          last_30_days_withdraw_value = sum_of tf_usdt_value (filter (\<lambda>t. now env - 30 * day \<le> tf_created t) withdraws);
          current_withdraws = filter (\<lambda>t. now env - 31 * day \<le> tf_created t \<and> tf_created t \<le> now env - day) withdraws;
          max_withdraw_value = (case map tf_usdt_value current_withdraws of [] \<Rightarrow> 0 | v # vs \<Rightarrow> foldl max v vs);
          expected_withdraw_value = max_withdraw_value * 4;
          deposits_value = sum_of tf_usdt_value (filter (\<lambda>t. tf_deposit t \<and> now env - 3 * day \<le> tf_created t) ts);
          transfer_counts = length (filter (\<lambda>t. now env - 3 * day \<le> tf_created t) ts)
      in (if SAFE_DAILY_WITHDRAW_VALUE < current_day_withdraw_value
          then [system_risk DAY_HIGH_WITHDRAW current_day_withdraw_value SAFE_DAILY_WITHDRAW_VALUE] else [])
       @ (if SAFE_MONTHLY_WITHDRAW_VALUE < last_30_days_withdraw_value
          then [system_risk MONTH_HIGH_WITHDRAW last_30_days_withdraw_value SAFE_MONTHLY_WITHDRAW_VALUE] else [])
       @ (if 2 < length current_withdraws \<and> max expected_withdraw_value 1000 < tf_usdt_value transfer
          then [system_risk WITHDRAW_VALUE_PEAK current_day_withdraw_value expected_withdraw_value] else [])
       @ (if SAFE_CURRENT_DEPOSITS_VALUE < deposits_value
          then [system_risk HIGH_DEPOSITS_VALUE deposits_value SAFE_CURRENT_DEPOSITS_VALUE] else [])
       @ (if 50 < current_day_withdraw_value \<and> SAFE_CURRENT_TRANSFERS_COUNT < transfer_counts
          then [system_risk HIGH_TRANSFERS_COUNT (of_nat transfer_counts) (of_nat SAFE_CURRENT_TRANSFERS_COUNT)] else []))"

text \<open>The answer and the state, in which the risks were saved to the transfer.\<close>

definition auto_withdraw_verify ::
  "('y) transfer_env_scheme \<Rightarrow> crypto_transfer \<Rightarrow> ('z) transfer_db_scheme \<Rightarrow> (bool \<times> ('z) transfer_db_scheme) result" where
  "auto_withdraw_verify env transfer s =
     bindE (assertE (\<not> tf_deposit transfer)) (\<lambda>_.
     bindE (wallet_row s (tf_wallet transfer)) (\<lambda>w.
     let account = w_account w in
     bindE (user_of s account) (\<lambda>user.
     if withdraw_limit_whitelist user then Inr (True, s)
     else
       bindE (get_common_system_risks env s account) (\<lambda>common_system_risks.
       let system_risks = get_withdraw_system_risks env s account transfer in
       bindE (get_withdraw_fata_risks env s account transfer) (\<lambda>fata_risks.
       let risks = common_system_risks @ system_risks @ fata_risks;
           s = (if risks \<noteq> [] then save_transfer s (tf_id transfer) (\<lambda>t. t\<lparr>tf_risks := Some risks\<rparr>) else s);
           risks = (case fata_risks of
               r # _ \<Rightarrow> if rf_whitelist r then system_risks else risks
             | [] \<Rightarrow> risks)
       in Inr (risks = [], s))))))"

section \<open>May the account withdraw at all\<close>

text \<open>
  \<^verbatim>\<open>check_withdraw_conditions\<close>: \<open>enabled\<close> is the setting \<^verbatim>\<open>WITHDRAW_ENABLE\<close> together with the
  user's own flag, \<open>value_usdt\<close> the price of the amount, which is missing where the coin has none.
\<close>

definition check_withdraw_conditions ::
  "('y) transfer_env_scheme \<Rightarrow> bool \<Rightarrow> account \<Rightarrow> decimal option \<Rightarrow> ('z) transfer_db_scheme \<Rightarrow> bool result" where
  "check_withdraw_conditions env enabled account value_usdt s =
     (if \<not> enabled then Inr False
      else if \<exists>w\<in>set (wallets s). acc_id (w_account w) = acc_id account \<and> w_market w = DEBT \<and> balance w < 0 then Inr False
      else bindE (get_total_balance_usdt env s account) (\<lambda>total.
           bindE (the_or TypeErr value_usdt) (\<lambda>v. Inr (\<not> total < v * (95 / 100)))))"

end
