(* ===== verification/Transfers.thy ===== *)
theory Transfers
  imports Withdraw_Risks
begin

text \<open>
  The life of a transfer (\<^verbatim>\<open>Transfer\<close> of \<^verbatim>\<open>ledger/models/transfer.py\<close>): a withdrawal locks its
  amount and fee, a withdrawal to an address of the exchange is booked at once, accepting books
  the transactions, rejecting frees the lock, reverting books them back. Missions of the users
  (\<^verbatim>\<open>check_prize_achievements\<close>), notifications and events are not modelled.
\<close>

section \<open>Operations\<close>

definition build_trx ::
  "crypto_transfer \<Rightarrow> ('z) transfer_db_scheme \<Rightarrow> pipeline \<Rightarrow> (('z) transfer_db_scheme \<times> pipeline) result" where
  "build_trx self s p =
     bindE (wallet_row s (tf_wallet self)) (\<lambda>wallet.
     bindE (out_account s) (\<lambda>out.
     let (out_wallet, s) = get_wallet s (w_asset wallet) out SPOT None None;
         (sndr, rcvr) = (if tf_deposit self then (out_wallet, wallet) else (wallet, out_wallet)) in
     bindE (post p sndr rcvr (tf_amount self) SC_TRANSFER (tf_group self)) (\<lambda>p.
     if tf_fee self \<noteq> 0
     then bindE (system_account s) (\<lambda>system.
          let (fee_wallet, s) = get_wallet s (w_asset wallet) system SPOT None None in
          bindE (post p sndr fee_wallet (tf_fee self) SC_COMMISSION (tf_group self)) (\<lambda>p. Inr (s, p)))
     else Inr (s, p))))"

definition internal_hash :: "nat \<Rightarrow> string" where
  "internal_hash g = ''internal: <'' @ nat_str g @ ''>''"

definition fast_forward_body ::
  "int \<Rightarrow> wallet \<Rightarrow> wallet \<Rightarrow> deposit_address \<Rightarrow> deposit_address \<Rightarrow> string \<Rightarrow> decimal \<Rightarrow> string \<Rightarrow> string \<Rightarrow> nat
     \<Rightarrow> decimal \<Rightarrow> decimal \<Rightarrow> ('z) transfer_db_scheme \<Rightarrow> pipeline
     \<Rightarrow> (crypto_transfer \<times> ('z) transfer_db_scheme \<times> pipeline) result" where
  "fast_forward_body now' sender_wallet receiver_wallet sender_address receiver_address network amount address memo g
       price_usdt price_irt s p =
     bindE (post p sender_wallet receiver_wallet amount SC_TRANSFER g) (\<lambda>p.
     let t = (\<lambda>wallet deposit. (new_transfer now' g network wallet amount deposit)\<lparr>tf_status := TS_DONE, tf_memo := memo,
                trx_hash := Some (internal_hash g), tf_source := BY_INTERNAL, tf_usdt_value := amount * price_usdt,
                tf_irt_value := amount * price_irt\<rparr>) in
     bindE (create_transfer s ((t (w_id sender_wallet) False)\<lparr>tf_deposit_address := Some (da_id sender_address),
              out_address := address\<rparr>)) (\<lambda>(sender_transfer, s).
     bindE (create_transfer s ((t (w_id receiver_wallet) True)\<lparr>tf_deposit_address := Some (da_id receiver_address),
              out_address := da_address sender_address\<rparr>)) (\<lambda>(_, s).
     Inr (sender_transfer, s, p))))"

definition addresses_for :: "network \<Rightarrow> string \<Rightarrow> string \<Rightarrow> ('z) transfer_db_scheme \<Rightarrow> (deposit_address \<times> address_key) list" where
  "addresses_for network address memo s =
     filter (\<lambda>(d, k). \<not> (deposit_need_memo network \<and> memo \<noteq> []) \<or> ak_memo k = memo)
       (List.map_filter (\<lambda>d. map_option (Pair d) (List.find (\<lambda>k. ak_id k = da_key d) (address_keys s)))
         (filter (\<lambda>d. da_address d = address) (deposit_addresses s)))"

definition check_fast_forward ::
  "('y) transfer_env_scheme \<Rightarrow> wallet \<Rightarrow> network \<Rightarrow> decimal \<Rightarrow> string \<Rightarrow> string \<Rightarrow> ('z) transfer_db_scheme
     \<Rightarrow> (crypto_transfer option \<times> ('z) transfer_db_scheme) result" where
  "check_fast_forward env sender_wallet network amount address memo s =
     (let queryset = addresses_for network address memo s in
      if queryset = [] \<or> (deposit_need_memo network \<and> memo = []) then Inr (None, s)
      else
        bindE (get_deposit_address env (w_account sender_wallet) (nw_symbol network) s) (\<lambda>(sender_address, s).
        let receiver_account = ak_account (snd (hd queryset)) in
        bindE (get_deposit_address env receiver_account (nw_symbol network) s) (\<lambda>(receiver_address, s).
        let (receiver_wallet, s) = get_wallet s (w_asset sender_wallet) receiver_account SPOT None None;
            (g, s) = uuid4 s in
        bindE (price_or_zero env s (w_asset sender_wallet @ ''USDT'')) (\<lambda>price_usdt.
        bindE (price_or_zero env s (w_asset sender_wallet @ ''IRT'')) (\<lambda>price_irt.
        bindE (with_pipeline (fast_forward_body (now env) sender_wallet receiver_wallet sender_address receiver_address
                 (nw_symbol network) amount address memo g price_usdt price_irt) s) (\<lambda>(t, s).
        Inr (Some t, s)))))))"

definition withdraw_body ::
  "crypto_transfer \<Rightarrow> wallet \<Rightarrow> decimal \<Rightarrow> ('z) transfer_db_scheme \<Rightarrow> pipeline
     \<Rightarrow> (crypto_transfer \<times> ('z) transfer_db_scheme \<times> pipeline) result" where
  "withdraw_body t wallet amount s p =
     bindE (create_transfer s t) (\<lambda>(transfer, s).
     bindE (lock_balance p (tf_group transfer) wallet amount Lock_WITHDRAW) (\<lambda>p.
     Inr (transfer, s, p)))"

definition new_withdraw ::
  "('y) transfer_env_scheme \<Rightarrow> wallet \<Rightarrow> network \<Rightarrow> decimal \<Rightarrow> string \<Rightarrow> string \<Rightarrow> bool \<Rightarrow> ('z) transfer_db_scheme
     \<Rightarrow> (crypto_transfer \<times> ('z) transfer_db_scheme) result" where
  "new_withdraw env wallet network amount address memo whitelist s =
     bindE (assertE (w_asset wallet \<noteq> ''IRT'')) (\<lambda>_.
     bindE (assertE (is_ordinary_user (w_account wallet))) (\<lambda>_.
     bindE (has_balance wallet amount True True 0) (\<lambda>_.
     bindE (check_fast_forward env wallet network amount address memo s) (\<lambda>(fast_forward, s).
     case fast_forward of
       Some t \<Rightarrow> Inr (t, s)
     | None \<Rightarrow>
         bindE (network_asset_row s (w_asset wallet) (nw_symbol network)) (\<lambda>a.
         bindE (assertE (amount \<le> withdraw_max a \<and> max (withdraw_min a) (withdraw_fee a) \<le> amount)) (\<lambda>_.
         let commission = withdraw_fee a in
         bindE (price_or_zero env s (w_asset wallet @ ''IRT'')) (\<lambda>price_irt.
         bindE (price_or_zero env s (w_asset wallet @ ''USDT'')) (\<lambda>price_usdt.
         let (g, s) = uuid4 s;
             t = (new_transfer (now env) g (nw_symbol network) (w_id wallet) (amount - commission) False)
                   \<lparr>tf_status := TS_INIT, tf_fee := commission, tf_source := na_withdraw_source a, out_address := address,
                    tf_memo := memo, tf_usdt_value := amount * price_usdt, tf_irt_value := amount * price_irt,
                    tf_whitelist := whitelist\<rparr> in
         bindE (with_pipeline (withdraw_body t wallet amount) s) (\<lambda>(transfer, s).
         bindE (auto_withdraw_verify env transfer s) (\<lambda>(verified, s).
         if verified
         then Inr (transfer\<lparr>tf_status := TS_PROCESS\<rparr>, save_transfer s (tf_id transfer) (\<lambda>t. t\<lparr>tf_status := TS_PROCESS\<rparr>))
         else Inr (transfer, s)))))))))))"

definition set_first_deposit :: "int \<Rightarrow> nat \<Rightarrow> ('z) transfer_db_scheme \<Rightarrow> ('z) transfer_db_scheme" where
  "set_first_deposit now' i s =
     s\<lparr>users := map (\<lambda>u. if us_account u = i \<and> first_crypto_deposit_date u = None
                           then u\<lparr>first_crypto_deposit_date := Some now'\<rparr> else u) (users s)\<rparr>"

definition accept_body ::
  "int \<Rightarrow> nat \<Rightarrow> ('z) transfer_db_scheme \<Rightarrow> pipeline \<Rightarrow> (unit \<times> ('z) transfer_db_scheme \<times> pipeline) result" where
  "accept_body now' i s p =
     bindE (transfer_row s i) (\<lambda>transfer.
     if tf_status transfer \<in> set COMPLETE_STATUSES then Inr ((), s, p)
     else
       let s = save_transfer s i (\<lambda>t. t\<lparr>tf_status := TS_DONE, finished_datetime := Some now'\<rparr>) in
       bindE (if \<not> tf_deposit transfer then bindE (release_lock s p (tf_group transfer) None) (\<lambda>p. Inr (s, p))
              else bindE (wallet_row s (tf_wallet transfer)) (\<lambda>w.
                   Inr (set_first_deposit now' (acc_id (w_account w)) s, p))) (\<lambda>(s, p).
       bindE (build_trx transfer s p) (\<lambda>(s, p). Inr ((), s, p))))"

definition accept :: "int \<Rightarrow> nat \<Rightarrow> ('z) transfer_db_scheme \<Rightarrow> (unit \<times> ('z) transfer_db_scheme) result" where
  "accept now' i s = with_pipeline (accept_body now' i) s"

definition reject_body ::
  "int \<Rightarrow> nat \<Rightarrow> ('z) transfer_db_scheme \<Rightarrow> pipeline \<Rightarrow> (unit \<times> ('z) transfer_db_scheme \<times> pipeline) result" where
  "reject_body now' i s p =
     bindE (transfer_row s i) (\<lambda>transfer.
     if tf_status transfer \<in> set COMPLETE_STATUSES then Inr ((), s, p)
     else
       bindE (if \<not> tf_deposit transfer then release_lock s p (tf_group transfer) None else Inr p) (\<lambda>p.
       Inr ((), save_transfer s i (\<lambda>t. t\<lparr>tf_status := TS_CANCELED, finished_datetime := Some now'\<rparr>), p)))"

definition reject :: "int \<Rightarrow> nat \<Rightarrow> ('z) transfer_db_scheme \<Rightarrow> (unit \<times> ('z) transfer_db_scheme) result" where
  "reject now' i s = with_pipeline (reject_body now' i) s"

definition revert_body ::
  "nat \<Rightarrow> nat \<Rightarrow> ('z) transfer_db_scheme \<Rightarrow> pipeline \<Rightarrow> (unit \<times> ('z) transfer_db_scheme \<times> pipeline) result" where
  "revert_body g i s p =
     bindE (transfer_row s i) (\<lambda>transfer.
     if tf_status transfer \<noteq> TS_DONE then Inr ((), s, p)
     else
       bindE (revert_trx_group g True (save_transfer s i (\<lambda>t. t\<lparr>tf_status := TS_REFUND\<rparr>)) p) (\<lambda>(s, p).
       Inr ((), s, p)))"

definition revert :: "nat \<Rightarrow> ('z) transfer_db_scheme \<Rightarrow> (unit \<times> ('z) transfer_db_scheme) result" where
  "revert i s = bindE (transfer_row s i) (\<lambda>self. with_pipeline (revert_body (tf_group self) i) s)"

definition change_transfer_status ::
  "int \<Rightarrow> nat \<Rightarrow> transfer_status \<Rightarrow> ('z) transfer_db_scheme \<Rightarrow> (unit \<times> ('z) transfer_db_scheme) result" where
  "change_transfer_status now' i status s =
     (case status of
        TS_DONE \<Rightarrow> accept now' i s
      | TS_CANCELED \<Rightarrow> reject now' i s
      | TS_REFUND \<Rightarrow> revert i s
      | _ \<Rightarrow> Inr ((), s\<lparr>transfers := map (\<lambda>t. if tf_id t = i \<and> tf_status t \<notin> set COMPLETE_STATUSES
                                               then t\<lparr>tf_status := status\<rparr> else t) (transfers s)\<rparr>))"

section \<open>The blocks keep the ledger\<close>

lemma save_transfer_cong [simp]:
  "block_ok (save_transfer s i f) p = block_ok s p" "known (save_transfer s i f) w = known s w"
  "ledger_ok (save_transfer s i f) = ledger_ok s"
  by (simp_all add: save_transfer_def)

lemma set_first_deposit_cong [simp]:
  "block_ok (set_first_deposit n i s) p = block_ok s p" "known (set_first_deposit n i s) w = known s w"
  by (simp_all add: set_first_deposit_def)

lemma create_transfer_keeps:
  assumes "create_transfer s t = Inr (u, s')"
  shows "block_ok s' p = block_ok s p" and "known s' w = known s w" and "ledger_ok s' = ledger_ok s"
  using assms by (auto simp: create_transfer_def result_simps Let_def)

text \<open>The two sides of a booking.\<close>

definition pays :: "crypto_transfer \<Rightarrow> wallet \<Rightarrow> wallet \<Rightarrow> wallet" where
  "pays self wallet out_wallet = (if tf_deposit self then out_wallet else wallet)"

definition is_paid :: "crypto_transfer \<Rightarrow> wallet \<Rightarrow> wallet \<Rightarrow> wallet" where
  "is_paid self wallet out_wallet = (if tf_deposit self then wallet else out_wallet)"

lemma build_trx_steps:
  assumes "build_trx self s p = Inr (s', p')"
  obtains wallet out out_wallet t q where "wallet_row s (tf_wallet self) = Inr wallet" "out_account s = Inr out"
      "get_wallet s (w_asset wallet) out SPOT None None = (out_wallet, t)"
      "post p (pays self wallet out_wallet) (is_paid self wallet out_wallet) (tf_amount self) SC_TRANSFER (tf_group self) = Inr q"
      "if tf_fee self = 0 then s' = t \<and> p' = q
       else \<exists>system fee_wallet. system_account t = Inr system
         \<and> get_wallet t (w_asset wallet) system SPOT None None = (fee_wallet, s')
         \<and> post q (pays self wallet out_wallet) fee_wallet (tf_fee self) SC_COMMISSION (tf_group self) = Inr p'"
proof -
  from assms obtain wallet out where w: "wallet_row s (tf_wallet self) = Inr wallet" "out_account s = Inr out"
    by (auto simp: build_trx_def result_simps)
  obtain out_wallet t where g: "get_wallet s (w_asset wallet) out SPOT None None = (out_wallet, t)" by fastforce
  have "bindE (post p (pays self wallet out_wallet) (is_paid self wallet out_wallet) (tf_amount self) SC_TRANSFER (tf_group self)) (\<lambda>q.
       if tf_fee self \<noteq> 0
       then bindE (system_account t) (\<lambda>system.
            let (fee_wallet, t) = get_wallet t (w_asset wallet) system SPOT None None in
            bindE (post q (pays self wallet out_wallet) fee_wallet (tf_fee self) SC_COMMISSION (tf_group self)) (\<lambda>p. Inr (t, p)))
       else Inr (t, q)) = Inr (s', p')"
    using assms by (cases "tf_deposit self")
      (simp_all only: build_trx_def w g bindE_simps Let_def prod.case pays_def is_paid_def if_True if_False not_True_eq_False not_False_eq_True)
  then obtain q where q: "post p (pays self wallet out_wallet) (is_paid self wallet out_wallet) (tf_amount self) SC_TRANSFER (tf_group self) = Inr q"
    and rest: "(if tf_fee self \<noteq> 0
       then bindE (system_account t) (\<lambda>system.
            let (fee_wallet, t) = get_wallet t (w_asset wallet) system SPOT None None in
            bindE (post q (pays self wallet out_wallet) fee_wallet (tf_fee self) SC_COMMISSION (tf_group self)) (\<lambda>p. Inr (t, p)))
       else Inr (t, q)) = Inr (s', p')"
    by (rule bindE_InrE)
  from rest have "if tf_fee self = 0 then s' = t \<and> p' = q
       else \<exists>system fee_wallet. system_account t = Inr system
         \<and> get_wallet t (w_asset wallet) system SPOT None None = (fee_wallet, s')
         \<and> post q (pays self wallet out_wallet) fee_wallet (tf_fee self) SC_COMMISSION (tf_group self) = Inr p'"
    by (auto simp: result_simps Let_def split: prod.splits if_splits)
  with that w g q show thesis by blast
qed

lemma build_trx_keeps [block_intros]:
  assumes "build_trx self s p = Inr (s', p')" and "block_ok s p"
  shows "block_ok s' p'"
proof -
  from assms(1) obtain wallet out out_wallet t q where w: "wallet_row s (tf_wallet self) = Inr wallet"
    and g: "get_wallet s (w_asset wallet) out SPOT None None = (out_wallet, t)"
    and q: "post p (pays self wallet out_wallet) (is_paid self wallet out_wallet) (tf_amount self) SC_TRANSFER (tf_group self) = Inr q"
    and fee: "if tf_fee self = 0 then s' = t \<and> p' = q
       else \<exists>system fee_wallet. system_account t = Inr system
         \<and> get_wallet t (w_asset wallet) system SPOT None None = (fee_wallet, s')
         \<and> post q (pays self wallet out_wallet) fee_wallet (tf_fee self) SC_COMMISSION (tf_group self) = Inr p'"
    by (rule build_trx_steps)
  note inv = get_wallet_inv [OF g assms(2)]
  have "known s wallet" using w by (simp add: wallet_row_def known_found)
  then have k: "known t (pays self wallet out_wallet)" "known t (is_paid self wallet out_wallet)"
    using inv by (auto simp: pays_def is_paid_def)
  have bq: "block_ok t q" by (rule post_inv [OF q]) (use inv k in blast)+
  show ?thesis
  proof (cases "tf_fee self = 0")
    case False
    with fee obtain system fee_wallet where g2: "get_wallet t (w_asset wallet) system SPOT None None = (fee_wallet, s')"
      and p2: "post q (pays self wallet out_wallet) fee_wallet (tf_fee self) SC_COMMISSION (tf_group self) = Inr p'" by auto
    from get_wallet_inv [OF g2 bq] k p2 show ?thesis by (blast intro: post_inv)
  qed (use fee bq in simp)
qed

lemma accept_keeps:
  assumes "accept_body n i s p = Inr (u, s', p')" and "block_ok s p"
  shows "block_ok s' p'"
proof -
  let ?f = "\<lambda>t. t\<lparr>tf_status := TS_DONE, finished_datetime := Some n\<rparr>"
  from assms(1) consider "s' = s" "p' = p"
    | t q where "release_lock (save_transfer s i ?f) p (tf_group t) None = Inr q" "build_trx t (save_transfer s i ?f) q = Inr (s', p')"
    | t a where "build_trx t (set_first_deposit n a (save_transfer s i ?f)) p = Inr (s', p')"
    by (auto simp: accept_body_def result_simps Let_def split: if_splits)
  then show ?thesis
  proof cases
    case 2
    have "block_ok (save_transfer s i ?f) q" by (rule release_lock_inv [OF 2(1)]) (simp add: assms(2))
    with 2(2) show ?thesis by (rule build_trx_keeps)
  next
    case 3
    show ?thesis by (rule build_trx_keeps [OF 3]) (simp add: assms(2))
  qed (use assms(2) in simp)
qed

interpretation accepting: ledger_block "\<lambda>_. True" "accept_body n i" for n i
  by unfold_locales (rule accept_keeps)

interpretation rejecting: ledger_block "\<lambda>_. True" "reject_body n i" for n i
  by unfold_locales (auto simp: reject_body_def result_simps Let_def intro: release_lock_inv split: if_splits)

interpretation reverting: ledger_block "\<lambda>_. True" "revert_body g i" for g i
  by unfold_locales (auto simp: revert_body_def result_simps Let_def intro: revert_trx_group_keeps split: if_splits)

interpretation withdrawing: ledger_block "\<lambda>s. known s w" "withdraw_body t w x" for t w x
  by unfold_locales (auto simp: withdraw_body_def result_simps create_transfer_keeps intro: lock_balance_inv)

interpretation forwarding: ledger_block "\<lambda>s. known s a \<and> known s b" "fast_forward_body n a b d e nw x ad m g pu pi" for n a b d e nw x ad m g pu pi
  by unfold_locales (auto simp: fast_forward_body_def result_simps Let_def create_transfer_keeps intro: post_inv)

end
