(* ===== verification/Transfer_Requests.thy ===== *)
theory Transfer_Requests
  imports Transfers
begin

text \<open>
  Who moves transfers: the callbacks of the wallet service (\<^verbatim>\<open>ledger/views/deposit_transfer_request_view.py\<close>,
  \<^verbatim>\<open>withdraw_transfer_request_view.py\<close>), the task that sends withdrawals (\<^verbatim>\<open>ledger/tasks/withdraw.py\<close>), a
  user who cancels (\<^verbatim>\<open>withdraw_viewset.py\<close>), recovered deposits (\<^verbatim>\<open>deposit_recovery.py\<close>) and manual
  transactions (\<^verbatim>\<open>manual_transaction.py\<close>). A view has no transaction around it: its outcome is
  the state it leaves and its value or exception.
\<close>

section \<open>Tables\<close>

record recovery_request =
  rc_id :: nat
  rc_status :: transfer_status
  rc_user :: "account option"
  rc_asset :: "string option"
  rc_network :: "string option"
  rc_memo :: string
  rc_trx_hash :: string
  rc_amount :: decimal
  rc_receiver :: string
  rc_system_scope :: bool
  blocklink_id :: "int option"

datatype manual_type = MT_DEPOSIT | MT_WITHDRAW

record manual_transaction =
  mt_id :: nat
  mt_group :: nat
  mt_wallet :: nat
  mt_amount :: decimal
  mt_type :: manual_type
  mt_status :: transfer_status
  mt_allow_debt :: bool

record desk_db = transfer_db +
  recoveries :: "recovery_request list"
  manual_transactions :: "manual_transaction list"

section \<open>Deposits reported by the wallet service\<close>

record deposit_input =
  di_id :: "int option"
  di_network :: string
  di_sender :: string
  di_receiver :: string
  di_coin :: string
  di_memo :: "string option"
  di_status :: "transfer_status option"
  di_amount :: decimal
  di_trx_hash :: string
  di_block :: "int option"
  di_last_block :: "int option"

definition truncate_str :: "string \<Rightarrow> nat \<Rightarrow> string" where
  "truncate_str s n = (if n < length s then take (n - 3) s @ ''...'' else s)"

text \<open>The asset of a coin and how many of the coin it stands for.\<close>

definition deposited_asset :: "string \<Rightarrow> ('z) price_db_scheme \<Rightarrow> asset_row option \<times> decimal" where
  "deposited_asset coin s =
     (case List.find (\<lambda>a. as_symbol a = coin) (asset_rows s) of
        Some a \<Rightarrow> (Some a, 1)
      | None \<Rightarrow>
          (if coin = [] then (None, 1)
           else case List.find (\<lambda>a. as_original a = coin) (asset_rows s) of
                  Some a \<Rightarrow> (Some a, get_coin_multiplier a)
                | None \<Rightarrow> (None, 1)))"

definition recover_deposit ::
  "deposit_input \<Rightarrow> asset_row option \<Rightarrow> decimal \<Rightarrow> string \<Rightarrow> ('z) desk_db_scheme \<Rightarrow> ('z) desk_db_scheme" where
  "recover_deposit inp asset coin_mult memo s =
     (if \<exists>r\<in>set (recoveries s). blocklink_id r = di_id inp then s
      else s\<lparr>recoveries := recoveries s @
        [\<lparr>rc_id = fresh_id (map rc_id (recoveries s)), rc_status = TS_PROCESS, rc_user = None,
          rc_asset = map_option as_symbol asset, rc_network = Some (di_network inp), rc_memo = truncate_str memo 64,
          rc_trx_hash = di_trx_hash inp, rc_amount = di_amount inp / coin_mult, rc_receiver = di_receiver inp,
          rc_system_scope = True, blocklink_id = di_id inp\<rparr>]\<rparr>)"

definition key_of :: "('z) transfer_db_scheme \<Rightarrow> deposit_address \<Rightarrow> address_key option" where
  "key_of s d = List.find (\<lambda>k. ak_id k = da_key d) (address_keys s)"

definition receiving_address ::
  "network \<Rightarrow> string \<Rightarrow> string \<Rightarrow> address_key \<Rightarrow> ('z) transfer_db_scheme \<Rightarrow> (('z) transfer_db_scheme, deposit_address) outcome" where
  "receiving_address network receiver_address memo key s =
     (case List.find (\<lambda>d. da_network d = nw_symbol network \<and> da_address d = receiver_address
                       \<and> map_option ak_memo (key_of s d) = Some memo) (deposit_addresses s) of
        Some d \<Rightarrow> (if map_option ak_deleted (key_of s d) = Some True then (s, Inl ValidationErr) else (s, Inr d))
      | None \<Rightarrow>
          (case List.find (\<lambda>d. da_address d = receiver_address \<and> da_network d = nw_symbol network) (deposit_addresses s) of
             Some d \<Rightarrow> (s, Inr d)
           | None \<Rightarrow> (let (d, s) = create_deposit_address (nw_symbol network) receiver_address (ak_id key) s in (s, Inr d))))"

definition valid_deposit_transitions :: "(transfer_status \<times> transfer_status) list" where
  "valid_deposit_transitions = [(TS_PENDING, TS_DONE), (TS_PENDING, TS_CANCELED)]"

text \<open>\<^verbatim>\<open>order_by('-created').first()\<close>\<close>

definition newest :: "crypto_transfer list \<Rightarrow> crypto_transfer option" where
  "newest ts = (case ts of [] \<Rightarrow> None | t # ts \<Rightarrow> Some (foldl (\<lambda>a b. if tf_created a < tf_created b then b else a) t ts))"

definition create_deposit ::
  "('y) transfer_env_scheme \<Rightarrow> deposit_input \<Rightarrow> asset_row \<Rightarrow> decimal \<Rightarrow> string \<Rightarrow> network_asset \<Rightarrow> wallet \<Rightarrow> deposit_address
     \<Rightarrow> ('z) transfer_db_scheme \<Rightarrow> (crypto_transfer \<times> ('z) transfer_db_scheme) result" where
  "create_deposit env inp asset coin_mult memo network_asset wallet address s =
     (let amount = di_amount inp / coin_mult in
      bindE (guardE ValidationErr (\<not> (deposit_min network_asset \<noteq> 0 \<and> amount < deposit_min network_asset))) (\<lambda>_.
      bindE (get_last_price env s (as_symbol asset @ ''USDT'')) (\<lambda>price_usdt.
      bindE (get_last_price env s (as_symbol asset @ ''IRT'')) (\<lambda>price_irt.
      bindE (the_or TypeErr price_usdt) (\<lambda>price_usdt.
      bindE (the_or TypeErr price_irt) (\<lambda>price_irt.
      let (g, s) = uuid4 s in
      create_transfer s ((new_transfer (now env) g (di_network inp) (w_id wallet) amount True)
        \<lparr>tf_deposit_address := Some (da_id address), trx_hash := Some (di_trx_hash inp), out_address := di_sender inp,
         tf_usdt_value := amount * price_usdt, tf_irt_value := amount * price_irt, tf_memo := memo,
         block_number := di_block inp, last_block_number := di_last_block inp\<rparr>)))))))"

definition settle_deposit ::
  "('y) transfer_env_scheme \<Rightarrow> network \<Rightarrow> network_asset \<Rightarrow> transfer_status \<Rightarrow> nat \<Rightarrow> ('z) transfer_db_scheme
     \<Rightarrow> (('z) transfer_db_scheme, nat) outcome" where
  "settle_deposit env network network_asset status i s =
     (let (status, description) =
            (if \<not> can_deposit_enabled network network_asset True
             then (TS_INIT, ''init reason: provider deposit is not enable!'')
             else if \<not> verify_crypto_deposit env then (TS_INIT, ''init reason: crypto verify failed!'')
             else (status, [])) in
      next_step (attempt s (change_transfer_status (now env) i status s)) (\<lambda>_ s.
      (if description \<noteq> [] then save_transfer s i (\<lambda>t. t\<lparr>tf_comment := description\<rparr>) else s, Inr i)))"

definition report_deposit ::
  "('y) transfer_env_scheme \<Rightarrow> deposit_input \<Rightarrow> ('z) desk_db_scheme \<Rightarrow> (('z) desk_db_scheme, nat) outcome" where
  "report_deposit env inp s =
     next_step (look s (network_row s (di_network inp))) (\<lambda>network s.
     let (asset, coin_mult) = deposited_asset (di_coin inp) s;
         need_memo = deposit_need_memo network;
         memo = (if need_memo then (case di_memo inp of Some m \<Rightarrow> m | None \<Rightarrow> []) else []);
         address_key = List.find (\<lambda>k. (\<not> need_memo \<or> ak_memo k = memo) \<and> ak_address k = di_receiver inp
                          \<and> architecture k = network_arch env (nw_symbol network) \<and> \<not> ak_deleted k) (address_keys s) in
     if need_memo \<and> (memo = [] \<or> address_key = None)
     then (if di_status inp = Some TS_DONE \<and> di_id inp \<noteq> None \<and> di_id inp \<noteq> Some 0
           then recover_deposit inp asset coin_mult memo s else s, Inl ValidationErr)
     else
       next_step (look s (the_or NotFound address_key)) (\<lambda>key s.
       next_step (receiving_address network (di_receiver inp) memo key s) (\<lambda>address s.
       next_step (look s (the_or ValidationErr asset)) (\<lambda>asset s.
       next_step (look s (the_or DoesNotExist (key_of s address))) (\<lambda>owner s.
       let (wallet, s) = get_wallet s (as_symbol asset) (ak_account owner) SPOT None None in
       next_step (look s (the_or NotFound (List.find (\<lambda>a. na_asset a = as_symbol asset \<and> na_network a = nw_symbol network)
                                             (network_assets s)))) (\<lambda>network_asset s.
       next_step (look s (guardE ValidationErr (can_deposit_enabled network network_asset False))) (\<lambda>_ s.
       next_step (look s (case di_status inp of
                            Some st \<Rightarrow> if st \<in> {TS_PENDING, TS_DONE, TS_CANCELED} then Inr st else Inl ValidationErr
                          | None \<Rightarrow> Inl ValidationErr)) (\<lambda>status s.
       case newest (filter (\<lambda>t. tf_network t = nw_symbol network \<and> trx_hash t = Some (di_trx_hash inp) \<and> tf_deposit t
                               \<and> tf_deposit_address t = Some (da_id address)) (transfers s)) of
         Some transfer \<Rightarrow>
           if tf_status transfer = status
           then (save_transfer s (tf_id transfer) (\<lambda>t. t\<lparr>block_number := di_block inp, last_block_number := di_last_block inp\<rparr>),
                 Inr (tf_id transfer))
           else if (tf_status transfer, status) \<notin> set valid_deposit_transitions then (s, Inl ValidationErr)
           else settle_deposit env network network_asset status (tf_id transfer) s
       | None \<Rightarrow>
           next_step (attempt s (create_deposit env inp asset coin_mult memo network_asset wallet address s)) (\<lambda>transfer s.
           settle_deposit env network network_asset status (tf_id transfer) s)))))))))"

section \<open>Withdrawals reported by the wallet service\<close>

datatype reported_status = RS_STATUS transfer_status | RS_TERMINATE

definition valid_withdraw_transitions :: "(transfer_status \<times> transfer_status) list" where
  "valid_withdraw_transitions =
     [(TS_PENDING, TS_PENDING), (TS_PENDING, TS_DONE), (TS_PENDING, TS_CANCELED), (TS_PROCESS, TS_DONE), (TS_PROCESS, TS_CANCELED)]"

definition report_withdraw ::
  "int \<Rightarrow> nat \<Rightarrow> reported_status \<Rightarrow> string option \<Rightarrow> int option \<Rightarrow> int option \<Rightarrow> ('z) transfer_db_scheme
     \<Rightarrow> (('z) transfer_db_scheme, nat) outcome" where
  "report_withdraw now' i reported hash block last_block s =
     next_step (look s (the_or NotFound (List.find (\<lambda>t. tf_id t = i) (transfers s)))) (\<lambda>transfer s.
     let s = save_transfer s i (\<lambda>t. t\<lparr>block_number := block, last_block_number := last_block\<rparr>) in
     next_step (look s (case reported of
                          RS_TERMINATE \<Rightarrow> Inr TS_CANCELED
                        | RS_STATUS st \<Rightarrow> if st \<in> {TS_PROCESS, TS_PENDING, TS_DONE} then Inr st else Inl ValidationErr)) (\<lambda>status s.
     next_step (look s (guardE ValidationErr (tf_source transfer = BY_SELF))) (\<lambda>_ s.
     if tf_status transfer = status \<and> status \<noteq> TS_PENDING then (s, Inr i)
     else
       next_step (look s (guardE ValidationErr ((tf_status transfer, status) \<in> set valid_withdraw_transitions))) (\<lambda>_ s.
       let u = save_transfer s i (\<lambda>t. t\<lparr>trx_hash := hash\<rparr>) in
       next_step (attempt s (bindE (guardE IntegrityError (\<forall>t\<in>set (transfers u). tf_id t = i \<longrightarrow>
                                      (\<forall>t'\<in>set (transfers u). \<not> transfers_clash t t'))) (\<lambda>_. Inr ((), u)))) (\<lambda>_ s.
       next_step (attempt s (change_transfer_status now' i status s)) (\<lambda>_ s. (s, Inr i)))))))"

section \<open>Sending withdrawals\<close>

text \<open>The call of the wallet service and its answer.\<close>

record withdraw_call =
  wc_receiver :: string
  wc_amount :: decimal
  wc_network :: string
  wc_coin :: string
  wc_id :: nat
  wc_memo :: string

record blocklink_response =
  br_ok :: bool
  br_status :: nat
  br_type :: string

definition change_to_manual :: "crypto_transfer \<Rightarrow> ('z) transfer_db_scheme \<Rightarrow> ('z) transfer_db_scheme" where
  "change_to_manual transfer s =
     (if tf_source transfer = BY_MANUAL then s else save_transfer s (tf_id transfer) (\<lambda>t. t\<lparr>tf_source := BY_MANUAL\<rparr>))"

text \<open>What the answer of the wallet service does to the transfer.\<close>

definition after_response ::
  "int \<Rightarrow> crypto_transfer \<Rightarrow> withdraw_call \<Rightarrow> blocklink_response \<Rightarrow> ('z) transfer_db_scheme
     \<Rightarrow> (withdraw_call option \<times> ('z) transfer_db_scheme) result" where
  "after_response now' transfer call response s =
     (let pending = save_transfer s (tf_id transfer) (\<lambda>t. t\<lparr>tf_status := TS_PENDING\<rparr>) in
      if br_ok response then Inr (Some call, pending)
      else if br_status response = 403 \<or> 500 \<le> br_status response then Inr (Some call, s)
      else if br_status response = 400 \<and> br_type response = ''Invalid''
      then bindE (reject now' (tf_id transfer) s) (\<lambda>(_, s). Inr (Some call, s))
      else if br_status response = 400 \<and> br_type response = ''NotHandled''
      then Inr (Some call, change_to_manual transfer s)
      else Inr (Some call, pending))"

definition create_withdraw ::
  "('y) transfer_env_scheme \<Rightarrow> (withdraw_call \<Rightarrow> blocklink_response) \<Rightarrow> nat \<Rightarrow> ('z) transfer_db_scheme
     \<Rightarrow> (withdraw_call option \<times> ('z) transfer_db_scheme) result" where
  "create_withdraw env respond i s =
     bindE (transfer_row s i) (\<lambda>transfer.
     if \<not> verify_crypto_withdraw env \<or> in_freeze_time (now env) transfer \<or> tf_source transfer \<noteq> BY_SELF
        \<or> tf_status transfer \<noteq> TS_PROCESS
     then Inr (None, s)
     else
       bindE (wallet_row s (tf_wallet transfer)) (\<lambda>w.
       bindE (asset_get s (w_asset w)) (\<lambda>asset.
       let coin_mult = get_coin_multiplier asset in
       bindE (assertE (coin_mult = 1 \<or> as_symbol asset \<noteq> as_original asset \<and> as_original asset \<noteq> [])) (\<lambda>_.
       let call = \<lparr>wc_receiver = out_address transfer, wc_amount = tf_amount transfer * coin_mult,
                   wc_network = tf_network transfer, wc_coin = get_original_symbol asset, wc_id = i, wc_memo = tf_memo transfer\<rparr>
       in after_response (now env) transfer call (respond call) s))))"

text \<open>The transfers for which \<^verbatim>\<open>update_withdraws\<close> queues \<^verbatim>\<open>create_withdraw\<close>.\<close>

definition due_withdraws :: "('y) transfer_env_scheme \<Rightarrow> ('z) transfer_db_scheme \<Rightarrow> nat list" where
  "due_withdraws env s =
     (if \<not> verify_crypto_withdraw env then []
      else map tf_id (filter (\<lambda>t. \<not> tf_deposit t \<and> tf_source t = BY_SELF \<and> tf_status t = TS_PROCESS
                                \<and> tf_created t \<le> now env - FREEZE_SECONDS) (transfers s)))"

text \<open>The provider's answer: \<open>None\<close> for a success, else the status code.\<close>

definition handle_provider_withdraw ::
  "(crypto_transfer \<Rightarrow> nat option) \<Rightarrow> nat \<Rightarrow> ('z) transfer_db_scheme \<Rightarrow> (unit \<times> ('z) transfer_db_scheme) result" where
  "handle_provider_withdraw respond i s =
     bindE (transfer_row s i) (\<lambda>transfer.
     bindE (assertE (\<not> tf_deposit transfer)) (\<lambda>_.
     bindE (assertE (tf_source transfer = BY_PROVIDER)) (\<lambda>_.
     bindE (assertE (tf_status transfer = TS_PROCESS)) (\<lambda>_.
     case respond transfer of
       Some code \<Rightarrow> Inr ((), if code = 400 then change_to_manual transfer s else s)
     | None \<Rightarrow> Inr ((), save_transfer s i (\<lambda>t. t\<lparr>tf_status := TS_PENDING\<rparr>))))))"

text \<open>A user cancels a withdrawal.\<close>

definition cancel_withdraw ::
  "int \<Rightarrow> account \<Rightarrow> nat \<Rightarrow> ('z) transfer_db_scheme \<Rightarrow> (unit \<times> ('z) transfer_db_scheme) result" where
  "cancel_withdraw now' account i s =
     bindE (the_or NotFound (List.find (\<lambda>t. tf_id t = i \<and> \<not> tf_deposit t \<and> account_wallet s account (tf_wallet t)) (transfers s)))
       (\<lambda>transfer.
     bindE (guardE ValidationErr (tf_status transfer = TS_INIT \<or> in_freeze_time now' transfer)) (\<lambda>_.
     reject now' i s))"

section \<open>Recovered deposits\<close>

definition recovery_row :: "('z) desk_db_scheme \<Rightarrow> nat \<Rightarrow> recovery_request result" where
  "recovery_row s i = the_or DoesNotExist (List.find (\<lambda>r. rc_id r = i) (recoveries s))"

definition save_recovery :: "('z) desk_db_scheme \<Rightarrow> nat \<Rightarrow> transfer_status \<Rightarrow> ('z) desk_db_scheme" where
  "save_recovery s i st = s\<lparr>recoveries := map (\<lambda>r. if rc_id r = i then r\<lparr>rc_status := st\<rparr> else r) (recoveries s)\<rparr>"

definition verify_recovery :: "recovery_request \<Rightarrow> ('z) desk_db_scheme \<Rightarrow> bool \<times> ('z) desk_db_scheme" where
  "verify_recovery self s =
     (if rc_status self \<noteq> TS_PROCESS then (True, s)
      else if rc_trx_hash self = [] then (False, s)
      else if \<exists>t\<in>set (transfers s). trx_hash t = Some (rc_trx_hash self) \<and> tf_deposit t \<and> tf_status t \<noteq> TS_CANCELED
      then (False, s)
      else (True, save_recovery s (rc_id self) TS_PENDING))"

definition recovery_transfer ::
  "('y) transfer_env_scheme \<Rightarrow> nat \<Rightarrow> ('z) desk_db_scheme \<Rightarrow> (unit \<times> ('z) desk_db_scheme) result" where
  "recovery_transfer env i s =
     bindE (recovery_row s i) (\<lambda>recovery.
     if rc_status recovery \<notin> {TS_PROCESS, TS_PENDING} \<or> rc_trx_hash recovery = [] then Inr ((), s)
     else
       let s = save_recovery s i TS_DONE in
       bindE (the_or AttributeErr (rc_asset recovery)) (\<lambda>asset.
       bindE (the_or AttributeErr (rc_user recovery)) (\<lambda>account.
       let (wallet, s) = get_wallet s asset account SPOT None None in
       bindE (price_or_zero env s (asset @ ''USDT'')) (\<lambda>price_usdt.
       bindE (price_or_zero env s (asset @ ''IRT'')) (\<lambda>price_irt.
       bindE (the_or IntegrityError (rc_network recovery)) (\<lambda>network.
       let (g, s) = uuid4 s in
       bindE (create_transfer s ((new_transfer (now env) g network (w_id wallet) (rc_amount recovery) True)
                \<lparr>tf_memo := rc_memo recovery, tf_source := BY_MANUAL, tf_usdt_value := rc_amount recovery * price_usdt,
                 tf_irt_value := rc_amount recovery * price_irt, trx_hash := Some (rc_trx_hash recovery)\<rparr>)) (\<lambda>(t, s).
       accept (now env) (tf_id t) s)))))))"

section \<open>Manual transactions\<close>

definition save_manual :: "('z) desk_db_scheme \<Rightarrow> nat \<Rightarrow> transfer_status \<Rightarrow> ('z) desk_db_scheme" where
  "save_manual s i st =
     s\<lparr>manual_transactions := map (\<lambda>m. if mt_id m = i then m\<lparr>mt_status := st\<rparr> else m) (manual_transactions s)\<rparr>"

definition manual_body ::
  "manual_transaction \<Rightarrow> transfer_status \<Rightarrow> ('z) desk_db_scheme \<Rightarrow> pipeline
     \<Rightarrow> (unit \<times> ('z) desk_db_scheme \<times> pipeline) result" where
  "manual_body self status s p =
     bindE (if mt_status self \<noteq> TS_DONE \<and> status = TS_DONE
            then
              bindE (wallet_row s (mt_wallet self)) (\<lambda>wallet.
              bindE (system_account s) (\<lambda>system.
              let (system_wallet, s) = get_wallet s (w_asset wallet) system SPOT None None in
              case mt_type self of
                MT_DEPOSIT \<Rightarrow>
                  bindE (post p system_wallet wallet (mt_amount self) SC_MANUAL (mt_group self)) (\<lambda>p. Inr (s, p))
              | MT_WITHDRAW \<Rightarrow>
                  (let sender_free = get_free wallet in
                   if mt_allow_debt self \<and> sender_free < mt_amount self
                   then (let (debt, s) = get_wallet s (w_asset wallet) (w_account wallet) DEBT None None in
                         bindE (post p debt system_wallet (mt_amount self - sender_free) SC_MANUAL (mt_group self)) (\<lambda>p.
                         bindE (post p wallet system_wallet sender_free SC_MANUAL (mt_group self)) (\<lambda>p. Inr (s, p))))
                   else bindE (post p wallet system_wallet (mt_amount self) SC_MANUAL (mt_group self)) (\<lambda>p. Inr (s, p)))))
            else Inr (s, p)) (\<lambda>(s, p).
     Inr ((), save_manual s (mt_id self) status, p))"

definition change_manual_status ::
  "manual_transaction \<Rightarrow> transfer_status \<Rightarrow> ('z) desk_db_scheme \<Rightarrow> (unit \<times> ('z) desk_db_scheme) result" where
  "change_manual_status self status s =
     (if mt_status self = TS_DONE \<and> status \<noteq> TS_DONE then Inr ((), s)
      else with_pipeline (manual_body self status) s)"

end
