(* ===== verification/Withdraw_Locks.thy ===== *)
theory Withdraw_Locks
  imports Transfer_Requests
begin

text \<open>
  The locks of withdrawals: an open withdrawal is covered by a lock of exactly its amount and
  fee, a closed one locks nothing (\<open>transfers_ok\<close>). Here the invariant and what one change of a
  row, one booking and one execution do to it; that every operation keeps it is shown in
  \<open>Transfer_Properties\<close>.
\<close>

section \<open>The locks of withdrawals\<close>

definition is_open :: "crypto_transfer \<Rightarrow> bool" where
  "is_open t \<longleftrightarrow> tf_status t \<in> {TS_INIT, TS_PROCESS, TS_PENDING}"

definition lock_of :: "balance_lock list \<Rightarrow> nat \<Rightarrow> balance_lock option" where
  "lock_of ls k = List.find (\<lambda>l. lk_key l = k) ls"

definition covered_by :: "balance_lock list \<Rightarrow> crypto_transfer \<Rightarrow> bool" where
  "covered_by ls t \<longleftrightarrow> (case lock_of ls (tf_group t) of None \<Rightarrow> False
     | Some l \<Rightarrow> lk_wallet l = tf_wallet t \<and> lk_amount l = total_amount t)"

definition locks_nothing :: "balance_lock list \<Rightarrow> crypto_transfer \<Rightarrow> bool" where
  "locks_nothing ls t \<longleftrightarrow> (case lock_of ls (tf_group t) of None \<Rightarrow> True | Some l \<Rightarrow> lk_amount l = 0)"

definition withdraws_ok :: "crypto_transfer list \<Rightarrow> balance_lock list \<Rightarrow> nat \<Rightarrow> bool" where
  "withdraws_ok ts ls n \<longleftrightarrow> distinct (map tf_id ts) \<and> (\<forall>t\<in>set ts. tf_group t < n) \<and> (\<forall>l\<in>set ls. lk_key l < n)
     \<and> distinct (map tf_group (filter (\<lambda>t. \<not> tf_deposit t) ts))
     \<and> (\<forall>t\<in>set ts. \<not> tf_deposit t \<longrightarrow> (if is_open t then covered_by ls t else locks_nothing ls t))"

definition checked_rows :: "('z) ledger_scheme \<Rightarrow> bool" where
  "checked_rows s \<longleftrightarrow> (\<forall>w\<in>set (wallets s). acc_type (w_account w) = ORDINARY \<longrightarrow> check_balance w)"

definition transfers_ok :: "('z) transfer_db_scheme \<Rightarrow> bool" where
  "transfers_ok s \<longleftrightarrow> ledger_ok s \<and> checked_rows s \<and> withdraws_ok (transfers s) (locks s) (uuids s)"

text \<open>A row changes without opening or closing.\<close>

definition same_hold :: "crypto_transfer \<Rightarrow> crypto_transfer \<Rightarrow> bool" where
  "same_hold t u \<longleftrightarrow> tf_id u = tf_id t \<and> tf_group u = tf_group t \<and> tf_deposit u = tf_deposit t \<and> tf_wallet u = tf_wallet t
     \<and> tf_amount u = tf_amount t \<and> tf_fee u = tf_fee t"

lemma withdraw_groups:
  assumes "\<And>t. same_hold t (f t)"
  shows "map tf_id (map f ts) = map tf_id ts"
    and "map tf_group (filter (\<lambda>t. \<not> tf_deposit t) (map f ts)) = map tf_group (filter (\<lambda>t. \<not> tf_deposit t) ts)"
  using assms by (induction ts) (auto simp: same_hold_def)

lemma same_hold_locks:
  assumes "same_hold t u"
  shows "covered_by ls u = covered_by ls t" and "locks_nothing ls u = locks_nothing ls t"
proof -
  have "tf_group u = tf_group t" "tf_wallet u = tf_wallet t" "total_amount u = total_amount t"
    using assms by (simp_all add: same_hold_def total_amount_def)
  then show "covered_by ls u = covered_by ls t" "locks_nothing ls u = locks_nothing ls t"
    by (simp_all only: covered_by_def locks_nothing_def)
qed

lemma withdraws_ok_rows:
  assumes "withdraws_ok ts ls n" and "\<And>t. same_hold t (f t)"
    and "\<And>t. t \<in> set ts \<Longrightarrow> \<not> tf_deposit t \<Longrightarrow> is_open (f t) = is_open t"
  shows "withdraws_ok (map f ts) ls n"
proof -
  have h: "tf_group (f t) = tf_group t" "tf_deposit (f t) = tf_deposit t" for t using assms(2) by (simp_all add: same_hold_def)
  have "\<forall>u\<in>set (map f ts). tf_group u < n" using assms(1) h by (simp add: withdraws_ok_def)
  moreover have "\<forall>u\<in>set (map f ts). \<not> tf_deposit u \<longrightarrow> (if is_open u then covered_by ls u else locks_nothing ls u)"
    using assms(1,3) h same_hold_locks [OF assms(2)] by (simp add: withdraws_ok_def)
  moreover have "distinct (map tf_id (map f ts))" "\<forall>l\<in>set ls. lk_key l < n"
    "distinct (map tf_group (filter (\<lambda>t. \<not> tf_deposit t) (map f ts)))"
    using assms(1) unfolding withdraw_groups [OF assms(2)] by (simp_all add: withdraws_ok_def)
  ultimately show ?thesis unfolding withdraws_ok_def by blast
qed

lemma lock_of_map:
  "(\<And>l. lk_key (h l) = lk_key l) \<Longrightarrow> lock_of (map h ls) k = map_option h (lock_of ls k)"
  by (simp add: lock_of_def find_map_key)

lemma lock_ofD: "lock_of ls k = Some l \<Longrightarrow> l \<in> set ls \<and> lk_key l = k"
  by (auto simp: lock_of_def dest: find_SomeD)

text \<open>A withdrawal is closed and its lock emptied.\<close>

definition empty_lock :: "nat \<Rightarrow> balance_lock \<Rightarrow> balance_lock" where
  "empty_lock g l = (if lk_key l = g then l\<lparr>lk_amount := 0\<rparr> else l)"

lemma withdraws_ok_close:
  assumes "withdraws_ok ts ls n" and "t \<in> set ts" and "\<not> tf_deposit t" and "\<And>t. same_hold t (f t)" and "\<not> is_open (f t)"
  shows "withdraws_ok (map (\<lambda>u. if tf_id u = tf_id t then f u else u) ts) (map (empty_lock (tf_group t)) ls) n"
proof -
  let ?f = "\<lambda>u. if tf_id u = tf_id t then f u else u" and ?h = "empty_lock (tf_group t)"
  have hold: "same_hold u (?f u)" for u using assms(4) by (simp add: same_hold_def)
  have lk: "lock_of (map ?h ls) k = map_option ?h (lock_of ls k)" for k
    by (rule lock_of_map) (simp add: empty_lock_def)
  have d: "distinct (map tf_id ts)" "distinct (map tf_group (filter (\<lambda>t. \<not> tf_deposit t) ts))"
    using assms(1) by (simp_all add: withdraws_ok_def)
  have other: "tf_group u \<noteq> tf_group t" if "u \<in> set ts" "\<not> tf_deposit u" "tf_id u \<noteq> tf_id t" for u
    using d(2) that assms(2,3) by (auto simp: distinct_map dest: inj_onD)
  have same: "u = t" if "u \<in> set ts" "tf_id u = tf_id t" for u
    using d(1) that assms(2) by (meson distinct_map inj_onD)
  have key: "lk_key l = k" if "lock_of ls k = Some l" for l k using lock_ofD [OF that] by simp
  have hold2: "if is_open (?f u) then covered_by (map ?h ls) (?f u) else locks_nothing (map ?h ls) (?f u)"
    if u: "u \<in> set ts" "\<not> tf_deposit u" for u
  proof (cases "tf_id u = tf_id t")
    case True
    with same u have "u = t" by blast
    with assms(5) hold [of t] show ?thesis
      by (auto simp: locks_nothing_def lk same_hold_def empty_lock_def dest: key split: option.split)
  next
    case False
    with other u have g: "tf_group u \<noteq> tf_group t" by blast
    have "map_option ?h (lock_of ls (tf_group u)) = lock_of ls (tf_group u)"
      using key [of "tf_group u"] g by (cases "lock_of ls (tf_group u)") (auto simp: empty_lock_def)
    then have "covered_by (map ?h ls) u = covered_by ls u" "locks_nothing (map ?h ls) u = locks_nothing ls u"
      by (simp_all add: covered_by_def locks_nothing_def lk)
    with False u assms(1) show ?thesis by (simp add: withdraws_ok_def)
  qed
  have "\<forall>u\<in>set (map ?f ts). tf_group u < n" "\<forall>l\<in>set (map ?h ls). lk_key l < n"
    using assms(1) assms(4) by (auto simp: withdraws_ok_def same_hold_def empty_lock_def)
  moreover have "\<forall>v\<in>set (map ?f ts). \<not> tf_deposit v \<longrightarrow>
      (if is_open v then covered_by (map ?h ls) v else locks_nothing (map ?h ls) v)"
  proof (intro ballI impI)
    fix v assume "v \<in> set (map ?f ts)" and v: "\<not> tf_deposit v"
    then obtain u where u: "u \<in> set ts" "v = ?f u" by auto
    from v hold [of u] have "\<not> tf_deposit u" unfolding u(2) same_hold_def by simp
    from hold2 [OF u(1) this] show "if is_open v then covered_by (map ?h ls) v else locks_nothing (map ?h ls) v"
      unfolding u(2) .
  qed
  moreover have "distinct (map tf_id (map ?f ts))" "distinct (map tf_group (filter (\<lambda>t. \<not> tf_deposit t) (map ?f ts)))"
    using d unfolding withdraw_groups [OF hold] by simp_all
  ultimately show ?thesis unfolding withdraws_ok_def by blast
qed

text \<open>A new transfer comes with a fresh group, and an open withdrawal with its lock.\<close>

lemma lock_of_append: "lock_of (ls @ ms) k = (case lock_of ls k of Some l \<Rightarrow> Some l | None \<Rightarrow> lock_of ms k)"
  by (simp add: lock_of_def find_append split: option.split)

lemma lock_of_fresh: "\<forall>l\<in>set ls. lk_key l < n \<Longrightarrow> lock_of ls n = None"
  by (auto simp: lock_of_def find_None_iff')

lemma withdraws_ok_append:
  assumes "withdraws_ok ts ls n" and "tf_id t \<notin> set (map tf_id ts)" and "tf_group t = n"
    and "ms = [] \<and> (tf_deposit t \<or> \<not> is_open t)
      \<or> (\<exists>l. ms = [l] \<and> lk_key l = n \<and> lk_wallet l = tf_wallet t \<and> lk_amount l = total_amount t \<and> is_open t)"
  shows "withdraws_ok (ts @ [t]) (ls @ ms) (Suc n)"
proof -
  have f: "lock_of ls n = None" using assms(1) by (intro lock_of_fresh) (simp add: withdraws_ok_def)
  have old: "lock_of (ls @ ms) (tf_group u) = lock_of ls (tf_group u)" if "u \<in> set ts" for u
  proof -
    have "tf_group u < n" using assms(1) that by (simp add: withdraws_ok_def)
    then have "lock_of ms (tf_group u) = None" using assms(4) by (auto simp: lock_of_def)
    then show ?thesis by (simp add: lock_of_append split: option.split)
  qed
  have new: "\<not> tf_deposit t \<longrightarrow> (if is_open t then covered_by (ls @ ms) t else locks_nothing (ls @ ms) t)"
    using assms(3,4) f by (auto simp: covered_by_def locks_nothing_def lock_of_append) (auto simp: lock_of_def)
  have "\<forall>u\<in>set ts. \<not> tf_deposit u \<longrightarrow> (if is_open u then covered_by (ls @ ms) u else locks_nothing (ls @ ms) u)"
    using assms(1) old by (auto simp: withdraws_ok_def covered_by_def locks_nothing_def)
  with new assms show ?thesis by (auto simp: withdraws_ok_def less_Suc_eq)
qed

section \<open>What the operations do to the tables\<close>

lemma transfer_tables:
  assumes "ledger.more s' = ledger.more s"
  shows "transfers s' = transfers s" and "uuids s' = uuids s" and "network_assets s' = network_assets s"
    and "users s' = users s" and "asset_rows s' = asset_rows s" and "address_keys s' = address_keys s"
  using assms by (cases s, cases s', simp)+

lemma checked_get_wallet: "get_wallet s x a m v e = (w, s') \<Longrightarrow> checked_rows s \<Longrightarrow> checked_rows s'"
  by (auto simp: checked_rows_def get_wallet_def get_or_create_wallet_def Let_def split: option.splits)

lemma get_wallet_transfers:
  assumes "get_wallet s x a m v e = (w, s')"
  shows "transfers s' = transfers s" and "uuids s' = uuids s" and "locks s' = locks s"
    and "checked_rows s \<Longrightarrow> checked_rows s'"
  using transfer_tables [OF get_wallet_more [OF assms]] get_wallet_trxs [OF assms] checked_get_wallet [OF assms] by auto

lemma get_wallet_transfers_ok: "get_wallet s x a m v e = (w, s') \<Longrightarrow> transfers_ok s \<Longrightarrow> transfers_ok s'"
  using get_wallet_transfers [of s x a m v e w s'] get_wallet_ok(1) [of s x a m v e w s'] by (simp add: transfers_ok_def)

lemma execute_transfers_ok:
  assumes "execute t p = Inr s'" and "block_ok t p" and "checked_rows t"
    and "withdraws_ok (transfers t) (map (\<lambda>l. upd_lock (dd_get (locks_amount p) (lk_key l)) l) (locks t) @ p_locks p) (uuids t)"
  shows "transfers_ok s'"
proof -
  note s' = execute_ok [OF assms(1,2)]
  have "transfers s' = transfers t" "uuids s' = uuids t"
    using transfer_tables execute_more [OF assms(1)] by blast+
  moreover have "checked_rows s'" using assms(3) by (auto simp: checked_rows_def s'(2) posted_simps)
  ultimately show ?thesis using s' assms(4) by (simp add: transfers_ok_def posted_simps)
qed

lemma post_locks:
  assumes "post p a b x sc g = Inr p'"
  shows "p_locks p' = p_locks p" and "locks_amount p' = locks_amount p"
  using assms by (auto simp: post_def new_trx_def Let_def result_simps split: if_splits)

lemma build_trx_tables:
  assumes "build_trx self s p = Inr (s', p')"
  shows "transfers s' = transfers s \<and> uuids s' = uuids s \<and> locks s' = locks s \<and> (checked_rows s \<longrightarrow> checked_rows s')
    \<and> p_locks p' = p_locks p \<and> locks_amount p' = locks_amount p"
proof -
  from assms obtain wallet out out_wallet t q where
    g: "get_wallet s (w_asset wallet) out SPOT None None = (out_wallet, t)"
    and q: "post p (pays self wallet out_wallet) (is_paid self wallet out_wallet) (tf_amount self) SC_TRANSFER (tf_group self) = Inr q"
    and fee: "if tf_fee self = 0 then s' = t \<and> p' = q
       else \<exists>system fee_wallet. system_account t = Inr system
         \<and> get_wallet t (w_asset wallet) system SPOT None None = (fee_wallet, s')
         \<and> post q (pays self wallet out_wallet) fee_wallet (tf_fee self) SC_COMMISSION (tf_group self) = Inr p'"
    by (rule build_trx_steps)
  note 1 = get_wallet_transfers [OF g] post_locks [OF q]
  show ?thesis
  proof (cases "tf_fee self = 0")
    case False
    with fee obtain system fee_wallet where g2: "get_wallet t (w_asset wallet) system SPOT None None = (fee_wallet, s')"
      and p2: "post q (pays self wallet out_wallet) fee_wallet (tf_fee self) SC_COMMISSION (tf_group self) = Inr p'" by auto
    from get_wallet_transfers [OF g2] post_locks [OF p2] 1 show ?thesis by simp
  qed (use fee 1 in simp)
qed

lemma revert_tables:
  assumes "revert_trx_group g d s p = Inr (s', p')"
  shows "transfers s' = transfers s \<and> uuids s' = uuids s \<and> locks s' = locks s \<and> (checked_rows s \<longrightarrow> checked_rows s')
    \<and> p_locks p' = p_locks p \<and> locks_amount p' = locks_amount p"
proof -
  have step: "transfers s' = transfers t \<and> uuids s' = uuids t \<and> locks s' = locks t \<and> (checked_rows t \<longrightarrow> checked_rows s')
    \<and> p_locks p' = p_locks q \<and> locks_amount p' = locks_amount q" if "revert_one d (t, q) u = Inr (s', p')" for t q u s' p'
    using that
    by (auto simp: revert_one_def result_simps Let_def dest: get_wallet_transfers post_locks split: prod.splits if_splits)
  let ?P = "\<lambda>sp. transfers (fst sp) = transfers s \<and> uuids (fst sp) = uuids s \<and> locks (fst sp) = locks s
    \<and> (checked_rows s \<longrightarrow> checked_rows (fst sp)) \<and> p_locks (snd sp) = p_locks p \<and> locks_amount (snd sp) = locks_amount p"
  from assms have "?P (s', p')" unfolding revert_trx_group_def
    by (rule foldE_invariant [where P = ?P]) (auto dest!: step)
  then show ?thesis by simp
qed


section \<open>Every operation keeps the locks of withdrawals\<close>

lemma create_transfer_result:
  assumes "create_transfer s t = Inr (u, s')"
  shows "u = t\<lparr>tf_id := fresh_id (map tf_id (transfers s))\<rparr>" and "s' = s\<lparr>transfers := transfers s @ [u]\<rparr>"
    and "tf_id u \<notin> set (map tf_id (transfers s))"
  using assms fresh_id_notin [of "map tf_id (transfers s)"] by (auto simp: create_transfer_def result_simps Let_def)

lemma no_lock_updates: "map (\<lambda>l. upd_lock (dd_get (locks_amount new_pipeline) (lk_key l)) l) ls @ p_locks new_pipeline = ls"
  by (simp add: new_pipeline_def upd_lock_def)

lemma release_whole_lock:
  assumes "release_lock s new_pipeline g None = Inr p" and "rows_ok s"
  shows "map (\<lambda>l. upd_lock (dd_get (locks_amount p) (lk_key l)) l) (locks s) @ p_locks p = map (empty_lock g) (locks s)"
  using assms(1)
proof (cases rule: release_lock_cases)
  case 1
  then have "map (empty_lock g) (locks s) = locks s"
    by (auto simp: find_lock_def find_None_iff' empty_lock_def intro: map_idI)
  then show ?thesis unfolding 1(1) no_lock_updates by simp
next
  case (2 l y)
  then show ?thesis by (simp add: new_pipeline_def)
next
  case (3 l y)
  have l: "l \<in> set (locks s)" "lk_key l = g" using find_SomeD [OF 3(1) [unfolded find_lock_def]] by simp_all
  have only: "m = l" if "m \<in> set (locks s)" "lk_key m = g" for m
    using assms(2) l that by (auto simp: rows_ok_def distinct_map dest: inj_onD)
  have "dd_get (locks_amount p) k = (if k = g then - lk_amount l else 0)" for k
    using 3(3,4) by (simp add: new_pipeline_def)
  moreover have "p_locks p = []" using 3(4) by (simp add: new_pipeline_def)
  ultimately show ?thesis using only by (auto simp: upd_lock_def empty_lock_def)
qed

lemma ledger_ok_block: "ledger_ok s \<Longrightarrow> block_ok s new_pipeline"
  using new_pipeline_inv by (simp add: block_ok_def)

lemma transfer_rowD: "transfer_row s i = Inr t \<Longrightarrow> t \<in> set (transfers s) \<and> tf_id t = i"
  unfolding transfer_row_def the_or_def by (auto split: option.splits dest: find_SomeD)

lemma same_transfer: "withdraws_ok ts ls n \<Longrightarrow> t \<in> set ts \<Longrightarrow> u \<in> set ts \<Longrightarrow> tf_id u = tf_id t \<Longrightarrow> u = t"
  by (auto simp: withdraws_ok_def distinct_map dest: inj_onD)

text \<open>A saved row that neither opens nor closes.\<close>

lemma save_keeps:
  assumes "transfers_ok s" and "\<And>t. same_hold t (f t)"
    and "\<And>t. t \<in> set (transfers s) \<Longrightarrow> tf_id t = i \<Longrightarrow> \<not> tf_deposit t \<Longrightarrow> is_open (f t) = is_open t"
  shows "transfers_ok (save_transfer s i f)"
proof -
  have "withdraws_ok (map (\<lambda>t. if tf_id t = i then f t else t) (transfers s)) (locks s) (uuids s)"
    by (rule withdraws_ok_rows) (use assms in \<open>auto simp: transfers_ok_def same_hold_def\<close>)
  with assms(1) show ?thesis by (simp add: transfers_ok_def save_transfer_def checked_rows_def)
qed

lemma close_keeps:
  assumes "transfers_ok s" and "transfer_row s i = Inr t" and "\<not> tf_deposit t"
    and "release_lock s new_pipeline (tf_group t) None = Inr p" and "\<And>t. same_hold t (f t)" and "\<not> is_open (f t)"
  shows "withdraws_ok (transfers (save_transfer s i f))
    (map (\<lambda>l. upd_lock (dd_get (locks_amount p) (lk_key l)) l) (locks s) @ p_locks p) (uuids s)"
proof -
  have r: "rows_ok s" "withdraws_ok (transfers s) (locks s) (uuids s)"
    using assms(1) by (simp_all add: transfers_ok_def ledger_ok_def)
  from withdraws_ok_close [OF r(2) _ assms(3,5,6)] transfer_rowD [OF assms(2)]
  show ?thesis unfolding release_whole_lock [OF assms(4) r(1)] by (simp add: save_transfer_def)
qed

end
