(* ===== verification/Transfer_Panel.thy ===== *)
theory Transfer_Panel
  imports Transfer_Requests
begin

text \<open>
  The staff's panel (\<^verbatim>\<open>ledger/admin.py\<close>): the actions on transfers, on recovered deposits and on
  manual transactions, and the form that saves a transfer. An action on a query set outside a
  transaction stops at the first exception and keeps what it did before. Asking the wallet
  service to terminate a withdrawal changes no table.
\<close>

section \<open>Transfers\<close>

definition picked :: "nat list \<Rightarrow> (crypto_transfer \<Rightarrow> bool) \<Rightarrow> ('z) transfer_db_scheme \<Rightarrow> crypto_transfer list" where
  "picked ids P s = filter (\<lambda>t. tf_id t \<in> set ids \<and> P t) (transfers s)"

text \<open>The form: \<open>obj\<close> is the row as it was loaded, with the edited fields.\<close>

definition save_model :: "int \<Rightarrow> crypto_transfer \<Rightarrow> ('z) transfer_db_scheme \<Rightarrow> (unit \<times> ('z) transfer_db_scheme) result" where
  "save_model now' obj s =
     bindE (if tf_status obj = TS_DONE
            then bindE (transfer_row s (tf_id obj)) (\<lambda>old.
                 if tf_status old \<noteq> TS_DONE then accept now' (tf_id obj) s else Inr ((), s))
            else Inr ((), s)) (\<lambda>(_, s).
     let s = save_transfer s (tf_id obj) (\<lambda>_. obj) in
     bindE (guardE IntegrityError (transfer_amounts_ok obj \<and> (\<forall>u\<in>set (transfers s). \<not> transfers_clash obj u))) (\<lambda>_.
     Inr ((), s)))"

definition accept_withdraw_action :: "nat list \<Rightarrow> ('z) transfer_db_scheme \<Rightarrow> ('z) transfer_db_scheme" where
  "accept_withdraw_action ids s =
     s\<lparr>transfers := map (\<lambda>t. if tf_id t \<in> set ids \<and> tf_status t = TS_INIT \<and> \<not> tf_deposit t
                               then t\<lparr>tf_status := TS_PROCESS\<rparr> else t) (transfers s)\<rparr>"

definition reject_withdraw_action ::
  "int \<Rightarrow> nat list \<Rightarrow> ('z) transfer_db_scheme \<Rightarrow> ('z) transfer_db_scheme \<times> py_error option" where
  "reject_withdraw_action now' ids s =
     run_each (\<lambda>s t. bindE (reject now' (tf_id t) s) (\<lambda>(_, s). Inr s)) s
       (picked ids (\<lambda>t. \<not> tf_deposit t \<and> tf_status t = TS_INIT) s)"

definition accept_deposit_action :: "int \<Rightarrow> nat list \<Rightarrow> ('z) transfer_db_scheme \<Rightarrow> ('z) transfer_db_scheme result" where
  "accept_deposit_action now' ids s =
     foldE (\<lambda>s t. bindE (accept now' (tf_id t) s) (\<lambda>(_, s). Inr s)) s
       (picked ids (\<lambda>t. tf_status t = TS_INIT \<and> tf_deposit t) s)"

definition reject_deposit_action ::
  "int \<Rightarrow> nat list \<Rightarrow> ('z) transfer_db_scheme \<Rightarrow> ('z) transfer_db_scheme \<times> py_error option" where
  "reject_deposit_action now' ids s =
     run_each (\<lambda>s t. bindE (reject now' (tf_id t) s) (\<lambda>(_, s). Inr s)) s
       (picked ids (\<lambda>t. tf_deposit t \<and> tf_status t \<in> {TS_INIT, TS_PENDING}) s)"

definition refund_deposit_action :: "nat list \<Rightarrow> ('z) transfer_db_scheme \<Rightarrow> ('z) transfer_db_scheme \<times> py_error option" where
  "refund_deposit_action ids s =
     run_each (\<lambda>s t. bindE (revert (tf_id t) s) (\<lambda>(_, s). Inr s)) s
       (picked ids (\<lambda>t. tf_deposit t \<and> tf_status t = TS_DONE) s)"

definition accept_canceled_action :: "int \<Rightarrow> nat list \<Rightarrow> ('z) transfer_db_scheme \<Rightarrow> ('z) transfer_db_scheme result" where
  "accept_canceled_action now' ids s =
     foldE (\<lambda>s t. bindE (accept now' (tf_id t) (save_transfer s (tf_id t) (\<lambda>t. t\<lparr>tf_status := TS_INIT\<rparr>))) (\<lambda>(_, s). Inr s)) s
       (picked ids (\<lambda>t. tf_status t = TS_CANCELED \<and> tf_deposit t) s)"

section \<open>Recovered deposits\<close>

definition complete_recovery :: "recovery_request \<Rightarrow> bool" where
  "complete_recovery r \<longleftrightarrow> rc_user r \<noteq> None \<and> rc_asset r \<noteq> None \<and> rc_network r \<noteq> None"

definition verify_requests :: "nat list \<Rightarrow> ('z) desk_db_scheme \<Rightarrow> ('z) desk_db_scheme" where
  "verify_requests ids s =
     fold (\<lambda>r s. snd (verify_recovery r s))
       (filter (\<lambda>r. rc_id r \<in> set ids \<and> rc_status r = TS_PROCESS \<and> complete_recovery r) (recoveries s)) s"

definition accept_requests ::
  "('y) transfer_env_scheme \<Rightarrow> bool \<Rightarrow> nat list \<Rightarrow> ('z) desk_db_scheme \<Rightarrow> ('z) desk_db_scheme \<times> py_error option" where
  "accept_requests env may_manage ids s =
     run_each (\<lambda>s r. bindE (recovery_transfer env (rc_id r) s) (\<lambda>(_, s). Inr s)) s
       (filter (\<lambda>r. rc_id r \<in> set ids \<and> rc_status r \<in> {TS_PROCESS, TS_PENDING} \<and> complete_recovery r
                  \<and> (rc_system_scope r \<or> may_manage)) (recoveries s))"

definition reject_requests :: "nat list \<Rightarrow> ('z) desk_db_scheme \<Rightarrow> ('z) desk_db_scheme" where
  "reject_requests ids s =
     s\<lparr>recoveries := map (\<lambda>r. if rc_id r \<in> set ids \<and> rc_status r \<in> {TS_PROCESS, TS_PENDING}
                                then r\<lparr>rc_status := TS_CANCELED\<rparr> else r) (recoveries s)\<rparr>"

section \<open>Manual transactions\<close>

definition manual_action ::
  "transfer_status \<Rightarrow> nat list \<Rightarrow> ('z) desk_db_scheme \<Rightarrow> ('z) desk_db_scheme \<times> py_error option" where
  "manual_action status ids s =
     run_each (\<lambda>s m. bindE (change_manual_status m status s) (\<lambda>(_, s). Inr s)) s
       (filter (\<lambda>m. mt_id m \<in> set ids) (manual_transactions s))"

definition clone_one :: "manual_transaction \<Rightarrow> ('z) desk_db_scheme \<Rightarrow> ('z) desk_db_scheme" where
  "clone_one m s =
     (let (g, s) = uuid4 s
      in s\<lparr>manual_transactions := manual_transactions s @
            [m\<lparr>mt_id := fresh_id (map mt_id (manual_transactions s)), mt_status := TS_PROCESS, mt_group := g\<rparr>]\<rparr>)"

definition clone_transaction :: "nat list \<Rightarrow> ('z) desk_db_scheme \<Rightarrow> ('z) desk_db_scheme" where
  "clone_transaction ids s = fold clone_one (filter (\<lambda>m. mt_id m \<in> set ids) (manual_transactions s)) s"

end
