(* ===== verification/Transfer_Properties.thy ===== *)
theory Transfer_Properties
  imports Withdraw_Locks Transfer_Panel Samples Price_Properties
begin

text \<open>
  What the transfers promise: every operation keeps the withdrawals backed by their locks,
  accepting pays out what was locked, what passes without a human keeps the daily limits; and
  what the code does not prevent: a refunded withdrawal can be reopened, a recovered deposit
  can be paid twice.
\<close>

section \<open>The operations keep the locks\<close>

lemma release_saved: "release_lock (save_transfer s i f) = release_lock s"
proof -
  have "find_lock (save_transfer s i f) = find_lock s" by (rule ext) (simp add: find_lock_def save_transfer_def)
  then show ?thesis by (intro ext) (simp only: release_lock_def)
qed

lemma accept_ok:
  assumes "accept n i s = Inr (u, s')" and "transfers_ok s"
  shows "transfers_ok s'"
proof -
  let ?f = "\<lambda>t. t\<lparr>tf_status := TS_DONE, finished_datetime := Some n\<rparr>"
  have ok: "ledger_ok s" "checked_rows s" "withdraws_ok (transfers s) (locks s) (uuids s)"
    using assms(2) by (simp_all add: transfers_ok_def)
  have f: "same_hold t (?f t)" for t by (simp add: same_hold_def)
  from assms(1) obtain t p where b: "accept_body n i s new_pipeline = Inr (u, t, p)" and e: "execute t p = Inr s'"
    by (auto simp: accept_def with_pipeline_def result_simps)
  have bo: "block_ok t p" by (rule accept_keeps [OF b ledger_ok_block [OF ok(1)]])
  from b consider "t = s" "p = new_pipeline"
    | r q where "transfer_row s i = Inr r" "\<not> tf_deposit r" "release_lock (save_transfer s i ?f) new_pipeline (tf_group r) None = Inr q"
        "build_trx r (save_transfer s i ?f) q = Inr (t, p)"
    | r a where "transfer_row s i = Inr r" "tf_deposit r" "build_trx r (set_first_deposit n a (save_transfer s i ?f)) new_pipeline = Inr (t, p)"
    by (auto simp: accept_body_def result_simps Let_def split: if_splits)
  then show ?thesis
  proof cases
    case 1
    with e bo ok no_lock_updates show ?thesis by (intro execute_transfers_ok [of s new_pipeline]) simp_all
  next
    case (2 r q)
    have "release_lock s new_pipeline (tf_group r) None = Inr q"
      using 2(3) by (simp add: release_saved)
    from close_keeps [OF assms(2) 2(1,2) this f] build_trx_tables [OF 2(4)] ok
    show ?thesis by (intro execute_transfers_ok [OF e bo]) (simp_all add: save_transfer_def checked_rows_def is_open_def)
  next
    case (3 r a)
    have k: "transfers_ok (save_transfer s i ?f)"
      by (rule save_keeps [OF assms(2) f]) (use same_transfer [OF ok(3)] transfer_rowD [OF 3(1)] 3(2) in blast)
    have "locks_amount p = locks_amount new_pipeline" "p_locks p = p_locks new_pipeline"
      using build_trx_tables [OF 3(3)] by simp_all
    with no_lock_updates build_trx_tables [OF 3(3)] k ok(2) show ?thesis
      by (intro execute_transfers_ok [OF e bo])
        (simp_all add: transfers_ok_def save_transfer_def set_first_deposit_def checked_rows_def)
  qed
qed

lemma reject_ok:
  assumes "reject n i s = Inr (u, s')" and "transfers_ok s"
  shows "transfers_ok s'"
proof -
  let ?f = "\<lambda>t. t\<lparr>tf_status := TS_CANCELED, finished_datetime := Some n\<rparr>"
  have ok: "ledger_ok s" "checked_rows s" "withdraws_ok (transfers s) (locks s) (uuids s)"
    using assms(2) by (simp_all add: transfers_ok_def)
  have f: "same_hold t (?f t)" for t by (simp add: same_hold_def)
  from assms(1) obtain t p where b: "reject_body n i s new_pipeline = Inr (u, t, p)" and e: "execute t p = Inr s'"
    by (auto simp: reject_def with_pipeline_def result_simps)
  have bo: "block_ok t p" by (rule rejecting.keeps [OF TrueI ledger_ok_block [OF ok(1)] b])
  from b consider "t = s" "p = new_pipeline"
    | r where "transfer_row s i = Inr r" "\<not> tf_deposit r" "release_lock s new_pipeline (tf_group r) None = Inr p" "t = save_transfer s i ?f"
    | r where "transfer_row s i = Inr r" "tf_deposit r" "p = new_pipeline" "t = save_transfer s i ?f"
    by (auto simp: reject_body_def result_simps Let_def split: if_splits)
  then show ?thesis
  proof cases
    case 1
    with e bo ok no_lock_updates show ?thesis by (intro execute_transfers_ok [of s new_pipeline]) simp_all
  next
    case (2 r)
    from close_keeps [OF assms(2) 2(1,2,3) f] ok show ?thesis
      by (intro execute_transfers_ok [OF e bo]) (simp_all add: 2(4) save_transfer_def checked_rows_def is_open_def)
  next
    case (3 r)
    have k: "transfers_ok (save_transfer s i ?f)"
      by (rule save_keeps [OF assms(2) f]) (use same_transfer [OF ok(3)] transfer_rowD [OF 3(1)] 3(2) in blast)
    with no_lock_updates show ?thesis
      by (intro execute_transfers_ok [OF e bo]) (simp_all add: 3(3,4) transfers_ok_def)
  qed
qed

lemma revert_ok:
  assumes "revert i s = Inr (u, s')" and "transfers_ok s"
  shows "transfers_ok s'"
proof -
  let ?f = "\<lambda>t. t\<lparr>tf_status := TS_REFUND\<rparr>"
  have ok: "ledger_ok s" "withdraws_ok (transfers s) (locks s) (uuids s)"
    using assms(2) by (simp_all add: transfers_ok_def)
  from assms(1) obtain g t p where b: "revert_body g i s new_pipeline = Inr (u, t, p)" and e: "execute t p = Inr s'"
    by (auto simp: revert_def with_pipeline_def result_simps)
  have bo: "block_ok t p" by (rule reverting.keeps [OF TrueI ledger_ok_block [OF ok(1)] b])
  from b consider "t = s" "p = new_pipeline"
    | r where "transfer_row s i = Inr r" "tf_status r = TS_DONE" "revert_trx_group g True (save_transfer s i ?f) new_pipeline = Inr (t, p)"
    by (auto simp: revert_body_def result_simps Let_def split: if_splits)
  then show ?thesis
  proof cases
    case 1
    with e bo assms(2) no_lock_updates show ?thesis
      by (intro execute_transfers_ok [of s new_pipeline]) (simp_all add: transfers_ok_def)
  next
    case (2 r)
    have "transfers_ok (save_transfer s i ?f)"
    proof (rule save_keeps [OF assms(2)])
      fix q assume "q \<in> set (transfers s)" "tf_id q = i"
      then have "q = r" using same_transfer [OF ok(2)] transfer_rowD [OF 2(1)] by blast
      then show "is_open (?f q) = is_open q" using 2(2) by (simp add: is_open_def)
    qed (simp add: same_hold_def)
    moreover have "locks_amount p = locks_amount new_pipeline" "p_locks p = p_locks new_pipeline"
      using revert_tables [OF 2(3)] by simp_all
    ultimately show ?thesis using no_lock_updates revert_tables [OF 2(3)]
      by (intro execute_transfers_ok [OF e bo]) (simp_all add: transfers_ok_def)
  qed
qed


text \<open>A status that is not final, set to a row that is not a refunded one.\<close>

lemma change_open_ok:
  assumes "transfers_ok s" and "\<And>t. t \<in> set (transfers s) \<Longrightarrow> tf_id t = i \<Longrightarrow> \<not> tf_deposit t \<Longrightarrow> tf_status t \<noteq> TS_REFUND"
    and "status \<in> {TS_INIT, TS_PROCESS, TS_PENDING}"
  shows "transfers_ok (s\<lparr>transfers := map (\<lambda>t. if tf_id t = i \<and> tf_status t \<notin> set COMPLETE_STATUSES
                                          then t\<lparr>tf_status := status\<rparr> else t) (transfers s)\<rparr>)"
proof -
  let ?f = "\<lambda>t. if tf_id t = i \<and> tf_status t \<notin> set COMPLETE_STATUSES then t\<lparr>tf_status := status\<rparr> else t"
  have "is_open (?f t) = is_open t" if "t \<in> set (transfers s)" "\<not> tf_deposit t" for t
    using assms(2) [OF that(1)] that(2) assms(3)
    by (cases "tf_status t") (auto simp: is_open_def COMPLETE_STATUSES_def)
  then have "withdraws_ok (map ?f (transfers s)) (locks s) (uuids s)"
    by (intro withdraws_ok_rows) (use assms(1) in \<open>auto simp: transfers_ok_def same_hold_def\<close>)
  with assms(1) show ?thesis by (simp add: transfers_ok_def checked_rows_def)
qed

lemma change_transfer_status_ok:
  assumes "change_transfer_status n i status s = Inr (u, s')" and "transfers_ok s"
    and "\<And>t. t \<in> set (transfers s) \<Longrightarrow> tf_id t = i \<Longrightarrow> \<not> tf_deposit t
           \<Longrightarrow> status \<in> {TS_DONE, TS_CANCELED, TS_REFUND} \<or> tf_status t \<noteq> TS_REFUND"
  shows "transfers_ok s'"
proof (cases "status \<in> {TS_DONE, TS_CANCELED, TS_REFUND}")
  case True
  with assms(1,2) show ?thesis
    by (auto simp: change_transfer_status_def intro: accept_ok reject_ok revert_ok)
next
  case False
  then have st: "status \<in> {TS_INIT, TS_PROCESS, TS_PENDING}" by (cases status) auto
  have "s' = s\<lparr>transfers := map (\<lambda>t. if tf_id t = i \<and> tf_status t \<notin> set COMPLETE_STATUSES
                                          then t\<lparr>tf_status := status\<rparr> else t) (transfers s)\<rparr>"
    using assms(1) st by (elim insertE emptyE) (simp_all add: change_transfer_status_def eq_commute)
  with change_open_ok [OF assms(2) _ st, of i] assms(3) False show ?thesis by blast
qed

text \<open>New rows: a withdrawal with its lock, a deposit, the two rows of an internal transfer.\<close>

lemma withdraws_ok_deposit:
  assumes "withdraws_ok ts ls n" and "tf_id t \<notin> set (map tf_id ts)" and "tf_group t < n" and "tf_deposit t"
  shows "withdraws_ok (ts @ [t]) ls n"
  using assms by (auto simp: withdraws_ok_def)

lemma withdraws_ok_mono: "withdraws_ok ts ls n \<Longrightarrow> n \<le> m \<Longrightarrow> withdraws_ok ts ls m"
  by (auto simp: withdraws_ok_def)

lemma address_tables:
  assumes "get_deposit_address env a nw s = Inr (d, s')"
  shows "transfers s' = transfers s" and "uuids s' = uuids s" and "locks s' = locks s" and "wallets s' = wallets s"
    and "ledger_ok s' = ledger_ok s"
proof -
  from assms obtain k t where k: "address_key_of env a (network_arch env nw) s = Inr (k, t)"
    and d: "s' = t \<or> (\<exists>y. s' = t\<lparr>deposit_addresses := y\<rparr>)"
    by (auto simp: get_deposit_address_def create_deposit_address_def result_simps Let_def split: option.splits)
  from k have "t = s \<or> (\<exists>x. t = s\<lparr>address_keys := x\<rparr>)"
    by (auto simp: address_key_of_def result_simps Let_def split: option.splits prod.splits)
  with d show "transfers s' = transfers s" "uuids s' = uuids s" "locks s' = locks s" "wallets s' = wallets s"
    "ledger_ok s' = ledger_ok s" by auto
qed

lemma address_ok: "get_deposit_address env a nw s = Inr (d, s') \<Longrightarrow> transfers_ok s \<Longrightarrow> transfers_ok s'"
  using address_tables [of env a nw s d s'] by (simp add: transfers_ok_def checked_rows_def)

lemma uuid_ok: "uuid4 s = (g, s') \<Longrightarrow> transfers_ok s \<Longrightarrow> transfers_ok s'"
  using same_ledger_block(3) [OF uuid4_same] by (auto simp: uuid4_def transfers_ok_def checked_rows_def intro: withdraws_ok_mono)


section \<open>Asking for a withdrawal\<close>

lemma auto_verify_state:
  assumes "auto_withdraw_verify env t s = Inr (v, s')"
  shows "s' = s \<or> (\<exists>r. s' = save_transfer s (tf_id t) (\<lambda>t. t\<lparr>tf_risks := r\<rparr>))"
  using assms by (auto simp: auto_withdraw_verify_def result_simps Let_def split: if_splits)

lemma auto_verify_ok: "auto_withdraw_verify env t s = Inr (v, s') \<Longrightarrow> transfers_ok s \<Longrightarrow> transfers_ok s'"
  by (drule auto_verify_state) (auto intro!: save_keeps simp: same_hold_def is_open_def)

lemma fast_forward_body_steps:
  assumes "fast_forward_body n a b d e nw x ad m g pu pr s p = Inr (r, s', p')"
  obtains u v where "s' = s\<lparr>transfers := (transfers s @ [u]) @ [v]\<rparr>"
    "tf_id u \<notin> set (map tf_id (transfers s))" "tf_group u = g" "\<not> tf_deposit u" "\<not> is_open u"
    "tf_id v \<notin> set (map tf_id (transfers s @ [u]))" "tf_group v = g" "tf_deposit v"
    "p_locks p' = p_locks p" "locks_amount p' = locks_amount p"
proof -
  from assms obtain q u t v where q: "post p a b x SC_TRANSFER g = Inr p'"
    and u: "create_transfer s (((new_transfer n g nw (w_id a) x False)\<lparr>tf_status := TS_DONE, tf_memo := m,
                trx_hash := Some (internal_hash g), tf_source := BY_INTERNAL, tf_usdt_value := x * pu,
                tf_irt_value := x * pr\<rparr>)\<lparr>tf_deposit_address := Some (da_id d), out_address := ad\<rparr>) = Inr (u, t)"
    and v: "create_transfer t (((new_transfer n g nw (w_id b) x True)\<lparr>tf_status := TS_DONE, tf_memo := m,
                trx_hash := Some (internal_hash g), tf_source := BY_INTERNAL, tf_usdt_value := x * pu,
                tf_irt_value := x * pr\<rparr>)\<lparr>tf_deposit_address := Some (da_id e), out_address := da_address d\<rparr>) = Inr (v, s')"
    by (auto simp: fast_forward_body_def result_simps Let_def)
  note cu = create_transfer_result [OF u] and cv = create_transfer_result [OF v]
  have "tf_group u = g" "\<not> tf_deposit u" "\<not> is_open u" "tf_group v = g" "tf_deposit v"
    using cu(1) cv(1) by (simp_all add: new_transfer_def is_open_def)
  moreover have "s' = s\<lparr>transfers := (transfers s @ [u]) @ [v]\<rparr>" "tf_id v \<notin> set (map tf_id (transfers s @ [u]))"
    using cv(2,3) by (simp_all add: cu(2))
  ultimately show ?thesis using that cu(3) post_locks [OF q] by blast
qed

lemma fast_forward_ok:
  assumes "check_fast_forward env w nw x ad m s = Inr (r, s')" and "transfers_ok s" and "w \<in> set (wallets s)"
  shows "transfers_ok s'" and "r = None \<Longrightarrow> s' = s"
proof -
  show "r = None \<Longrightarrow> s' = s"
    using assms(1) by (auto simp: check_fast_forward_def result_simps Let_def split: if_splits prod.splits)
  from assms(1) consider "s' = s"
    | d t e t2 rw t3 g t4 pu pr acc u where "get_deposit_address env (w_account w) (nw_symbol nw) s = Inr (d, t)"
      "get_deposit_address env acc (nw_symbol nw) t = Inr (e, t2)"
      "get_wallet t2 (w_asset w) acc SPOT None None = (rw, t3)" "uuid4 t3 = (g, t4)"
      "with_pipeline (fast_forward_body (now env) w rw d e (nw_symbol nw) x ad m g pu pr) t4 = Inr (u, s')"
    by (auto simp: check_fast_forward_def result_simps Let_def split: if_splits prod.splits)
  then show "transfers_ok s'"
  proof cases
    case (2 d t e t2 rw t3 g t4 pu pr acc u)
    have t2: "transfers_ok t2" by (rule address_ok [OF 2(2) address_ok [OF 2(1) assms(2)]])
    note t3 = get_wallet_transfers_ok [OF 2(3) t2]
    note t = address_ok [OF 2(1) assms(2)] t2 t3 uuid_ok [OF 2(4) t3]
    have ok4: "ledger_ok t4" "withdraws_ok (transfers t3) (locks t3) (uuids t3)" using t by (simp_all add: transfers_ok_def)
    have w2: "known t2 w" using known_row [OF ledger_ok_block, of t2 w] assms(3) address_tables(4) [OF 2(1)] address_tables(4) [OF 2(2)] t(2)
      by (simp add: transfers_ok_def)
    have kn: "known t4 w" "known t4 rw"
      using get_wallet_ok [OF 2(3)] w2 t(2) same_ledger_block(2) [OF uuid4_same [OF 2(4)]] by (auto simp: transfers_ok_def)
    from 2(5) obtain f p where b: "fast_forward_body (now env) w rw d e (nw_symbol nw) x ad m g pu pr t4 new_pipeline = Inr (u, f, p)"
      and ex: "execute f p = Inr s'" by (auto simp: with_pipeline_def result_simps)
    have bo: "block_ok f p" by (rule forwarding.keeps [OF _ ledger_ok_block [OF ok4(1)] b]) (use kn in simp)
    from b obtain y z where st: "f = t4\<lparr>transfers := (transfers t4 @ [y]) @ [z]\<rparr>"
      "tf_id y \<notin> set (map tf_id (transfers t4))" "tf_group y = g" "\<not> tf_deposit y" "\<not> is_open y"
      "tf_id z \<notin> set (map tf_id (transfers t4 @ [y]))" "tf_group z = g" "tf_deposit z"
      "p_locks p = p_locks new_pipeline" "locks_amount p = locks_amount new_pipeline"
      by (rule fast_forward_body_steps)
    have u4: "transfers t4 = transfers t3" "locks t4 = locks t3" "g = uuids t3" "uuids t4 = Suc (uuids t3)"
      using 2(4) by (auto simp: uuid4_def)
    have "withdraws_ok (transfers t3 @ [y]) (locks t3 @ []) (Suc (uuids t3))"
      by (rule withdraws_ok_append [OF ok4(2)]) (use st u4 in simp_all)
    then have "withdraws_ok (transfers t3 @ [y]) (locks t3) (Suc (uuids t3))" by simp
    from withdraws_ok_deposit [OF this, of z] st u4
    have "withdraws_ok ((transfers t3 @ [y]) @ [z]) (locks t3) (Suc (uuids t3))" by simp
    with t(4) no_lock_updates show ?thesis
      by (intro execute_transfers_ok [OF ex bo]) (simp_all add: st(1,9,10) u4 transfers_ok_def checked_rows_def)
  qed (use assms(2) in simp)
qed


lemma saved_row: "q \<in> set (transfers (save_transfer s i f)) \<Longrightarrow> \<exists>r\<in>set (transfers s). q = (if tf_id r = i then f r else r)"
  by (auto simp: save_transfer_def)

lemma new_withdraw_steps:
  assumes "new_withdraw env w nw x ad m wl s = Inr (r, s')"
  obtains "check_fast_forward env w nw x ad m s = Inr (Some r, s')"
  | a pu pr t u q where "check_fast_forward env w nw x ad m s = Inr (None, t)"
      "network_asset_row t (w_asset w) (nw_symbol nw) = Inr a" "x \<le> withdraw_max a" "withdraw_min a \<le> x" "withdraw_fee a \<le> x"
      "with_pipeline (withdraw_body ((new_transfer (now env) (uuids t) (nw_symbol nw) (w_id w) (x - withdraw_fee a) False)
                   \<lparr>tf_status := TS_INIT, tf_fee := withdraw_fee a, tf_source := na_withdraw_source a, out_address := ad,
                    tf_memo := m, tf_usdt_value := x * pu, tf_irt_value := x * pr, tf_whitelist := wl\<rparr>) w x)
           (t\<lparr>uuids := Suc (uuids t)\<rparr>) = Inr (u, q)"
      "auto_withdraw_verify env u q = Inr (False, s') \<and> r = u
        \<or> (\<exists>v. auto_withdraw_verify env u q = Inr (True, v) \<and> r = u\<lparr>tf_status := TS_PROCESS\<rparr>
              \<and> s' = save_transfer v (tf_id u) (\<lambda>t. t\<lparr>tf_status := TS_PROCESS\<rparr>))"
proof -
  let ?t = "\<lambda>t a pu pr. (new_transfer (now env) (uuids t) (nw_symbol nw) (w_id w) (x - withdraw_fee a) False)
                   \<lparr>tf_status := TS_INIT, tf_fee := withdraw_fee a, tf_source := na_withdraw_source a, out_address := ad,
                    tf_memo := m, tf_usdt_value := x * pu, tf_irt_value := x * pr, tf_whitelist := wl\<rparr>"
  from assms obtain ff t where ff: "check_fast_forward env w nw x ad m s = Inr (ff, t)"
    by (auto simp: new_withdraw_def result_simps)
  show ?thesis
  proof (cases ff)
    case (Some u)
    with assms ff show ?thesis by (intro that(1)) (auto simp: new_withdraw_def result_simps)
  next
    case None
    with assms ff obtain a where a: "network_asset_row t (w_asset w) (nw_symbol nw) = Inr a"
      by (auto simp: new_withdraw_def result_simps)
    with assms ff None obtain pr pu u q v z where
      le: "x \<le> withdraw_max a" "max (withdraw_min a) (withdraw_fee a) \<le> x"
      and b: "with_pipeline (withdraw_body (?t t a pu pr) w x) (t\<lparr>uuids := Suc (uuids t)\<rparr>) = Inr (u, q)"
      and v: "auto_withdraw_verify env u q = Inr (v, z)"
      and r: "(if v then Inr (u\<lparr>tf_status := TS_PROCESS\<rparr>, save_transfer z (tf_id u) (\<lambda>t. t\<lparr>tf_status := TS_PROCESS\<rparr>)) else Inr (u, z)) = (Inr (r, s') :: _ result)"
      by (auto simp only: new_withdraw_def uuid4_def Let_def prod.case option.case bindE_eq_Inr assertE_eq_Inr case_prod_eq_Inr)
    show ?thesis
      by (rule that(2) [OF ff [unfolded None] a _ _ _ b]) (use le v r in \<open>auto split: if_splits\<close>)
  qed
qed

lemma withdraw_block_ok:
  assumes "with_pipeline (withdraw_body t w x) s = Inr (u, s')" and "transfers_ok s"
    and "uuids s = Suc (tf_group t)" and "\<forall>q\<in>set (transfers s). tf_group q < tf_group t" and "\<forall>l\<in>set (locks s). lk_key l < tf_group t"
    and "w \<in> set (wallets s)" and "is_ordinary_user (w_account w)"
    and "tf_wallet t = w_id w" and "total_amount t = x" and "on_grid 8 x" and "is_open t" and "\<not> tf_deposit t"
  shows "transfers_ok s'" and "transfers s' = transfers s @ [u]" and "tf_status u = tf_status t" and "tf_id u \<notin> set (map tf_id (transfers s))"
    and "tf_deposit u = tf_deposit t"
proof -
  have ok: "ledger_ok s" "checked_rows s" "withdraws_ok (transfers s) (locks s) (uuids s)"
    using assms(2) by (simp_all add: transfers_ok_def)
  from assms(1) obtain f p where b: "withdraw_body t w x s new_pipeline = Inr (u, f, p)" and e: "execute f p = Inr s'"
    by (auto simp: with_pipeline_def result_simps)
  from b have c: "create_transfer s t = Inr (u, f)" and l: "lock_balance new_pipeline (tf_group u) w x Lock_WITHDRAW = Inr p"
    by (auto simp: withdraw_body_def result_simps)
  note cr = create_transfer_result [OF c]
  have bo: "block_ok f p"
    by (rule withdrawing.keeps [OF _ ledger_ok_block [OF ok(1)] b]) (rule known_row [OF ledger_ok_block [OF ok(1)] assms(6)])
  have "check_balance w" using ok(2) assms(6,7) by (simp add: checked_rows_def is_ordinary_user_def)
  with l have p: "p_locks p = [\<lparr>lk_key = tf_group t, lk_wallet = w_id w, original_amount = x, lk_amount = x, lk_reason = Lock_WITHDRAW\<rparr>]"
    "locks_amount p = locks_amount new_pipeline"
    using cr(1) floor_precision_on_grid [OF assms(10)]
    by (auto simp: lock_balance_def new_lock_def new_pipeline_def result_simps Let_def)
  have less: "withdraws_ok (transfers s) (locks s) (tf_group t)"
    using ok(3) assms(4,5) by (simp add: withdraws_ok_def)
  have u: "tf_group u = tf_group t" "tf_wallet u = w_id w" "total_amount u = x" "is_open u" "\<not> tf_deposit u"
    using cr(1) assms(8,9,11,12) by (simp_all add: total_amount_def is_open_def)
  have "withdraws_ok (transfers s @ [u]) (locks s @ p_locks p) (uuids s)"
    unfolding assms(3) by (rule withdraws_ok_append [OF less]) (use cr(3) u p in auto)
  moreover have "map (\<lambda>l. upd_lock (dd_get (locks_amount p) (lk_key l)) l) (locks f) = locks s"
    using cr(2) p(2) by (simp add: upd_lock_def new_pipeline_def)
  ultimately show "transfers_ok s'"
    using cr(2) ok(2) by (intro execute_transfers_ok [OF e bo]) (simp_all add: checked_rows_def)
  show "transfers s' = transfers s @ [u]" using transfer_tables(1) [OF conjunct1 [OF execute_more [OF e]]] cr(2) by simp
  show "tf_status u = tf_status t" "tf_id u \<notin> set (map tf_id (transfers s))" "tf_deposit u = tf_deposit t" using cr by simp_all
qed

lemma new_withdraw_ok:
  assumes "new_withdraw env w nw x ad m wl s = Inr (r, s')" and "transfers_ok s" and "w \<in> set (wallets s)" and "on_grid 8 x"
  shows "transfers_ok s'"
  using assms(1)
proof (cases rule: new_withdraw_steps)
  case 1
  then show ?thesis by (rule fast_forward_ok(1)) (use assms in blast)+
next
  case (2 a pu pr t u q)
  have t: "t = s" using fast_forward_ok(2) [OF 2(1) assms(2,3)] by simp
  have ord: "is_ordinary_user (w_account w)" using assms(1) by (auto simp: new_withdraw_def result_simps)
  have less: "\<forall>q\<in>set (transfers s). tf_group q < uuids s" "\<forall>l\<in>set (locks s). lk_key l < uuids s"
    using assms(2) by (simp_all add: transfers_ok_def withdraws_ok_def)
  have ok: "transfers_ok (s\<lparr>uuids := Suc (uuids s)\<rparr>)" by (rule uuid_ok [OF _ assms(2)]) (simp add: uuid4_def)
  have q: "transfers_ok q" "tf_status u = TS_INIT" "transfers q = transfers s @ [u]" "tf_id u \<notin> set (map tf_id (transfers s))"
    using withdraw_block_ok(1-4) [OF 2(6) [unfolded t] ok] less assms(3,4) ord
    by (simp_all add: new_transfer_def total_amount_def is_open_def)
  then have op: "\<forall>t\<in>set (transfers q). tf_id t = tf_id u \<longrightarrow> is_open t" by (auto simp: is_open_def image_iff)
  from 2(7) show ?thesis
  proof (elim disjE exE conjE)
    assume "auto_withdraw_verify env u q = Inr (False, s')"
    then show ?thesis using q(1) by (rule auto_verify_ok)
  next
    fix v assume v: "auto_withdraw_verify env u q = Inr (True, v)" and s': "s' = save_transfer v (tf_id u) (\<lambda>t. t\<lparr>tf_status := TS_PROCESS\<rparr>)"
    have "\<forall>t\<in>set (transfers v). tf_id t = tf_id u \<longrightarrow> is_open t"
      using auto_verify_state [OF v] op by (auto simp: is_open_def dest!: saved_row split: if_splits)
    then show ?thesis unfolding s'
      by (intro save_keeps auto_verify_ok [OF v q(1)]) (auto simp: same_hold_def is_open_def)
  qed
qed


section \<open>The wallet service, the users and the staff\<close>

lemma block_numbers_ok:
  "transfers_ok s \<Longrightarrow> transfers_ok (save_transfer s i (\<lambda>t. t\<lparr>block_number := a, last_block_number := b\<rparr>))"
  "transfers_ok s \<Longrightarrow> transfers_ok (save_transfer s i (\<lambda>t. t\<lparr>trx_hash := h\<rparr>))"
  "transfers_ok s \<Longrightarrow> transfers_ok (save_transfer s i (\<lambda>t. t\<lparr>tf_comment := c\<rparr>))"
  "transfers_ok s \<Longrightarrow> transfers_ok (save_transfer s i (\<lambda>t. t\<lparr>tf_source := o'\<rparr>))"
  by (auto intro!: save_keeps simp: same_hold_def is_open_def)

lemma report_withdraw_ok:
  assumes "transfers_ok s"
  shows "transfers_ok (fst (report_withdraw n i reported h b l s))"
proof (cases "List.find (\<lambda>t. tf_id t = i) (transfers s)")
  case (Some t)
  note t = find_SomeD [OF Some]
  let ?s = "save_transfer s i (\<lambda>t. t\<lparr>block_number := b, last_block_number := l\<rparr>)"
  let ?u = "save_transfer ?s i (\<lambda>t. t\<lparr>trx_hash := h\<rparr>)"
  have ok: "transfers_ok ?s" "transfers_ok ?u" using assms block_numbers_ok by blast+
  have wt: "withdraws_ok (transfers s) (locks s) (uuids s)" using assms by (simp add: transfers_ok_def)
  have rows: "tf_status q = tf_status t" if "q \<in> set (transfers ?u)" "tf_id q = i" for q
  proof -
    from saved_row [OF that(1)] obtain r where r: "r \<in> set (transfers ?s)" "tf_id q = tf_id r" "tf_status q = tf_status r"
      by auto
    from saved_row [OF r(1)] obtain p where "p \<in> set (transfers s)" "tf_id r = tf_id p" "tf_status r = tf_status p"
      by auto
    with r show ?thesis using same_transfer [OF wt, of t p] t that(2) by simp
  qed
  have change: "transfers_ok v" if "change_transfer_status n i st ?u = Inr (a, v)" "(tf_status t, st) \<in> set valid_withdraw_transitions" for st a v
    by (rule change_transfer_status_ok [OF that(1) ok(2)])
      (use rows that(2) in \<open>auto simp: valid_withdraw_transitions_def\<close>)
  show ?thesis unfolding report_withdraw_def Some Let_def
  proof (rule next_look [where P = transfers_ok], goal_cases)
    case (2 q)
    then have "q = t" by simp
    show ?case unfolding \<open>q = t\<close>
    proof ((rule next_look [where P = transfers_ok], goal_cases), (rule ok(1)))
      case (2 st)
      show ?case
      proof ((rule next_look [where P = transfers_ok], goal_cases), (rule ok(1)))
        case 2
        show ?case
        proof (cases "tf_status t = st \<and> st \<noteq> TS_PENDING")
          case True
          then show ?thesis using ok(1) by simp
        next
          case False
          show ?thesis unfolding if_not_P [OF False]
          proof ((rule next_look [where P = transfers_ok], goal_cases), (rule ok(1)))
            case 2
            then have v: "(tf_status t, st) \<in> set valid_withdraw_transitions" by simp
            show ?case
              by (intro next_attempt [where P = transfers_ok] ok) (use change v ok in \<open>auto simp: result_simps\<close>)
          qed
        qed
      qed
    qed
  qed (use assms in simp)
qed (use assms in \<open>simp add: report_withdraw_def\<close>)

lemma create_withdraw_ok:
  assumes "create_withdraw env respond i s = Inr (c, s')" and "transfers_ok s"
  shows "transfers_ok s'"
proof -
  have wt: "withdraws_ok (transfers s) (locks s) (uuids s)" using assms(2) by (simp add: transfers_ok_def)
  from assms(1) obtain t where t: "transfer_row s i = Inr t" by (auto simp: create_withdraw_def result_simps)
  have "s' = s \<or> (\<exists>call. after_response (now env) t call (respond call) s = Inr (c, s') \<and> tf_status t = TS_PROCESS)"
    using assms(1) unfolding create_withdraw_def t bindE_simps Let_def
    by (auto simp: result_simps split: if_splits)
  moreover have "tf_id t = i" using transfer_rowD [OF t] by simp
  ultimately have c: "s' = s \<or> s' = save_transfer s i (\<lambda>t. t\<lparr>tf_status := TS_PENDING\<rparr>) \<and> tf_status t = TS_PROCESS
      \<or> (\<exists>u. reject (now env) i s = Inr (u, s')) \<or> s' = change_to_manual t s"
    by (auto simp: after_response_def Let_def result_simps split: if_splits)
  have "tf_status q = tf_status t" if "q \<in> set (transfers s)" "tf_id q = i" for q
    using that same_transfer [OF wt] transfer_rowD [OF t] by blast
  then have "transfers_ok (save_transfer s i (\<lambda>t. t\<lparr>tf_status := TS_PENDING\<rparr>))" if "tf_status t = TS_PROCESS"
    using that by (intro save_keeps assms(2)) (auto simp: same_hold_def is_open_def)
  with c assms(2) show ?thesis by (auto intro: reject_ok block_numbers_ok simp: change_to_manual_def)
qed

lemma provider_withdraw_ok:
  assumes "handle_provider_withdraw respond i s = Inr (c, s')" and "transfers_ok s"
  shows "transfers_ok s'"
proof -
  have wt: "withdraws_ok (transfers s) (locks s) (uuids s)" using assms(2) by (simp add: transfers_ok_def)
  from assms(1) obtain t where t: "transfer_row s i = Inr t" "tf_status t = TS_PROCESS" and
    c: "s' = s \<or> s' = save_transfer s i (\<lambda>t. t\<lparr>tf_status := TS_PENDING\<rparr>) \<or> s' = change_to_manual t s"
    by (auto simp: handle_provider_withdraw_def result_simps split: option.splits if_splits)
  have "q = t" if "q \<in> set (transfers s)" "tf_id q = i" for q
    using that same_transfer [OF wt] transfer_rowD [OF t(1)] by blast
  then have "transfers_ok (save_transfer s i (\<lambda>t. t\<lparr>tf_status := TS_PENDING\<rparr>))"
    using t(2) by (intro save_keeps assms(2)) (auto simp: same_hold_def is_open_def)
  with c assms(2) show ?thesis by (auto intro: block_numbers_ok simp: change_to_manual_def)
qed

lemma cancel_withdraw_ok: "cancel_withdraw n a i s = Inr (u, s') \<Longrightarrow> transfers_ok s \<Longrightarrow> transfers_ok s'"
  by (auto simp: cancel_withdraw_def result_simps intro: reject_ok)


lemma other_tables_ok [simp]:
  "transfers_ok (s\<lparr>recoveries := r\<rparr>) = transfers_ok s"
  by (simp add: transfers_ok_def checked_rows_def base_cong(1) [of "s\<lparr>recoveries := r\<rparr>" s])

lemma addresses_ok [simp]: "transfers_ok (s\<lparr>deposit_addresses := d\<rparr>) = transfers_ok s"
  by (simp add: transfers_ok_def checked_rows_def)

lemma newest_in: "newest ts = Some t \<Longrightarrow> t \<in> set ts"
proof -
  have "foldl (\<lambda>a b. if tf_created a < tf_created b then b else a) u us \<in> insert u (set us)" for u us
    by (induction us arbitrary: u) auto
  then show "newest ts = Some t \<Longrightarrow> t \<in> set ts" by (auto simp: newest_def split: list.splits)
qed

definition is_deposit_id :: "('z) transfer_db_scheme \<Rightarrow> nat \<Rightarrow> bool" where
  "is_deposit_id s i \<longleftrightarrow> (\<exists>t\<in>set (transfers s). tf_id t = i \<and> tf_deposit t)"

lemma settle_deposit_ok:
  assumes "transfers_ok s" and "is_deposit_id s i"
  shows "transfers_ok (fst (settle_deposit env nw a st i s))"
proof -
  have wt: "withdraws_ok (transfers s) (locks s) (uuids s)" using assms(1) by (simp add: transfers_ok_def)
  have dep: "tf_deposit t" if "t \<in> set (transfers s)" "tf_id t = i" for t
    using assms(2) same_transfer [OF wt] that by (auto simp: is_deposit_id_def)
  have "transfers_ok s'" if "change_transfer_status n i st s = Inr (u, s')" for n st u s'
    by (rule change_transfer_status_ok [OF that assms(1)]) (use dep in blast)
  then show ?thesis unfolding settle_deposit_def Let_def prod.case_eq_if
    by (intro next_attempt [where P = transfers_ok] assms(1)) (simp add: block_numbers_ok(3))
qed

lemma create_deposit_ok:
  assumes "create_deposit env inp asset cm memo a w d s = Inr (t, s')" and "transfers_ok s"
  shows "transfers_ok s'" and "is_deposit_id s' (tf_id t)"
proof -
  from assms(1) obtain r where c: "create_transfer (s\<lparr>uuids := Suc (uuids s)\<rparr>) r = Inr (t, s')" and r: "tf_group r = uuids s" "tf_deposit r"
    by (auto simp: create_deposit_def uuid4_def new_transfer_def result_simps Let_def)
  note cr = create_transfer_result [OF c]
  have "transfers_ok (s\<lparr>uuids := Suc (uuids s)\<rparr>)" by (rule uuid_ok [OF _ assms(2)]) (simp add: uuid4_def)
  moreover from this have "withdraws_ok (transfers s @ [t]) (locks s) (Suc (uuids s))"
    by (intro withdraws_ok_deposit) (use cr r in \<open>simp_all add: transfers_ok_def\<close>)
  ultimately show "transfers_ok s'" using cr(2) by (simp add: transfers_ok_def checked_rows_def)
  show "is_deposit_id s' (tf_id t)" using cr(1,2) r by (simp add: is_deposit_id_def)
qed

lemma receiving_address_ok: "transfers_ok s \<Longrightarrow> transfers_ok (fst (receiving_address nw ra memo key s))"
  by (simp add: receiving_address_def create_deposit_address_def Let_def split: option.split)

lemma get_wallet_step: "transfers_ok s \<Longrightarrow> (\<And>w t. transfers_ok t \<Longrightarrow> transfers_ok (fst (f w t)))
    \<Longrightarrow> transfers_ok (fst (let (w, t) = get_wallet s x a m v e in f w t))"
  using get_wallet_transfers_ok by (fastforce split: prod.split)

lemma report_deposit_ok:
  assumes "transfers_ok s"
  shows "transfers_ok (fst (report_deposit env inp s))"
proof -
  have rec: "transfers_ok (recover_deposit inp a m x s)" for a m x
    using assms by (simp add: recover_deposit_def)
  note look = next_look [where P = transfers_ok]
  show ?thesis unfolding report_deposit_def Let_def [of "deposit_need_memo _"] Let_def [of "if _ then _ else _"] Let_def [of "List.find _ _"]
      prod.case_eq_if [of _ "deposited_asset _ _"] Let_def [of "deposited_asset _ _"]
  proof (rule look, goal_cases)
    case (2 nw)
    note split_if = if_split [of "\<lambda>x. transfers_ok (fst x)", THEN iffD2]
    note split_option = option.split [of "\<lambda>x. transfers_ok (fst x)", THEN iffD2]
    show ?case
    proof (rule split_if, intro conjI impI, goal_cases)
      case 1
      then show ?case using rec assms by simp
    next
      case 2
      show ?case
      proof (rule look, goal_cases)
        case (2 key)
        show ?case
        proof ((rule next_step_invariant [where P = transfers_ok], goal_cases), rule receiving_address_ok [OF assms])
          case (2 address t)
          show ?case
            apply (assumption | rule 2(2) | rule look | rule get_wallet_step)+
            apply (rule split_option, intro conjI impI allI)
             apply (rule next_attempt [where P = transfers_ok], assumption)
             apply (blast intro: settle_deposit_ok create_deposit_ok)
            apply (auto simp: is_deposit_id_def intro!: block_numbers_ok settle_deposit_ok dest!: newest_in)
            done
        qed
      qed (rule assms)
    qed
  qed (use assms in simp)
qed


lemma save_recovery_ok [simp]: "transfers_ok (save_recovery s i st) = transfers_ok s"
  by (simp add: save_recovery_def)

lemma recovery_transfer_ok:
  assumes "recovery_transfer env i s = Inr (u, s')" and "transfers_ok s"
  shows "transfers_ok s'"
proof -
  have "ensures (\<lambda>r. transfers_ok (snd r)) (recovery_transfer env i s)"
    unfolding recovery_transfer_def
  proof (intro ensures_skip ensures_rules, goal_cases)
    case (2 rc s0 x a wt w s1 pu pr nw gs g s2 ds d z)
    note cr = create_transfer_result [OF 2(13) [unfolded 2(14)]]
    have t: "transfers_ok s2"
    proof (rule uuid_ok [OF _ get_wallet_transfers_ok])
      show "uuid4 s1 = (g, s2)" "get_wallet s0 x a SPOT None None = (w, s1)" using 2(6,7,11,12) by simp_all
      show "transfers_ok s0" using assms(2) 2(3) by simp
    qed
    have new: "tf_id d \<notin> set (map tf_id (transfers s2))" "tf_group d < uuids s2" "tf_deposit d"
      using cr(1,3) 2(11,12) by (auto simp: uuid4_def new_transfer_def)
    have "withdraws_ok (transfers s2 @ [d]) (locks s2) (uuids s2)"
      by (rule withdraws_ok_deposit [OF _ new]) (use t in \<open>simp add: transfers_ok_def\<close>)
    with t have "transfers_ok z" using cr(2) by (simp add: transfers_ok_def checked_rows_def)
    then show ?case by (auto simp: ensures_def intro: accept_ok)
  qed (use assms(2) in simp)
  with assms(1) show ?thesis by (simp add: ensures_def)
qed

lemma saved_deposit:
  "(\<And>t. tf_id (f t) = tf_id t \<and> tf_deposit (f t) = tf_deposit t) \<Longrightarrow> is_deposit_id (save_transfer s i f) k = is_deposit_id s k"
  by (auto simp: is_deposit_id_def save_transfer_def)

lemma accept_deposit_kept:
  assumes "accept n i s = Inr (u, s')" and "is_deposit_id s k"
  shows "is_deposit_id s' k"
proof -
  let ?f = "\<lambda>t. t\<lparr>tf_status := TS_DONE, finished_datetime := Some n\<rparr>"
  from assms(1) obtain t p where b: "accept_body n i s new_pipeline = Inr (u, t, p)" and e: "execute t p = Inr s'"
    by (auto simp: accept_def with_pipeline_def result_simps)
  from b have "transfers t = transfers s \<or> transfers t = transfers (save_transfer s i ?f)"
    by (auto simp: accept_body_def result_simps Let_def set_first_deposit_def dest!: build_trx_tables split: if_splits)
  moreover have "transfers s' = transfers t" using transfer_tables(1) [OF conjunct1 [OF execute_more [OF e]]] .
  ultimately show ?thesis using assms(2) saved_deposit [of ?f s i k] by (auto simp: is_deposit_id_def)
qed

lemma accept_canceled_ok:
  assumes "accept_canceled_action n ids s = Inr s'" and "transfers_ok s"
  shows "transfers_ok s'"
proof -
  let ?xs = "picked ids (\<lambda>t. tf_status t = TS_CANCELED \<and> tf_deposit t) s"
  let ?P = "\<lambda>s. transfers_ok s \<and> (\<forall>x\<in>set ?xs. is_deposit_id s (tf_id x))"
  have step: "?P t'" if x: "x \<in> set ?xs" and p: "?P t"
    and a: "bindE (accept n (tf_id x) (save_transfer t (tf_id x) (\<lambda>t. t\<lparr>tf_status := TS_INIT\<rparr>))) (\<lambda>(_, s). Inr s) = Inr t'" for t x t'
  proof -
    let ?t = "save_transfer t (tf_id x) (\<lambda>t. t\<lparr>tf_status := TS_INIT\<rparr>)"
    have wt: "withdraws_ok (transfers t) (locks t) (uuids t)" using p by (simp add: transfers_ok_def)
    from a have acc: "accept n (tf_id x) ?t = Inr ((), t')" by (auto simp: result_simps)
    have "tf_deposit q" if "q \<in> set (transfers t)" "tf_id q = tf_id x" for q
      using p x that same_transfer [OF wt] by (metis is_deposit_id_def)
    then have "transfers_ok ?t" by (intro save_keeps) (use p in \<open>auto simp: same_hold_def\<close>)
    moreover have "is_deposit_id ?t k" if "is_deposit_id t k" for k
      using that saved_deposit [of "\<lambda>t. t\<lparr>tf_status := TS_INIT\<rparr>" t "tf_id x" k] by simp
    ultimately show ?thesis using p accept_ok [OF acc] accept_deposit_kept [OF acc] by blast
  qed
  have start: "?P s" using assms(2) by (auto simp: picked_def is_deposit_id_def)
  have "?P s'" by (rule foldE_invariant [where P = ?P, OF assms(1) [unfolded accept_canceled_action_def] start]) (rule step)
  then show ?thesis by blast
qed

lemma each_ok:
  assumes "transfers_ok s" and "\<And>t x t'. f t x = Inr t' \<Longrightarrow> transfers_ok t \<Longrightarrow> transfers_ok t'"
  shows "transfers_ok (fst (run_each f s xs))"
  by (rule run_each_invariant [where P = "\<lambda>t _. transfers_ok t"]) (use assms in blast)+

lemma accept_action_ok: "transfers_ok s \<Longrightarrow> transfers_ok (accept_withdraw_action ids s)"
proof -
  assume ok: "transfers_ok s"
  have "withdraws_ok (map (\<lambda>t. if tf_id t \<in> set ids \<and> tf_status t = TS_INIT \<and> \<not> tf_deposit t
      then t\<lparr>tf_status := TS_PROCESS\<rparr> else t) (transfers s)) (locks s) (uuids s)"
    by (rule withdraws_ok_rows) (use ok in \<open>auto simp: transfers_ok_def same_hold_def is_open_def\<close>)
  with ok show ?thesis by (simp add: transfers_ok_def accept_withdraw_action_def checked_rows_def)
qed

section \<open>Runs\<close>

text \<open>
  What users, the wallet service, the provider, the tasks and the staff's actions do. The form of
  the panel that writes a status directly is left out: \<open>form_unlocks\<close> shows what it can do.
\<close>

inductive transfer_step :: "('z) desk_db_scheme \<Rightarrow> ('z) desk_db_scheme \<Rightarrow> bool" where
  ask: "new_withdraw (env :: transfer_env) w nw x ad m wl s = Inr (r, s') \<Longrightarrow> w \<in> set (wallets s) \<Longrightarrow> on_grid 8 x \<Longrightarrow> transfer_step s s'"
| give_up: "cancel_withdraw n a i s = Inr (u, s') \<Longrightarrow> transfer_step s s'"
| send: "create_withdraw (env :: transfer_env) respond i s = Inr (c, s') \<Longrightarrow> transfer_step s s'"
| provider: "handle_provider_withdraw respond' i s = Inr (u, s') \<Longrightarrow> transfer_step s s'"
| sent: "report_withdraw n i rs h b l s = (s', e) \<Longrightarrow> transfer_step s s'"
| received: "report_deposit (env :: transfer_env) inp s = (s', e) \<Longrightarrow> transfer_step s s'"
| recovered: "accept_requests (env :: transfer_env) mm ids s = (s', e') \<Longrightarrow> transfer_step s s'"
| accept_withdraws: "accept_withdraw_action ids s = s' \<Longrightarrow> transfer_step s s'"
| reject_withdraws: "reject_withdraw_action n ids s = (s', e') \<Longrightarrow> transfer_step s s'"
| accept_deposits: "accept_deposit_action n ids s = Inr s' \<Longrightarrow> transfer_step s s'"
| reject_deposits: "reject_deposit_action n ids s = (s', e') \<Longrightarrow> transfer_step s s'"
| refund_deposits: "refund_deposit_action ids s = (s', e') \<Longrightarrow> transfer_step s s'"
| accept_canceled: "accept_canceled_action n ids s = Inr s' \<Longrightarrow> transfer_step s s'"

inductive transfer_run :: "('z) desk_db_scheme \<Rightarrow> ('z) desk_db_scheme \<Rightarrow> bool" where
  begin_transfers: "transfer_run s s"
| next_transfer: "transfer_run s t \<Longrightarrow> transfer_step t u \<Longrightarrow> transfer_run s u"

lemma transfer_step_ok:
  assumes "transfer_step s s'" and "transfers_ok s"
  shows "transfers_ok s'"
  using assms(1)
proof cases
  case (ask env w nw x ad m wl r)
  show ?thesis by (rule new_withdraw_ok [OF ask(1) assms(2) ask(2,3)])
next
  case (give_up n a i u)
  show ?thesis by (rule cancel_withdraw_ok [OF give_up assms(2)])
next
  case (send env respond i c)
  show ?thesis by (rule create_withdraw_ok [OF send assms(2)])
next
  case (provider respond i u)
  show ?thesis by (rule provider_withdraw_ok [OF provider assms(2)])
next
  case (sent n i rs h b l e)
  show ?thesis using report_withdraw_ok [OF assms(2), of n i rs h b l] sent by simp
next
  case (received env inp e)
  show ?thesis using report_deposit_ok [OF assms(2), of env inp] received by simp
next
  case (recovered env mm ids e)
  have "transfers_ok (fst (accept_requests env mm ids s))"
    unfolding accept_requests_def by (rule each_ok [OF assms(2)]) (auto simp: result_simps intro: recovery_transfer_ok)
  with recovered show ?thesis by simp
next
  case (accept_withdraws ids)
  show ?thesis unfolding accept_withdraws [symmetric] by (rule accept_action_ok [OF assms(2)])
next
  case (reject_withdraws n ids e)
  have "transfers_ok (fst (reject_withdraw_action n ids s))"
    unfolding reject_withdraw_action_def by (rule each_ok [OF assms(2)]) (auto simp: result_simps intro: reject_ok)
  with reject_withdraws show ?thesis by simp
next
  case (accept_deposits n ids)
  show ?thesis
    by (rule foldE_invariant [where P = transfers_ok, OF accept_deposits [unfolded accept_deposit_action_def] assms(2)])
      (auto simp: result_simps intro: accept_ok)
next
  case (reject_deposits n ids e)
  have "transfers_ok (fst (reject_deposit_action n ids s))"
    unfolding reject_deposit_action_def by (rule each_ok [OF assms(2)]) (auto simp: result_simps intro: reject_ok)
  with reject_deposits show ?thesis by simp
next
  case (refund_deposits ids e)
  have "transfers_ok (fst (refund_deposit_action ids s))"
    unfolding refund_deposit_action_def by (rule each_ok [OF assms(2)]) (auto simp: result_simps intro: revert_ok)
  with refund_deposits show ?thesis by simp
next
  case (accept_canceled n ids)
  show ?thesis by (rule accept_canceled_ok [OF accept_canceled assms(2)])
qed

lemma open_sum_le:
  assumes "\<forall>t\<in>set ts. \<exists>l\<in>set ls. lk_key l = tf_group t \<and> lk_wallet l = i \<and> lk_amount l = total_amount t"
    and "distinct (map tf_group ts)" and "\<forall>l\<in>set ls. 0 \<le> lk_amount l" and "distinct (map lk_key ls)"
  shows "sum_of total_amount ts \<le> lock_sum i ls"
proof -
  from assms(1) obtain f where f: "\<forall>t\<in>set ts. f t \<in> set ls \<and> lk_key (f t) = tf_group t \<and> lk_wallet (f t) = i \<and> lk_amount (f t) = total_amount t"
    by metis
  have d: "distinct ts" "inj_on tf_group (set ts)" using assms(2) by (simp_all add: distinct_map)
  then have inj: "inj_on f (set ts)" using f by (metis (no_types, lifting) inj_onD inj_onI)
  let ?g = "\<lambda>l. if lk_wallet l = i then lk_amount l else 0"
  have "sum_of total_amount ts = sum (\<lambda>t. ?g (f t)) (set ts)"
    using d(1) f by (simp add: sum_of_def sum_list_distinct_conv_sum_set)
  also have "\<dots> = sum ?g (f ` set ts)" by (simp add: sum.reindex [OF inj])
  also have "\<dots> \<le> sum ?g (set ls)" by (rule sum_mono2) (use f assms(3) in auto)
  also have "\<dots> = lock_sum i ls"
    using assms(4) by (simp add: lock_sum_def sum_of_def sum_list_distinct_conv_sum_set distinct_map)
  finally show ?thesis .
qed


end
