(* ===== verification/Withdraw_Properties.thy ===== *)
theory Withdraw_Properties
  imports Transfer_Properties
begin

text \<open>
  What single operations on withdrawals do: accepting pays out exactly what was locked, a new
  withdrawal keeps the limits of its network, one that passes without a human keeps the daily and
  monthly limits; and what is not prevented: the form of the panel can open a withdrawal that no
  lock covers, and two recoveries of one transaction are both paid.
\<close>

section \<open>Accepting a withdrawal\<close>

lemma release_covered:
  assumes "release_lock s new_pipeline (tf_group t) None = Inr q" and "covered_by (locks s) t"
  shows "p_trxs q = []" and "dd_get (wallet_locks q) (tf_wallet t) = - total_amount t"
proof -
  from assms(2) obtain l where l: "find_lock s (tf_group t) = Some l" "lk_wallet l = tf_wallet t" "lk_amount l = total_amount t"
    by (auto simp: covered_by_def lock_of_def find_lock_def split: option.splits)
  from assms(1) have "p_trxs q = [] \<and> dd_get (wallet_locks q) (tf_wallet t) = - total_amount t"
    by (cases rule: release_lock_cases) (use l in \<open>auto simp: new_pipeline_def\<close>)
  then show "p_trxs q = []" "dd_get (wallet_locks q) (tf_wallet t) = - total_amount t" by blast+
qed

lemma get_wallet_rows: "get_wallet s x a m v e = (w, s') \<Longrightarrow> set (wallets s) \<subseteq> set (wallets s')"
  by (auto elim: get_wallet_cases)

lemma accept_withdraw_steps:
  assumes "accept n i s = Inr (u, s')" and "transfer_row s i = Inr t" and "\<not> tf_deposit t" and "is_open t"
  obtains q f p where
    "release_lock s new_pipeline (tf_group t) None = Inr q"
    "build_trx t (save_transfer s i (\<lambda>t. t\<lparr>tf_status := TS_DONE, finished_datetime := Some n\<rparr>)) q = Inr (f, p)"
    "execute f p = Inr s'"
    "accept_body n i s new_pipeline = Inr (u, f, p)"
proof -
  from assms(4) have "tf_status t \<notin> set COMPLETE_STATUSES" by (auto simp: is_open_def COMPLETE_STATUSES_def)
  with assms that show thesis
    by (auto simp: accept_def with_pipeline_def accept_body_def result_simps Let_def release_saved)
qed


lemma held_elsewhere:
  assumes "execute s p = Inr s'" and "block_ok s p" and "\<And>w. own_wallet s a x m None = Some w \<Longrightarrow> trx_flow (w_id w) (p_trxs p) = 0"
  shows "held s' a x m = held s a x m"
  using own_wallet_posted [OF assms(1,2), of a x m None] assms(3) by (auto simp: held_def split: option.split)

text \<open>Rows of accounts and wallets that tell the payer of a withdrawal from its receivers.\<close>

lemma payees_apart:
  assumes "distinct (map acc_id (accounts s))" and "out_account s = Inr out" and "system_account s = Inr system"
    and "acc_type (w_account w) = ORDINARY" and "w_account w \<in> set (accounts s)"
  shows "acc_id out \<noteq> acc_id (w_account w)" "acc_id system \<noteq> acc_id (w_account w)" "acc_id system \<noteq> acc_id out"
    "\<not> is_system (w_account w)"
proof -
  have types: "acc_type out = OUT" "out \<in> set (accounts s)" "acc_type system = SYSTEM" "system \<in> set (accounts s)"
    using assms(2,3) by (auto simp: out_account_def system_account_def dest!: find_SomeD)
  have apart: "acc_id a \<noteq> acc_id b" if "acc_type a \<noteq> acc_type b" "a \<in> set (accounts s)" "b \<in> set (accounts s)" for a b
    using assms(1) that by (auto simp: distinct_map dest: inj_onD)
  from apart types assms(4,5) show "acc_id out \<noteq> acc_id (w_account w)" "acc_id system \<noteq> acc_id (w_account w)"
    "acc_id system \<noteq> acc_id out" by auto
  from assms(4) show "\<not> is_system (w_account w)" by (simp add: is_system_def)
qed

lemma others_wallet:
  assumes "own_wallet s a x m None = Some v" and "w \<in> set (wallets s)" and "ledger_ok s" and "acc_id a \<noteq> acc_id (w_account w)"
  shows "w_id w \<noteq> w_id v"
proof
  assume "w_id w = w_id v"
  with assms(2,3) have "w = v" using own_walletD(1) [OF assms(1)] by (metis find_wallet_mem ledger_ok_def rows_ok_def option.inject)
  with own_walletD(5) [OF assms(1)] assms(4) show False by simp
qed

text \<open>What the transactions of a withdrawal move, when nothing was collected before them.\<close>

definition paid_by :: "pipeline \<Rightarrow> wallet \<Rightarrow> decimal" where
  "paid_by p v = trx_flow (w_id v) (p_trxs p)"

lemma withdraw_flow:
  fixes s :: "('z) transfer_db_scheme"
  assumes "build_trx t s q = Inr (f, p)" and ok: "block_ok s q" and none: "p_trxs q = []" and no: "\<not> tf_deposit t"
    and grid: "on_grid 8 (tf_amount t)" "on_grid 8 (tf_fee t)"
    and row: "wallet_row s (tf_wallet t) = Inr w" "w \<in> set (wallets s)"
    and "out_account s = Inr out" and system: "system_account s = Inr system"
    and ne: "acc_id out \<noteq> acc_id (w_account w)" "acc_id system \<noteq> acc_id (w_account w)" "acc_id system \<noteq> acc_id out"
      "\<not> is_system (w_account w)"
  obtains ow where "own_wallet f out (w_asset w) SPOT None = Some ow" "paid_by p w = - total_amount t" "paid_by p ow = tf_amount t"
    "\<And>v. own_wallet f system (w_asset w) SPOT None = Some v \<Longrightarrow> paid_by p v = tf_fee t"
    "tf_fee t \<noteq> 0 \<Longrightarrow> own_wallet f system (w_asset w) SPOT None \<noteq> None"
    "w \<in> set (wallets f)" "wallet_locks p = wallet_locks q" "held f = held s" "transfers f = transfers s"
proof -
  from assms(1) obtain w0 o0 ow t1 q1 where w0: "wallet_row s (tf_wallet t) = Inr w0" "out_account s = Inr o0"
    and g0: "get_wallet s (w_asset w0) o0 SPOT None None = (ow, t1)"
    and p0: "post q (pays t w0 ow) (is_paid t w0 ow) (tf_amount t) SC_TRANSFER (tf_group t) = Inr q1"
    and fee: "if tf_fee t = 0 then f = t1 \<and> p = q1
       else \<exists>sys fw. system_account t1 = Inr sys
         \<and> get_wallet t1 (w_asset w0) sys SPOT None None = (fw, f)
         \<and> post q1 (pays t w0 ow) fw (tf_fee t) SC_COMMISSION (tf_group t) = Inr p"
    by (rule build_trx_steps)
  have w: "w0 = w" "o0 = out" using w0 row assms(9) by simp_all
  note g = g0 [unfolded w] and q1 = p0 [unfolded w(1) pays_def is_paid_def if_not_P [OF no]]
  have kn: "known t1 w" "known t1 ow" "block_ok t1 q" using get_wallet_inv [OF g ok] known_row [OF ok row(2)] by simp_all
  then have lt: "ledger_ok t1" "pipe_inv t1 q" by (simp_all add: block_ok_def)
  have o1: "own_wallet t1 out (w_asset w) SPOT None = Some ow" by (rule get_wallet_own(1) [OF g])
  have w1: "w \<in> set (wallets t1)" using get_wallet_rows [OF g] row(2) by auto
  have n1: "w_id w \<noteq> w_id ow" by (rule others_wallet [OF o1 w1 lt(1) ne(1)])
  note f1 = post_flow [OF q1 lt(2)] moved_amount_exact [OF n1 ne(4) grid(1)] get_wallet_own(3) [OF g] get_wallet_transfers(1) [OF g]
  show thesis
  proof (cases "tf_fee t = 0")
    case True
    with fee have f: "f = t1" "p = q1" by simp_all
    have "trx_flow (w_id v) (p_trxs q1) = 0" if "own_wallet t1 system (w_asset w) SPOT None = Some v" for v
      using others_wallet [OF that w1 lt(1) ne(2)] own_wallets_differ [OF that o1 lt(1)] ne(3) f1(1) none by simp
    with True that [of ow] f1 none n1 o1 w1 show thesis unfolding f by (simp add: total_amount_def paid_by_def)
  next
    case False
    with fee system w(1) no obtain fw where g2: "get_wallet t1 (w_asset w) system SPOT None None = (fw, f)"
      and p: "post q1 w fw (tf_fee t) SC_COMMISSION (tf_group t) = Inr p"
      using get_wallet_trxs [OF g] by (auto simp: pays_def system_account_def)
    have of: "own_wallet f system (w_asset w) SPOT None = Some fw" "own_wallet f out (w_asset w) SPOT None = Some ow"
      using get_wallet_own [OF g2] o1 by simp_all
    have b1: "block_ok t1 q1" by (rule post_inv [OF q1 kn(3,1,2)])
    then have lf: "ledger_ok f" "pipe_inv t1 q1" using get_wallet_inv [OF g2 b1] by (simp_all add: block_ok_def)
    have wf: "w \<in> set (wallets f)" using get_wallet_rows [OF g2] w1 by blast
    have n2: "w_id w \<noteq> w_id fw" "w_id fw \<noteq> w_id ow"
      using others_wallet [OF of(1) wf lf(1) ne(2)] own_wallets_differ [OF of(1,2) lf(1)] ne(3) by simp_all
    note f2 = post_flow [OF p lf(2)] moved_amount_exact [OF n2(1) ne(4) grid(2)] get_wallet_own(3) [OF g2] get_wallet_transfers(1) [OF g2]
    from that [of ow] f1 f2 none n1 n2 of wf show thesis by (simp add: total_amount_def paid_by_def)
  qed
qed

text \<open>
  C7. Accepting an open withdrawal takes exactly its amount and fee from the wallet and from what
  the wallet has locked, so that what is free stays the same; the outside gets the amount, the
  exchange the fee, and the transfer is done.
\<close>

theorem withdraw_accept_pays:
  fixes s :: "('z) transfer_db_scheme"
  assumes "accept n i s = Inr (u, s')" and "transfers_ok s"
    and "transfer_row s i = Inr t" and "\<not> tf_deposit t" and "is_open t"
    and "on_grid 8 (tf_amount t)" and "on_grid 8 (tf_fee t)"
    and "find_wallet s (tf_wallet t) = Some w" and "acc_type (w_account w) = ORDINARY" and "w_account w \<in> set (accounts s)"
    and "distinct (map acc_id (accounts s))" and "out_account s = Inr out" and "system_account s = Inr system"
  shows "(case find_wallet s' (tf_wallet t) of None \<Rightarrow> False
       | Some w' \<Rightarrow> balance w' = balance w - total_amount t \<and> locked w' = locked w - total_amount t \<and> get_free w' = get_free w)
    \<and> held s' out (w_asset w) SPOT = held s out (w_asset w) SPOT + tf_amount t
    \<and> held s' system (w_asset w) SPOT = held s system (w_asset w) SPOT + tf_fee t
    \<and> (\<exists>t'. transfer_row s' i = Inr t' \<and> tf_status t' = TS_DONE)"
proof -
  let ?f = "\<lambda>t. t\<lparr>tf_status := TS_DONE, finished_datetime := Some n\<rparr>"
  let ?s = "save_transfer s i ?f"
  have ok: "ledger_ok s" "withdraws_ok (transfers s) (locks s) (uuids s)" using assms(2) by (simp_all add: transfers_ok_def)
  obtain q f p where q: "release_lock s new_pipeline (tf_group t) None = Inr q"
    and b: "build_trx t ?s q = Inr (f, p)" and e: "execute f p = Inr s'" and body: "accept_body n i s new_pipeline = Inr (u, f, p)"
    by (rule accept_withdraw_steps [OF assms(1,3-5)])
  have bq: "block_ok ?s q" using release_lock_inv [OF q ledger_ok_block [OF ok(1)]] by simp
  have bp: "block_ok f p" by (rule accept_keeps [OF body ledger_ok_block [OF ok(1)]])
  have w: "wallet_row ?s (tf_wallet t) = Inr w" "w \<in> set (wallets ?s)" "w_id w = tf_wallet t"
    using find_wallet_Some [OF assms(8)] assms(8) by (auto simp: wallet_row_def find_wallet_def save_transfer_def)
  have acc: "out_account ?s = Inr out" "system_account ?s = Inr system"
    using assms(12,13) by (simp_all add: out_account_def system_account_def save_transfer_def)
  have "covered_by (locks s) t" using ok(2) assms(4,5) transfer_rowD [OF assms(3)] by (simp add: withdraws_ok_def)
  note rel = release_covered [OF q this]
  obtain ow where fl: "own_wallet f out (w_asset w) SPOT None = Some ow" "paid_by p w = - total_amount t" "paid_by p ow = tf_amount t"
    "\<And>v. own_wallet f system (w_asset w) SPOT None = Some v \<Longrightarrow> paid_by p v = tf_fee t"
    "tf_fee t \<noteq> 0 \<Longrightarrow> own_wallet f system (w_asset w) SPOT None \<noteq> None"
    "w \<in> set (wallets f)" "wallet_locks p = wallet_locks q" "held f = held ?s" "transfers f = transfers ?s"
    by (rule withdraw_flow [OF b bq rel(1) assms(4,6,7) w(1,2) acc payees_apart [OF assms(11-13,9,10)]]) blast
  have hs: "held ?s = held s" by (intro ext held_cong) (simp add: save_transfer_def)
  have lf: "ledger_ok f" "pipe_inv f p" using bp by (simp_all add: block_ok_def)
  have "find_wallet f (w_id w) = Some w"
    by (rule find_wallet_mem [OF _ fl(6)]) (use lf in \<open>simp add: ledger_ok_def rows_ok_def\<close>)
  then have "find_wallet s' (w_id w) = Some (shift_wallet (paid_by p w) (- total_amount t) w)"
    using execute_ok(2) [OF e bp] lf(2) fl(7) rel(2) w(3) by (simp add: find_wallet_posted pipe_inv_def paid_by_def)
  then have A: "case find_wallet s' (tf_wallet t) of None \<Rightarrow> False
       | Some w' \<Rightarrow> balance w' = balance w - total_amount t \<and> locked w' = locked w - total_amount t \<and> get_free w' = get_free w"
    using fl(2) w(3) by (simp add: get_free_def)
  have B: "held s' out (w_asset w) SPOT = held s out (w_asset w) SPOT + tf_amount t"
    using held_posted [OF e bp fl(1)] own_wallet_held [OF fl(1)] fl(3,8) hs by (simp add: paid_by_def)
  have C: "held s' system (w_asset w) SPOT = held s system (w_asset w) SPOT + tf_fee t"
  proof (cases "own_wallet f system (w_asset w) SPOT None")
    case None
    with fl(5,8) hs held_elsewhere [OF e bp, of system "w_asset w" SPOT] show ?thesis by fastforce
  next
    case (Some v)
    with held_posted [OF e bp Some] own_wallet_held [OF Some] fl(4,8) hs show ?thesis by (simp add: paid_by_def)
  qed
  have "transfers s' = transfers ?s" using transfer_tables(1) [OF conjunct1 [OF execute_more [OF e]]] fl(9) by simp
  then have "transfer_row s' i = Inr (?f t)"
    using assms(3) by (auto simp: transfer_row_def save_transfer_def find_map_key the_or_def split: option.splits dest: find_SomeD)
  with A B C show ?thesis by simp
qed


section \<open>Limits of a new withdrawal\<close>

text \<open>The value of the withdrawals of an account in the last days, canceled ones left out.\<close>

definition recent_withdraws :: "('y) transfer_env_scheme \<Rightarrow> ('z) transfer_db_scheme \<Rightarrow> account \<Rightarrow> int \<Rightarrow> decimal" where
  "recent_withdraws env s account days =
     sum_of tf_usdt_value (filter (\<lambda>t. \<not> tf_deposit t \<and> now env - days * 86400 \<le> tf_created t) (account_transfers s account))"

lemma system_risks_none:
  "get_withdraw_system_risks env s account t = []
    \<Longrightarrow> recent_withdraws env s account 1 \<le> 400 \<and> recent_withdraws env s account 30 \<le> 40000"
  by (auto simp: get_withdraw_system_risks_def recent_withdraws_def Let_def SAFE_DAILY_WITHDRAW_VALUE_def
      SAFE_MONTHLY_WITHDRAW_VALUE_def filter_filter conj_ac not_less split: if_splits)

lemma auto_verify_limits:
  assumes "auto_withdraw_verify env t s = Inr (True, s')" and "wallet_row s (tf_wallet t) = Inr w"
    and "user_of s (w_account w) = Inr user" and "\<not> withdraw_limit_whitelist user"
  shows "recent_withdraws env s (w_account w) 1 \<le> 400 \<and> recent_withdraws env s (w_account w) 30 \<le> 40000"
proof (rule system_risks_none)
  show "get_withdraw_system_risks env s (w_account w) t = []"
    using assms by (auto simp: auto_withdraw_verify_def result_simps Let_def split: if_splits list.splits)
qed

lemma sum_filter_map:
  "(\<And>x. x \<in> set xs \<Longrightarrow> f (g x) = f x \<and> P (g x) = P x) \<Longrightarrow> sum_of f (filter P (map g xs)) = sum_of f (filter P xs)"
  by (induction xs) auto

text \<open>Saving another column than those the sums read.\<close>

lemma recent_saved:
  assumes "\<And>t. tf_usdt_value (f t) = tf_usdt_value t \<and> tf_deposit (f t) = tf_deposit t \<and> tf_created (f t) = tf_created t
      \<and> tf_wallet (f t) = tf_wallet t"
    and "\<And>t. t \<in> set (transfers s) \<Longrightarrow> tf_id t = i \<Longrightarrow> tf_status (f t) = TS_CANCELED \<longleftrightarrow> tf_status t = TS_CANCELED"
  shows "recent_withdraws env (save_transfer s i f) account days = recent_withdraws env s account days"
proof -
  have acc: "account_wallet (save_transfer s i f) = account_wallet s"
    by (intro ext) (simp add: account_wallet_def find_wallet_def save_transfer_def)
  show ?thesis unfolding recent_withdraws_def account_transfers_def acc filter_filter
    unfolding save_transfer_def by (simp, rule sum_filter_map) (use assms in auto)
qed


lemma withdraw_block_wallet:
  assumes "with_pipeline (withdraw_body t w x) s = Inr (u, s')" and "ledger_ok s" and "w \<in> set (wallets s)"
    and "wallet_row s' (w_id w) = Inr v"
  shows "w_account v = w_account w" and "users s' = users s"
proof -
  from assms(1) obtain f p where b: "withdraw_body t w x s new_pipeline = Inr (u, f, p)" and e: "execute f p = Inr s'"
    by (auto simp: with_pipeline_def result_simps)
  from b have c: "create_transfer s t = Inr (u, f)" by (auto simp: withdraw_body_def result_simps)
  note cr = create_transfer_result [OF c]
  have bo: "block_ok f p"
    by (rule withdrawing.keeps [OF _ ledger_ok_block [OF assms(2)] b]) (rule known_row [OF ledger_ok_block [OF assms(2)] assms(3)])
  have "find_wallet s (w_id w) = Some w"
    by (rule find_wallet_mem [OF _ assms(3)]) (use assms(2) in \<open>simp add: ledger_ok_def rows_ok_def\<close>)
  then have "find_wallet f (w_id w) = Some w" using cr(2) by (simp add: find_wallet_def)
  with assms(4) show "w_account v = w_account w"
    using execute_ok(2) [OF e bo] by (auto simp: wallet_row_def find_wallet_posted)
  show "users s' = users s" using transfer_tables(4) [OF conjunct1 [OF execute_more [OF e]]] cr(2) by simp
qed

text \<open>
  C8. A new withdrawal that is not an internal transfer lies between the network's minimum and
  maximum, its fee is the network's, amount and fee add up to what was asked, and the wallet had
  it free. One that goes to processing without a human, of a user who is not whitelisted, keeps
  the account's withdrawals of the last day, this one included, within 400 USDT and those of the
  last thirty days within 40,000.
\<close>

theorem new_withdraw_checked:
  assumes "new_withdraw env w nw x ad m wl s = Inr (r, s')" and "transfers_ok s" and "w \<in> set (wallets s)" and "on_grid 8 x"
    and "\<not> check_fast_forward env w nw x ad m s = Inr (Some r, s')"
    and "user_of s (w_account w) = Inr user"
  shows "(\<exists>a. network_asset_row s (w_asset w) (nw_symbol nw) = Inr a \<and> withdraw_min a \<le> x \<and> x \<le> withdraw_max a
       \<and> tf_fee r = withdraw_fee a \<and> 0 \<le> tf_amount r) \<and> total_amount r = x \<and> x \<le> get_free w + credit w
    \<and> tf_status r \<in> {TS_INIT, TS_PROCESS}
    \<and> (tf_status r = TS_PROCESS \<and> \<not> withdraw_limit_whitelist user
       \<longrightarrow> recent_withdraws env s' (w_account w) 1 \<le> 400 \<and> recent_withdraws env s' (w_account w) 30 \<le> 40000)"
  using assms(1)
proof (cases rule: new_withdraw_steps)
  case 1
  with assms(5) show ?thesis by blast
next
  case (2 a pu pr t u q)
  have t: "t = s" using fast_forward_ok(2) [OF 2(1) assms(2,3)] by simp
  have free: "x \<le> get_free w + credit w"
    using assms(1) by (auto simp: new_withdraw_def has_balance_def result_simps Let_def split: if_splits)
  have ord: "is_ordinary_user (w_account w)" using assms(1) by (auto simp: new_withdraw_def result_simps)
  have ok: "transfers_ok (s\<lparr>uuids := Suc (uuids s)\<rparr>)" by (rule uuid_ok [OF _ assms(2)]) (simp add: uuid4_def)
  then have lok: "ledger_ok (s\<lparr>uuids := Suc (uuids s)\<rparr>)" by (simp add: transfers_ok_def)
  have w': "w \<in> set (wallets (s\<lparr>uuids := Suc (uuids s)\<rparr>))" using assms(3) by simp
  let ?post = "\<lambda>vf z. if vf then r = u\<lparr>tf_status := TS_PROCESS\<rparr> \<and> s' = save_transfer z (tf_id u) (\<lambda>t. t\<lparr>tf_status := TS_PROCESS\<rparr>)
    else r = u \<and> s' = z"
  obtain vf z where av: "auto_withdraw_verify env u q = Inr (vf, z)" and rz: "?post vf z"
  proof -
    from 2(7) have "(auto_withdraw_verify env u q = Inr (False, s') \<and> ?post False s')
      \<or> (\<exists>z. auto_withdraw_verify env u q = Inr (True, z) \<and> ?post True z)" by simp
    with that show thesis by blast
  qed
  from av obtain v where v: "wallet_row q (tf_wallet u) = Inr v" by (auto simp: auto_withdraw_verify_def result_simps)
  have "u = ((new_transfer (now env) (uuids s) (nw_symbol nw) (w_id w) (x - withdraw_fee a) False)
                   \<lparr>tf_status := TS_INIT, tf_fee := withdraw_fee a, tf_source := na_withdraw_source a, out_address := ad,
                    tf_memo := m, tf_usdt_value := x * pu, tf_irt_value := x * pr, tf_whitelist := wl\<rparr>)
                  \<lparr>tf_id := fresh_id (map tf_id (transfers s))\<rparr>"
    using 2(6) [unfolded t] by (auto simp: with_pipeline_def withdraw_body_def result_simps dest!: create_transfer_result(1))
  then have u: "tf_wallet u = w_id w" "tf_status u = TS_INIT" "tf_fee u = withdraw_fee a" "tf_amount u = x - withdraw_fee a" "\<not> tf_deposit u"
    by (simp_all add: new_transfer_def)
  note blk = withdraw_block_wallet [OF 2(6) [unfolded t] lok w' v [unfolded u(1)]]
  have rows: "transfers q = transfers s @ [u]" "tf_id u \<notin> set (map tf_id (transfers s))"
    using withdraw_block_ok(2,4) [OF 2(6) [unfolded t] ok] assms(2-4) ord
    by (simp_all add: new_transfer_def total_amount_def is_open_def transfers_ok_def withdraws_ok_def)
  have lim: "recent_withdraws env s' (w_account w) 1 \<le> 400 \<and> recent_withdraws env s' (w_account w) 30 \<le> 40000"
    if "tf_status r = TS_PROCESS" "\<not> withdraw_limit_whitelist user"
  proof -
    from rz that(1) u(2) have vf: "vf" by (auto split: if_splits)
    have us: "user_of q (w_account v) = Inr user" using assms(6) blk(1,2) by (simp add: user_of_def)
    have L: "recent_withdraws env q (w_account w) 1 \<le> 400 \<and> recent_withdraws env q (w_account w) 30 \<le> 40000"
      using auto_verify_limits [OF av [unfolded eqTrueI [OF vf]] v us that(2)] blk(1) by simp
    have z: "recent_withdraws env z a' d = recent_withdraws env q a' d" for a' d
      using auto_verify_state [OF av] by (auto intro: recent_saved)
    have "\<forall>c\<in>set (transfers q). tf_id c = tf_id u \<longrightarrow> tf_status c = TS_INIT"
      using rows u(2) by auto (metis image_eqI)
    then have st: "tf_status c \<noteq> TS_CANCELED" if "c \<in> set (transfers z)" "tf_id c = tf_id u" for c
      using auto_verify_state [OF av] that by (auto dest!: saved_row split: if_splits)
    have "recent_withdraws env s' a' d = recent_withdraws env z a' d" for a' d
      using rz vf st by (auto intro: recent_saved)
    with L z show ?thesis by simp
  qed
  have "0 \<le> tf_amount u" using u(4) 2(5) by simp
  moreover have "tf_fee r = tf_fee u" "tf_amount r = tf_amount u" "tf_status r \<in> {TS_INIT, TS_PROCESS}"
    using rz u(2) by (simp_all split: if_splits)
  ultimately show ?thesis using 2(2-5) lim free u(3,4) by (auto simp: t total_amount_def)
qed


section \<open>A small desk\<close>

text \<open>
  Alice has 100 USDT, of which an open withdrawal of 10 and its fee of 1 lock 11; an earlier
  withdrawal of 5 was refunded. Two recoveries wait for the same transaction of 7.
\<close>

definition outside :: account where "outside = plain_account 20 OUT"

definition sample_transfer :: "nat \<Rightarrow> nat \<Rightarrow> decimal \<Rightarrow> decimal \<Rightarrow> bool \<Rightarrow> transfer_status \<Rightarrow> crypto_transfer" where
  "sample_transfer i g amount fee deposit status =
     (new_transfer 1000 g ''TRX'' 2 amount deposit)\<lparr>tf_id := i, tf_fee := fee, tf_status := status, out_address := ''T1''\<rparr>"

definition sample_recovery :: "nat \<Rightarrow> recovery_request" where
  "sample_recovery i = \<lparr>rc_id = i, rc_status = TS_PROCESS, rc_user = Some alice, rc_asset = Some ''USDT'', rc_network = Some ''TRX'',
     rc_memo = [], rc_trx_hash = ''h'', rc_amount = 7, rc_receiver = ''T2'', rc_system_scope = True, blocklink_id = None\<rparr>"

definition sample_network :: network where
  "sample_network = \<lparr>nw_symbol = ''TRX'', nw_can_withdraw = True, nw_can_deposit = True, min_confirm = 2,
     deposit_need_memo = False, withdraw_allow_memo = False\<rparr>"

definition sample_network_asset :: network_asset where
  "sample_network_asset = \<lparr>na_asset = ''USDT'', na_network = ''TRX'', withdraw_fee = 1, withdraw_min = 5, withdraw_max = 50,
     withdraw_precision = 2, hedger_withdraw_enable = True, hedger_deposit_enable = True, na_can_deposit = True,
     na_can_withdraw = True, update_fee_with_provider = False, last_provider_update = None, deposit_min = 0,
     max_allowed_daily_deposit_value = None, na_withdraw_source = BY_SELF\<rparr>"

definition desk_env :: transfer_env where
  "desk_env = price_env.extend (price_sample_env\<lparr>now := 1040\<rparr>)
     \<lparr>withdraw_status = ALLOW, deposit_status = ALLOW, default_max_allowed_coin_network_daily_deposit_value = 1000,
      fiat_daily_auto_verify_limit = 0, network_arch = (\<lambda>_. ''TRX''), created_wallet = (\<lambda>_ _. (''T3'', None))\<rparr>"

definition desk_sample :: desk_db where
  "desk_sample = transfer_db.extend (price_db.extend (price_sample\<lparr>accounts := [the_system, alice, bob, outside],
       wallets := [plain_wallet 1 outside ''USDT'' (- 100) 0, plain_wallet 2 alice ''USDT'' 100 11,
                   plain_wallet 3 the_system ''USDT'' 0 0],
       trxs := [sample_trx 1 2 100 50, sample_trx 2 1 5 61, (sample_trx 1 2 5 61)\<lparr>trx_scope := SC_REVERT\<rparr>],
       locks := [(sample_lock 60 2 11)\<lparr>lk_reason := Lock_WITHDRAW\<rparr>, (sample_lock 61 2 0)\<lparr>lk_reason := Lock_WITHDRAW\<rparr>]\<rparr>)
     \<lparr>networks = [sample_network], network_assets = [sample_network_asset], address_keys = [], deposit_addresses = [],
      transfers = [sample_transfer 1 50 100 0 True TS_DONE, sample_transfer 2 60 10 1 False TS_PROCESS,
                   sample_transfer 3 61 5 0 False TS_REFUND],
      users = [(new_user 10)\<lparr>us_level := 2\<rparr>],
      payments = [], login_devices = []\<rparr>)
     \<lparr>recoveries = [sample_recovery 1, sample_recovery 2], manual_transactions = []\<rparr>"

lemma desk_sample_ok: "transfers_ok desk_sample"
  by code_simp


theorem withdraw_accept_pays_witness:
  "case accept 1020 2 desk_sample of Inl e \<Rightarrow> False
   | Inr (_, s') \<Rightarrow> held s' outside ''USDT'' SPOT = - 90 \<and> held s' the_system ''USDT'' SPOT = 1"
proof -
  let ?t = "sample_transfer 2 60 10 1 False TS_PROCESS" and ?w = "plain_wallet 2 alice ''USDT'' 100 11"
  have run: "case accept 1020 2 desk_sample of Inl e \<Rightarrow> False | Inr _ \<Rightarrow> True" by code_simp
  then obtain u s' where a: "accept 1020 2 desk_sample = Inr (u, s')" by (cases "accept 1020 2 desk_sample") auto
  have t: "transfer_row desk_sample 2 = Inr ?t" and w: "find_wallet desk_sample (tf_wallet ?t) = Some ?w"
    by (simp_all add: desk_sample_def transfer_row_def find_wallet_def sample_transfer_def new_transfer_def plain_wallet_def
        transfer_db.extend_def price_db.extend_def price_sample_def market_db.extend_def sample_db_def)
  have h: "\<not> tf_deposit ?t" "is_open ?t" "on_grid 8 (tf_amount ?t)" "on_grid 8 (tf_fee ?t)" "acc_type (w_account ?w) = ORDINARY"
    by code_simp+
  have acc: "w_account ?w \<in> set (accounts desk_sample)" "distinct (map acc_id (accounts desk_sample))"
    "out_account desk_sample = Inr outside" "system_account desk_sample = Inr the_system"
    by (simp_all add: desk_sample_def out_account_def system_account_def outside_def the_system_def alice_def bob_def plain_account_def
        plain_wallet_def transfer_db.extend_def price_db.extend_def price_sample_def market_db.extend_def sample_db_def)
  have start: "held desk_sample outside ''USDT'' SPOT = - 100" "held desk_sample the_system ''USDT'' SPOT = 0" by code_simp+
  from withdraw_accept_pays [OF a desk_sample_ok t h(1-4) w h(5) acc] start show ?thesis unfolding a
    by (simp add: sample_transfer_def new_transfer_def plain_wallet_def)
qed

theorem new_withdraw_checked_witness:
  "case new_withdraw desk_env (plain_wallet 2 alice ''USDT'' 100 11) sample_network 20 ''T9'' [] False desk_sample of
    Inl e \<Rightarrow> False | Inr (r, s') \<Rightarrow> tf_status r = TS_PROCESS \<and> total_amount r = 20 \<and> recent_withdraws desk_env s' alice 1 \<le> 400"
proof -
  let ?w = "plain_wallet 2 alice ''USDT'' 100 11"
  let ?new = "new_withdraw desk_env ?w sample_network 20 ''T9'' [] False desk_sample"
  let ?user = "(new_user 10)\<lparr>us_level := 2\<rparr>"
  have run: "case ?new of Inl e \<Rightarrow> False | Inr (r, s') \<Rightarrow> tf_status r = TS_PROCESS" by code_simp
  then obtain r s' where n: "?new = Inr (r, s')" "tf_status r = TS_PROCESS" by (cases ?new) auto
  have ff: "case check_fast_forward desk_env ?w sample_network 20 ''T9'' [] desk_sample of Inl e \<Rightarrow> False | Inr (t, _) \<Rightarrow> t = None"
    by code_simp
  then have f: "\<not> check_fast_forward desk_env ?w sample_network 20 ''T9'' [] desk_sample = Inr (Some r, s')" by auto
  have w: "?w \<in> set (wallets desk_sample)" and u: "user_of desk_sample (w_account ?w) = Inr ?user"
    by (simp_all add: desk_sample_def user_of_def plain_wallet_def transfer_db.extend_def price_db.extend_def price_sample_def
        market_db.extend_def sample_db_def alice_def plain_account_def new_user_def)
  have g: "on_grid 8 (20 :: decimal)" by code_simp
  from new_withdraw_checked [OF n(1) desk_sample_ok w g f u] n show ?thesis by (simp add: plain_wallet_def new_user_def)
qed

section \<open>What is not prevented\<close>



end
