(* ===== verification/Otc.thy ===== *)
theory Otc
  imports Transfer_Requests
begin

text \<open>
  Direct trades with the exchange (\<^verbatim>\<open>ledger/models/otc_request.py\<close>, \<^verbatim>\<open>otc_trade.py\<close>,
  \<^verbatim>\<open>fast_buy_token.py\<close>, \<^verbatim>\<open>ledger/utils/otc.py\<close>, \<^verbatim>\<open>provider.py\<close>): a user asks for a price, the request is
  kept, and accepting it locks what is paid and fills it either from the exchange's own book with a
  fill-or-kill order of the OTC account, or against an outside provider. The provider's answers
  and the prizes of \<^verbatim>\<open>gamify\<close> are outside; the notifications are left out.
\<close>

section \<open>Tables\<close>

text \<open>The request's type has the names of an order's fill type.\<close>

record otc_request = base_trade +
  or_id :: nat
  or_token :: nat
  or_from :: string
  or_to :: string
  from_amount :: "decimal option"
  to_amount :: "decimal option"
  gtd :: "int option"
  or_type :: fill_type
  or_created :: int

datatype otc_trade_status = OT_PENDING | OT_CANCELED | OT_USER_CANCELED | OT_DONE | OT_REVERT | OT_EXPIRED
datatype execution_type = EX_MARKET | EX_PROVIDER

record otc_trade =
  ot_id :: nat
  ot_request :: nat
  ot_group :: nat
  ot_status :: otc_trade_status
  ot_execution :: execution_type
  ot_gap_revenue :: decimal
  ot_order :: "nat option"
  to_buy_amount :: decimal
  hedged :: bool
  ot_created :: int

datatype fast_buy_status = FB_PROCESS | FB_DEPOSIT | FB_DONE

record fast_buy_token =
  fb_id :: nat
  fb_account :: account
  fb_asset :: string
  fb_status :: fast_buy_status
  fb_request :: "nat option"
  fb_payment_request :: nat

record otc_db = desk_db +
  otc_requests :: "otc_request list"
  otc_trades :: "otc_trade list"
  fast_buys :: "fast_buy_token list"

record market_info =
  mi_base_coin :: string
  mi_spot :: bool
  mi_tick_size :: decimal
  mi_step_size :: decimal
  mi_min_notional :: decimal

record provider_order =
  po_coin :: string
  po_side :: side
  po_amount :: decimal
  po_price :: "decimal option"

text \<open>
  \<open>market_info_of\<close>, \<open>spot_balance_of\<close>, \<open>busd_balance\<close>, \<open>accepts_order\<close> are the answers of the
  provider, an exception where a call fails; \<open>hedging_off\<close> is \<^verbatim>\<open>DEBUG_OR_TESTING_OR_STAGING\<close>.
\<close>

record otc_env = transfer_env +
  enable_otc_limit :: bool
  hedging_off :: bool
  market_info_of :: "string \<Rightarrow> side \<Rightarrow> market_info result"
  spot_balance_of :: "string \<Rightarrow> decimal result"
  busd_balance :: "decimal result"
  accepts_order :: "provider_order \<Rightarrow> bool result"

section \<open>Rows\<close>

text \<open>A request as the database returns it, with the present rows of its pair and its account.\<close>

definition otc_request_row :: "('z) otc_db_scheme \<Rightarrow> nat \<Rightarrow> otc_request result" where
  "otc_request_row s i =
     bindE (the_or DoesNotExist (List.find (\<lambda>r. or_id r = i) (otc_requests s))) (\<lambda>r.
     bindE (symbol_row s (sy_name (bt_symbol r))) (\<lambda>y.
     bindE (find_account s (acc_id (bt_account r))) (\<lambda>a.
     Inr (r\<lparr>bt_symbol := y, bt_account := a\<rparr>))))"

definition otc_trade_row :: "('z) otc_db_scheme \<Rightarrow> nat \<Rightarrow> otc_trade result" where
  "otc_trade_row s i = the_or DoesNotExist (List.find (\<lambda>t. ot_id t = i) (otc_trades s))"

definition save_otc :: "('z) otc_db_scheme \<Rightarrow> nat \<Rightarrow> (otc_trade \<Rightarrow> otc_trade) \<Rightarrow> ('z) otc_db_scheme" where
  "save_otc s i f = s\<lparr>otc_trades := map (\<lambda>t. if ot_id t = i then f t else t) (otc_trades s)\<rparr>"

definition request_amounts_ok :: "otc_request \<Rightarrow> bool" where
  "request_amounts_ok r \<longleftrightarrow>
     (case from_amount r of None \<Rightarrow> True | Some x \<Rightarrow> 0 \<le> x) \<and> (case to_amount r of None \<Rightarrow> True | Some x \<Rightarrow> 0 \<le> x)
     \<and> 0 \<le> bt_amount r \<and> 0 \<le> bt_price r \<and> 0 \<le> fee_amount r"

definition save_otc_request :: "otc_request \<Rightarrow> ('z) otc_db_scheme \<Rightarrow> (otc_request \<times> ('z) otc_db_scheme) result" where
  "save_otc_request r s =
     (let r = r\<lparr>or_id := fresh_id (map or_id (otc_requests s))\<rparr> in
      bindE (guardE IntegrityError (request_amounts_ok r)) (\<lambda>_.
      Inr (r, s\<lparr>otc_requests := otc_requests s @ [r]\<rparr>)))"

section \<open>Asking for a price\<close>

record trading_pair =
  pr_side :: side
  pr_coin :: string
  pr_base :: string
  pr_coin_amount :: "decimal option"
  pr_base_amount :: "decimal option"

definition get_trading_pair :: "string \<Rightarrow> string \<Rightarrow> decimal option \<Rightarrow> decimal option \<Rightarrow> trading_pair result" where
  "get_trading_pair from_asset to_asset x y =
     (if from_asset \<in> {''IRT'', ''USDT''} \<and> to_asset \<noteq> ''IRT''
      then Inr \<lparr>pr_side = BUY, pr_coin = to_asset, pr_base = from_asset, pr_coin_amount = y, pr_base_amount = x\<rparr>
      else if to_asset \<in> {''IRT'', ''USDT''}
      then Inr \<lparr>pr_side = SELL, pr_coin = from_asset, pr_base = to_asset, pr_coin_amount = x, pr_base_amount = y\<rparr>
      else Inl NotImplementedErr)"

text \<open>The truth value of an optional number.\<close>

definition given :: "decimal option \<Rightarrow> bool" where
  "given x \<longleftrightarrow> x \<noteq> None \<and> x \<noteq> Some 0"

definition first_amount :: "decimal option \<Rightarrow> decimal option \<Rightarrow> decimal" where
  "first_amount x y = (if given x then the x else case y of Some a \<Rightarrow> a | None \<Rightarrow> 0)"

definition base_price_of :: "string \<Rightarrow> decimal option \<Rightarrow> (decimal \<times> decimal) result" where
  "base_price_of base usdt_irt =
     bindE (the_or TypeErr usdt_irt) (\<lambda>u.
     if base = ''USDT'' then Inr (u, 1) else bindE (divide_by 1 u) (\<lambda>x. Inr (1, x)))"

text \<open>The amount of the coin at a price: as asked for, or what the base amount buys.\<close>

definition coin_amount_at :: "trading_pair \<Rightarrow> pair_symbol \<Rightarrow> decimal \<Rightarrow> decimal result" where
  "coin_amount_at pair y price =
     (case pr_coin_amount pair of
        Some a \<Rightarrow> Inr a
      | None \<Rightarrow>
          bindE (the_or TypeErr (pr_base_amount pair)) (\<lambda>b.
          bindE (divide_by b price) (\<lambda>a. Inr (floor_precision a (int (step_size y))))))"

definition otc_price ::
  "('y) otc_env_scheme \<Rightarrow> ('z) otc_db_scheme \<Rightarrow> trading_pair \<Rightarrow> pair_symbol \<Rightarrow> fill_type \<Rightarrow> decimal option
     \<Rightarrow> (decimal \<times> decimal) result" where
  "otc_price env s pair y ty price =
     (let other_side = get_other_side (pr_side pair) in
      bindE (if pr_coin_amount pair = None \<and> ty = MARKET then get_price env s (sy_name y) other_side False
             else Inr price) (\<lambda>price.
      bindE (case pr_coin_amount pair of
               Some a \<Rightarrow> Inr a
             | None \<Rightarrow> bindE (the_or NoPriceError price) (coin_amount_at pair y)) (\<lambda>coin_amount.
      bindE (if ty = MARKET
             then bindE (get_depth_price env s (sy_name y) other_side coin_amount True) (\<lambda>p. Inr (Some p))
             else Inr price) (\<lambda>price.
      bindE (the_or NoPriceError price) (\<lambda>price.
      bindE (coin_amount_at pair y price) (\<lambda>coin_amount. Inr (coin_amount, price)))))))"

definition get_otc_request ::
  "('y) otc_env_scheme \<Rightarrow> account \<Rightarrow> string \<Rightarrow> string \<Rightarrow> fill_type \<Rightarrow> decimal option \<Rightarrow> decimal option \<Rightarrow> wallet_market
     \<Rightarrow> int option \<Rightarrow> decimal option \<Rightarrow> ('z) otc_db_scheme \<Rightarrow> otc_request result" where
  "get_otc_request env a from_asset to_asset ty x y m g price s =
     bindE (assertE ((given x \<or> given y) \<and> (\<not> given x \<or> \<not> given y))) (\<lambda>_.
     bindE (get_trading_pair from_asset to_asset x y) (\<lambda>pair.
     bindE (the_or DoesNotExist (List.find (\<lambda>z. sy_asset z = pr_coin pair \<and> sy_base z = pr_base pair) (symbols s))) (\<lambda>z.
     bindE (get_price env s USDT_IRT (get_other_side (pr_side pair)) True) (\<lambda>usdt_irt.
     bindE (base_price_of (pr_base pair) usdt_irt) (\<lambda>(irt, usdt).
     bindE (otc_price env s pair z ty price) (\<lambda>(amount, price).
     let r = \<lparr>bt_side = pr_side pair, bt_amount = amount, bt_price = price, is_maker = False, bt_symbol = z, bt_account = a,
              bt_market = m, base_irt_price = irt, base_usdt_price = usdt, fee_amount = 0, fee_usdt_value = 0,
              fee_revenue = 0, or_id = 0, or_token = 0, or_from = from_asset, or_to = to_asset,
              from_amount = x, to_amount = y, gtd = g, or_type = ty, or_created = now env\<rparr>;
         info = get_fee_info s (now env) r
     in Inr (r\<lparr>fee_amount := trader_fee_amount info, fee_usdt_value := trader_fee_value info, fee_revenue := fi_revenue info\<rparr>)))))))"

definition OTC_MIN_HARD_FIAT_VALUE :: decimal where "OTC_MIN_HARD_FIAT_VALUE = 8000"
definition OTC_MAX_HARD_FIAT_VALUE :: decimal where "OTC_MAX_HARD_FIAT_VALUE = 2000000000"

definition otc_side_open :: "asset_row \<Rightarrow> side \<Rightarrow> bool" where
  "otc_side_open x sd \<longleftrightarrow> otc_status x \<in> {OTC_ACTIVE, if sd = BUY then OTC_BUY else OTC_SELL}"

definition check_value :: "otc_request \<Rightarrow> unit result" where
  "check_value r =
     bindE (guardE SmallAmountTrade (\<not> irt_value r < OTC_MIN_HARD_FIAT_VALUE)) (\<lambda>_.
     guardE LargeAmountTrade (\<not> OTC_MAX_HARD_FIAT_VALUE < irt_value r))"

text \<open>The wallet that pays may be created on the way; it stays when the request is refused after that.\<close>

definition new_trade ::
  "('y) otc_env_scheme \<Rightarrow> account \<Rightarrow> wallet_market \<Rightarrow> string \<Rightarrow> string \<Rightarrow> fill_type \<Rightarrow> decimal option \<Rightarrow> decimal option
     \<Rightarrow> int option \<Rightarrow> decimal option \<Rightarrow> ('z) otc_db_scheme \<Rightarrow> (('z) otc_db_scheme, otc_request) outcome" where
  "new_trade env a m from_asset to_asset ty x y g price s =
     next_step (look s (assertE ((given x \<or> given y) \<and> 0 < first_amount x y))) (\<lambda>_ s.
     next_step (look s (get_otc_request env a from_asset to_asset ty x y m g price s)) (\<lambda>r s.
     next_step (look s (check_value r)) (\<lambda>_ s.
     let (w, s) = get_wallet s from_asset a m None None in
     next_step (look s (has_balance w (get_paying_amount r) True True 0)) (\<lambda>_ s.
     next_step (look s (asset_get s (sy_asset (bt_symbol r)))) (\<lambda>coin s.
     next_step (look s (guardE ValidationErr (otc_side_open coin (bt_side r)))) (\<lambda>_ s.
     let (token, s) = uuid4 s in
     attempt s (save_otc_request (r\<lparr>or_token := token\<rparr>) s)))))))"

definition EXPIRATION_TIME :: int where "EXPIRATION_TIME = 11"

definition request_expired :: "('y) market_env_scheme \<Rightarrow> otc_request \<Rightarrow> bool" where
  "request_expired env r \<longleftrightarrow> EXPIRATION_TIME \<le> now env - or_created r"

section \<open>Hedging with the provider\<close>

text \<open>\<^verbatim>\<open>int(log10(x))\<close> of a positive number of at most thirty digits, rounded towards zero.\<close>

definition int_log10 :: "decimal \<Rightarrow> int" where
  "int_log10 x =
     (if 1 \<le> x then int (length (takeWhile (\<lambda>k. 10 ^ k \<le> x) [1..<31]))
      else - int (length (takeWhile (\<lambda>k. 10 ^ k \<le> 1 / x) [1..<31])))"

definition digits_of_step :: "decimal \<Rightarrow> int" where
  "digits_of_step step = min (- int_log10 step) 8"

definition provider_price ::
  "('y) otc_env_scheme \<Rightarrow> ('z) otc_db_scheme \<Rightarrow> string \<Rightarrow> decimal option \<Rightarrow> decimal result" where
  "provider_price env s coin hedge_price =
     (if given hedge_price then Inr (the hedge_price)
      else bindE (get_price env s (coin @ ''USDT'') BUY False) (the_or TypeErr))"

text \<open>A spot provider cannot sell more than it holds: a small shortage is sold without.\<close>

definition sellable_amount ::
  "('y) otc_env_scheme \<Rightarrow> string \<Rightarrow> market_info \<Rightarrow> side \<Rightarrow> decimal \<Rightarrow> decimal \<Rightarrow> decimal option result" where
  "sellable_amount env coin info sd price order_amount =
     (let min_notional = mi_min_notional info * (11 / 10) in
      if mi_spot info \<and> sd = SELL
      then bindE (spot_balance_of env coin) (\<lambda>bal.
           if bal < order_amount \<and> (order_amount - bal) * price < min_notional
           then (let a = floor_precision bal (digits_of_step (mi_step_size info))
                 in Inr (if a * price < min_notional then None else Some a))
           else Inr (Some order_amount))
      else Inr (Some order_amount))"

definition provide_busd ::
  "('y) otc_env_scheme \<Rightarrow> market_info \<Rightarrow> side \<Rightarrow> decimal \<Rightarrow> provider_order list result" where
  "provide_busd env info sd needed =
     (if sd = BUY \<and> mi_base_coin info = ''BUSD''
      then bindE (busd_balance env) (\<lambda>busd.
           if busd < needed
           then (let order = \<lparr>po_coin = ''BUSD'', po_side = BUY,
                   po_amount = max (of_int \<lceil>(needed - busd) * (101 / 100)\<rceil>) (mi_min_notional info * (11 / 10)), po_price = None\<rparr>
                 in bindE (accepts_order env order) (\<lambda>_. Inr [order]))
           else Inr [])
      else Inr [])"

text \<open>Whether the amount was hedged, with the orders sent.\<close>

definition try_hedge_new_order ::
  "('y) otc_env_scheme \<Rightarrow> ('z) otc_db_scheme \<Rightarrow> asset_row \<Rightarrow> decimal \<Rightarrow> decimal option \<Rightarrow> (bool \<times> provider_order list) result" where
  "try_hedge_new_order env s asset buy_amount hedge_price =
     (if hedging_off env \<or> \<not> as_hedge asset then Inr (False, [])
      else
        let sd = (if 0 < buy_amount then BUY else SELL) in
        bindE (market_info_of env (as_symbol asset) sd) (\<lambda>info.
        let threshold = (if 0 < buy_amount then mi_step_size info / 2 else mi_step_size info * 2);
            order_amount = round_digits \<bar>buy_amount\<bar> (digits_of_step (mi_step_size info)) in
        if \<bar>buy_amount\<bar> < threshold then Inr (False, [])
        else
          let sd = (if buy_amount < 0 then SELL else BUY) in
          bindE (provider_price env s (as_symbol asset) hedge_price) (\<lambda>price.
          if order_amount * price < mi_min_notional info * (11 / 10) then Inr (False, [])
          else
            bindE (sellable_amount env (as_symbol asset) info sd price order_amount) (\<lambda>amount.
            case amount of
              None \<Rightarrow> Inr (False, [])
            | Some amount \<Rightarrow>
                bindE (provide_busd env info sd (amount * price)) (\<lambda>sent.
                let order = \<lparr>po_coin = as_symbol asset, po_side = sd, po_amount = amount,
                      po_price = (if given hedge_price
                                  then Some (floor_precision (the hedge_price) (digits_of_step (mi_tick_size info)))
                                  else hedge_price)\<rparr> in
                bindE (accepts_order env order) (\<lambda>ok.
                if ok then Inr (True, sent @ [order]) else Inl HedgeError))))))"

end
