(* ===== verification/Otc_Trades.thy ===== *)
theory Otc_Trades
  imports Otc
begin

text \<open>
  What happens to a direct trade (\<^verbatim>\<open>ledger/models/otc_trade.py\<close>) and who asks for it: the views
  (\<^verbatim>\<open>ledger/views/otc_trade_view.py\<close>, \<^verbatim>\<open>limit_otc_view.py\<close>), the tasks (\<^verbatim>\<open>ledger/tasks/otc.py\<close>), the
  panel (\<^verbatim>\<open>OTCTradeAdmin\<close> of \<^verbatim>\<open>ledger/admin.py\<close>) and the fast purchase after a payment.
\<close>

section \<open>Settling\<close>

definition create_ledger ::
  "('y) market_env_scheme \<Rightarrow> otc_request \<Rightarrow> nat \<Rightarrow> ('z) ledger_scheme \<Rightarrow> pipeline \<Rightarrow> (('z) ledger_scheme \<times> pipeline) result" where
  "create_ledger env r g s p =
     (let (payer, s) = get_wallet s (or_from r) (bt_account r) (bt_market r) None None in
      bindE (get_wallet_by_id (cfg env) s (or_from r) (OTC_ACCOUNT_ID (cfg env)) (bt_market r) None) (\<lambda>(taker, s).
      bindE (post p payer taker (get_paying_amount r) SC_TRADE g) (\<lambda>p.
      bindE (get_wallet_by_id (cfg env) s (or_to r) (OTC_ACCOUNT_ID (cfg env)) (bt_market r) None) (\<lambda>(giver, s).
      let (payee, s) = get_wallet s (or_to r) (bt_account r) (bt_market r) None None in
      bindE (post p giver payee (get_receiving_amount r) SC_TRADE g) (\<lambda>p. Inr (s, p))))))"

text \<open>The fee is the payer's in the spot market, whatever the market of the request.\<close>

definition collect_otc_fee ::
  "('y) market_env_scheme \<Rightarrow> otc_request \<Rightarrow> nat \<Rightarrow> ('z) fee_db_scheme \<Rightarrow> pipeline \<Rightarrow> (('z) fee_db_scheme \<times> pipeline) result" where
  "collect_otc_fee env r g s p =
     (let (w, s) = get_wallet s (sy_asset (bt_symbol r)) (bt_account r) SPOT None None;
          (base, s) = get_wallet s (sy_base (bt_symbol r)) (bt_account r) SPOT None None in
      bindE (register_fee_transactions (cfg env) (now env) False r w base g s p) (\<lambda>(_, s, p). Inr (s, p)))"

text \<open>The trade volume of an account, which the database keeps as a whole number.\<close>

definition add_otc_volume :: "('z) market_db_scheme \<Rightarrow> otc_request \<Rightarrow> ('z) market_db_scheme" where
  "add_otc_volume s r =
     (let i = trade_account r; old = (case map_of (trade_volumes s) i of None \<Rightarrow> 0 | Some v \<Rightarrow> v)
      in s\<lparr>trade_volumes := AList.update i (round_half_up (of_int old + irt_value r)) (trade_volumes s)\<rparr>)"

definition accept_otc ::
  "('y) market_env_scheme \<Rightarrow> otc_trade \<Rightarrow> otc_request \<Rightarrow> ('z) otc_db_scheme \<Rightarrow> pipeline
     \<Rightarrow> (('z) otc_db_scheme \<times> pipeline) result" where
  "accept_otc env t r s p =
     bindE (release_lock s p (ot_group t) None) (\<lambda>p.
     let s = save_otc s (ot_id t) (\<lambda>t. t\<lparr>ot_status := OT_DONE\<rparr>) in
     bindE (create_ledger env r (ot_group t) s p) (\<lambda>(s, p).
     bindE (collect_otc_fee env r (ot_group t) s p) (\<lambda>(s, p).
     Inr (add_otc_volume s r, p))))"

definition reject_otc_body ::
  "bool \<Rightarrow> otc_trade \<Rightarrow> ('z) otc_db_scheme \<Rightarrow> pipeline \<Rightarrow> (unit \<times> ('z) otc_db_scheme \<times> pipeline) result" where
  "reject_otc_body is_user_canceled t s p =
     bindE (release_lock s p (ot_group t) None) (\<lambda>p.
     Inr ((), save_otc s (ot_id t) (\<lambda>t. t\<lparr>ot_status := if is_user_canceled then OT_USER_CANCELED else OT_CANCELED\<rparr>), p))"

definition reject_otc :: "bool \<Rightarrow> otc_trade \<Rightarrow> ('z) otc_db_scheme \<Rightarrow> (unit \<times> ('z) otc_db_scheme) result" where
  "reject_otc is_user_canceled t s = with_pipeline (reject_otc_body is_user_canceled t) s"

definition save_revenue ::
  "('y) market_env_scheme \<Rightarrow> otc_request \<Rightarrow> otc_trade \<Rightarrow> revenue_source \<Rightarrow> string \<Rightarrow> ('z) market_db_scheme \<Rightarrow> ('z) market_db_scheme" where
  "save_revenue env r t source key s =
     s\<lparr>revenues := revenues s @ [trade_revenue_new (cfg env) r (ot_group t) source key False]\<rparr>"

section \<open>Filling from the exchange's own book\<close>

definition fok_request :: "otc_request \<Rightarrow> otc_trade \<Rightarrow> account \<Rightarrow> order_request" where
  "fok_request r t a =
     \<lparr>rq_symbol = sy_name (bt_symbol r), rq_account = a, rq_side = bt_side r, rq_amount = bt_amount r,
      rq_price = Some (bt_price r), rq_fill_type = LIMIT, rq_raise = True, rq_market = SPOT, rq_type = TYPE_ORDINARY,
      parent_lock_group_id = None, rq_stop_loss = None, rq_tif = FOK, pass_min_notional = True, rq_variant = None,
      rq_oco = None, rq_client_order_id = Some (nat_str (ot_group t))\<rparr>"

definition gap_of_fill :: "otc_request \<Rightarrow> decimal \<Rightarrow> decimal" where
  "gap_of_fill r trades_base_sum =
     (let gap = (bt_amount r * bt_price r - trades_base_sum) * base_usdt_price r
      in if bt_side r = SELL then - gap else gap)"

definition note_fill :: "otc_request \<Rightarrow> order \<Rightarrow> trade list \<Rightarrow> otc_trade \<Rightarrow> otc_trade" where
  "note_fill r x ts t = t\<lparr>ot_order := Some (o_id x),
     ot_gap_revenue := gap_of_fill r (sum_of (\<lambda>u. bt_amount u * bt_price u) (filter (\<lambda>u. tr_order u = o_id x) ts))\<rparr>"

definition fok_fill_body ::
  "nat \<Rightarrow> ('y) market_env_scheme \<Rightarrow> otc_trade \<Rightarrow> otc_request \<Rightarrow> ('z) otc_db_scheme \<Rightarrow> pipeline
     \<Rightarrow> (unit \<times> ('z) otc_db_scheme \<times> pipeline) result" where
  "fok_fill_body n env t r s p =
     bindE (find_account s (OTC_ACCOUNT_ID (cfg env))) (\<lambda>a.
     bindE (new_order n (market_env.truncate env) (fok_request r t a) s p) (\<lambda>(x, s, p).
     bindE (the_or AttributeErr x) (\<lambda>(x, _).
     bindE (order_row s (o_id x)) (\<lambda>x.
     bindE (guardE HedgeError (o_status x = FILLED)) (\<lambda>_.
     let s = save_otc s (ot_id t) (note_fill r x (trades s)) in
     bindE (accept_otc env t r s p) (\<lambda>(s, p).
     Inr ((), save_revenue env r t OTC_MARKET (nat_str (o_id x)) s, p)))))))"

definition try_fok_fill ::
  "nat \<Rightarrow> ('y) market_env_scheme \<Rightarrow> otc_trade \<Rightarrow> otc_request \<Rightarrow> ('z) otc_db_scheme \<Rightarrow> (unit \<times> ('z) otc_db_scheme) result" where
  "try_fok_fill n env t r s =
     bindE (assertE (ot_execution t = EX_MARKET)) (\<lambda>_. with_pipeline (fok_fill_body n env t r) s)"

section \<open>Filling against the provider\<close>

definition pending_hedge :: "('z) otc_db_scheme \<Rightarrow> string \<Rightarrow> otc_trade \<Rightarrow> bool" where
  "pending_hedge s coin t \<longleftrightarrow> \<not> hedged t \<and> ot_status t = OT_DONE
     \<and> (\<exists>r\<in>set (otc_requests s). or_id r = ot_request t \<and> sy_asset (bt_symbol r) = coin)"

definition get_pending_to_buy_amount :: "('z) otc_db_scheme \<Rightarrow> string \<Rightarrow> decimal" where
  "get_pending_to_buy_amount s coin = sum_of to_buy_amount (filter (pending_hedge s coin) (otc_trades s))"

definition hedge_price_of :: "otc_trade \<Rightarrow> otc_request \<Rightarrow> decimal \<Rightarrow> decimal option" where
  "hedge_price_of t r buy_amount =
     (if buy_amount \<noteq> 0 \<and> 9 / 10 < to_buy_amount t / buy_amount then Some (bt_price r * base_usdt_price r) else None)"

definition irt_hedge_request :: "otc_request \<Rightarrow> pair_symbol \<Rightarrow> account \<Rightarrow> order_request" where
  "irt_hedge_request r usdt_irt a =
     \<lparr>rq_symbol = sy_name usdt_irt, rq_account = a, rq_side = bt_side r,
      rq_amount = floor_precision (usdt_value r) (int (step_size usdt_irt)), rq_price = None, rq_fill_type = MARKET,
      rq_raise = False, rq_market = SPOT, rq_type = TYPE_ORDINARY, parent_lock_group_id = None, rq_stop_loss = None,
      rq_tif = GTC, pass_min_notional = False, rq_variant = None, rq_oco = None, rq_client_order_id = None\<rparr>"

text \<open>The price of the base after its hedge changes the request in memory only.\<close>

definition hedge_irt ::
  "nat \<Rightarrow> ('y) market_env_scheme \<Rightarrow> otc_request \<Rightarrow> ('z) otc_db_scheme \<Rightarrow> pipeline
     \<Rightarrow> (otc_request \<times> ('z) otc_db_scheme \<times> pipeline) result" where
  "hedge_irt n env r s p =
     (if hedge_irt_by_internal_market env \<and> sy_name (bt_symbol r) \<noteq> USDT_IRT \<and> sy_base (bt_symbol r) = ''IRT''
      then bindE (symbol_row s USDT_IRT) (\<lambda>usdt_irt.
           bindE (find_account s (OTC_ACCOUNT_ID (cfg env))) (\<lambda>a.
           bindE (new_order n (market_env.truncate env) (irt_hedge_request r usdt_irt a) s p) (\<lambda>(x, s, p).
           let ts = (case x of None \<Rightarrow> [] | Some (_, ts) \<Rightarrow> ts); filled_amount = sum_of bt_amount ts in
           if filled_amount \<noteq> 0
           then bindE (divide_by 1 (sum_of (\<lambda>u. bt_amount u * bt_price u) ts / filled_amount)) (\<lambda>u.
                Inr (r\<lparr>base_usdt_price := u\<rparr>, s, p))
           else Inr (r, s, p))))
      else Inr (r, s, p))"

definition hedge_body ::
  "nat \<Rightarrow> ('y) otc_env_scheme \<Rightarrow> otc_trade \<Rightarrow> otc_request \<Rightarrow> ('z) otc_db_scheme \<Rightarrow> pipeline
     \<Rightarrow> ((otc_request \<times> string) \<times> ('z) otc_db_scheme \<times> pipeline) result" where
  "hedge_body n env t r s p =
     (let coin = sy_asset (bt_symbol r); key = ''otc:'' @ nat_str (ot_id t);
          buy_amount = get_pending_to_buy_amount s coin in
      bindE (asset_get s coin) (\<lambda>asset.
      bindE (try_hedge_new_order env s asset buy_amount (hedge_price_of t r buy_amount)) (\<lambda>(ok, _).
      bindE (hedge_irt n env r s p) (\<lambda>(r, s, p).
      let s = (if ok \<or> \<not> as_hedge asset
               then s\<lparr>otc_trades := map (\<lambda>t. if pending_hedge s coin t then t\<lparr>hedged := True\<rparr> else t) (otc_trades s)\<rparr>
               else s)
      in Inr ((r, if ok then key else []), s, p)))))"

definition hedge_with_provider_body ::
  "nat \<Rightarrow> ('y) otc_env_scheme \<Rightarrow> bool \<Rightarrow> otc_trade \<Rightarrow> otc_request \<Rightarrow> ('z) otc_db_scheme \<Rightarrow> pipeline
     \<Rightarrow> (unit \<times> ('z) otc_db_scheme \<times> pipeline) result" where
  "hedge_with_provider_body n env hedge t r s p =
     bindE (accept_otc env t r s p) (\<lambda>(s, p).
     bindE (if hedge then hedge_body n env t r s p else Inr ((r, []), s, p)) (\<lambda>((r, key), s, p).
     Inr ((), save_revenue env r t OTC_PROVIDER key s, p)))"

definition hedge_with_provider ::
  "nat \<Rightarrow> ('y) otc_env_scheme \<Rightarrow> bool \<Rightarrow> otc_trade \<Rightarrow> otc_request \<Rightarrow> ('z) otc_db_scheme \<Rightarrow> (unit \<times> ('z) otc_db_scheme) result" where
  "hedge_with_provider n env hedge t r s =
     bindE (assertE (ot_execution t = EX_PROVIDER)) (\<lambda>_. with_pipeline (hedge_with_provider_body n env hedge t r) s)"

section \<open>The life of a trade\<close>

definition get_fill_type :: "('y) price_env_scheme \<Rightarrow> pair_symbol \<Rightarrow> execution_type" where
  "get_fill_type env y = (if sy_enable y \<and> hedge_coin_otc_from_internal_market env then EX_MARKET else EX_PROVIDER)"

definition reject_and_raise ::
  "otc_trade \<Rightarrow> py_error \<Rightarrow> ('z) otc_db_scheme \<Rightarrow> (('z) otc_db_scheme, nat) outcome" where
  "reject_and_raise t e s = next_step (attempt s (reject_otc False t s)) (\<lambda>_ s. (s, Inl e))"

text \<open>A fill from the book is rejected on any exception, one with the provider on \<^verbatim>\<open>HedgeError\<close> only.\<close>

definition execute_trade ::
  "nat \<Rightarrow> ('y) otc_env_scheme \<Rightarrow> nat \<Rightarrow> ('z) otc_db_scheme \<Rightarrow> (('z) otc_db_scheme, nat) outcome" where
  "execute_trade n env i s =
     next_step (look s (otc_trade_row s i)) (\<lambda>t s.
     next_step (look s (otc_request_row s (ot_request t))) (\<lambda>r s.
     if or_type r = MARKET \<and> request_expired env r then reject_and_raise t TokenExpired s
     else if ot_execution t = EX_MARKET
     then (case try_fok_fill n env t r s of
             Inl e \<Rightarrow> if e \<in> {OutOfFuel, OutOfModel} then (s, Inl e) else reject_and_raise t e s
           | Inr (_, s) \<Rightarrow> (s, Inr i))
     else (case hedge_with_provider n env True t r s of
             Inl e \<Rightarrow> if e = HedgeError then reject_and_raise t e s else (s, Inl e)
           | Inr (_, s) \<Rightarrow> (s, Inr i))))"

definition opened_trade :: "('y) price_env_scheme \<Rightarrow> otc_request \<Rightarrow> nat \<Rightarrow> nat \<Rightarrow> otc_trade" where
  "opened_trade env r i g =
     (let ty = get_fill_type env (bt_symbol r)
      in \<lparr>ot_id = i, ot_request = or_id r, ot_group = g, ot_status = OT_PENDING, ot_execution = ty, ot_gap_revenue = 0,
          ot_order = None, to_buy_amount = (if bt_side r = BUY then bt_amount r else - bt_amount r),
          hedged = (ty = EX_MARKET), ot_created = now env\<rparr>)"

definition create_otc_body ::
  "('y) price_env_scheme \<Rightarrow> otc_request \<Rightarrow> wallet \<Rightarrow> ('z) otc_db_scheme \<Rightarrow> pipeline
     \<Rightarrow> (nat \<times> ('z) otc_db_scheme \<times> pipeline) result" where
  "create_otc_body env r w s p =
     (let (g, s) = uuid4 s; t = opened_trade env r (fresh_id (map ot_id (otc_trades s))) g in
      bindE (guardE IntegrityError (or_id r \<notin> set (map ot_request (otc_trades s)))) (\<lambda>_.
      bindE (lock_balance p g w (get_paying_amount r) Lock_TRADE) (\<lambda>p.
      Inr (ot_id t, s\<lparr>otc_trades := otc_trades s @ [t]\<rparr>, p))))"

definition handle_otc_request ::
  "nat \<Rightarrow> ('y) otc_env_scheme \<Rightarrow> otc_request \<Rightarrow> ('z) otc_db_scheme \<Rightarrow> (('z) otc_db_scheme, nat) outcome" where
  "handle_otc_request n env r s =
     (let (w, s) = get_wallet s (or_from r) (bt_account r) (bt_market r) None None in
      next_step (look s (has_balance w (get_paying_amount r) True False 0)) (\<lambda>_ s.
      next_step (attempt s (with_pipeline (create_otc_body env r w) s)) (\<lambda>i s.
      if or_type r = LIMIT then (s, Inr i) else execute_trade n env i s)))"

definition revert_otc_body ::
  "otc_trade \<Rightarrow> ('z) otc_db_scheme \<Rightarrow> pipeline \<Rightarrow> (unit \<times> ('z) otc_db_scheme \<times> pipeline) result" where
  "revert_otc_body t s p =
     bindE (revert_trx_group (ot_group t) True (save_otc s (ot_id t) (\<lambda>t. t\<lparr>ot_status := OT_REVERT\<rparr>)) p) (\<lambda>(s, p).
     Inr ((), s\<lparr>trades := map (\<lambda>u. if tr_group u = ot_group t then u\<lparr>tr_reverted := True\<rparr> else u) (trades s)\<rparr>, p))"

definition revert_otc :: "otc_trade \<Rightarrow> ('z) otc_db_scheme \<Rightarrow> (unit \<times> ('z) otc_db_scheme) result" where
  "revert_otc t s = with_pipeline (revert_otc_body t) s"

section \<open>Trades at a fixed price\<close>

definition untriggered :: "('z) otc_db_scheme \<Rightarrow> (otc_trade \<times> otc_request) list" where
  "untriggered s =
     filter (\<lambda>(t, r). ot_status t = OT_PENDING \<and> or_type r = LIMIT)
       (List.map_filter (\<lambda>t. map_option (Pair t) (List.find (\<lambda>r. or_id r = ot_request t) (otc_requests s))) (otc_trades s))"

definition expire_body ::
  "('y) market_env_scheme \<Rightarrow> ('z) otc_db_scheme \<Rightarrow> pipeline \<Rightarrow> (unit \<times> ('z) otc_db_scheme \<times> pipeline) result" where
  "expire_body env s p =
     bindE (foldE (\<lambda>(s, p) (t, r).
              bindE (release_lock s p (ot_group t) None) (\<lambda>p.
              Inr (save_otc s (ot_id t) (\<lambda>t. t\<lparr>ot_status := OT_EXPIRED\<rparr>), p)))
            (s, p) (filter (\<lambda>(t, r). case gtd r of Some g \<Rightarrow> g < now env | None \<Rightarrow> False) (untriggered s))) (\<lambda>(s, p).
     Inr ((), s, p))"

definition handle_expired :: "('y) market_env_scheme \<Rightarrow> ('z) otc_db_scheme \<Rightarrow> (unit \<times> ('z) otc_db_scheme) result" where
  "handle_expired env s = with_pipeline (expire_body env) s"

text \<open>Whether a price reaches the price of a request without being a fifth better.\<close>

definition price_reached :: "side \<Rightarrow> decimal \<Rightarrow> decimal \<Rightarrow> bool" where
  "price_reached sd current price \<longleftrightarrow>
     (if sd = SELL then current * (8 / 10) < price \<and> price < current
      else current < price \<and> price < current * (12 / 10))"

definition is_triggered_price ::
  "('y) otc_env_scheme \<Rightarrow> ('z) otc_db_scheme \<Rightarrow> otc_request \<Rightarrow> bool result" where
  "is_triggered_price env s r =
     (case get_depth_price env s (sy_name (bt_symbol r)) (get_other_side (bt_side r)) (bt_amount r) True of
        Inl (SmallDepthError _) \<Rightarrow> Inr False
      | Inl e \<Rightarrow> Inl e
      | Inr current \<Rightarrow> Inr (price_reached (bt_side r) current (bt_price r)))"

definition near_price :: "side \<Rightarrow> decimal \<Rightarrow> decimal \<Rightarrow> bool" where
  "near_price sd current price \<longleftrightarrow>
     (if sd = BUY then current \<le> price \<and> price \<le> current * (12 / 10)
      else current * (8 / 10) \<le> price \<and> price \<le> current)"

fun each_outcome :: "('a \<Rightarrow> 's \<Rightarrow> ('s, 'b) outcome) \<Rightarrow> 'a list \<Rightarrow> 's \<Rightarrow> ('s, unit) outcome" where
  "each_outcome f [] s = (s, Inr ())"
| "each_outcome f (x # xs) s = next_step (f x s) (\<lambda>_ s. each_outcome f xs s)"

definition trigger_one ::
  "nat \<Rightarrow> ('y) otc_env_scheme \<Rightarrow> otc_trade \<times> otc_request \<Rightarrow> ('z) otc_db_scheme \<Rightarrow> (('z) otc_db_scheme, unit) outcome" where
  "trigger_one n env tr s =
     next_step (look s (is_triggered_price env s (snd tr))) (\<lambda>reached s.
     if reached then next_step (execute_trade n env (ot_id (fst tr)) s) (\<lambda>_ s. (s, Inr ())) else (s, Inr ()))"

definition handle_trigger_price ::
  "nat \<Rightarrow> ('y) otc_env_scheme \<Rightarrow> string \<Rightarrow> side \<Rightarrow> decimal \<Rightarrow> ('z) otc_db_scheme \<Rightarrow> (('z) otc_db_scheme, unit) outcome" where
  "handle_trigger_price n env symbol sd current s =
     each_outcome (trigger_one n env)
       (filter (\<lambda>(t, r). sy_name (bt_symbol r) = symbol \<and> bt_side r = sd
           \<and> (case gtd r of Some g \<Rightarrow> now env < g | None \<Rightarrow> False) \<and> near_price sd current (bt_price r)) (untriggered s)) s"

definition trigger_pair ::
  "nat \<Rightarrow> ('y) otc_env_scheme \<Rightarrow> string \<times> side \<Rightarrow> ('z) otc_db_scheme \<Rightarrow> (('z) otc_db_scheme, unit) outcome" where
  "trigger_pair n env yd s =
     next_step (look s (get_price env s (fst yd) (get_other_side (snd yd)) False)) (\<lambda>price s.
     if given price then handle_trigger_price n env (fst yd) (snd yd) (the price) s else (s, Inr ()))"

text \<open>The tasks log an exception and end.\<close>

definition handle_limit_otc_request ::
  "nat \<Rightarrow> ('y) otc_env_scheme \<Rightarrow> ('z) otc_db_scheme \<Rightarrow> ('z) otc_db_scheme" where
  "handle_limit_otc_request n env s =
     fst (next_step (attempt s (handle_expired env s)) (\<lambda>_ s.
          each_outcome (trigger_pair n env) (remdups (map (\<lambda>(t, r). (sy_name (bt_symbol r), bt_side r)) (untriggered s))) s))"

definition retry_hedge :: "nat \<Rightarrow> ('y) otc_env_scheme \<Rightarrow> otc_trade \<Rightarrow> ('z) otc_db_scheme \<Rightarrow> ('z) otc_db_scheme" where
  "retry_hedge n env t s =
     fst (next_step (look s (otc_request_row s (ot_request t))) (\<lambda>r s. attempt s (hedge_with_provider n env True t r s)))"

definition accept_pending_otc_trades :: "nat \<Rightarrow> ('y) otc_env_scheme \<Rightarrow> ('z) otc_db_scheme \<Rightarrow> ('z) otc_db_scheme" where
  "accept_pending_otc_trades n env s =
     fold (retry_hedge n env)
       (filter (\<lambda>t. ot_status t = OT_PENDING \<and> ot_execution t = EX_PROVIDER \<and> ot_created t < now env - 60
           \<and> (\<exists>r\<in>set (otc_requests s). or_id r = ot_request t \<and> or_type r = MARKET)) (otc_trades s)) s"

section \<open>Views, the panel and the fast purchase\<close>

text \<open>\<open>is_staff\<close> and the account are the user's who asks.\<close>

datatype otc_expiration = H1 | D1 | D3 | D7

record otc_input =
  oi_from :: string
  oi_to :: string
  oi_from_amount :: "decimal option"
  oi_to_amount :: "decimal option"
  oi_gtd :: "otc_expiration option"
  oi_type :: "fill_type option"
  oi_price :: "decimal option"

definition get_gtd_from_delta :: "('y) market_env_scheme \<Rightarrow> otc_expiration \<Rightarrow> int" where
  "get_gtd_from_delta env d =
     now env + (case d of H1 \<Rightarrow> 3600 | D1 \<Rightarrow> 86400 | D3 \<Rightarrow> 3 * 86400 | D7 \<Rightarrow> 7 * 86400)"

definition validate_otc :: "('y) otc_env_scheme \<Rightarrow> bool \<Rightarrow> otc_input \<Rightarrow> ('z) price_db_scheme \<Rightarrow> unit result" where
  "validate_otc env is_staff inp s =
     guardE ValidationErr
       (list_all (\<lambda>x. case x of None \<Rightarrow> True | Some x \<Rightarrow> 0 \<le> x) [oi_from_amount inp, oi_to_amount inp, oi_price inp]
        \<and> (oi_type inp = Some LIMIT \<longrightarrow> (is_staff \<or> enable_otc_limit env) \<and> oi_gtd inp \<noteq> None \<and> given (oi_price inp))
        \<and> {oi_from inp, oi_to inp} \<inter> {''IRT'', ''USDT''} \<noteq> {} \<and> oi_from inp \<noteq> oi_to inp
        \<and> {oi_from inp, oi_to inp} \<subseteq> set (map as_symbol (asset_rows s))
        \<and> (given (oi_from_amount inp) \<or> given (oi_to_amount inp))
        \<and> \<not> (given (oi_from_amount inp) \<and> given (oi_to_amount inp)))"

text \<open>The exceptions a view turns into a refusal.\<close>

definition request_refusals :: "py_error \<Rightarrow> bool" where
  "request_refusals e \<longleftrightarrow> e \<in> {SmallAmountTrade, LargeAmountTrade, InsufficientBalance}
     \<or> (case e of SmallDepthError _ \<Rightarrow> True | _ \<Rightarrow> False)"

definition trade_refusals :: "py_error \<Rightarrow> bool" where
  "trade_refusals e \<longleftrightarrow> e \<in> {TokenExpired, InsufficientBalance, HedgeError}"

definition to_validation :: "(py_error \<Rightarrow> bool) \<Rightarrow> ('s, 'a) outcome \<Rightarrow> ('s, 'a) outcome" where
  "to_validation refused o' = (case o' of (s, Inl e) \<Rightarrow> (s, Inl (if refused e then ValidationErr else e)) | x \<Rightarrow> x)"

definition create_otc_request ::
  "('y) otc_env_scheme \<Rightarrow> account \<Rightarrow> bool \<Rightarrow> otc_input \<Rightarrow> ('z) otc_db_scheme \<Rightarrow> (('z) otc_db_scheme, otc_request) outcome" where
  "create_otc_request env a is_staff inp s =
     next_step (look s (validate_otc env is_staff inp s)) (\<lambda>_ s.
     next_step (look s (guardE ValidationErr (can_trade env))) (\<lambda>_ s.
     let limit = (oi_type inp = Some LIMIT) in
     to_validation request_refusals (new_trade env a SPOT (oi_from inp) (oi_to inp) (if limit then LIMIT else MARKET)
       (oi_from_amount inp) (oi_to_amount inp)
       (if limit then map_option (get_gtd_from_delta env) (oi_gtd inp) else None) (if limit then oi_price inp else None) s)))"

definition create_otc_trade ::
  "nat \<Rightarrow> ('y) otc_env_scheme \<Rightarrow> account \<Rightarrow> nat \<Rightarrow> ('z) otc_db_scheme \<Rightarrow> (('z) otc_db_scheme, nat) outcome" where
  "create_otc_trade n env a token s =
     next_step (look s (guardE ValidationErr (can_trade env))) (\<lambda>_ s.
     next_step (look s (the_or NotFound (List.find (\<lambda>r. or_token r = token \<and> acc_id (bt_account r) = acc_id a)
                                           (otc_requests s)))) (\<lambda>r s.
     case List.find (\<lambda>t. ot_request t = or_id r) (otc_trades s) of
       Some t \<Rightarrow> (s, Inr (ot_id t))
     | None \<Rightarrow>
         next_step (look s (otc_request_row s (or_id r))) (\<lambda>r s.
         to_validation trade_refusals (handle_otc_request n env r s))))"

text \<open>Canceling a trade at a fixed price; the account of the one who asks is not looked at.\<close>

definition cancel_limit_otc :: "account \<Rightarrow> nat \<Rightarrow> ('z) otc_db_scheme \<Rightarrow> (('z) otc_db_scheme, unit) outcome" where
  "cancel_limit_otc a i s =
     next_step (look s (the_or ValidationErr (List.find (\<lambda>(t, r). ot_id t = i) (untriggered s)))) (\<lambda>tr s.
     case reject_otc True (fst tr) s of Inl e \<Rightarrow> (s, Inl ValidationErr) | Inr (_, s) \<Rightarrow> (s, Inr ()))"

datatype otc_action = Accept_trade | Accept_without_hedge | Cancel_trade | Revert_trade

definition act_on_trade ::
  "nat \<Rightarrow> ('y) otc_env_scheme \<Rightarrow> otc_action \<Rightarrow> otc_trade \<Rightarrow> ('z) otc_db_scheme \<Rightarrow> (unit \<times> ('z) otc_db_scheme) result" where
  "act_on_trade n env action t s =
     bindE (otc_request_row s (ot_request t)) (\<lambda>r.
     case action of
       Accept_trade \<Rightarrow> hedge_with_provider n env True t r s
     | Accept_without_hedge \<Rightarrow> hedge_with_provider n env False t r s
     | Cancel_trade \<Rightarrow> reject_otc False t s
     | Revert_trade \<Rightarrow> revert_otc t s)"

definition otc_panel ::
  "nat \<Rightarrow> ('y) otc_env_scheme \<Rightarrow> otc_action \<Rightarrow> nat list \<Rightarrow> ('z) otc_db_scheme \<Rightarrow> (('z) otc_db_scheme, unit) outcome" where
  "otc_panel n env action ids s =
     each_outcome (\<lambda>t s. attempt s (act_on_trade n env action t s))
       (filter (\<lambda>t. ot_id t \<in> set ids \<and> ot_status t = (if action = Revert_trade then OT_DONE else OT_PENDING)) (otc_trades s)) s"

definition save_fast_buy :: "nat \<Rightarrow> (fast_buy_token \<Rightarrow> fast_buy_token) \<Rightarrow> ('z) otc_db_scheme \<Rightarrow> ('z) otc_db_scheme" where
  "save_fast_buy i f s = s\<lparr>fast_buys := map (\<lambda>b. if fb_id b = i then f b else b) (fast_buys s)\<rparr>"

text \<open>Called when a payment arrives; the payment's amount and whether it is done are the caller's.\<close>

definition create_otc_for_fast_buy_token ::
  "nat \<Rightarrow> ('y) otc_env_scheme \<Rightarrow> fast_buy_token \<Rightarrow> decimal \<Rightarrow> bool \<Rightarrow> ('z) otc_db_scheme \<Rightarrow> (('z) otc_db_scheme, nat option) outcome" where
  "create_otc_for_fast_buy_token n env b amount payment_done s =
     (let s = save_fast_buy (fb_id b) (\<lambda>b. b\<lparr>fb_status := FB_DEPOSIT\<rparr>) s in
      if \<not> payment_done then (s, Inr None)
      else
        next_step (new_trade env (fb_account b) SPOT ''IRT'' (fb_asset b) MARKET (Some amount) None None None s) (\<lambda>r s.
        let s = save_fast_buy (fb_id b) (\<lambda>b. b\<lparr>fb_request := Some (or_id r)\<rparr>) s in
        case handle_otc_request n env r s of
          (s, Inl e) \<Rightarrow> (s, if e \<in> {OutOfFuel, OutOfModel} then Inl e else Inr None)
        | (s, Inr i) \<Rightarrow> (save_fast_buy (fb_id b) (\<lambda>b. b\<lparr>fb_status := FB_DONE\<rparr>) s, Inr (Some i))))"

end
