(* ===== verification/Otc_Locks.thy ===== *)
theory Otc_Locks
  imports Otc_Trades
begin

text \<open>
  The blocks of the direct trades keep the ledger, and with them every operation.
\<close>

section \<open>The blocks\<close>

lemma otc_cong [simp]:
  "block_ok (s\<lparr>otc_trades := t\<rparr>) p = block_ok s p" "known (s\<lparr>otc_trades := t\<rparr>) w = known s w"
  "ledger_ok (s\<lparr>otc_trades := t\<rparr>) = ledger_ok s"
  "ledger_ok (s\<lparr>otc_requests := r\<rparr>) = ledger_ok s" "ledger_ok (s\<lparr>fast_buys := f\<rparr>) = ledger_ok s"
  "block_ok (s\<lparr>trades := u\<rparr>) p = block_ok s p" "block_ok (s\<lparr>trade_volumes := v\<rparr>) p = block_ok s p"
  "block_ok (s\<lparr>revenues := x\<rparr>) p = block_ok s p"
  "block_ok (s\<lparr>uuids := n\<rparr>) p = block_ok s p" "known (s\<lparr>uuids := n\<rparr>) w = known s w" "ledger_ok (s\<lparr>uuids := n\<rparr>) = ledger_ok s"
  by (rule base_cong; simp)+

lemma save_otc_cong [simp]:
  "block_ok (save_otc s i f) p = block_ok s p" "known (save_otc s i f) w = known s w" "ledger_ok (save_otc s i f) = ledger_ok s"
  by (simp_all add: save_otc_def)

lemma create_ledger_keeps:
  assumes "create_ledger env r g s p = Inr (s', p')" and "block_ok s p"
  shows "block_ok s' p'"
proof -
  from assms(1) obtain a s1 b s2 q c s3 d where
    a: "get_wallet s (or_from r) (bt_account r) (bt_market r) None None = (a, s1)"
    and b: "get_wallet_by_id (cfg env) s1 (or_from r) (OTC_ACCOUNT_ID (cfg env)) (bt_market r) None = Inr (b, s2)"
    and q: "post p a b (get_paying_amount r) SC_TRADE g = Inr q"
    and c: "get_wallet_by_id (cfg env) s2 (or_to r) (OTC_ACCOUNT_ID (cfg env)) (bt_market r) None = Inr (c, s3)"
    and d: "get_wallet s3 (or_to r) (bt_account r) (bt_market r) None None = (d, s')"
    and p': "post q c d (get_receiving_amount r) SC_TRADE g = Inr p'"
    by (auto simp: create_ledger_def result_simps Let_def split: prod.splits)
  note a = get_wallet_inv [OF a assms(2)]
  note b = get_wallet_by_id_inv [OF b a(1)]
  have "block_ok s2 q" by (rule post_inv [OF q b(1)]) (use a b in blast)+
  note c = get_wallet_by_id_inv [OF c this]
  note d = get_wallet_inv [OF d c(1)]
  show ?thesis by (rule post_inv [OF p' d(1)]) (use c d in blast)+
qed

lemma collect_otc_fee_keeps:
  assumes "collect_otc_fee env r g s p = Inr (s', p')" and "block_ok s p"
  shows "block_ok s' p'"
proof -
  from assms(1) obtain w s1 b s2 i where
    w: "get_wallet s (sy_asset (bt_symbol r)) (bt_account r) SPOT None None = (w, s1)"
    and b: "get_wallet s1 (sy_base (bt_symbol r)) (bt_account r) SPOT None None = (b, s2)"
    and f: "register_fee_transactions (cfg env) (now env) False r w b g s2 p = Inr (i, s', p')"
    by (auto simp: collect_otc_fee_def result_simps Let_def split: prod.splits)
  note w = get_wallet_inv [OF w assms(2)]
  note b = get_wallet_inv [OF b w(1)]
  show ?thesis by (rule register_fee_keeps(1) [OF f b(1)]) (use w b in blast)+
qed

lemma accept_otc_keeps:
  assumes "accept_otc env t r s p = Inr (s', p')" and "block_ok s p"
  shows "block_ok s' p'"
proof -
  let ?s = "save_otc s (ot_id t) (\<lambda>t. t\<lparr>ot_status := OT_DONE\<rparr>)"
  from assms(1) obtain q s1 p1 s2 where q: "release_lock s p (ot_group t) None = Inr q"
    and c: "create_ledger env r (ot_group t) ?s q = Inr (s1, p1)"
    and f: "collect_otc_fee env r (ot_group t) s1 p1 = Inr (s2, p')" and s': "s' = add_otc_volume s2 r"
    by (auto simp: accept_otc_def result_simps Let_def)
  have "block_ok ?s q" using release_lock_inv [OF q assms(2)] by simp
  from collect_otc_fee_keeps [OF f create_ledger_keeps [OF c this]] show ?thesis
    by (simp add: s' add_otc_volume_def Let_def)
qed

lemma fok_fill_keeps:
  assumes "fok_fill_body n env t r s p = Inr (u, s', p')" and "block_ok s p"
  shows "block_ok s' p'"
proof -
  from assms(1) obtain a x s1 p1 f s2 rv where
    o: "new_order n (market_env.truncate env) (fok_request r t a) s p = Inr (x, s1, p1)"
    and a: "accept_otc env t r (save_otc s1 (ot_id t) f) p1 = Inr (s2, p')" and s': "s' = s2\<lparr>revenues := rv\<rparr>"
    by (auto simp: fok_fill_body_def save_revenue_def result_simps Let_def split: prod.splits)
  have "block_ok s1 p1" by (rule new_order_keeps [OF o assms(2)])
  then show ?thesis unfolding s' using accept_otc_keeps [OF a] by simp
qed

lemma hedge_irt_keeps:
  assumes "hedge_irt n env r s p = Inr (r', s', p')" and "block_ok s p"
  shows "block_ok s' p'"
  using assms by (auto simp: hedge_irt_def result_simps Let_def split: if_splits dest: new_order_keeps)

lemma hedge_body_steps:
  assumes "hedge_body n env t r s p = Inr ((r', k), s', p')"
  obtains u f where "hedge_irt n env r s p = Inr (r', u, p')" "s' = u \<or> s' = u\<lparr>otc_trades := map f (otc_trades u)\<rparr>"
    "\<forall>t. f t = t \<or> f t = t\<lparr>hedged := True\<rparr>"
proof -
  let ?c = "sy_asset (bt_symbol r)"
  from assms obtain ok u where h: "hedge_irt n env r s p = Inr (r', u, p')"
    and s': "s' = (if ok then u\<lparr>otc_trades := map (\<lambda>t. if pending_hedge u ?c t then t\<lparr>hedged := True\<rparr> else t) (otc_trades u)\<rparr> else u)"
    unfolding hedge_body_def Let_def by (elim bindE_InrE) (auto simp: bindE_eq_Inr split: prod.splits)
  show thesis by (rule that [OF h, of "\<lambda>t. if pending_hedge u ?c t then t\<lparr>hedged := True\<rparr> else t"]) (auto simp: s')
qed

lemma hedge_with_provider_steps:
  assumes "hedge_with_provider_body n env h t r s p = Inr (u, s', p')"
  obtains s1 p1 s2 f rv where "accept_otc env t r s p = Inr (s1, p1)"
    "(s2 = s1 \<and> p' = p1) \<or> (\<exists>r'. hedge_irt n env r s1 p1 = Inr (r', s2, p'))"
    "s' = s2\<lparr>otc_trades := map f (otc_trades s2), revenues := rv\<rparr>"
    "\<forall>t. f t = t \<or> f t = t\<lparr>hedged := True\<rparr>"
proof -
  from assms obtain s1 p1 r' k s3 where a: "accept_otc env t r s p = Inr (s1, p1)"
    and h: "(if h then hedge_body n env t r s1 p1 else Inr ((r, []), s1, p1)) = Inr ((r', k), s3, p')"
    and s': "s' = save_revenue env r' t OTC_PROVIDER k s3"
    using that by (auto simp only: hedge_with_provider_body_def bindE_eq_Inr case_prod_eq_Inr sum.inject prod.inject)
  show thesis
  proof (cases h)
    case False
    with h have "s3 = s1" "p' = p1" by simp_all
    then show thesis by (intro that [OF a, where f = "\<lambda>t. t" and ?s2.0 = s1]) (simp_all add: s' save_revenue_def)
  next
    case True
    with h have "hedge_body n env t r s1 p1 = Inr ((r', k), s3, p')" by simp
    then obtain v f where v: "hedge_irt n env r s1 p1 = Inr (r', v, p')" "s3 = v \<or> s3 = v\<lparr>otc_trades := map f (otc_trades v)\<rparr>"
      "\<forall>t. f t = t \<or> f t = t\<lparr>hedged := True\<rparr>"
      by (rule hedge_body_steps)
    have h: "(v = s1 \<and> p' = p1) \<or> (\<exists>r'. hedge_irt n env r s1 p1 = Inr (r', v, p'))" using v(1) by blast
    from v(2) show thesis
    proof
      assume "s3 = v"
      then show thesis by (intro that [OF a h, where f = "\<lambda>t. t"]) (simp_all add: s' save_revenue_def)
    next
      assume "s3 = v\<lparr>otc_trades := map f (otc_trades v)\<rparr>"
      then show thesis by (intro that [OF a h, where f = f]) (simp_all add: s' save_revenue_def v(3))
    qed
  qed
qed

lemma hedge_with_provider_keeps:
  assumes "hedge_with_provider_body n env h t r s p = Inr (u, s', p')" and "block_ok s p"
  shows "block_ok s' p'"
  using assms(1)
proof (cases rule: hedge_with_provider_steps)
  case (1 s1 p1 s2 f rv)
  have "block_ok s1 p1" by (rule accept_otc_keeps [OF 1(1) assms(2)])
  with 1(2) have "block_ok s2 p'" by (auto dest: hedge_irt_keeps)
  then show ?thesis by (simp add: 1(3))
qed

text \<open>The loop of \<open>handle_expired\<close>, round by round.\<close>

lemma expire_round:
  assumes "foldE (\<lambda>(s, p) (t, r). bindE (release_lock s p (ot_group t) None) (\<lambda>p.
        Inr (save_otc s (ot_id t) (\<lambda>t. t\<lparr>ot_status := OT_EXPIRED\<rparr>), p))) (s, p) ts = Inr (s', p')"
    and "P s p"
    and "\<And>s p t r q. P s p \<Longrightarrow> (t, r) \<in> set ts \<Longrightarrow> release_lock s p (ot_group t) None = Inr q
      \<Longrightarrow> P (save_otc s (ot_id t) (\<lambda>t. t\<lparr>ot_status := OT_EXPIRED\<rparr>)) q"
  shows "P s' p'"
  using assms
proof (induction ts arbitrary: s p)
  case (Cons tr ts)
  obtain t r where tr: "tr = (t, r)" by (cases tr)
  from Cons.prems(1) obtain q where q: "release_lock s p (ot_group t) None = Inr q"
    and f: "foldE (\<lambda>(s, p) (t, r). bindE (release_lock s p (ot_group t) None) (\<lambda>p.
        Inr (save_otc s (ot_id t) (\<lambda>t. t\<lparr>ot_status := OT_EXPIRED\<rparr>), p)))
      (save_otc s (ot_id t) (\<lambda>t. t\<lparr>ot_status := OT_EXPIRED\<rparr>), q) ts = Inr (s', p')"
    by (auto simp: tr bindE_eq_Inr)
  have "P (save_otc s (ot_id t) (\<lambda>t. t\<lparr>ot_status := OT_EXPIRED\<rparr>)) q"
    using Cons.prems(3) [OF Cons.prems(2), of t r q] q by (simp add: tr)
  then show ?case by (rule Cons.IH [OF f]) (rule Cons.prems(3), assumption, rule list.set_intros(2), assumption+)
qed simp

lemma expire_keeps:
  assumes "expire_body env s p = Inr (u, s', p')" and "block_ok s p"
  shows "block_ok s' p'"
  by (rule expire_round [where P = block_ok])
    (use assms in \<open>auto simp: expire_body_def bindE_eq_Inr intro: release_lock_inv\<close>)

interpretation creating_otc: ledger_block "\<lambda>s. known s w" "create_otc_body env r w" for env r w
  by unfold_locales (auto simp: create_otc_body_def uuid4_def result_simps Let_def intro: lock_balance_inv)

interpretation rejecting_otc: ledger_block "\<lambda>_. True" "reject_otc_body b t" for b t
  by unfold_locales (auto simp: reject_otc_body_def result_simps intro: release_lock_inv)

interpretation filling_otc: ledger_block "\<lambda>_. True" "fok_fill_body n env t r" for n env t r
  by unfold_locales (rule fok_fill_keeps)

interpretation hedging_otc: ledger_block "\<lambda>_. True" "hedge_with_provider_body n env h t r" for n env h t r
  by unfold_locales (rule hedge_with_provider_keeps)

interpretation expiring_otc: ledger_block "\<lambda>_. True" "expire_body env" for env
  by unfold_locales (rule expire_keeps)

interpretation reverting_otc: ledger_block "\<lambda>_. True" "revert_otc_body t" for t
  by unfold_locales (auto simp: revert_otc_body_def result_simps dest!: revert_trx_group_keeps)

end
