(* ===== verification/Order_Locks.thy ===== *)
theory Order_Locks
  imports Order_Recursion
begin

text \<open>
  An order touches the locks of orders and stop losses only: a lock group \<open>g\<close> that no row of the
  market uses is not released, taken or joined while an order is placed and matched, however many
  stop losses it triggers. Nor does the engine write any table beyond the market's.
\<close>

definition lock_view :: "nat \<Rightarrow> ('z) market_db_scheme \<Rightarrow> pipeline \<Rightarrow> balance_lock list \<times> 'z \<times> decimal \<times> balance_lock list" where
  "lock_view g s p = (locks s, market_db.more s, dd_get (locks_amount p) g, filter (\<lambda>l. lk_key l = g) (p_locks p))"

text \<open>What never changes of a wallet's row.\<close>

definition wallet_key :: "wallet \<Rightarrow> nat \<times> nat \<times> string \<times> wallet_market \<times> bool" where
  "wallet_key w = (w_id w, acc_id (w_account w), w_asset w, w_market w, check_balance w)"

type_synonym wallet_keys = "(nat \<times> nat \<times> string \<times> wallet_market \<times> bool) set"

definition groups_bounded :: "('z) market_db_scheme \<Rightarrow> bool" where
  "groups_bounded s \<longleftrightarrow> (\<forall>x\<in>set (orders s). o_group x < uuids s) \<and> (\<forall>l\<in>set (stop_losses s). sl_group l < uuids s)"

text \<open>\<open>W\<close>: the wallets there were, and how many ids had been drawn.\<close>

definition away ::
  "nat \<Rightarrow> wallet_keys \<times> nat \<Rightarrow> balance_lock list \<times> 'z \<times> decimal \<times> balance_lock list \<Rightarrow> ('z) market_db_scheme \<Rightarrow> pipeline \<Rightarrow> bool" where
  "away g W v s p \<longleftrightarrow> g < uuids s \<and> (\<forall>x\<in>set (orders s). o_group x \<noteq> g) \<and> (\<forall>l\<in>set (stop_losses s). sl_group l \<noteq> g)
     \<and> groups_bounded s \<and> fst W \<subseteq> wallet_key ` set (wallets s) \<and> snd W \<le> uuids s \<and> lock_view g s p = v"

named_theorems away_rules

lemma groups_bounded_upd [simp]:
  "groups_bounded (s\<lparr>wallets := a\<rparr>) = groups_bounded s" "groups_bounded (s\<lparr>referral_trxs := b\<rparr>) = groups_bounded s"
  "groups_bounded (s\<lparr>trades := c\<rparr>) = groups_bounded s" "groups_bounded (s\<lparr>revenues := d\<rparr>) = groups_bounded s"
  "groups_bounded (s\<lparr>symbols := e\<rparr>) = groups_bounded s" "groups_bounded (s\<lparr>ocos := f\<rparr>) = groups_bounded s"
  "groups_bounded (s\<lparr>trade_volumes := h\<rparr>) = groups_bounded s"
  by (simp_all add: groups_bounded_def)

section \<open>The pipeline\<close>

lemma away_release [away_rules]:
  assumes "away g W v s p" and "k \<noteq> g"
  shows "ensures (away g W v s) (release_lock t p k x)"
  unfolding ensures_def
proof (intro allI impI)
  fix q assume "release_lock t p k x = Inr q"
  then show "away g W v s q"
  proof (cases rule: release_lock_cases)
    case (2 l y)
    have "filter (\<lambda>l. lk_key l = g) (take_from_lock k y ls) = filter (\<lambda>l. lk_key l = g) ls" for ls
      using assms(2) by (induction ls) (auto simp: take_from_lock_def)
    with 2 assms show ?thesis by (simp add: away_def lock_view_def)
  qed (use assms in \<open>simp_all add: away_def lock_view_def\<close>)
qed

lemma away_post [away_rules]:
  "away g W v s p \<Longrightarrow> ensures (away g W v s) (post p a b x sc k)"
  by (auto simp: ensures_def post_def new_trx_def bindE_eq_Inr Let_def away_def lock_view_def split: if_splits)

lemma away_lock [away_rules]:
  "away g W v s p \<Longrightarrow> k \<noteq> g \<Longrightarrow> ensures (away g W v s) (lock_balance p k w x r)"
  by (auto simp: ensures_def lock_balance_def new_lock_def bindE_eq_Inr Let_def away_def lock_view_def split: if_splits)

section \<open>The tables\<close>

lemma away_upd:
  "away g W v s p \<Longrightarrow> away g W v (s\<lparr>referral_trxs := b\<rparr>) p"
  "away g W v s p \<Longrightarrow> away g W v (s\<lparr>trades := c\<rparr>) p" "away g W v s p \<Longrightarrow> away g W v (s\<lparr>revenues := d\<rparr>) p"
  "away g W v s p \<Longrightarrow> away g W v (s\<lparr>symbols := e\<rparr>) p" "away g W v s p \<Longrightarrow> away g W v (s\<lparr>ocos := f\<rparr>) p"
  "away g W v s p \<Longrightarrow> away g W v (s\<lparr>trade_volumes := h\<rparr>) p"
  by (simp_all add: away_def lock_view_def)

lemma away_get_wallet: "get_wallet s a acc m x e = (w, s') \<Longrightarrow> away g W v s p \<Longrightarrow> away g W v s' p"
  by (auto simp: get_wallet_def get_or_create_wallet_def Let_def away_def lock_view_def split: option.splits)

lemma away_base_wallet: "base_wallet_of s y w = (b, s') \<Longrightarrow> away g W v s p \<Longrightarrow> away g W v s' p"
  unfolding base_wallet_of_def by (rule away_get_wallet)

lemma groups_bounded_mono: "groups_bounded s \<Longrightarrow> groups_bounded (s\<lparr>uuids := Suc (uuids s)\<rparr>)"
  by (auto simp: groups_bounded_def less_Suc_eq)

lemma away_uuid4: "uuid4 s = (i, s') \<Longrightarrow> away g W v s p \<Longrightarrow> away g W v s' p \<and> i \<noteq> g \<and> i < uuids s'"
  by (auto simp: uuid4_def away_def lock_view_def groups_bounded_mono)

lemma away_wallet_by_id [away_rules]:
  "away g W v s p \<Longrightarrow> ensures (\<lambda>(w, s'). away g W v s' p) (get_wallet_by_id c s a i m x)"
  by (auto simp: ensures_def get_wallet_by_id_def get_or_create_wallet_def bindE_eq_Inr Let_def away_def lock_view_def split: option.splits)

lemma away_register_fee [away_rules]:
  fixes s :: "('z) market_db_scheme"
  assumes "away g W v s p"
  shows "ensures (\<lambda>(i, s', p'). away g W v s' p') (register_fee_transactions c t pos tr w bw gid s p)"
proof -
  have pays: "ensures (\<lambda>(s', p'). away g W v s' p') (case get_wallet s a acc m' None None of (rcvr, s) \<Rightarrow>
        bindE (post p sndr rcvr x SC_COMMISSION gid) (\<lambda>p.
        bindE (guardE IntegrityError ok) (\<lambda>_. Inr (s\<lparr>referral_trxs := f s\<rparr>, p))))"
    if "away g W v s p" for s :: "('z) market_db_scheme" and a acc m' sndr x ok f
  proof (rule ensures_prod)
    fix rcvr u assume "get_wallet s a acc m' None None = (rcvr, u)"
    then have "away g W v u p" using that by (rule away_get_wallet)
    then show "ensures (\<lambda>(s', p'). away g W v s' p') (bindE (post p sndr rcvr x SC_COMMISSION gid) (\<lambda>p.
        bindE (guardE IntegrityError ok) (\<lambda>_. Inr (u\<lparr>referral_trxs := f u\<rparr>, p))))"
      by - (rule ensures_bind [OF away_post], assumption, rule ensures_skip, rule ensures_Inr, simp add: away_upd)
  qed
  have last: "ensures (\<lambda>(i, s', p'). away g W v s' p') (bindE (get_wallet_by_id c s a i m None) (\<lambda>(sys, s).
      bindE (post p payer sys x SC_COMMISSION gid) (\<lambda>p. bindE (guardE OutOfModel ok) (\<lambda>_. Inr (info, s, p)))))"
    if "away g W v s p" for s :: "('z) market_db_scheme" and p a i m payer x ok and info :: fee_info
    by (rule ensures_bind [OF away_wallet_by_id [OF that]], rule ensures_prod, rule ensures_bind [OF away_post], simp)
      (auto intro!: ensures_skip ensures_Inr)
  show ?thesis unfolding register_fee_transactions_def
  proof (rule ensures_let, rule ensures_let, rule ensures_bind [where Q = "\<lambda>(s', p'). away g W v s' p'"])
    fix info payer
    show "ensures (\<lambda>(s', p'). away g W v s' p') (case referred_by (bt_account tr) of
        Some referrer \<Rightarrow>
          if referrer_reward_irt info \<noteq> 0 then
            bindE (get_wallet_by_id c s ''IRT'' (SYSTEM_ACCOUNT_ID c) (w_market payer) None) (\<lambda>(sndr, s).
            bindE (find_account s (ref_owner referrer)) (\<lambda>owner.
            let (rcvr, s) = get_wallet s ''IRT'' owner SPOT None None in
            bindE (post p sndr rcvr (referrer_reward_irt info) SC_COMMISSION gid) (\<lambda>p.
            bindE (guardE IntegrityError (0 \<le> referrer_reward_irt info)) (\<lambda>_.
            Inr (s\<lparr>referral_trxs := referral_trxs s @
                   [\<lparr>rt_trader = acc_id (w_account w), rt_referral = referrer, rt_group_id = gid,
                     trader_amount = 0, referrer_amount = referrer_reward_irt info\<rparr>]\<rparr>, p)))))
          else Inr (s, p)
      | None \<Rightarrow> Inr (s, p))"
      by (intro ensures_option ensures_if ensures_bind [OF away_wallet_by_id [OF assms]])
        (auto simp: assms intro!: ensures_Inr ensures_skip [of "find_account a b" for a b] pays)
  qed (auto intro!: last)
qed

lemma away_save_status [away_rules]:
  assumes "away g W v s p"
  shows "ensures (\<lambda>s'. away g W v s' p) (save_status s i st)"
  unfolding ensures_def
proof (intro allI impI)
  fix t assume "save_status s i st = Inr t"
  then have "t = s\<lparr>orders := map (\<lambda>x. if o_id x = i then x\<lparr>o_status := st\<rparr> else x) (orders s)\<rparr>"
    unfolding save_status_def Let_def by (elim bindE_InrE) simp
  with assms show "away g W v t p" by (auto simp: away_def lock_view_def groups_bounded_def)
qed

lemma away_filled [away_rules]: "away g W v s p \<Longrightarrow> ensures (\<lambda>s'. away g W v s' p) (update_filled_amount s ids m)"
  by (auto simp: ensures_def update_filled_amount_def Let_def bindE_eq_Inr away_def lock_view_def groups_bounded_def)

lemma away_stop_losses:
  "away g W v s p \<Longrightarrow> away g W v (cancel_stop_loss s t i) p" "away g W v s p \<Longrightarrow> away g W v (cancel_stop_losses env cs s) p"
  "away g W v s p \<Longrightarrow> ensures (\<lambda>s'. away g W v s' p) (save_sl_filled s i a)"
  by (auto simp: cancel_stop_loss_def cancel_stop_losses_def save_sl_filled_def ensures_def bindE_eq_Inr away_def lock_view_def groups_bounded_def)

lemma away_trades [away_rules]: "away g W v s p \<Longrightarrow> ensures (\<lambda>(ts', s'). away g W v s' p) (bulk_create_trades s ts)"
  by (auto simp: ensures_def bulk_create_trades_def Let_def bindE_eq_Inr intro: away_upd)

lemma away_cancel_another [away_rules]:
  assumes "away g W v s p"
  shows "ensures (\<lambda>s'. away g W v s' p) (cancel_another env s i part d)"
proof -
  have c: "away g W v (oco_delete env t i) p" if "away g W v t p" for t using that by (simp add: oco_delete_def away_upd)
  show ?thesis unfolding cancel_another_def
    by (rule ensures_bind [where Q = "\<lambda>s'. away g W v s' p"], cases part)
      (auto intro!: ensures_rules ensures_skip away_stop_losses away_save_status c assms split: option.splits)
qed

lemma away_create_order:
  "create_order s x = Inr (x', t) \<Longrightarrow> away g W v s p \<Longrightarrow> o_group x \<noteq> g \<Longrightarrow> o_group x < uuids s
     \<Longrightarrow> away g W v t p \<and> o_group x' \<noteq> g"
  by (auto simp: create_order_def Let_def bindE_eq_Inr away_def lock_view_def groups_bounded_def)

section \<open>The engine\<close>

lemma away_register_fee_of [away_rules]:
  "away g W v s p \<Longrightarrow> ensures (\<lambda>(t', s', p'). away g W v s' p') (register_fee_of env y t w s p)"
  unfolding register_fee_of_def
  by (intro ensures_rules ensures_bind [OF away_register_fee]) (auto intro: away_base_wallet [OF sym])

lemma away_register_transactions [away_rules]:
  assumes "away g W v s p"
  shows "ensures (\<lambda>(tp', s', p'). away g W v s' p') (register_transactions env fake y sd mw tw tp s p)"
proof -
  have b: "ensures (\<lambda>(s', p'). away g W v s' p') (register_trade_base_transaction y sd mw tw t s q)" if "away g W v s q" for t q
  proof -
    obtain a b where ab: "(if sd = SELL then (tw, mw) else (mw, tw)) = (a, b)" by (cases "sd = SELL") auto
    obtain a' s1 b' s2 where w: "base_wallet_of s y a = (a', s1)" "base_wallet_of s1 y b = (b', s2)" by (metis surj_pair)
    have "away g W v s2 q" by (rule away_base_wallet [OF w(2) away_base_wallet [OF w(1) that]])
    then show ?thesis unfolding register_trade_base_transaction_def Let_def ab w prod.case
      by (auto intro!: ensures_rules ensures_bind [OF away_post])
  qed
  have r: "ensures (away g W v s) (register_trade_transaction p sd mw tw t)" for t
    unfolding register_trade_transaction_def Let_def by (intro ensures_rules away_post assms)
  have f: "ensures (\<lambda>(s', p'). away g W v s' p') (if fake then Inr (s, p) else
              bindE (register_margin_transaction mw tw) (\<lambda>_.
              bindE (register_trade_transaction p sd mw tw (maker_trade tp)) (\<lambda>p.
              register_trade_base_transaction y sd mw tw (maker_trade tp) s p)))"
    by (intro ensures_rules ensures_skip [of "register_margin_transaction mw tw"] ensures_bind [OF r] b) (simp_all add: assms)
  show ?thesis unfolding register_transactions_def
    by (rule ensures_bind [OF f]) (auto intro!: ensures_rules ensures_bind [OF away_register_fee_of])
qed

lemma away_release_order [away_rules]:
  "away g W v s p \<Longrightarrow> o_group x \<noteq> g \<Longrightarrow> ensures (away g W v s) (release_order_lock t p x w a)"
  unfolding release_order_lock_def by (intro ensures_skip away_release)

lemma away_cancel_rest [away_rules]:
  assumes "away g W v s p" and "o_group self \<noteq> g"
  shows "ensures (\<lambda>(s', p'). away g W v s' p') (cancel_rest self st s p)"
  unfolding cancel_rest_def
  by (intro ensures_rules ensures_bind [OF away_release [OF assms]] ensures_bind [OF away_save_status]) (auto simp: assms)

lemma away_handle_oco [away_rules]:
  assumes "away g W v s p" and "o_group x \<noteq> g"
  shows "ensures (\<lambda>(s', p'). away g W v s' p') (handle_oco_updates env x i s p)"
  unfolding handle_oco_updates_def
  by (intro ensures_skip [of "oco_row s i"] ensures_bind [OF away_cancel_another [OF assms(1)]] ensures_rules)
    (auto intro!: ensures_bind [OF away_release [OF _ assms(2)]] ensures_rules away_upd)

definition match_away ::
  "nat \<Rightarrow> wallet_keys \<times> nat \<Rightarrow> balance_lock list \<times> 'z \<times> decimal \<times> balance_lock list
     \<Rightarrow> 'z match_state \<Rightarrow> bool" where
  "match_away g W v ms \<longleftrightarrow> away g W v (ms_db ms) (ms_pipe ms) \<and> (\<forall>x\<in>set (ms_ocos ms). o_group x \<noteq> g)"

lemma away_match_one:
  assumes "match_away g W v ms" and "o_group self \<noteq> g" and "o_group maker \<noteq> g"
  shows "ensures (match_away g W v) (match_one env tether y self tw maker m ms)"
  unfolding ensures_def
proof (intro allI impI)
  fix ms' assume "match_one env tether y self tw maker m ms = Inr ms'"
  then show "match_away g W v ms'"
  proof (rule match_one_steps)
    fix irt usdt mw gid s0 tp0 p1 p2 tp s3 p3 s4 s5 s6 p6
    assume u: "uuid4 (ms_db ms) = (gid, s0)"
      and r1: "release_order_lock s0 (ms_pipe ms) self tw m = Inr p1" and r2: "release_order_lock s0 p1 maker mw m = Inr p2"
      and t: "register_transactions env False y (o_side maker) mw tw tp0 s0 p2 = Inr (tp, s3, p3)"
      and f: "update_filled_amount s3 [o_id self, o_id maker] m = Inr s4"
      and sv: "(if m = unfilled_amount y maker then save_status s4 (o_id maker) FILLED else Inr s4) = Inr s5"
      and e: "(if ms_unfilled ms - m = 0
        then bindE (if o_fill_type self = MARKET then release_lock s5 p3 (o_group self) None else Inr p3) (\<lambda>p.
             bindE (save_status s5 (o_id self) FILLED) (\<lambda>s. Inr (s, p)))
        else Inr (s5, p3)) = Inr (s6, p6)"
      and ms': "ms' = ms\<lparr>ms_db := s6, ms_pipe := p6, ms_unfilled := ms_unfilled ms - m,
             ms_status := if ms_unfilled ms - m = 0 then FILLED else ms_status ms, ms_pairs := ms_pairs ms @ [tp],
             ms_filled := if m = unfilled_amount y maker then ms_filled ms @ [maker] else ms_filled ms,
             ms_ocos := if o_oco maker \<noteq> None then ms_ocos ms @ [maker] else ms_ocos ms,
             ms_stop := ms_unfilled ms - m = 0\<rparr>"
    have "away g W v s0 (ms_pipe ms)" using away_uuid4 [OF u] assms(1) by (simp add: match_away_def)
    from ensuresD [OF away_release_order [OF this assms(2)] r1] have "away g W v s0 p1" .
    from ensuresD [OF away_release_order [OF this assms(3)] r2] have "away g W v s0 p2" .
    from ensuresD [OF away_register_transactions [OF this] t] have "away g W v s3 p3" by simp
    from ensuresD [OF away_filled [OF this] f] have s4: "away g W v s4 p3" .
    have s5: "away g W v s5 p3" using sv s4 by (auto split: if_splits intro: ensuresD [OF away_save_status [OF s4]])
    have "away g W v s6 p6"
    proof (cases "ms_unfilled ms - m = 0")
      case True
      with e obtain q where q: "(if o_fill_type self = MARKET then release_lock s5 p3 (o_group self) None else Inr p3) = Inr q"
        and s6: "save_status s5 (o_id self) FILLED = Inr s6" and p6: "q = p6"
        by (auto elim!: bindE_InrE)
      have "away g W v s5 q" using q s5 ensuresD [OF away_release [OF s5 assms(2)]] by (auto split: if_splits)
      then show ?thesis using ensuresD [OF away_save_status s6] p6 by simp
    qed (use e s5 in simp)
    then show ?thesis using assms(1,3) by (simp add: ms' match_away_def)
  qed
qed

lemma away_match_loop:
  assumes "away g W v s p" and "o_group self \<noteq> g" and "\<forall>x\<in>set makers. o_group x \<noteq> g"
  shows "ensures (match_away g W v) (match_loop env tether y self tw u makers s p)"
  unfolding match_loop_def
proof (rule ensures_foldE)
  fix ms :: "'a match_state" and x assume "match_away g W v ms" "x \<in> set makers"
  with assms show "ensures (match_away g W v) (match_step env tether y self tw ms x)"
    unfolding match_step_def Let_def
    by (intro ensures_rules away_match_one) (simp_all add: match_away_def)
qed (use assms in \<open>simp add: match_away_def\<close>)

lemma away_finish_match:
  assumes "match_away g W v ms" and "o_group self \<noteq> g"
  shows "ensures (\<lambda>(m, s', p'). away g W v s' p') (finish_match env y self tw ms)"
proof -
  have vol: "away g W v (foldl add_trade_volume s ts) p" if "away g W v s p" for s p ts
    using that by (induction ts arbitrary: s) (auto simp: add_trade_volume_def Let_def intro: away_upd)
  have oc: "ensures (\<lambda>(s', p'). away g W v s' p') (update_ocos env (ms_ocos ms) s p)" if "away g W v s p" for s p
    unfolding update_ocos_def
    by (rule ensures_foldE) (use that assms in \<open>auto simp: match_away_def intro!: ensures_rules away_handle_oco split: option.splits\<close>)
  have rec: "ensures (\<lambda>(s', p'). away g W v s' p') (record_trades env y tw (ms_ocos ms) ts s p)" if "away g W v s p" for ts s p
    unfolding record_trades_def using that
    by (intro ensures_rules ensures_bind [OF oc]) (auto simp: set_last_trade_def create_trade_revenues_def intro!: away_upd)
  have ms: "away g W v (ms_db ms) (ms_pipe ms)" using assms(1) by (simp add: match_away_def)
  show ?thesis unfolding finish_match_def
    by (rule ensures_bind [OF away_cancel_rest [OF ms assms(2)]])
      (auto intro!: ensures_rules ensures_bind [OF away_trades] ensures_bind [OF rec] vol)
qed

lemma away_make_match [away_rules]:
  assumes "away g W v s p" and "o_group self \<noteq> g"
  shows "ensures (\<lambda>(m, s', p'). away g W v s' p') (make_match env self ov s p)"
  unfolding ensures_def
proof (intro allI impI)
  fix r assume r: "make_match env self ov s p = Inr r"
  obtain m s' p' where r_eq: "r = (m, s', p')" by (cases r)
  have makers: "\<forall>x\<in>set (matching_orders s self). o_group x \<noteq> g"
    using assms(1) by (auto simp: away_def dest: matching_orders_props(1))
  from r have "away g W v s' p'" unfolding r_eq
  proof (cases rule: make_match_cases)
    case 1
    have "away g W v s p'" by (rule ensuresD [OF away_release [OF assms] 1(4)])
    then show ?thesis by (rule ensuresD [OF away_save_status 1(5)])
  next
    case 2
    from ensuresD [OF away_cancel_rest [OF assms] 2(5)] show ?thesis by simp
  next
    case (3 y tw tether ms)
    from ensuresD [OF away_finish_match [OF ensuresD [OF away_match_loop [OF assms makers] 3(4)] assms(2)] 3(5)]
    show ?thesis by simp
  qed
  then show "(\<lambda>(m, s', p'). away g W v s' p') r" by (simp add: r_eq)
qed

lemma away_fill_of_submit [away_rules]:
  assumes "away g W v s p" and "o_group x \<noteq> g"
  shows "ensures (\<lambda>(a, s', p'). away g W v s' p') (fill_of_submit y x sl oco s p)"
proof -
  have "away g W v t p" if "base_wallet_of s y w = (b, t)" for b t w by (rule away_base_wallet [OF that assms(1)])
  then have "ensures (\<lambda>(a, s', p'). away g W v s' p') (acquire_lock y x s p)"
    unfolding acquire_lock_def Let_def
    by (intro ensures_skip [of "row_of_wallet s (o_wallet x)"] ensures_skip [of "guardE e b" for e b]
        ensures_skip [of "get_to_lock_wallet a b sd" for a b sd] ensures_skip [of "has_balance a b c d e" for a b c d e]
        ensures_rules ensures_bind [OF away_lock [OF _ assms(2)]]) auto
  then show ?thesis unfolding fill_of_submit_def by (intro ensures_rules ensures_skip) (simp_all add: assms)
qed

section \<open>The recursion\<close>

text \<open>An order may ask to join the group of its stop loss, one that was drawn before.\<close>

definition joins :: "order_request \<Rightarrow> nat \<Rightarrow> nat \<Rightarrow> bool" where
  "joins rq g n \<longleftrightarrow> (\<exists>h. parent_lock_group_id rq = Some h \<and> (h = g \<or> n \<le> h))"

locale sparing_service =
  fixes place :: "'z placing"
  assumes spares: "\<And>g W v rq s p. away g W v s p \<Longrightarrow> \<not> joins rq g (snd W) \<Longrightarrow> ensures (\<lambda>(x, s', p'). away g W v s' p') (place rq s p)"
begin

lemma trigger_stop_loss_spares:
  assumes "away g W v s p" and "sl_group l \<noteq> g" and "sl_group l < snd W"
  shows "ensures (\<lambda>(c, s', p'). away g W v s' p') (trigger_stop_loss place l s p)"
  unfolding trigger_stop_loss_def
proof (rule ensures_skip)
  fix rq assume "stop_loss_request s l = Inr rq"
  then have j: "\<not> joins rq g (snd W)" using assms(2,3) by (auto simp: stop_loss_request_def joins_def bindE_eq_Inr)
  have "ensures (\<lambda>(x, s', p'). away g W v s' p') (case place rq s p of
      Inl e \<Rightarrow> if e \<in> caught_errors then Inr (None, s, p) else Inl e | Inr r \<Rightarrow> Inr r)"
    using spares [OF assms(1) j] assms(1) by (auto simp: ensures_def split: sum.splits)
  then show "ensures (\<lambda>(c, s', p'). away g W v s' p') (bindE (case place rq s p of
      Inl e \<Rightarrow> if e \<in> caught_errors then Inr (None, s, p) else Inl e | Inr r \<Rightarrow> Inr r) (\<lambda>(x, s, p).
     case x of
       None \<Rightarrow> Inr (rest_to_cancel l, s, p)
     | Some (x, _) \<Rightarrow>
         bindE (order_row s (o_id x)) (\<lambda>x.
         bindE (save_sl_filled s (sl_id l) (sl_filled l + o_filled x)) (\<lambda>s.
         bindE (stop_loss_row s (sl_id l)) (\<lambda>l.
         Inr (rest_to_cancel l, s, p))))))"
    by (rule ensures_bind)
      (auto intro!: ensures_rules ensures_skip [of "order_row s i" for s i] ensures_bind [OF away_stop_losses(3)]
        ensures_skip [of "stop_loss_row s i" for s i])
qed

lemma trigger_spares:
  assumes "away g W v s p"
  shows "ensures (\<lambda>(cs, s', p'). away g W v s' p') (trigger env place x lo hi s p)"
proof -
  let ?W = "(fst W, uuids s)"
  have up: "away g ?W v s p" using assms by (simp add: away_def)
  have down: "away g W v t q" if "away g ?W v t q" for t q using that assms by (simp add: away_def)
  have c: "ensures (\<lambda>s'. away g ?W v s' p) (cancel_oco_orders env ls s)" for ls
    unfolding cancel_oco_orders_def
    by (rule ensures_foldE) (auto simp: up intro!: ensures_rules away_cancel_another)
  have sl: "\<forall>l\<in>set (to_trigger s x lo hi). sl_group l \<noteq> g \<and> sl_group l < uuids s"
    using assms by (auto simp: to_trigger_def away_def groups_bounded_def)
  have loop: "ensures (\<lambda>(cs, s', p'). away g ?W v s' p') (foldE (\<lambda>(cs, s, p) l. bindE (trigger_stop_loss place l s p) (\<lambda>(c, s, p).
          Inr (case c of None \<Rightarrow> cs | Some c \<Rightarrow> cs @ [c], s, p))) (cs, t, q) (to_trigger s x lo hi))"
    if "away g ?W v t q" for t cs q
    by (rule ensures_foldE) (use that sl in \<open>auto intro!: ensures_bind [OF trigger_stop_loss_spares] ensures_rules\<close>)
  have "ensures (\<lambda>(cs, s', p'). away g ?W v s' p') (trigger env place x lo hi s p)"
    unfolding trigger_def Let_def by (rule ensures_bind [OF c loop])
  then show ?thesis by (rule ensures_mono) (auto dest: down)
qed

lemma submit_spares:
  assumes "away g W v s p" and "o_group x \<noteq> g"
  shows "ensures (\<lambda>(m, s', p'). away g W v s' p') (submit env place x sl oco s p)"
  unfolding ensures_def
proof (intro allI impI)
  fix r assume "submit env place x sl oco s p = Inr r"
  moreover obtain m s' p' where r: "r = (m, s', p')" by (cases r)
  ultimately obtain y a t q n u w where f: "fill_of_submit y x sl oco s p = Inr (a, t, q)"
    and mm: "make_match env x a t q = Inr (n, u, w)"
    and e: "(s' = u \<and> p' = w) \<or> (\<exists>lo hi cs. trigger env place x lo hi u w = Inr (cs, s', p'))"
    unfolding submit_def Let_def by (elim bindE_InrE) (auto simp: bindE_eq_Inr split: prod.splits if_splits, blast)
  have "away g W v t q" using ensuresD [OF away_fill_of_submit [OF assms] f] by simp
  from ensuresD [OF away_make_match [OF this assms(2)] mm] have u: "away g W v u w" by simp
  from e show "(\<lambda>(m, s', p'). away g W v s' p') r"
    using u ensuresD [OF trigger_spares [OF u]] by (auto simp: r)
qed

lemma place_order_spares:
  assumes "away g W v s p" and "\<not> joins rq g (snd W)"
  shows "ensures (\<lambda>(x, s', p'). away g W v s' p') (place_order env place rq w price s p)"
  unfolding ensures_def
proof (intro allI impI)
  fix r assume "place_order env place rq w price s p = Inr r"
  moreover obtain o' s' p' where r: "r = (o', s', p')" by (cases r)
  ultimately obtain h s1 x s2 m s3 where h: "group_of_request rq s = (h, s1)"
    and c: "create_order s1 (order_of_request rq w price h) = Inr (x, s2)"
    and sb: "submit env place x (o_stop_loss x \<noteq> None) (o_oco x \<noteq> None) s2 p = Inr (m, s3, p')"
    and s': "s' = cancel_stop_losses env (mt_to_cancel m) s3"
    by (auto simp: place_order_def result_simps split: prod.splits)
  have "away g W v s1 p \<and> h \<noteq> g \<and> h < uuids s1"
    using h assms away_uuid4 [of s h s1 g W v p]
    by (auto simp: group_of_request_def joins_def away_def split: option.splits)
  with away_create_order [OF c, of g W v p] have "away g W v s2 p" "o_group x \<noteq> g" by (simp_all add: order_of_request_def)
  from ensuresD [OF submit_spares [OF this] sb] show "(\<lambda>(x, s', p'). away g W v s' p') r"
    by (simp add: r s' away_stop_losses(2))
qed

lemma body_spares:
  assumes "away g W v s p" and "\<not> joins rq g (snd W)"
  shows "ensures (\<lambda>(x, s', p'). away g W v s' p') (new_order_body env place rq s p)"
proof -
  have ref: "ensures (\<lambda>(x, s', p'). away g W v s' p') (refuse b e t q)" if "away g W v t q" for b e and t :: "('z) market_db_scheme" and q
    using that by (simp add: refuse_def ensures_def)
  show ?thesis unfolding new_order_body_def
  proof (rule ensures_skip, rule ensures_skip, rule ensures_let, rule ensures_prod)
    fix y :: pair_symbol and r w t
    assume "r = get_wallet s (sy_asset y) (rq_account rq) (rq_market rq) (rq_variant rq) None" "r = (w, t)"
    then have t: "away g W v t p" using away_get_wallet assms(1) by metis
    show "ensures (\<lambda>(x, s', p'). away g W v s' p') (case price_of_request rq t of
       None \<Rightarrow> refuse (rq_raise rq) GenericException t p
     | Some price \<Rightarrow>
         if price = 0 then refuse (rq_raise rq) GenericException t p else
         bindE (broken_limit y rq price) (\<lambda>b.
         case b of Some e \<Rightarrow> refuse (rq_raise rq) e t p
         | None \<Rightarrow> place_order env place rq w price t p))"
      by (intro ensures_rules ensures_skip ref place_order_spares t assms(2))
  qed
qed

end

lemma new_order_spares:
  fixes s :: "('z) market_db_scheme"
  shows "away g W v s p \<Longrightarrow> \<not> joins rq g (snd W) \<Longrightarrow> ensures (\<lambda>(x, s', p'). away g W v s' p') (new_order n env rq s p)"
proof (induction n arbitrary: g W v rq s p)
  case (Suc n)
  have "sparing_service (new_order n env :: 'z placing)" by unfold_locales (rule Suc.IH)
  from sparing_service.body_spares [OF this Suc.prems] show ?case by simp
qed (simp add: ensures_def)

interpretation sparing_orders: sparing_service "new_order n env" for n env
  by unfold_locales (rule new_order_spares)

end
