(* ===== verification/Otc_Backing.thy ===== *)
theory Otc_Backing
  imports Otc_Locks Order_Locks Effects
begin

text \<open>
  What is locked for the direct trades: while a trade is pending, exactly what it pays; after it is
  done, rejected, expired or reverted, nothing. Every operation keeps that, whatever fails on the way.
\<close>

section \<open>The invariant\<close>

definition otc_backed :: "('z) otc_db_scheme \<Rightarrow> otc_trade \<Rightarrow> bool" where
  "otc_backed s t \<longleftrightarrow> (\<exists>r w. List.find (\<lambda>r. or_id r = ot_request t) (otc_requests s) = Some r \<and> w \<in> set (wallets s)
     \<and> acc_id (w_account w) = acc_id (bt_account r) \<and> w_asset w = or_from r \<and> w_market w = bt_market r
     \<and> (check_balance w \<longrightarrow> (\<exists>l. find_lock s (ot_group t) = Some l \<and> lk_wallet l = w_id w
           \<and> lk_amount l = (if ot_status t = OT_PENDING then floor_precision (get_paying_amount r) 8 else 0))))"

definition own_group :: "('z) market_db_scheme \<Rightarrow> nat \<Rightarrow> bool" where
  "own_group s g \<longleftrightarrow> g < uuids s \<and> (\<forall>x\<in>set (orders s). o_group x \<noteq> g) \<and> (\<forall>l\<in>set (stop_losses s). sl_group l \<noteq> g)"

definition otc_ok :: "('z) otc_db_scheme \<Rightarrow> bool" where
  "otc_ok s \<longleftrightarrow> ledger_ok s \<and> groups_bounded s \<and> distinct (map ot_id (otc_trades s)) \<and> distinct (map ot_group (otc_trades s))
     \<and> distinct (map ot_request (otc_trades s)) \<and> (\<forall>t\<in>set (otc_trades s). own_group s (ot_group t) \<and> otc_backed s t)"

lemma otc_rows_unique:
  assumes "otc_ok s" and "t \<in> set (otc_trades s)" and "t' \<in> set (otc_trades s)"
  shows "ot_id t' = ot_id t \<longleftrightarrow> t' = t" and "ot_group t' = ot_group t \<longleftrightarrow> t' = t" and "ot_request t' = ot_request t \<longleftrightarrow> t' = t"
  using assms by (auto simp: otc_ok_def distinct_map inj_on_def)

abbreviation keys_of :: "('z) ledger_scheme \<Rightarrow> wallet_keys" where
  "keys_of s \<equiv> wallet_key ` set (wallets s)"

text \<open>How the rows of the trades change: the trades of \<open>I\<close> get the status \<open>st\<close>.\<close>

definition moves :: "otc_trade_status \<Rightarrow> nat set \<Rightarrow> otc_trade list \<Rightarrow> otc_trade list \<Rightarrow> bool" where
  "moves st I ts ts' \<longleftrightarrow> (\<exists>f. ts' = map f ts \<and> (\<forall>t. ot_id (f t) = ot_id t \<and> ot_group (f t) = ot_group t \<and> ot_request (f t) = ot_request t
     \<and> ot_status (f t) = (if ot_id t \<in> I then st else ot_status t)))"

lemma moves_map:
  "(\<And>t. ot_id (f t) = ot_id t \<and> ot_group (f t) = ot_group t \<and> ot_request (f t) = ot_request t
     \<and> ot_status (f t) = (if ot_id t \<in> I then st else ot_status t)) \<Longrightarrow> moves st I ts (map f ts)"
  by (auto simp: moves_def)

lemma moves_refl [simp]: "moves st {} ts ts"
  by (auto simp: moves_def intro!: exI [of _ id])

lemma moves_save: "(\<And>t. ot_id (f t) = ot_id t \<and> ot_group (f t) = ot_group t \<and> ot_request (f t) = ot_request t \<and> ot_status (f t) = st)
    \<Longrightarrow> moves st {i} (otc_trades s) (otc_trades (save_otc s i f))"
  by (auto simp: save_otc_def intro!: moves_map)

text \<open>The lock of a trade that leaves the pending state: nothing is left in it.\<close>

definition lock_closed :: "('z) ledger_scheme \<Rightarrow> ('z) ledger_scheme \<Rightarrow> otc_trade \<Rightarrow> bool" where
  "lock_closed s s' t \<longleftrightarrow> (case find_lock s (ot_group t) of
       None \<Rightarrow> True
     | Some l \<Rightarrow> \<exists>l'. find_lock s' (ot_group t) = Some l' \<and> lk_wallet l' = lk_wallet l
         \<and> (lk_amount l' = 0 \<or> lk_amount l' = lk_amount l \<and> ot_status t \<noteq> OT_PENDING))"

lemma otc_backed_moved:
  assumes "otc_backed s t" and "otc_requests s' = otc_requests s" and "keys_of s \<subseteq> keys_of s'"
    and "ot_group t' = ot_group t" and "ot_request t' = ot_request t"
    and "(ot_status t' = ot_status t \<and> find_lock s' (ot_group t) = find_lock s (ot_group t))
      \<or> (ot_status t' \<noteq> OT_PENDING \<and> lock_closed s s' t)"
  shows "otc_backed s' t'"
proof -
  from assms(1) obtain r w where r: "List.find (\<lambda>r. or_id r = ot_request t) (otc_requests s) = Some r" and w: "w \<in> set (wallets s)"
    "acc_id (w_account w) = acc_id (bt_account r)" "w_asset w = or_from r" "w_market w = bt_market r"
    and l: "check_balance w \<Longrightarrow> \<exists>l. find_lock s (ot_group t) = Some l \<and> lk_wallet l = w_id w
           \<and> lk_amount l = (if ot_status t = OT_PENDING then floor_precision (get_paying_amount r) 8 else 0)"
    by (auto simp: otc_backed_def)
  from assms(3) w(1) have "wallet_key w \<in> keys_of s'" by blast
  then obtain v where v: "v \<in> set (wallets s')" "wallet_key v = wallet_key w" by (metis imageE)
  then have "w_id v = w_id w" "acc_id (w_account v) = acc_id (w_account w)" "w_asset v = w_asset w" "w_market v = w_market w"
    "check_balance v = check_balance w" by (simp_all add: wallet_key_def)
  moreover have "check_balance w \<Longrightarrow> \<exists>l. find_lock s' (ot_group t') = Some l \<and> lk_wallet l = w_id w
           \<and> lk_amount l = (if ot_status t' = OT_PENDING then floor_precision (get_paying_amount r) 8 else 0)"
    using l assms(4,6) by (auto simp: lock_closed_def)
  ultimately show ?thesis unfolding otc_backed_def using r w v(1) assms(2,5) by (intro exI [of _ r] exI [of _ v]) simp
qed

lemma moved_ok:
  fixes s s' :: "('z) otc_db_scheme"
  assumes "otc_ok s" and "ledger_ok s' \<and> groups_bounded s'" and "otc_requests s' = otc_requests s" and "moves st I (otc_trades s) (otc_trades s')"
    and "st \<noteq> OT_PENDING \<or> I = {}" and "keys_of s \<subseteq> keys_of s'"
    and "\<And>t. t \<in> set (otc_trades s) \<Longrightarrow> own_group s' (ot_group t)"
    and "\<And>t. t \<in> set (otc_trades s) \<Longrightarrow> ot_id t \<notin> I \<Longrightarrow> find_lock s' (ot_group t) = find_lock s (ot_group t)"
    and "\<And>t. t \<in> set (otc_trades s) \<Longrightarrow> ot_id t \<in> I \<Longrightarrow> lock_closed s s' t"
  shows "otc_ok s'"
proof -
  from assms(4) obtain f where f: "otc_trades s' = map f (otc_trades s)"
    "\<And>t. ot_id (f t) = ot_id t \<and> ot_group (f t) = ot_group t \<and> ot_request (f t) = ot_request t
     \<and> ot_status (f t) = (if ot_id t \<in> I then st else ot_status t)" by (auto simp: moves_def)
  have m: "map ot_id (otc_trades s') = map ot_id (otc_trades s)" "map ot_group (otc_trades s') = map ot_group (otc_trades s)"
    "map ot_request (otc_trades s') = map ot_request (otc_trades s)" using f by simp_all
  have "own_group s' (ot_group t') \<and> otc_backed s' t'" if "t' \<in> set (otc_trades s')" for t'
  proof -
    from that f(1) obtain t where t: "t \<in> set (otc_trades s)" "t' = f t" by auto
    have "otc_backed s t" using assms(1) t(1) by (simp add: otc_ok_def)
    then have "otc_backed s' t'"
    proof (rule otc_backed_moved [OF _ assms(3,6)])
      show "(ot_status t' = ot_status t \<and> find_lock s' (ot_group t) = find_lock s (ot_group t))
        \<or> (ot_status t' \<noteq> OT_PENDING \<and> lock_closed s s' t)"
        using assms(5) assms(8) [OF t(1)] assms(9) [OF t(1)] f(2) [of t] t(2) by (cases "ot_id t \<in> I") auto
    qed (use t(2) f(2) in simp_all)
    with assms(7) [OF t(1)] t(2) f(2) [of t] show ?thesis by simp
  qed
  with assms(1,2) m show ?thesis by (simp add: otc_ok_def)
qed

text \<open>The same trades, the same requests: more wallets and a later clock of ids do no harm.\<close>

lemma otc_ok_mono:
  fixes s s' :: "('z) otc_db_scheme"
  assumes "otc_ok s" and "ledger_ok s'" and "otc_requests s' = otc_requests s" and "otc_trades s' = otc_trades s"
    and "keys_of s \<subseteq> keys_of s'" and "locks s' = locks s" and "orders s' = orders s" and "stop_losses s' = stop_losses s"
    and "uuids s \<le> uuids s'"
  shows "otc_ok s'"
proof (rule moved_ok [OF assms(1) _ assms(3), where st = OT_DONE and I = "{}"])
  have "groups_bounded s" using assms(1) by (simp add: otc_ok_def)
  with assms(2,7-9) show "ledger_ok s' \<and> groups_bounded s'" by (auto simp: groups_bounded_def)
next
  fix t assume "t \<in> set (otc_trades s)"
  with assms(1) have "own_group s (ot_group t)" by (simp add: otc_ok_def)
  with assms(7-9) show "own_group s' (ot_group t)" by (auto simp: own_group_def)
qed (use assms in \<open>simp_all add: find_lock_def\<close>)

section \<open>A lock that a block does not touch, or empties\<close>

text \<open>\<open>d\<close> is what the block has taken from the lock of the group \<open>g\<close> so far.\<close>

definition spared ::
  "nat \<Rightarrow> wallet_keys \<Rightarrow> balance_lock list \<Rightarrow> decimal
     \<Rightarrow> ('z) market_db_scheme \<Rightarrow> pipeline \<Rightarrow> bool" where
  "spared g W ls d s p \<longleftrightarrow> own_group s g \<and> groups_bounded s \<and> W \<subseteq> keys_of s \<and> locks s = ls \<and> dd_get (locks_amount p) g = d
     \<and> filter (\<lambda>l. lk_key l = g) (p_locks p) = []"

lemma spared_away: "spared g W ls d s p \<longleftrightarrow> away g (W, 0) (ls, market_db.more s, d, []) s p"
  by (auto simp: spared_def own_group_def away_def lock_view_def)

lemma spared_step:
  assumes "ensures (\<lambda>(a, s', p'). away g (W, 0) (ls, market_db.more s, d, []) s' p') r" and "r = Inr (a, s', p')"
  shows "spared g W ls d s' p'" and "market_db.more s' = market_db.more s"
  using ensuresD [OF assms] by (simp_all add: spared_away away_def lock_view_def)

lemma otc_tables:
  assumes "market_db.more s' = market_db.more s"
  shows "otc_trades s' = otc_trades s" and "otc_requests s' = otc_requests s" and "otc_db.more s' = otc_db.more s"
  by (cases s; cases s'; use assms in simp)+

lemma groups_bounded_otc [simp]:
  "groups_bounded (s\<lparr>otc_trades := a\<rparr>) = groups_bounded s" "groups_bounded (save_otc s i f) = groups_bounded s"
  by (simp_all add: groups_bounded_def save_otc_def)

lemma spared_upd [simp]:
  "spared g W ls d (save_otc s i f) p = spared g W ls d s p" "spared g W ls d (s\<lparr>otc_trades := a\<rparr>) p = spared g W ls d s p"
  "spared g W ls d (s\<lparr>revenues := b\<rparr>) p = spared g W ls d s p" "spared g W ls d (s\<lparr>trade_volumes := c\<rparr>) p = spared g W ls d s p"
  "spared g W ls d (s\<lparr>trades := e\<rparr>) p = spared g W ls d s p"
  by (simp_all add: spared_def own_group_def groups_bounded_def save_otc_def)

lemma spared_release:
  assumes "spared g W ls d s p" and "release_lock t p k x = Inr q" and "k \<noteq> g"
  shows "spared g W ls d s q"
  using ensuresD [OF away_release [OF assms(1) [unfolded spared_away] assms(3)] assms(2)] by (simp add: spared_away)

text \<open>What is taken from a lock by releasing all of it.\<close>

definition whole :: "balance_lock list \<Rightarrow> nat \<Rightarrow> decimal \<Rightarrow> decimal" where
  "whole ls k d = (case List.find (\<lambda>l. lk_key l = k) ls of None \<Rightarrow> d | Some l \<Rightarrow> - lk_amount l)"

lemma spared_release_own:
  assumes "spared g W ls d s p" and "release_lock s p g None = Inr q"
  shows "spared g W ls (whole ls g d) s q"
  using assms(2)
proof (cases rule: release_lock_cases)
  case (2 l y)
  with assms(1) show ?thesis by (auto simp: spared_def filter_empty_conv)
qed (use assms(1) in \<open>simp_all add: spared_def whole_def find_lock_def\<close>)

lemma spared_get_wallet:
  assumes "get_wallet s x a m v e = (w, s')" and "spared g W ls d s p"
  shows "spared g W ls d s' p" and "market_db.more s' = market_db.more s"
  using away_get_wallet [OF assms(1) assms(2) [unfolded spared_away]] by (simp_all add: spared_away away_def lock_view_def)

lemma spared_wallet_by_id:
  assumes "get_wallet_by_id c s x i m v = Inr (w, s')" and "spared g W ls d s p"
  shows "spared g W ls d s' p" and "market_db.more s' = market_db.more s"
  using ensuresD [OF away_wallet_by_id [OF assms(2) [unfolded spared_away]] assms(1)] by (simp_all add: spared_away away_def lock_view_def)

lemma spared_post:
  assumes "post p a b x sc k = Inr q" and "spared g W ls d s p"
  shows "spared g W ls d s q"
  using ensuresD [OF away_post [OF assms(2) [unfolded spared_away]] assms(1)] by (simp add: spared_away)

text \<open>After the block.\<close>

lemma spared_execute:
  assumes "execute s p = Inr s'" and "block_ok s p" and "spared g W ls d s p"
  shows "find_lock s' g = map_option (upd_lock d) (List.find (\<lambda>l. lk_key l = g) ls)" and "own_group s' g" and "W \<subseteq> keys_of s'"
    and "market_db.more s' = market_db.more s"
proof -
  note s' = execute_ok(2) [OF assms(1,2)]
  have more: "ledger.more s' = ledger.more s" using execute_more [OF assms(1)] by simp
  then have same: "orders s' = orders s" "stop_losses s' = stop_losses s" "uuids s' = uuids s" "market_db.more s' = market_db.more s"
    by (cases s; cases s'; simp)+
  have none: "List.find (\<lambda>l. lk_key l = g) (p_locks p) = None"
    using assms(3) by (auto simp: spared_def filter_empty_conv find_None_iff)
  have "find_lock s' g = List.find (\<lambda>l. lk_key l = g) (map (\<lambda>l. upd_lock (dd_get (locks_amount p) (lk_key l)) l) (locks s))"
    using none by (simp add: find_lock_def s' posted_simps find_append split: option.split)
  also have "\<dots> = map_option (\<lambda>l. upd_lock (dd_get (locks_amount p) (lk_key l)) l) (List.find (\<lambda>l. lk_key l = g) (locks s))"
    by (rule find_map_key) (simp add: upd_lock_def)
  finally show "find_lock s' g = map_option (upd_lock d) (List.find (\<lambda>l. lk_key l = g) ls)"
    using assms(3) by (cases "List.find (\<lambda>l. lk_key l = g) (locks s)") (auto simp: spared_def dest: find_SomeD)
  show "own_group s' g" using assms(3) same by (simp add: spared_def own_group_def groups_bounded_def)
  have "keys_of s' = keys_of s" by (auto simp: s' posted_simps wallet_key_def shift_wallet_def image_image)
  with assms(3) show "W \<subseteq> keys_of s'" by (simp add: spared_def)
  show "market_db.more s' = market_db.more s" by (rule same(4))
qed

lemma upd_lock_0 [simp]: "upd_lock 0 l = l" "map_option (upd_lock 0) x = x"
  by (cases x; simp add: upd_lock_def)+

text \<open>
  The end of a block that gave the trades of \<open>I\<close> a final status: of each of them it has emptied the
  lock, unless the trade was not pending any more, and of no other.
\<close>

definition settles ::
  "otc_trade_status \<Rightarrow> nat set \<Rightarrow> ('z) otc_db_scheme \<Rightarrow> ('z) otc_db_scheme \<Rightarrow> pipeline \<Rightarrow> bool" where
  "settles st I s f p \<longleftrightarrow> otc_requests f = otc_requests s \<and> moves st I (otc_trades s) (otc_trades f) \<and> (st = OT_PENDING \<longrightarrow> I = {})
     \<and> keys_of s \<subseteq> keys_of f \<and> groups_bounded f \<and> (\<forall>t\<in>set (otc_trades s). \<exists>d. spared (ot_group t) (keys_of s) (locks s) d f p
           \<and> (if ot_id t \<in> I then d = whole (locks s) (ot_group t) 0 \<or> d = 0 \<and> ot_status t \<noteq> OT_PENDING else d = 0))"

lemma settles_start: "otc_ok s \<Longrightarrow> settles OT_DONE {} s s new_pipeline"
  by (simp add: settles_def otc_ok_def spared_def new_pipeline_def)

lemma settled_ok:
  assumes e: "execute f p = Inr s'" "block_ok f p" and ok: "otc_ok s" and "settles st I s f p"
  shows "otc_ok s'" and "otc_requests s' = otc_requests s" and "moves st I (otc_trades s) (otc_trades s')"
proof -
  have x: "find_lock s' (ot_group t) = map_option (upd_lock d) (find_lock s (ot_group t)) \<and> own_group s' (ot_group t)
      \<and> keys_of s \<subseteq> keys_of s'" if "spared (ot_group t) (keys_of s) (locks s) d f p" for t d
    using spared_execute [OF e that] by (simp add: find_lock_def)
  have "ledger.more s' = ledger.more f" using execute_more [OF e(1)] by simp
  then have more: "market_db.more s' = market_db.more f" "orders s' = orders f" "stop_losses s' = stop_losses f" "uuids s' = uuids f"
    by (cases s'; cases f; simp)+
  note same = otc_tables [OF more(1)]
  show m: "otc_requests s' = otc_requests s" "moves st I (otc_trades s) (otc_trades s')"
    using assms(4) same by (simp_all add: settles_def)
  show "otc_ok s'"
  proof (rule moved_ok [OF ok _ m])
    show "ledger_ok s' \<and> groups_bounded s'"
      using execute_ok(1) [OF e] assms(4) more by (simp add: settles_def groups_bounded_def)
  next
    have "keys_of s' = keys_of f"
      by (auto simp: execute_ok(2) [OF e] posted_simps wallet_key_def shift_wallet_def image_image)
    with assms(4) show "keys_of s \<subseteq> keys_of s'" by (simp add: settles_def)
  next
    fix t assume t: "t \<in> set (otc_trades s)" "ot_id t \<in> I"
    with assms(4) obtain d where d: "spared (ot_group t) (keys_of s) (locks s) d f p"
      "d = whole (locks s) (ot_group t) 0 \<or> d = 0 \<and> ot_status t \<noteq> OT_PENDING" by (auto simp: settles_def)
    show "lock_closed s s' t" using x [OF d(1)] d(2)
      by (auto simp: lock_closed_def whole_def find_lock_def upd_lock_def split: option.split)
  next
    fix t assume t: "t \<in> set (otc_trades s)"
    with assms(4) obtain d where d: "spared (ot_group t) (keys_of s) (locks s) d f p" "ot_id t \<notin> I \<Longrightarrow> d = 0"
      by (auto simp: settles_def)
    from x [OF d(1)] show "own_group s' (ot_group t)" by simp
    show "find_lock s' (ot_group t) = find_lock s (ot_group t)" if "ot_id t \<notin> I" using x [OF d(1)] d(2) [OF that] by simp
  qed (use assms(4) in \<open>auto simp: settles_def\<close>)
qed

section \<open>Blocks that close a trade\<close>

text \<open>
  The contract of a block that ends the pending state of the trade \<open>i\<close> with the lock group \<open>k\<close>: it
  empties that lock and touches no other trade's. The ledger it keeps anyway.
\<close>

locale closing_block =
  fixes body :: "('z) otc_db_scheme \<Rightarrow> pipeline \<Rightarrow> (unit \<times> ('z) otc_db_scheme \<times> pipeline) result"
    and st :: otc_trade_status and i k :: nat
  assumes keeps: "\<And>s p u s' p'. block_ok s p \<Longrightarrow> body s p = Inr (u, s', p') \<Longrightarrow> block_ok s' p'"
    and closing: "\<And>s p u s' p' g W ls. body s p = Inr (u, s', p') \<Longrightarrow> spared g W ls 0 s p
      \<Longrightarrow> spared g W ls (if g = k then whole ls k 0 else 0) s' p' \<and> otc_requests s' = otc_requests s
        \<and> moves st {i} (otc_trades s) (otc_trades s') \<and> otc_db.more s' = otc_db.more s"
    and final: "st \<noteq> OT_PENDING"
begin

lemma closes:
  assumes "with_pipeline body s = Inr (u, s')" and ok: "otc_ok s"
    and t: "t \<in> set (otc_trades s)" "ot_id t = i" "ot_group t = k"
  shows "otc_ok s'" and "otc_requests s' = otc_requests s" and "moves st {i} (otc_trades s) (otc_trades s')"
proof -
  from assms(1) obtain f p where b: "body s new_pipeline = Inr (u, f, p)" and e: "execute f p = Inr s'"
    by (auto simp: with_pipeline_def result_simps)
  have lok: "ledger_ok s" using ok by (simp add: otc_ok_def)
  then have "block_ok s new_pipeline" using new_pipeline_inv by (simp add: block_ok_def)
  then have bp: "block_ok f p" using b by (rule keeps)
  have start: "spared (ot_group t') (keys_of s) (locks s) 0 s new_pipeline" if "t' \<in> set (otc_trades s)" for t'
    using that ok by (simp add: otc_ok_def spared_def new_pipeline_def)
  note c = closing [OF b start]
  have uni: "ot_group t' = k \<longleftrightarrow> ot_id t' = i" if "t' \<in> set (otc_trades s)" for t'
    using otc_rows_unique [OF ok t(1) that] t(2,3) by simp
  have "keys_of s \<subseteq> keys_of f" "groups_bounded f" using c [OF t(1)] by (simp_all add: spared_def)
  with c t(1) uni final have "settles st {i} s f p" unfolding settles_def by fastforce
  from settled_ok [OF e bp ok this]
  show "otc_ok s'" "otc_requests s' = otc_requests s" "moves st {i} (otc_trades s) (otc_trades s')" by blast+
qed

text \<open>What other components own is not touched: their tables and the locks of their groups.\<close>

lemma spares:
  assumes "with_pipeline body s = Inr (u, s')" and "ledger_ok s" and "groups_bounded s" and "own_group s g" and "g \<noteq> k"
  shows "find_lock s' g = find_lock s g" and "own_group s' g" and "keys_of s \<subseteq> keys_of s'" and "otc_db.more s' = otc_db.more s"
proof -
  from assms(1) obtain f p where b: "body s new_pipeline = Inr (u, f, p)" and e: "execute f p = Inr s'"
    by (auto simp: with_pipeline_def result_simps)
  have "block_ok s new_pipeline" using new_pipeline_inv assms(2) by (simp add: block_ok_def)
  then have bp: "block_ok f p" using b by (rule keeps)
  have "spared g (keys_of s) (locks s) 0 s new_pipeline" using assms(3,4) by (simp add: spared_def new_pipeline_def)
  note c = closing [OF b this]
  with assms(5) have sp: "spared g (keys_of s) (locks s) 0 f p" by simp
  note x = spared_execute [OF e bp sp]
  show "own_group s' g" "keys_of s \<subseteq> keys_of s'" by (rule x)+
  show "find_lock s' g = find_lock s g" using x(1) by (simp add: find_lock_def)
  show "otc_db.more s' = otc_db.more s" using otc_tables(3) [OF x(4)] c by simp
qed

end

section \<open>Rejecting, accepting, filling, hedging\<close>

lemma release_spares:
  assumes "release_lock s p k None = Inr q" and "spared g W ls d s p"
  shows "spared g W ls (if g = k then whole ls k d else d) s q"
  using assms spared_release [OF assms(2,1)] spared_release_own [OF assms(2)] by auto

interpretation rejecting_trade: closing_block "reject_otc_body b t" "if b then OT_USER_CANCELED else OT_CANCELED" "ot_id t" "ot_group t"
  for b t
proof
  fix s p u s' p' g W ls
  assume r: "reject_otc_body b t s p = Inr (u, s', p')" and "spared g W ls 0 s p"
  then show "spared g W ls (if g = ot_group t then whole ls (ot_group t) 0 else 0) s' p' \<and> otc_requests s' = otc_requests s
    \<and> moves (if b then OT_USER_CANCELED else OT_CANCELED) {ot_id t} (otc_trades s) (otc_trades s')
    \<and> otc_db.more s' = otc_db.more s"
    by (auto simp: reject_otc_body_def bindE_eq_Inr save_otc_def intro!: moves_map dest: release_spares)
qed (auto intro: rejecting_otc.keeps)

lemma create_ledger_spares:
  assumes "create_ledger env r k s p = Inr (s', p')" and "spared g W ls d s p"
  shows "spared g W ls d s' p' \<and> market_db.more s' = market_db.more s"
proof -
  from assms(1) obtain a s1 b s2 q c s3 e where
    a: "get_wallet s (or_from r) (bt_account r) (bt_market r) None None = (a, s1)"
    and b: "get_wallet_by_id (cfg env) s1 (or_from r) (OTC_ACCOUNT_ID (cfg env)) (bt_market r) None = Inr (b, s2)"
    and q: "post p a b (get_paying_amount r) SC_TRADE k = Inr q"
    and c: "get_wallet_by_id (cfg env) s2 (or_to r) (OTC_ACCOUNT_ID (cfg env)) (bt_market r) None = Inr (c, s3)"
    and e: "get_wallet s3 (or_to r) (bt_account r) (bt_market r) None None = (e, s')"
    and p': "post q c e (get_receiving_amount r) SC_TRADE k = Inr p'"
    by (auto simp: create_ledger_def result_simps Let_def split: prod.splits)
  note a = spared_get_wallet [OF a assms(2)]
  note b = spared_wallet_by_id [OF b a(1)]
  note c = spared_wallet_by_id [OF c spared_post [OF q b(1)]]
  note e = spared_get_wallet [OF e c(1)]
  show ?thesis using spared_post [OF p' e(1)] a(2) b(2) c(2) e(2) by simp
qed

lemma collect_otc_fee_spares:
  assumes "collect_otc_fee env r k s p = Inr (s', p')" and "spared g W ls d s p"
  shows "spared g W ls d s' p' \<and> market_db.more s' = market_db.more s"
proof -
  from assms(1) obtain w s1 b s2 i where
    w: "get_wallet s (sy_asset (bt_symbol r)) (bt_account r) SPOT None None = (w, s1)"
    and b: "get_wallet s1 (sy_base (bt_symbol r)) (bt_account r) SPOT None None = (b, s2)"
    and f: "register_fee_transactions (cfg env) (now env) False r w b k s2 p = Inr (i, s', p')"
    by (auto simp: collect_otc_fee_def result_simps Let_def split: prod.splits)
  note w = spared_get_wallet [OF w assms(2)]
  note b = spared_get_wallet [OF b w(1)]
  from spared_step [OF away_register_fee [OF b(1) [unfolded spared_away]] f] w(2) b(2) show ?thesis by simp
qed

lemma accept_otc_spares:
  assumes "accept_otc env t r s p = Inr (s', p')" and "spared g W ls d s p"
  shows "spared g W ls (if g = ot_group t then whole ls (ot_group t) d else d) s' p' \<and> otc_requests s' = otc_requests s
    \<and> moves OT_DONE {ot_id t} (otc_trades s) (otc_trades s') \<and> otc_db.more s' = otc_db.more s"
proof -
  let ?s = "save_otc s (ot_id t) (\<lambda>t. t\<lparr>ot_status := OT_DONE\<rparr>)"
  from assms(1) obtain q s1 p1 s2 where q: "release_lock s p (ot_group t) None = Inr q"
    and c: "create_ledger env r (ot_group t) ?s q = Inr (s1, p1)"
    and f: "collect_otc_fee env r (ot_group t) s1 p1 = Inr (s2, p')" and s': "s' = add_otc_volume s2 r"
    by (auto simp: accept_otc_def result_simps Let_def)
  have "spared g W ls (if g = ot_group t then whole ls (ot_group t) d else d) ?s q"
    using release_spares [OF q assms(2)] by simp
  note c = create_ledger_spares [OF c this]
  note f = collect_otc_fee_spares [OF f conjunct1 [OF c]]
  have "market_db.more s2 = market_db.more ?s" using c f by simp
  from otc_tables [OF this] have "otc_trades s' = otc_trades ?s" "otc_requests s' = otc_requests s" "otc_db.more s' = otc_db.more s"
    by (simp_all add: s' add_otc_volume_def Let_def save_otc_def)
  with f show ?thesis by (auto simp: s' add_otc_volume_def Let_def intro: moves_save)
qed

lemma new_order_spared:
  fixes s :: "('z) otc_db_scheme"
  assumes "new_order n env rq s p = Inr (x, s', p')" and "parent_lock_group_id rq = None" and "spared g W ls d s p"
  shows "spared g W ls d s' p'" and "otc_trades s' = otc_trades s" and "otc_requests s' = otc_requests s"
    and "otc_db.more s' = otc_db.more s"
proof -
  have "\<not> joins rq g (snd (W, 0))" using assms(2) by (simp add: joins_def)
  note x = spared_step [OF new_order_spares [OF assms(3) [unfolded spared_away] this] assms(1)]
  show "spared g W ls d s' p'" "otc_trades s' = otc_trades s" "otc_requests s' = otc_requests s" "otc_db.more s' = otc_db.more s"
    using x otc_tables [OF x(2)] by blast+
qed

lemma fok_fill_steps:
  assumes "fok_fill_body n env t r s p = Inr (u, s', p')"
  obtains a x s1 p1 f s2 rv where
    "new_order n (market_env.truncate env) (fok_request r t a) s p = Inr (x, s1, p1)"
    "\<forall>t. ot_id (f t) = ot_id t \<and> ot_group (f t) = ot_group t \<and> ot_request (f t) = ot_request t \<and> ot_status (f t) = ot_status t"
    "accept_otc env t r (save_otc s1 (ot_id t) f) p1 = Inr (s2, p')" "s' = s2\<lparr>revenues := rv\<rparr>"
proof -
  from assms obtain a x s1 p1 y s2 where
    o: "new_order n (market_env.truncate env) (fok_request r t a) s p = Inr (x, s1, p1)"
    and a: "accept_otc env t r (save_otc s1 (ot_id t) (note_fill r y (trades s1))) p1 = Inr (s2, p')"
    and s': "s' = save_revenue env r t OTC_MARKET (nat_str (o_id y)) s2"
    by (auto simp: fok_fill_body_def bindE_eq_Inr Let_def split: prod.splits)
  show thesis by (rule that [OF o _ a s' [unfolded save_revenue_def]]) (simp add: note_fill_def)
qed

interpretation filling_trade: closing_block "fok_fill_body n env t r" OT_DONE "ot_id t" "ot_group t" for n env t r
proof
  fix s p u s' p' g W ls
  assume r: "fok_fill_body n env t r s p = Inr (u, s', p')" and sp: "spared g W ls 0 s p"
  from r obtain a x s1 p1 f s2 rv where
    o: "new_order n (market_env.truncate env) (fok_request r t a) s p = Inr (x, s1, p1)"
    and f: "\<forall>t. ot_id (f t) = ot_id t \<and> ot_group (f t) = ot_group t \<and> ot_request (f t) = ot_request t \<and> ot_status (f t) = ot_status t"
    and a: "accept_otc env t r (save_otc s1 (ot_id t) f) p1 = Inr (s2, p')" and s': "s' = s2\<lparr>revenues := rv\<rparr>"
    by (rule fok_fill_steps)
  note o = new_order_spared [OF o _ sp]
  have s1: "spared g W ls 0 (save_otc s1 (ot_id t) f) p1" using o(1) by (simp add: fok_request_def)
  note a = accept_otc_spares [OF a s1]
  obtain h where h: "otc_trades s2 = map h (otc_trades (save_otc s1 (ot_id t) f))"
    "\<And>u. ot_id (h u) = ot_id u \<and> ot_group (h u) = ot_group u \<and> ot_request (h u) = ot_request u
       \<and> ot_status (h u) = (if ot_id u \<in> {ot_id t} then OT_DONE else ot_status u)" using a by (auto simp: moves_def)
  have "otc_trades s' = map (\<lambda>u. h (if ot_id u = ot_id t then f u else u)) (otc_trades s)"
    using h(1) o(2) by (simp add: s' save_otc_def fok_request_def)
  moreover have "moves OT_DONE {ot_id t} (otc_trades s) (map (\<lambda>u. h (if ot_id u = ot_id t then f u else u)) (otc_trades s))"
    by (rule moves_map) (simp add: h(2) f)
  ultimately show "spared g W ls (if g = ot_group t then whole ls (ot_group t) 0 else 0) s' p' \<and> otc_requests s' = otc_requests s
    \<and> moves OT_DONE {ot_id t} (otc_trades s) (otc_trades s') \<and> otc_db.more s' = otc_db.more s"
    using a o(3,4) by (simp add: s' save_otc_def fok_request_def)
qed (auto intro: filling_otc.keeps)

interpretation hedging_trade: closing_block "hedge_with_provider_body n env h t r" OT_DONE "ot_id t" "ot_group t" for n env h t r
proof
  fix s p u s' p' g W ls
  assume r: "hedge_with_provider_body n env h t r s p = Inr (u, s', p')" and sp: "spared g W ls 0 s p"
  from r show "spared g W ls (if g = ot_group t then whole ls (ot_group t) 0 else 0) s' p' \<and> otc_requests s' = otc_requests s
    \<and> moves OT_DONE {ot_id t} (otc_trades s) (otc_trades s') \<and> otc_db.more s' = otc_db.more s"
  proof (cases rule: hedge_with_provider_steps)
    case (1 s1 p1 s2 f rv)
    note a = accept_otc_spares [OF 1(1) sp]
    let ?d = "if g = ot_group t then whole ls (ot_group t) 0 else 0"
    have two: "spared g W ls ?d s2 p' \<and> otc_trades s2 = otc_trades s1 \<and> otc_requests s2 = otc_requests s1
      \<and> otc_db.more s2 = otc_db.more s1"
      using 1(2)
    proof
      assume "\<exists>r'. hedge_irt n env r s1 p1 = Inr (r', s2, p')"
      then obtain r' where "hedge_irt n env r s1 p1 = Inr (r', s2, p')" by blast
      then consider "s2 = s1" "p' = p1"
        | y b x where "new_order n (market_env.truncate env) (irt_hedge_request r y b) s1 p1 = Inr (x, s2, p')"
        by (auto simp: hedge_irt_def bindE_eq_Inr Let_def split: if_splits prod.splits)
      then show ?thesis
      proof cases
        case 2
        from new_order_spared [OF this _ conjunct1 [OF a]] show ?thesis by (simp add: irt_hedge_request_def)
      qed (use a in simp)
    qed (use a in simp)
    obtain h where h: "otc_trades s1 = map h (otc_trades s)"
      "\<And>u. ot_id (h u) = ot_id u \<and> ot_group (h u) = ot_group u \<and> ot_request (h u) = ot_request u
         \<and> ot_status (h u) = (if ot_id u \<in> {ot_id t} then OT_DONE else ot_status u)" using a by (auto simp: moves_def)
    have f: "ot_id (f u) = ot_id u \<and> ot_group (f u) = ot_group u \<and> ot_request (f u) = ot_request u \<and> ot_status (f u) = ot_status u" for u
      using spec [OF 1(4), of u] by auto
    have "otc_trades s' = map (\<lambda>u. f (h u)) (otc_trades s)" using 1(3) two h(1) by simp
    moreover have "moves OT_DONE {ot_id t} (otc_trades s) (map (\<lambda>u. f (h u)) (otc_trades s))"
      by (rule moves_map) (simp add: h(2) f)
    ultimately show ?thesis using 1(3) a two by simp
  qed
qed (auto intro: hedging_otc.keeps)

section \<open>Expiring and reverting\<close>

lemma moves_again:
  assumes "moves st I ts ts'" and "otc_trades s = ts'"
    and "\<And>t. ot_id (f t) = ot_id t \<and> ot_group (f t) = ot_group t \<and> ot_request (f t) = ot_request t \<and> ot_status (f t) = st"
  shows "moves st (insert i I) ts (otc_trades (save_otc s i f))"
proof -
  from assms(1) obtain h where h: "ts' = map h ts" "\<And>t. ot_id (h t) = ot_id t \<and> ot_group (h t) = ot_group t
    \<and> ot_request (h t) = ot_request t \<and> ot_status (h t) = (if ot_id t \<in> I then st else ot_status t)" by (auto simp: moves_def)
  have "otc_trades (save_otc s i f) = map (\<lambda>t. if ot_id (h t) = i then f (h t) else h t) ts"
    using assms(2) h(1) by (simp add: save_otc_def)
  moreover have "moves st (insert i I) ts (map (\<lambda>t. if ot_id (h t) = i then f (h t) else h t) ts)"
    by (rule moves_map) (simp add: h(2) assms(3))
  ultimately show ?thesis by simp
qed

lemma whole_whole: "whole ls k (whole ls k d) = whole ls k d"
  by (simp add: whole_def split: option.split)

lemma settles_release:
  assumes "settles st I s f p" and ok: "otc_ok s" and t: "t \<in> set (otc_trades s)" and r: "release_lock f p (ot_group t) None = Inr q"
    and "st \<noteq> OT_PENDING"
  shows "settles st (insert (ot_id t) I) s (save_otc f (ot_id t) (\<lambda>t. t\<lparr>ot_status := st\<rparr>)) q"
proof -
  let ?f = "save_otc f (ot_id t) (\<lambda>t. t\<lparr>ot_status := st\<rparr>)"
  have uni: "ot_group t' = ot_group t \<longleftrightarrow> ot_id t' = ot_id t" if "t' \<in> set (otc_trades s)" for t'
    using otc_rows_unique [OF ok t that] by simp
  have "\<exists>d. spared (ot_group t') (keys_of s) (locks s) d ?f q
      \<and> (if ot_id t' \<in> insert (ot_id t) I then d = whole (locks s) (ot_group t') 0 \<or> d = 0 \<and> ot_status t' \<noteq> OT_PENDING else d = 0)"
    if t': "t' \<in> set (otc_trades s)" for t'
  proof -
    from assms(1) t' obtain d where d: "spared (ot_group t') (keys_of s) (locks s) d f p"
      "if ot_id t' \<in> I then d = whole (locks s) (ot_group t') 0 \<or> d = 0 \<and> ot_status t' \<noteq> OT_PENDING else d = 0"
      by (auto simp: settles_def)
    let ?d = "if ot_id t' = ot_id t then whole (locks s) (ot_group t) d else d"
    have "spared (ot_group t') (keys_of s) (locks s) ?d ?f q"
      using release_spares [OF r d(1)] uni [OF t'] by simp
    moreover have "if ot_id t' \<in> insert (ot_id t) I then ?d = whole (locks s) (ot_group t') 0 \<or> ?d = 0 \<and> ot_status t' \<noteq> OT_PENDING else ?d = 0"
      using d(2) uni [OF t'] by (auto simp: whole_whole split: if_splits)
    ultimately show ?thesis by blast
  qed
  with assms(1,5) show ?thesis
    by (auto simp: settles_def save_otc_def [of f] intro: moves_again [where s = f, unfolded save_otc_def, simplified])
qed

lemma handle_expired_ok:
  assumes "handle_expired env s = Inr (u, s')" and ok: "otc_ok s"
  shows "otc_ok s'"
proof -
  from assms(1) obtain f p where b: "expire_body env s new_pipeline = Inr (u, f, p)" and e: "execute f p = Inr s'"
    by (auto simp: handle_expired_def with_pipeline_def result_simps)
  have "block_ok s new_pipeline" using new_pipeline_inv ok by (simp add: block_ok_def otc_ok_def)
  with b have bp: "block_ok f p" by (rule expire_keeps)
  have start: "\<exists>I. settles OT_EXPIRED I s s new_pipeline"
    using settles_start [OF ok] by (auto simp: settles_def moves_def intro!: exI [of _ "{}"])
  let ?ts = "filter (\<lambda>(t, r). case gtd r of Some g \<Rightarrow> g < now env | None \<Rightarrow> False) (untriggered s)"
  have mem: "t \<in> set (otc_trades s)" if "(t, r) \<in> set ?ts" for t r
    using that by (auto simp: untriggered_def List.map_filter_def)
  have "\<exists>I. settles OT_EXPIRED I s f p"
  proof (rule expire_round [where P = "\<lambda>f p. \<exists>I. settles OT_EXPIRED I s f p", OF _ start])
    show "foldE (\<lambda>(s, p) (t, r). bindE (release_lock s p (ot_group t) None) (\<lambda>p.
        Inr (save_otc s (ot_id t) (\<lambda>t. t\<lparr>ot_status := OT_EXPIRED\<rparr>), p))) (s, new_pipeline) ?ts = Inr (f, p)"
      using b by (auto simp: expire_body_def bindE_eq_Inr)
  qed (use settles_release [OF _ ok mem] in blast)
  then show ?thesis using settled_ok(1) [OF e bp ok] by blast
qed

lemma revert_one_spares:
  assumes "revert_one allow (s, p) t = Inr (s', p')" and "spared g W ls d s p"
  shows "spared g W ls d s' p' \<and> market_db.more s' = market_db.more s"
  using assms unfolding revert_one_def Let_def
  by (auto simp: bindE_eq_Inr split: if_splits prod.splits dest: spared_post spared_get_wallet)

lemma revert_otc_ok:
  assumes "revert_otc t s = Inr (u, s')" and ok: "otc_ok s" and t: "t0 \<in> set (otc_trades s)" "ot_id t0 = ot_id t"
    and past: "ot_status t0 \<noteq> OT_PENDING"
  shows "otc_ok s'" and "otc_requests s' = otc_requests s" and "moves OT_REVERT {ot_id t} (otc_trades s) (otc_trades s')"
proof -
  let ?s = "save_otc s (ot_id t) (\<lambda>t. t\<lparr>ot_status := OT_REVERT\<rparr>)"
  from assms(1) obtain f1 f p us where r: "foldE (revert_one True) (?s, new_pipeline) (group_trxs ?s (ot_group t)) = Inr (f1, p)"
    and f: "f = f1\<lparr>trades := us\<rparr>" and e: "execute f p = Inr s'" and b: "revert_otc_body t s new_pipeline = Inr (u, f, p)"
    by (auto simp: revert_otc_def with_pipeline_def revert_otc_body_def revert_trx_group_def result_simps)
  have "block_ok s new_pipeline" using new_pipeline_inv ok by (simp add: block_ok_def otc_ok_def)
  then have bp: "block_ok f p" using b by (rule reverting_otc.keeps [OF TrueI])
  have sp: "spared (ot_group t') (keys_of s) (locks s) 0 f p \<and> market_db.more f = market_db.more ?s"
    if "t' \<in> set (otc_trades s)" for t'
  proof -
    have "spared (ot_group t') (keys_of s) (locks s) 0 s new_pipeline"
      using that ok by (simp add: otc_ok_def spared_def new_pipeline_def)
    then have "spared (ot_group t') (keys_of s) (locks s) 0 ?s new_pipeline" by simp
    then have "case (f1, p) of (f1, p) \<Rightarrow> spared (ot_group t') (keys_of s) (locks s) 0 f1 p \<and> market_db.more f1 = market_db.more ?s"
      by (intro foldE_invariant [OF r, where P = "\<lambda>(f1, p). spared (ot_group t') (keys_of s) (locks s) 0 f1 p
          \<and> market_db.more f1 = market_db.more ?s"]) (auto dest: revert_one_spares)
    then show ?thesis by (simp add: f)
  qed
  note tab = otc_tables [OF conjunct2 [OF sp [OF t(1)]]]
  have same: "t' = t0" if "t' \<in> set (otc_trades s)" "ot_id t' = ot_id t" for t'
    using otc_rows_unique(1) [OF ok t(1) that(1)] that(2) t(2) by simp
  have "settles OT_REVERT {ot_id t} s f p" unfolding settles_def
    using sp t(1) past same tab by (auto simp: spared_def save_otc_def intro!: moves_map)
  from settled_ok [OF e bp ok this]
  show "otc_ok s'" "otc_requests s' = otc_requests s" "moves OT_REVERT {ot_id t} (otc_trades s) (otc_trades s')" by blast+
qed

section \<open>Opening\<close>

lemma otc_wallet:
  assumes "get_wallet s x a m None None = (w, s')" and "otc_ok s"
  shows "otc_ok s'" and "w \<in> set (wallets s')" and "acc_id (w_account w) = acc_id a" and "w_asset w = x" and "w_market w = m"
    and "known s' w" and "otc_requests s' = otc_requests s" and "otc_trades s' = otc_trades s"
proof -
  note own = own_walletD [OF get_wallet_own(1) [OF assms(1)]]
  show "w \<in> set (wallets s')" "acc_id (w_account w) = acc_id a" "w_asset w = x" "w_market w = m"
    using own by blast+
  have lok: "ledger_ok s" using assms(2) by (simp add: otc_ok_def)
  have "block_ok s new_pipeline" using new_pipeline_inv lok by (simp add: block_ok_def)
  note inv = get_wallet_inv [OF assms(1) this]
  show "known s' w" by (rule inv(2))
  have only: "s' = s\<lparr>wallets := wallets s'\<rparr>" by (rule get_wallet_only [OF assms(1)])
  show tab: "otc_requests s' = otc_requests s" "otc_trades s' = otc_trades s" by (subst only, simp)+
  show "otc_ok s'"
  proof (rule otc_ok_mono [OF assms(2) _ tab])
    show "ledger_ok s'" using inv(1) by (simp add: block_ok_def)
    show "keys_of s \<subseteq> keys_of s'" by (cases rule: get_wallet_cases [OF assms(1)]) auto
    show "locks s' = locks s" "orders s' = orders s" "stop_losses s' = stop_losses s" "uuids s \<le> uuids s'" by (subst only, simp)+
  qed
qed

text \<open>The row of a request, up to what the database may have changed of its pair and its account.\<close>

definition request_known :: "('z) otc_db_scheme \<Rightarrow> otc_request \<Rightarrow> bool" where
  "request_known s r \<longleftrightarrow> (\<exists>q. List.find (\<lambda>q. or_id q = or_id r) (otc_requests s) = Some q \<and> acc_id (bt_account q) = acc_id (bt_account r)
     \<and> or_from q = or_from r \<and> bt_market q = bt_market r \<and> get_paying_amount q = get_paying_amount r)"

lemma create_otc_ok:
  assumes "with_pipeline (create_otc_body env r w) s = Inr (i, s')" and ok: "otc_ok s" and "request_known s r"
    and w: "w \<in> set (wallets s)" "acc_id (w_account w) = acc_id (bt_account r)" "w_asset w = or_from r" "w_market w = bt_market r"
  shows "otc_ok s'" and "otc_requests s' = otc_requests s"
proof -
  let ?g = "uuids s"
  let ?t = "opened_trade env r (fresh_id (map ot_id (otc_trades s))) ?g"
  let ?f = "s\<lparr>uuids := Suc (uuids s), otc_trades := otc_trades s @ [?t]\<rparr>"
  from assms(1) obtain p where fresh: "or_id r \<notin> set (map ot_request (otc_trades s))"
    and l: "lock_balance new_pipeline ?g w (get_paying_amount r) Lock_TRADE = Inr p" and e: "execute ?f p = Inr s'"
    and b: "create_otc_body env r w s new_pipeline = Inr (i, ?f, p)"
    by (auto simp: with_pipeline_def create_otc_body_def uuid4_def Let_def result_simps)
  have t: "ot_id ?t = fresh_id (map ot_id (otc_trades s))" "ot_request ?t = or_id r" "ot_group ?t = ?g" "ot_status ?t = OT_PENDING"
    by (simp_all add: opened_trade_def Let_def)
  have lok: "ledger_ok s" using ok by (simp add: otc_ok_def)
  then have "block_ok s new_pipeline" using new_pipeline_inv by (simp add: block_ok_def)
  then have bp: "block_ok ?f p" using b known_row [OF _ w(1)] by (blast intro: creating_otc.keeps)
  note s' = execute_ok(1,2) [OF e bp]
  have "market_db.more s' = market_db.more ?f"
    using execute_more [OF e] by (cases s'; cases s; simp)
  note tab = otc_tables [OF this]
  then show r: "otc_requests s' = otc_requests s" by simp
  have gb: "groups_bounded s" using ok by (simp add: otc_ok_def)
  then have "groups_bounded ?f" using groups_bounded_mono [OF gb] by simp
  moreover have old: "spared (ot_group t) (keys_of s) (locks s) 0 ?f p" if "t \<in> set (otc_trades s)" for t
  proof -
    from that ok have g: "own_group s (ot_group t)" by (simp add: otc_ok_def)
    then have "spared (ot_group t) (keys_of s) (locks s) 0 ?f new_pipeline"
      using groups_bounded_mono [OF gb] by (simp add: spared_def own_group_def new_pipeline_def)
    moreover have "?g \<noteq> ot_group t" using g by (simp add: own_group_def)
    ultimately show ?thesis using ensuresD [OF away_lock l] by (simp add: spared_away)
  qed
  have "otc_backed s' t \<and> own_group s' (ot_group t)" if "t \<in> set (otc_trades s)" for t
  proof -
    note x = spared_execute [OF e bp old [OF that]]
    have "otc_backed s t" using that ok by (simp add: otc_ok_def)
    then have "otc_backed s' t" by (rule otc_backed_moved [OF _ r x(3)]) (use x(1) in \<open>simp_all add: find_lock_def\<close>)
    with x(2) show ?thesis by simp
  qed
  moreover have more: "orders s' = orders s" "stop_losses s' = stop_losses s" "uuids s' = Suc (uuids s)"
    using execute_more [OF e] by (cases s'; cases s; simp)+
  then have "groups_bounded s'" "own_group s' ?g"
    using gb by (auto simp: groups_bounded_def own_group_def less_Suc_eq)
  moreover have "otc_backed s' ?t"
  proof -
    obtain q where q: "List.find (\<lambda>q. or_id q = or_id r) (otc_requests s) = Some q" "acc_id (bt_account q) = acc_id (bt_account r)"
      "or_from q = or_from r" "bt_market q = bt_market r" "get_paying_amount q = get_paying_amount r"
      using assms(3) by (auto simp: request_known_def)
    let ?v = "shift_wallet (dd_get (wallet_balances p) (w_id w)) (dd_get (wallet_locks p) (w_id w)) w"
    have v: "?v \<in> set (wallets s')" using w(1) by (auto simp: s'(2) posted_simps)
    have "\<exists>l. find_lock s' ?g = Some l \<and> lk_wallet l = w_id w \<and> lk_amount l = floor_precision (get_paying_amount r) 8"
      if "check_balance w"
    proof -
      from l that have "p_locks p = [\<lparr>lk_key = ?g, lk_wallet = w_id w, original_amount = floor_precision (get_paying_amount r) 8,
          lk_amount = floor_precision (get_paying_amount r) 8, lk_reason = Lock_TRADE\<rparr>]"
        by (auto simp: lock_balance_def new_lock_def new_pipeline_def bindE_eq_Inr Let_def)
      then have "\<lparr>lk_key = ?g, lk_wallet = w_id w, original_amount = floor_precision (get_paying_amount r) 8,
          lk_amount = floor_precision (get_paying_amount r) 8, lk_reason = Lock_TRADE\<rparr> \<in> set (locks s')"
        by (simp add: s'(2) posted_simps)
      moreover have "distinct (map lk_key (locks s'))" using s'(1) by (simp add: ledger_ok_def rows_ok_def)
      ultimately show ?thesis by (auto dest: find_lock_mem)
    qed
    then show ?thesis unfolding otc_backed_def
      using q v w(2-4) t r by (intro exI [of _ q] exI [of _ ?v]) (auto simp: shift_wallet_def)
  qed
  moreover have "otc_trades s' = otc_trades s @ [?t]" using tab by simp
  moreover have "ot_id ?t \<notin> set (map ot_id (otc_trades s))" using fresh_id_notin [of "map ot_id (otc_trades s)"] t(1) by simp
  moreover have "ot_group ?t \<notin> set (map ot_group (otc_trades s))"
    using ok t(3) by (auto simp: otc_ok_def own_group_def)
  ultimately show "otc_ok s'" using ok s'(1) fresh t(2,3) by (auto simp: otc_ok_def)
qed

end
