(* ===== verification/Otc_Properties.thy ===== *)
theory Otc_Properties
  imports Otc_Backing Price_Properties
begin

text \<open>
  Every request, task and action on direct trades keeps the invariant of \<open>otc_ok\<close>; what a new
  request costs; and a view that lets anyone cancel anyone's trade.
\<close>

section \<open>Single operations\<close>

text \<open>The rows stay: no trade is lost, none changes its request or its lock.\<close>

definition row_keys :: "('z) otc_db_scheme \<Rightarrow> (nat \<times> nat \<times> nat) list" where
  "row_keys s = map (\<lambda>t. (ot_id t, ot_group t, ot_request t)) (otc_trades s)"

definition otc_next :: "('z) otc_db_scheme \<Rightarrow> ('z) otc_db_scheme \<Rightarrow> bool" where
  "otc_next s s' \<longleftrightarrow> otc_ok s' \<and> otc_requests s' = otc_requests s \<and> row_keys s' = row_keys s"

text \<open>A trade read from the tables earlier.\<close>

definition live :: "('z) otc_db_scheme \<Rightarrow> otc_trade \<Rightarrow> bool" where
  "live s t \<longleftrightarrow> (ot_id t, ot_group t, ot_request t) \<in> set (row_keys s)"

lemma otc_next_refl: "otc_ok s \<Longrightarrow> otc_next s s"
  by (simp add: otc_next_def)

lemma otc_next_trans: "otc_next s t \<Longrightarrow> otc_next t u \<Longrightarrow> otc_next s u"
  by (simp add: otc_next_def)

lemma otc_nextD: "otc_next s s' \<Longrightarrow> otc_ok s'"
  by (simp add: otc_next_def)

lemma live_next: "otc_next s s' \<Longrightarrow> live s t \<Longrightarrow> live s' t"
  by (simp add: otc_next_def live_def)

lemma live_row: "t \<in> set (otc_trades s) \<Longrightarrow> live s t"
  by (auto simp: live_def row_keys_def)

lemma otc_next_moves:
  "otc_ok s' \<Longrightarrow> otc_requests s' = otc_requests s \<Longrightarrow> moves st I (otc_trades s) (otc_trades s') \<Longrightarrow> otc_next s s'"
  by (auto simp: otc_next_def row_keys_def moves_def)

lemma live_cases:
  assumes "live s t"
  obtains t0 where "t0 \<in> set (otc_trades s)" "ot_id t0 = ot_id t" "ot_group t0 = ot_group t"
  using assms by (auto simp: live_def row_keys_def)

lemma reject_next:
  assumes "reject_otc b t s = Inr (u, s')" and "otc_ok s" and "live s t"
  shows "otc_next s s'"
  by (rule live_cases [OF assms(3)])
    (rule otc_next_moves [OF rejecting_trade.closes [OF assms(1) [unfolded reject_otc_def] assms(2)]])

lemma fok_next:
  assumes "try_fok_fill n env t r s = Inr (u, s')" and "otc_ok s" and "live s t"
  shows "otc_next s s'"
proof (rule live_cases [OF assms(3)])
  from assms(1) have w: "with_pipeline (fok_fill_body n env t r) s = Inr (u, s')" by (simp add: try_fok_fill_def bindE_eq_Inr)
  fix t0 assume "t0 \<in> set (otc_trades s)" "ot_id t0 = ot_id t" "ot_group t0 = ot_group t"
  from filling_trade.closes [OF w assms(2) this] show ?thesis by (rule otc_next_moves)
qed

lemma hedge_next:
  assumes "hedge_with_provider n env h t r s = Inr (u, s')" and "otc_ok s" and "live s t"
  shows "otc_next s s'"
proof (rule live_cases [OF assms(3)])
  from assms(1) have w: "with_pipeline (hedge_with_provider_body n env h t r) s = Inr (u, s')"
    by (simp add: hedge_with_provider_def bindE_eq_Inr)
  fix t0 assume "t0 \<in> set (otc_trades s)" "ot_id t0 = ot_id t" "ot_group t0 = ot_group t"
  from hedging_trade.closes [OF w assms(2) this] show ?thesis by (rule otc_next_moves)
qed

lemma reject_and_raise_next: "otc_ok s \<Longrightarrow> live s t \<Longrightarrow> otc_next s (fst (reject_and_raise t e s))"
  unfolding reject_and_raise_def
  by (rule next_attempt [where P = "otc_next s"]) (auto intro: otc_next_refl reject_next)

lemma execute_next:
  assumes "otc_ok s"
  shows "otc_next s (fst (execute_trade n env i s))"
  unfolding execute_trade_def
proof (rule next_look [where P = "otc_next s"], goal_cases)
  case (2 t)
  then have "live s t" by (auto simp: otc_trade_row_def dest!: find_SomeD intro: live_row)
  then have r: "otc_next s (fst (reject_and_raise t e s))" for e by (rule reject_and_raise_next [OF assms])
  show ?case
  proof (rule next_look [where P = "otc_next s"], goal_cases)
    case (2 r)
    show ?case
      using r fok_next [OF _ assms \<open>live s t\<close>] hedge_next [OF _ assms \<open>live s t\<close>] otc_next_refl [OF assms]
      by (auto split: sum.split prod.split)
  qed (rule otc_next_refl [OF assms])
qed (rule otc_next_refl [OF assms])

lemma each_outcome_inv:
  assumes "P s" and "\<And>x s. x \<in> set xs \<Longrightarrow> P s \<Longrightarrow> P (fst (f x s))"
  shows "P (fst (each_outcome f xs s))"
  using assms
proof (induction xs arbitrary: s)
  case (Cons x xs)
  show ?case
    unfolding each_outcome.simps
  proof (rule next_step_invariant)
    show "P (fst (f x s))" using Cons.prems by simp
    fix a t assume "P t"
    then show "P (fst (each_outcome f xs t))" by (rule Cons.IH) (simp add: Cons.prems(2))
  qed
qed simp

lemma each_next:
  assumes "otc_ok s" and "\<And>x t. x \<in> set xs \<Longrightarrow> otc_next s t \<Longrightarrow> otc_next t (fst (f x t))"
  shows "otc_next s (fst (each_outcome f xs s))"
  by (rule each_outcome_inv [where P = "otc_next s"]) (auto intro: otc_next_refl [OF assms(1)] otc_next_trans assms(2))

lemma trigger_one_next: "otc_ok s \<Longrightarrow> otc_next s (fst (trigger_one n env tr s))"
  unfolding trigger_one_def
  by (rule next_look [where P = "otc_next s"])
    (auto intro!: next_step_invariant [where P = "otc_next s"] execute_next intro: otc_next_refl)

lemma trigger_pair_next: "otc_ok s \<Longrightarrow> otc_next s (fst (trigger_pair n env yd s))"
  unfolding trigger_pair_def handle_trigger_price_def
  by (rule next_look [where P = "otc_next s"]) (auto intro!: each_next trigger_one_next intro: otc_next_refl otc_nextD)

lemma limit_task_ok: "otc_ok s \<Longrightarrow> otc_ok (handle_limit_otc_request n env s)"
  unfolding handle_limit_otc_request_def
  by (rule next_attempt [where P = otc_ok])
    (auto intro!: otc_nextD [OF each_next] trigger_pair_next intro: handle_expired_ok otc_nextD)

lemma pending_task_ok:
  assumes "otc_ok s"
  shows "otc_ok (accept_pending_otc_trades n env s)"
proof -
  have one: "otc_next s (retry_hedge n env t u)" if u: "otc_next s u" and t: "live s t" for t u
    unfolding retry_hedge_def
  proof (rule next_look [where P = "otc_next s", OF u], rule attempt_invariant [where P = "otc_next s", OF u])
    fix r a s' assume "hedge_with_provider n env True t r u = Inr (a, s')"
    from hedge_next [OF this otc_nextD [OF u] live_next [OF u t]] show "otc_next s s'" by (rule otc_next_trans [OF u])
  qed
  have "otc_next s (fold (retry_hedge n env) ts u)" if "otc_next s u" "\<forall>t\<in>set ts. live s t" for ts u
    using that by (induction ts arbitrary: u) (auto intro: one)
  note all = this [OF otc_next_refl [OF assms]]
  have "otc_next s (accept_pending_otc_trades n env s)"
    unfolding accept_pending_otc_trades_def by (rule all) (auto intro: live_row)
  then show ?thesis by (rule otc_nextD)
qed

lemma cancel_limit_ok:
  assumes "otc_ok s"
  shows "otc_ok (fst (cancel_limit_otc a i s))"
  unfolding cancel_limit_otc_def
proof (rule next_look [where P = otc_ok, OF assms])
  fix tr assume "the_or ValidationErr (List.find (\<lambda>(t, r). ot_id t = i) (untriggered s)) = Inr tr"
  then have "tr \<in> set (untriggered s)" by (auto dest: find_SomeD)
  then have "live s (fst tr)" by (auto simp: untriggered_def List.map_filter_def intro: live_row)
  then show "otc_ok (fst (case reject_otc True (fst tr) s of Inl e \<Rightarrow> (s, Inl ValidationErr) | Inr (x, s) \<Rightarrow> (s, Inr ())))"
    using assms reject_next [OF _ assms] by (auto split: sum.split intro: otc_nextD)
qed

lemma act_next:
  assumes "act_on_trade n env action t s = Inr (a, s')" and "action \<noteq> Revert_trade" and "otc_ok s" and "live s t"
  shows "otc_next s s'"
proof -
  from assms(1) obtain r where r: "(case action of Accept_trade \<Rightarrow> hedge_with_provider n env True t r s
     | Accept_without_hedge \<Rightarrow> hedge_with_provider n env False t r s
     | Cancel_trade \<Rightarrow> reject_otc False t s
     | Revert_trade \<Rightarrow> revert_otc t s) = Inr (a, s')" unfolding act_on_trade_def bindE_eq_Inr by blast
  show ?thesis
  proof (cases action)
    case Accept_trade
    from r [unfolded this otc_action.case] assms(3,4) show ?thesis by (rule hedge_next)
  next
    case Accept_without_hedge
    from r [unfolded this otc_action.case] assms(3,4) show ?thesis by (rule hedge_next)
  next
    case Cancel_trade
    from r [unfolded this otc_action.case] assms(3,4) show ?thesis by (rule reject_next)
  qed (use assms(2) in simp)
qed

lemma panel_ok:
  assumes "otc_ok s"
  shows "otc_ok (fst (otc_panel n env action ids s))"
proof (cases "action = Revert_trade")
  case False
  have "otc_next s (fst (otc_panel n env action ids s))"
    unfolding otc_panel_def
  proof (rule each_next [OF assms])
    fix t u assume t: "t \<in> set (filter (\<lambda>t. ot_id t \<in> set ids \<and> ot_status t = (if action = Revert_trade then OT_DONE else OT_PENDING))
        (otc_trades s))" and u: "otc_next s u"
    then have l: "live u t" by (auto intro: live_next live_row)
    show "otc_next u (fst (attempt u (act_on_trade n env action t u)))"
      by (rule attempt_invariant) (use act_next [OF _ False _ l] otc_nextD [OF u] in \<open>auto intro: otc_next_refl\<close>)
  qed
  then show ?thesis by (rule otc_nextD)
next
  case True
  let ?ts = "filter (\<lambda>t. ot_id t \<in> set ids \<and> ot_status t = OT_DONE) (otc_trades s)"
  let ?P = "\<lambda>u. otc_ok u \<and> (\<forall>t\<in>set ?ts. \<exists>v\<in>set (otc_trades u). ot_id v = ot_id t \<and> ot_status v \<noteq> OT_PENDING)"
  have "?P (fst (each_outcome (\<lambda>t u. attempt u (act_on_trade n env action t u)) ?ts s))"
  proof (rule each_outcome_inv [where P = ?P])
    show "?P s" using assms by force
    fix t u assume t: "t \<in> set ?ts" and u: "?P u"
    show "?P (fst (attempt u (act_on_trade n env action t u)))"
    proof (rule attempt_invariant [where P = ?P, OF u])
      fix a s' assume "act_on_trade n env action t u = Inr (a, s')"
      with True have r: "revert_otc t u = Inr (a, s')" by (auto simp: act_on_trade_def bindE_eq_Inr)
      from t u obtain v where v: "v \<in> set (otc_trades u)" "ot_id v = ot_id t" "ot_status v \<noteq> OT_PENDING" by blast
      note x = revert_otc_ok [OF r conjunct1 [OF u] v]
      have "\<exists>w\<in>set (otc_trades s'). ot_id w = ot_id t' \<and> ot_status w \<noteq> OT_PENDING" if t': "t' \<in> set ?ts" for t'
      proof -
        from t' u obtain v where v: "v \<in> set (otc_trades u)" "ot_id v = ot_id t'" "ot_status v \<noteq> OT_PENDING" by blast
        from x(3) obtain f where "otc_trades s' = map f (otc_trades u)"
          "ot_id (f v) = ot_id v" "ot_status (f v) = (if ot_id v \<in> {ot_id t} then OT_REVERT else ot_status v)"
          by (auto simp: moves_def)
        with v show ?thesis by (intro bexI [of _ "f v"]) (auto split: if_splits)
      qed
      with x(1) show "?P s'" by blast
    qed
  qed
  with True show ?thesis by (simp add: otc_panel_def)
qed

section \<open>New requests and trades\<close>

lemma otc_more_requests:
  fixes s s' :: "('z) otc_db_scheme"
  assumes "otc_ok s" and "ledger_ok s'" and "otc_requests s' = otc_requests s @ rs" and "wallets s' = wallets s" and "locks s' = locks s"
    and "otc_trades s' = otc_trades s" and "orders s' = orders s" and "stop_losses s' = stop_losses s" and "uuids s' = uuids s"
  shows "otc_ok s'"
proof -
  have "otc_backed s' t" if "otc_backed s t" for t
  proof -
    from that obtain r w where "List.find (\<lambda>r. or_id r = ot_request t) (otc_requests s) = Some r" "w \<in> set (wallets s)"
      "acc_id (w_account w) = acc_id (bt_account r)" "w_asset w = or_from r" "w_market w = bt_market r"
      "check_balance w \<longrightarrow> (\<exists>l. find_lock s (ot_group t) = Some l \<and> lk_wallet l = w_id w
           \<and> lk_amount l = (if ot_status t = OT_PENDING then floor_precision (get_paying_amount r) 8 else 0))"
      by (auto simp: otc_backed_def)
    then show ?thesis unfolding otc_backed_def find_lock_def assms(3-5)
      by (intro exI [of _ r] exI [of _ w]) (simp add: find_append)
  qed
  with assms show ?thesis by (simp add: otc_ok_def groups_bounded_def own_group_def)
qed

lemma new_trade_cases:
  assumes "new_trade env a m x y ty fa ta g price s = (s', res)"
  obtains (refused) e where "s' = s" "res = Inl e"
  | (unpaid) w e where "get_wallet s x a m None None = (w, s')" "res = Inl e"
  | (unsaved) w s1 e where "get_wallet s x a m None None = (w, s1)" "s' = s1\<lparr>uuids := Suc (uuids s1)\<rparr>" "res = Inl e"
  | (made) r w s1 coin r' where "get_otc_request env a x y ty fa ta m g price s = Inr r" "check_value r = Inr ()"
      "get_wallet s x a m None None = (w, s1)" "has_balance w (get_paying_amount r) True True 0 = Inr True"
      "asset_get s1 (sy_asset (bt_symbol r)) = Inr coin" "otc_side_open coin (bt_side r)"
      "r' = r\<lparr>or_token := uuids s1, or_id := fresh_id (map or_id (otc_requests s1))\<rparr>"
      "s' = s1\<lparr>uuids := Suc (uuids s1), otc_requests := otc_requests s1 @ [r']\<rparr>" "res = Inr r'"
      "request_amounts_ok r'"
proof (cases "assertE ((given fa \<or> given ta) \<and> 0 < first_amount fa ta)")
  case ok1: (Inr a1)
  show ?thesis
  proof (cases "get_otc_request env a x y ty fa ta m g price s")
    case ok2: (Inr r)
    obtain w s1 where w: "get_wallet s x a m None None = (w, s1)" by fastforce
    show ?thesis
    proof (cases "check_value r")
      case ok3: (Inr a3)
      show ?thesis
      proof (cases "has_balance w (get_paying_amount r) True True 0")
        case ok4: (Inr b)
        show ?thesis
        proof (cases "asset_get s1 (sy_asset (bt_symbol r))")
          case ok5: (Inr coin)
          let ?q = "r\<lparr>or_token := uuids s1, or_id := fresh_id (map or_id (otc_requests s1))\<rparr>"
          have u: "(s', res) = (if otc_side_open coin (bt_side r)
              then attempt (s1\<lparr>uuids := Suc (uuids s1)\<rparr>) (save_otc_request (r\<lparr>or_token := uuids s1\<rparr>) (s1\<lparr>uuids := Suc (uuids s1)\<rparr>))
              else (s1, Inl ValidationErr))"
            using assms ok1 ok2 ok3 w ok4 ok5
            by (cases "otc_side_open coin (bt_side r)") (simp_all add: new_trade_def uuid4_def guardE_def)
          consider (no) e where "s' = s1" "res = Inl e"
            | (bad) e where "s' = s1\<lparr>uuids := Suc (uuids s1)\<rparr>" "res = Inl e"
            | (good) "otc_side_open coin (bt_side r)" "res = Inr ?q" "request_amounts_ok ?q"
                "s' = s1\<lparr>uuids := Suc (uuids s1), otc_requests := otc_requests s1 @ [?q]\<rparr>"
          proof (cases "otc_side_open coin (bt_side r)")
            case True
            show thesis
            proof (cases "request_amounts_ok ?q")
              case True
              with \<open>otc_side_open coin (bt_side r)\<close> u show thesis
                by (intro good) (simp_all add: save_otc_request_def guardE_def Let_def)
            next
              case False
              with \<open>otc_side_open coin (bt_side r)\<close> u show thesis
                by (intro bad) (simp_all add: save_otc_request_def guardE_def Let_def)
            qed
          next
            case False
            with u show thesis by (intro no) simp_all
          qed
          then show ?thesis
          proof cases
            case good
            have "b" using ok4 by (auto simp: has_balance_def result_simps Let_def split: if_splits)
            with ok4 have h: "has_balance w (get_paying_amount r) True True 0 = Inr True" by simp
            from ok3 have c: "check_value r = Inr ()" by simp
            show ?thesis by (rule made [OF ok2 c w h ok5 good(1) refl good(4,2,3)])
          next
            case no
            with w show ?thesis by (intro unpaid) simp_all
          next
            case bad
            with w show ?thesis by (intro unsaved) simp_all
          qed
        next
          case (Inl e)
          with assms ok1 ok2 ok3 ok4 w have "s' = s1" "res = Inl e" by (simp_all add: new_trade_def)
          with w show ?thesis by (intro unpaid) simp_all
        qed
      next
        case (Inl e)
        with assms ok1 ok2 ok3 w have "s' = s1" "res = Inl e" by (simp_all add: new_trade_def)
        with w show ?thesis by (intro unpaid) simp_all
      qed
    next
      case (Inl e)
      with assms ok1 ok2 have "s' = s" "res = Inl e" by (simp_all add: new_trade_def)
      then show ?thesis by (rule refused)
    qed
  next
    case (Inl e)
    with assms ok1 have "s' = s" "res = Inl e" by (simp_all add: new_trade_def)
    then show ?thesis by (rule refused)
  qed
next
  case (Inl e)
  with assms have "s' = s" "res = Inl e" by (simp_all add: new_trade_def)
  then show ?thesis by (rule refused)
qed

lemma new_trade_ok:
  assumes "new_trade env a m x y ty fa ta g price s = (s', res)" and "otc_ok s"
  shows "otc_ok s'" and "res = Inr r \<Longrightarrow> request_known s' r"
proof -
  have "otc_ok s' \<and> (\<forall>r. res = Inr r \<longrightarrow> request_known s' r)"
    using assms(1)
  proof (cases rule: new_trade_cases)
    case (unpaid w e)
    with otc_wallet(1) [OF unpaid(1) assms(2)] show ?thesis by simp
  next
    case (unsaved w s1 e)
    note ok = otc_wallet(1) [OF unsaved(1) assms(2)]
    have "otc_ok s'" by (rule otc_ok_mono [OF ok]) (use ok unsaved(2) in \<open>simp_all add: otc_ok_def\<close>)
    with unsaved(3) show ?thesis by simp
  next
    case (made r w s1 coin r')
    note ok = otc_wallet(1) [OF made(3) assms(2)]
    let ?s = "s1\<lparr>uuids := Suc (uuids s1)\<rparr>"
    have s: "otc_ok ?s" by (rule otc_ok_mono [OF ok]) (use ok in \<open>simp_all add: otc_ok_def\<close>)
    then have "ledger_ok s'" using made(8) by (simp add: otc_ok_def)
    then have "otc_ok s'" by (rule otc_more_requests [OF s, where rs = "[r']"]) (simp_all add: made(8))
    moreover have "or_id r' \<notin> set (map or_id (otc_requests s1))" using fresh_id_notin [of "map or_id (otc_requests s1)"] by (simp add: made(7))
    then have "List.find (\<lambda>q. or_id q = or_id r') (otc_requests s1) = None" by (auto simp: find_None_iff image_iff)
    then have "request_known s' r'" unfolding request_known_def made(8)
      by (intro exI [of _ r']) (simp add: find_append)
    ultimately show ?thesis using made(9) by simp
  qed (use assms(2) in simp)
  then show "otc_ok s'" "res = Inr r \<Longrightarrow> request_known s' r" by blast+
qed

lemma handle_otc_request_ok:
  assumes "otc_ok s" and "request_known s r"
  shows "otc_ok (fst (handle_otc_request n env r s))"
proof -
  obtain w s1 where w: "get_wallet s (or_from r) (bt_account r) (bt_market r) None None = (w, s1)" by fastforce
  note o = otc_wallet [OF w assms(1)]
  have known: "request_known s1 r" using assms(2) o(7) by (simp add: request_known_def)
  have "otc_ok (fst (next_step (look s1 (has_balance w (get_paying_amount r) True False 0)) (\<lambda>_ s.
      next_step (attempt s (with_pipeline (create_otc_body env r w) s)) (\<lambda>i s.
      if or_type r = LIMIT then (s, Inr i) else execute_trade n env i s))))"
  proof (rule next_look [where P = otc_ok, OF o(1)], rule next_attempt [where P = otc_ok, OF o(1)])
    fix b i s2 assume "with_pipeline (create_otc_body env r w) s1 = Inr (i, s2)"
    note k = create_otc_ok(1) [OF this o(1) known o(2-5)]
    show "otc_ok (fst (if or_type r = LIMIT then (s2, Inr i) else execute_trade n env i s2))"
      using k otc_nextD [OF execute_next [OF k, of n env i]] by simp
  qed
  then show ?thesis by (simp add: handle_otc_request_def w)
qed

lemma request_row_known:
  assumes "otc_request_row s i = Inr r"
  shows "request_known s r"
proof -
  from assms obtain q y a where q: "List.find (\<lambda>r. or_id r = i) (otc_requests s) = Some q"
    and y: "symbol_row s (sy_name (bt_symbol q)) = Inr y" and a: "find_account s (acc_id (bt_account q)) = Inr a"
    and r: "r = q\<lparr>bt_symbol := y, bt_account := a\<rparr>"
    by (auto simp: otc_request_row_def result_simps)
  have "acc_id a = acc_id (bt_account q)" using a by (auto simp: find_account_def dest: find_SomeD)
  moreover have "or_id q = i" using q by (auto dest: find_SomeD)
  ultimately show ?thesis using q r by (auto simp: request_known_def get_paying_amount_def)
qed

lemma to_validation_fst [simp]: "fst (to_validation refused o') = fst o'"
  by (auto simp: to_validation_def split: prod.split sum.split)

lemma create_otc_trade_ok: "otc_ok s \<Longrightarrow> otc_ok (fst (create_otc_trade n env a token s))"
  unfolding create_otc_trade_def
  by (rule next_look [where P = otc_ok], assumption, rule next_look [where P = otc_ok], assumption)
    (auto split: option.split intro!: next_look [where P = otc_ok] handle_otc_request_ok intro: request_row_known)

lemma create_otc_request_ok: "otc_ok s \<Longrightarrow> otc_ok (fst (create_otc_request env a staff inp s))"
  unfolding create_otc_request_def
  by (rule next_look [where P = otc_ok], assumption, rule next_look [where P = otc_ok], assumption)
    (simp add: Let_def, metis new_trade_ok(1) prod.collapse)

lemma save_fast_buy_ok [simp]: "otc_ok (save_fast_buy i f s) = otc_ok s"
  "request_known (save_fast_buy i f s) r = request_known s r"
  by (simp_all add: save_fast_buy_def otc_ok_def otc_backed_def groups_bounded_def own_group_def find_lock_def request_known_def)

lemma fast_buy_ok:
  assumes "otc_ok s"
  shows "otc_ok (fst (create_otc_for_fast_buy_token n env b x paid s))"
proof (cases paid)
  case True
  let ?s = "save_fast_buy (fb_id b) (\<lambda>b. b\<lparr>fb_status := FB_DEPOSIT\<rparr>) s"
  obtain s1 res where t: "new_trade env (fb_account b) SPOT ''IRT'' (fb_asset b) MARKET (Some x) None None None ?s = (s1, res)" by fastforce
  note ok = new_trade_ok [OF t]
  show ?thesis
  proof (cases res)
    case (Inl e)
    with True t ok(1) assms show ?thesis by (simp add: create_otc_for_fast_buy_token_def Let_def)
  next
    case (Inr r)
    let ?t = "save_fast_buy (fb_id b) (\<lambda>b. b\<lparr>fb_request := Some (or_id r)\<rparr>) s1"
    obtain s2 res2 where h: "handle_otc_request n env r ?t = (s2, res2)" by fastforce
    have "otc_ok s2" using handle_otc_request_ok [of ?t r n env] ok assms Inr h by simp
    with True t Inr h show ?thesis by (cases res2) (simp_all add: create_otc_for_fast_buy_token_def Let_def)
  qed
qed (use assms in \<open>simp add: create_otc_for_fast_buy_token_def Let_def\<close>)

section \<open>Runs\<close>

inductive otc_step :: "('z) otc_db_scheme \<Rightarrow> ('z) otc_db_scheme \<Rightarrow> bool" where
  request: "otc_step s (fst (create_otc_request (env :: otc_env) a staff inp s))"
| trade: "otc_step s (fst (create_otc_trade n (env :: otc_env) a token s))"
| cancel: "otc_step s (fst (cancel_limit_otc a i s))"
| panel: "otc_step s (fst (otc_panel n (env :: otc_env) action ids s))"
| limits: "otc_step s (handle_limit_otc_request n (env :: otc_env) s)"
| retries: "otc_step s (accept_pending_otc_trades n (env :: otc_env) s)"
| fast_buy: "otc_step s (fst (create_otc_for_fast_buy_token n (env :: otc_env) b x paid s))"

inductive otc_run :: "('z) otc_db_scheme \<Rightarrow> ('z) otc_db_scheme \<Rightarrow> bool" where
  start: "otc_run s s"
| more: "otc_run s t \<Longrightarrow> otc_step t u \<Longrightarrow> otc_run s u"

lemma otc_step_ok: "otc_step s t \<Longrightarrow> otc_ok s \<Longrightarrow> otc_ok t"
  by (induction rule: otc_step.induct)
    (simp_all add: create_otc_request_ok create_otc_trade_ok cancel_limit_ok panel_ok limit_task_ok pending_task_ok fast_buy_ok)

lemma otc_run_ok: "otc_run s t \<Longrightarrow> otc_ok s \<Longrightarrow> otc_ok t"
  by (induction rule: otc_run.induct) (auto intro: otc_step_ok)

section \<open>Runs of the desk\<close>

text \<open>
  C9. Whatever is asked, accepted, cancelled, retried or reverted on direct trades, in any order and
  with any answers of the provider: a pending trade has exactly what it pays locked in the payer's
  wallet and a closed one nothing, no request is traded twice, and the ledger stays balanced.
\<close>

theorem otc_trades_backed:
  assumes "otc_run s s'" and "otc_ok s"
  shows "(\<forall>t\<in>set (otc_trades s'). otc_backed s' t) \<and> distinct (map ot_request (otc_trades s'))
    \<and> ledger_ok s' \<and> total_of s' asset = 0"
proof -
  from otc_run_ok [OF assms] have "otc_ok s'" .
  then show ?thesis using total_of_zero [of s'] by (simp add: otc_ok_def)
qed

text \<open>
  C10. A waiting trade can always be cancelled: nothing on the way fails, whatever happened to the
  wallets since, the trade is closed and exactly what it pays is free again.
\<close>

theorem otc_cancel_succeeds:
  assumes "otc_ok s" and "(t, r) \<in> set (untriggered s)"
  shows "\<exists>s'. cancel_limit_otc a (ot_id t) s = (s', Inr ()) \<and> otc_ok s' \<and> t\<lparr>ot_status := OT_USER_CANCELED\<rparr> \<in> set (otc_trades s')
    \<and> (\<exists>w\<in>set (wallets s). acc_id (w_account w) = acc_id (bt_account r) \<and> w_asset w = or_from r
         \<and> (check_balance w \<longrightarrow> w\<lparr>locked := locked w - floor_precision (get_paying_amount r) 8\<rparr> \<in> set (wallets s')))"
proof -
  from assms(2) have t: "t \<in> set (otc_trades s)" "ot_status t = OT_PENDING"
    and fr: "List.find (\<lambda>r. or_id r = ot_request t) (otc_requests s) = Some r"
    by (auto simp: untriggered_def List.map_filter_def)
  have live: "own_group s (ot_group t)" "otc_backed s t" using assms(1) t(1) by (simp_all add: otc_ok_def)
  have fnd: "List.find (\<lambda>(u, r). ot_id u = ot_id t) (untriggered s) = Some (t, r)"
  proof (cases "List.find (\<lambda>(u, r). ot_id u = ot_id t) (untriggered s)")
    case None
    with assms(2) show ?thesis by (auto simp: find_None_iff')
  next
    case (Some ur)
    from find_SomeD [OF this] obtain u q where u: "ur = (u, q)" "u \<in> set (otc_trades s)" "ot_id u = ot_id t"
      "List.find (\<lambda>r. or_id r = ot_request u) (otc_requests s) = Some q"
      by (auto simp: untriggered_def List.map_filter_def)
    with otc_rows_unique(1) [OF assms(1) t(1) u(2)] fr Some show ?thesis by simp
  qed
  have ok: "ledger_ok s" using assms(1) by (simp add: otc_ok_def)
  then have dk: "distinct (map lk_key (locks s))" by (simp add: ledger_ok_def rows_ok_def)
  let ?s = "save_otc s (ot_id t) (\<lambda>t. t\<lparr>ot_status := OT_USER_CANCELED\<rparr>)"
  obtain q where q: "release_lock s new_pipeline (ot_group t) None = Inr q" "p_locks q = []" "p_trxs q = []"
    "\<And>j. dd_get (locks_amount q) j = (if j = ot_group t then (case find_lock s j of Some l \<Rightarrow> - lk_amount l | None \<Rightarrow> 0) else 0)"
    using release_full [of new_pipeline s "ot_group t"] by (auto simp: new_pipeline_def split: option.splits)
  have body: "reject_otc_body True t s new_pipeline = Inr ((), ?s, q)" using q(1) by (simp add: reject_otc_body_def)
  have "block_ok s new_pipeline" using ok new_pipeline_inv by (simp add: block_ok_def)
  then have bo: "block_ok ?s q" using body by (rule rejecting_trade.keeps)
  have "dd_get (locks_amount q) (lk_key l) \<in> {0, - lk_amount l}" if "l \<in> set (locks ?s)" for l
    using find_lock_mem [OF dk, of l] that by (auto simp: q(4) save_otc_def)
  note ex = emptying_postable [OF _ bo q(2,3) this]
  have e: "execute ?s q = Inr (posted ?s q)" by (rule ex(1)) (use bo in \<open>simp add: block_ok_def\<close>)
  then have run: "cancel_limit_otc a (ot_id t) s = (posted ?s q, Inr ())"
    by (simp add: cancel_limit_otc_def fnd reject_otc_def with_pipeline_def body)
  have ok': "otc_ok (posted ?s q)" using cancel_limit_ok [OF assms(1), of a "ot_id t"] by (simp add: run)
  from live(2) fr obtain w where w: "w \<in> set (wallets s)" "acc_id (w_account w) = acc_id (bt_account r)" "w_asset w = or_from r"
    and l: "check_balance w \<Longrightarrow> \<exists>l. find_lock s (ot_group t) = Some l \<and> lk_wallet l = w_id w
         \<and> lk_amount l = floor_precision (get_paying_amount r) 8"
    by (auto simp: otc_backed_def t(2))
  have "w\<lparr>locked := locked w - floor_precision (get_paying_amount r) 8\<rparr> \<in> set (wallets (posted ?s q))" if "check_balance w"
  proof -
    from l [OF that] have "dd_get (wallet_locks q) (w_id w) = - floor_precision (get_paying_amount r) 8"
      using q(1) by (auto simp: release_lock_def new_pipeline_def Let_def)
    moreover have "dd_get (wallet_balances q) (w_id w) = 0" by (rule ex(2)) (use bo in \<open>simp add: block_ok_def\<close>)
    ultimately have "w\<lparr>locked := locked w - floor_precision (get_paying_amount r) 8\<rparr>
        = shift_wallet (dd_get (wallet_balances q) (w_id w)) (dd_get (wallet_locks q) (w_id w)) w"
      by (simp add: shift_wallet_def)
    with w(1) show ?thesis by (simp add: posted_simps save_otc_def)
  qed
  moreover have "t\<lparr>ot_status := OT_USER_CANCELED\<rparr> \<in> set (otc_trades (posted ?s q))"
    using t(1) by (force simp: posted_def save_otc_def)
  ultimately show ?thesis using run ok' w by blast
qed

lemma otc_price_parts:
  assumes "otc_price env s pair z ty price = Inr (c, p)"
  shows "coin_amount_at pair z p = Inr c"
    and "if ty = MARKET then \<exists>q. get_depth_price env s (sy_name z) (get_other_side (pr_side pair)) q True = Inr p else price = Some p"
  using assms by (auto simp: otc_price_def bindE_eq_Inr Let_def the_or_def split: if_splits option.splits)

lemma bought_amount:
  assumes "coin_amount_at pair z p = Inr c" and "0 < c" and "0 < p"
  shows "case (pr_coin_amount pair, pr_base_amount pair) of
         (Some d, _) \<Rightarrow> c = d
       | (None, Some b) \<Rightarrow> c * p \<le> b \<and> b < (c + step_of (int (step_size z))) * p
       | _ \<Rightarrow> False"
proof (cases "pr_coin_amount pair")
  case None
  with assms(1,3) obtain b where b: "pr_base_amount pair = Some b" "c = floor_precision (b / p) (int (step_size z))"
    by (auto simp: coin_amount_at_def result_simps divide_by_def the_or_def split: option.splits)
  have "0 \<le> b / p"
  proof (rule ccontr)
    assume "\<not> 0 \<le> b / p"
    then have "0 \<le> floor_precision (- (b / p)) (int (step_size z))" by (intro floor_precision_nonneg) simp
    with b(2) assms(2) show False by (simp only: floor_precision_minus)
  qed
  from floor_precision_le [OF this] floor_precision_gt [OF this] assms(3) None b show ?thesis
    by (simp add: pos_le_divide_eq pos_divide_less_eq)
qed (use assms(1) in \<open>simp add: coin_amount_at_def\<close>)


section \<open>A small desk for direct trades\<close>

text \<open>Alice asks to buy 2 BTC at 100 USDT each and accepts; the trade waits for its price.\<close>

definition otc_sample_env :: otc_env where
  "otc_sample_env = transfer_env.extend (price_env.extend price_sample_env
     \<lparr>withdraw_status = ALLOW, deposit_status = ALLOW, default_max_allowed_coin_network_daily_deposit_value = 0,
      fiat_daily_auto_verify_limit = 0, network_arch = id, created_wallet = (\<lambda>_ a. (a, None))\<rparr>)
     \<lparr>enable_otc_limit = True, hedging_off = True, market_info_of = (\<lambda>_ _. Inl NotImplementedErr),
      spot_balance_of = (\<lambda>_. Inl NotImplementedErr), busd_balance = Inl NotImplementedErr,
      accepts_order = (\<lambda>_. Inl NotImplementedErr)\<rparr>"

definition otc_sample :: otc_db where
  "otc_sample = desk_db.extend (transfer_db.extend (price_db.extend price_sample
       \<lparr>networks = [], network_assets = [], address_keys = [], deposit_addresses = [], transfers = [], users = [], payments = [],
        login_devices = []\<rparr>) \<lparr>recoveries = [], manual_transactions = []\<rparr>) \<lparr>otc_requests = [], otc_trades = [], fast_buys = []\<rparr>"

definition limit_input :: otc_input where
  "limit_input = \<lparr>oi_from = ''USDT'', oi_to = ''BTC'', oi_from_amount = None, oi_to_amount = Some 2, oi_gtd = Some H1,
     oi_type = Some LIMIT, oi_price = Some 100\<rparr>"

definition otc_asked :: otc_db where
  "otc_asked = fst (create_otc_request otc_sample_env alice True limit_input otc_sample)"

definition otc_waiting :: otc_db where
  "otc_waiting = fst (create_otc_trade 1 otc_sample_env alice 200 otc_asked)"

lemma otc_backed_code [code]:
  "otc_backed s t \<longleftrightarrow> (case List.find (\<lambda>r. or_id r = ot_request t) (otc_requests s) of None \<Rightarrow> False
     | Some r \<Rightarrow> \<exists>w\<in>set (wallets s). acc_id (w_account w) = acc_id (bt_account r) \<and> w_asset w = or_from r
         \<and> w_market w = bt_market r \<and> (check_balance w \<longrightarrow> (case find_lock s (ot_group t) of None \<Rightarrow> False
            | Some l \<Rightarrow> lk_wallet l = w_id w
                \<and> lk_amount l = (if ot_status t = OT_PENDING then floor_precision (get_paying_amount r) 8 else 0))))"
  by (cases "List.find (\<lambda>r. or_id r = ot_request t) (otc_requests s)"; cases "find_lock s (ot_group t)")
    (simp_all add: otc_backed_def Bex_def split del: if_split)

lemma otc_sample_ok: "otc_ok otc_sample"
  by code_simp

lemma otc_waiting_reached: "otc_run otc_sample otc_waiting"
  unfolding otc_waiting_def otc_asked_def by (rule more [OF more [OF start]]) (rule otc_step.intros)+

lemma otc_waiting_trade:
  "map (\<lambda>t. (ot_id t, ot_status t, ot_group t)) (otc_trades otc_waiting) = [(1, OT_PENDING, 201)]"
  by code_simp

theorem otc_trades_backed_witness:
  "\<exists>t. otc_trades otc_waiting = [t] \<and> ot_status t = OT_PENDING \<and> otc_backed otc_waiting t \<and> total_of otc_waiting ''USDT'' = 0"
proof -
  from otc_waiting_trade obtain t where "otc_trades otc_waiting = [t]" "ot_status t = OT_PENDING"
    by (auto simp: map_eq_Cons_conv)
  with otc_trades_backed [OF otc_waiting_reached otc_sample_ok] show ?thesis by simp
qed

lemma otc_waiting_ok: "otc_ok otc_waiting"
  by (rule otc_run_ok [OF otc_waiting_reached otc_sample_ok])

lemma otc_waiting_untriggered:
  "case untriggered otc_waiting of [(t, r)] \<Rightarrow> ot_id t = 1 \<and> acc_id (bt_account r) = 10 | _ \<Rightarrow> False"
  by code_simp

lemma otc_waiting_pair:
  obtains t r where "(t, r) \<in> set (untriggered otc_waiting)" "ot_id t = 1" "acc_id (bt_account r) = 10"
  using otc_waiting_untriggered by (auto simp: neq_Nil_conv split: list.splits)

theorem otc_cancel_succeeds_witness:
  "\<exists>s'. cancel_limit_otc alice 1 otc_waiting = (s', Inr ()) \<and> otc_ok s' \<and> (\<exists>t\<in>set (otc_trades s'). ot_status t = OT_USER_CANCELED)"
proof -
  obtain t r where t: "(t, r) \<in> set (untriggered otc_waiting)" "ot_id t = 1" by (rule otc_waiting_pair)
  from otc_cancel_succeeds [OF otc_waiting_ok t(1), of alice] t(2) show ?thesis by force
qed



end
