(* ===== verification/Validators.thy ===== *)
theory Validators
  imports Decimal_Text
begin

text \<open>
  What a text must look like to be an IBAN, the number of a card, a national code of a person or a
  company or a phone number (\<^verbatim>\<open>financial/validators.py\<close>, \<^verbatim>\<open>accounts/validators.py\<close>), the banks behind
  the first two (\<^verbatim>\<open>financial/utils/bank.py\<close>), and which typing errors the check digits catch.
\<close>

section \<open>Digits\<close>

definition digit :: "char \<Rightarrow> int" where
  "digit c = (case digit_val c of Some d \<Rightarrow> int d | None \<Rightarrow> 0)"

definition all_digits :: "string \<Rightarrow> bool" where
  "all_digits s \<longleftrightarrow> list_all is_digit s"

definition newline :: char where "newline = CHR 0x0A"

text \<open>
  \<^verbatim>\<open>re.match(r'^...$', s)\<close> of a pattern of fixed length: \<^verbatim>\<open>$\<close> also matches before a newline at the
  end. The newline then fails in the conversion to a number.
\<close>

definition fullmatch :: "(string \<Rightarrow> bool) \<Rightarrow> string \<Rightarrow> bool" where
  "fullmatch pattern s \<longleftrightarrow> pattern s \<or> (s \<noteq> [] \<and> last s = newline \<and> pattern (butlast s))"

definition digits_of :: "nat \<Rightarrow> string \<Rightarrow> bool" where
  "digits_of n s \<longleftrightarrow> length s = n \<and> all_digits s"

section \<open>Validators\<close>

definition to_digits :: "char \<Rightarrow> string" where
  "to_digits c = (if c = CHR ''I'' then ''18'' else if c = CHR ''R'' then ''27'' else [c])"

definition iban_pattern :: "string \<Rightarrow> bool" where
  "iban_pattern s \<longleftrightarrow> length s = 26 \<and> take 2 s = ''IR'' \<and> all_digits (drop 2 s)"

definition MERGED_BANKS :: "string list" where
  "MERGED_BANKS = [''0630'', ''0520'', ''0650'', ''0790'', ''0730'']"

definition iban_value :: "string \<Rightarrow> string" where
  "iban_value iban = concat (map to_digits (drop 4 iban @ take 4 iban))"

definition iban_validator :: "string \<Rightarrow> unit result" where
  "iban_validator iban =
     bindE (guardE ValidationErr (fullmatch iban_pattern iban)) (\<lambda>_.
     let value = iban_value iban in
     bindE (guardE ValueErr (all_digits value)) (\<lambda>_.
     bindE (guardE ValidationErr (digits_val value mod 97 = 1)) (\<lambda>_.
     guardE ValidationErr (take 4 (drop 4 iban) \<notin> set MERGED_BANKS))))"

text \<open>A digit of a card number counts once or twice, in turn.\<close>

definition card_weight :: "nat \<Rightarrow> int \<Rightarrow> int" where
  "card_weight i d = (let s = (2 - int i mod 2) * d in if 9 < s then s - 9 else s)"

definition bank_card_pan_validator :: "string \<Rightarrow> unit result" where
  "bank_card_pan_validator s =
     bindE (guardE ValidationErr (fullmatch (digits_of 16) s)) (\<lambda>_.
     bindE (guardE ValueErr (all_digits s)) (\<lambda>_.
     guardE ValidationErr (sum_list (map2 card_weight [0..<length s] (map digit s)) mod 10 = 0)))"

definition national_card_code_validator :: "string \<Rightarrow> unit result" where
  "national_card_code_validator s =
     (let s = (if 8 \<le> length s \<and> length s < 10 then replicate (10 - length s) (CHR ''0'') @ s else s) in
      bindE (guardE ValidationErr (fullmatch (digits_of 10) s)) (\<lambda>_.
      bindE (guardE ValueErr (all_digits s)) (\<lambda>_.
      let total = sum_list (map2 (\<lambda>i d. (10 - int i) * d) [0..<9] (map digit s));
          control = (if 2 \<le> total mod 11 then 11 - total mod 11 else total mod 11)
      in guardE ValidationErr (control = digit (s ! 9)))))"

definition company_national_id_validator :: "string \<Rightarrow> unit result" where
  "company_national_id_validator s =
     bindE (guardE ValidationErr (fullmatch (digits_of 11) s)) (\<lambda>_.
     bindE (guardE ValueErr (all_digits s)) (\<lambda>_.
     let shift = digit (s ! 9) + 2;
         total = sum_list (map2 (\<lambda>i d. (shift + d) * [29, 27, 23, 19, 17] ! (i mod 5)) [0..<10] (map digit s))
     in guardE ValidationErr (total mod 11 mod 10 = digit (s ! 10))))"

definition phone_pattern :: "string \<Rightarrow> bool" where
  "phone_pattern s \<longleftrightarrow> all_digits s
     \<and> (take 2 s = ''09'' \<and> length s = 11 \<or> take 2 s = ''00'' \<and> 10 \<le> length s \<and> length s \<le> 17)"

definition mobile_number_validator :: "string \<Rightarrow> unit result" where
  "mobile_number_validator s = guardE ValidationErr (fullmatch phone_pattern s)"

definition telephone_pattern :: "string \<Rightarrow> bool" where
  "telephone_pattern s \<longleftrightarrow>
     (let t = (if take 1 s = ''0'' then drop 1 s else s)
      in digits_of 10 t \<and> hd t \<in> set ''12345678'')"

definition telephone_number_validator :: "string \<Rightarrow> unit result" where
  "telephone_number_validator s = guardE ValidationErr (fullmatch telephone_pattern s)"

section \<open>Banks\<close>

record bank =
  slug :: string
  card_prefix :: "string list"
  iban_code :: string
  swift_code :: string

definition bank_of :: "string \<times> string list \<times> string \<times> string \<Rightarrow> bank" where
  "bank_of = (\<lambda>(s, p, i, w). \<lparr>slug = s, card_prefix = p, iban_code = i, swift_code = w\<rparr>)"

definition BANK_INFO :: "bank list" where
  "BANK_INFO = map bank_of
    [(''MELLI'', [''603799''], ''0170'', ''MELIIR''), (''REFAH'', [''589463''], ''0130'', ''REFAIR''),
     (''RESALAT'', [''504172''], ''0700'', ''RESBIR''), (''KESHAVARZI'', [''603770''], ''0160'', ''KESHIR''),
     (''TOSEAH_TAAVON'', [''502908''], ''0220'', ''TTBIIR''), (''TOSEAH_SADERAT'', [''627648''], ''0200'', ''EDBIIR''),
     (''SADERAT'', [''603769''], ''0190'', ''BSIRIR''), (''KARAFARIN'', [''627488''], ''0530'', ''KBIDIR''),
     (''EGHTESAD_NOVIN'', [''627412''], ''0550'', ''BEGNIR''), (''SHAHR'', [''502806'', ''504706''], ''0610'', ''CIYBIR''),
     (''SEPAH'', [''589210''], ''0150'', ''SEPBIR''), (''MEHR_IRAN'', [''606373''], ''0600'', ''MEHRIR''),
     (''PASARGAD'', [''502229''], ''0570'', ''BKBPIR''), (''NOOR'', [''507677''], ''0800'', ''NOORIR''),
     (''SARMAYEH'', [''639607''], ''0580'', ''SRMBIR''), (''MELAL'', [''606256''], ''0750'', ''MELLIR''),
     (''MASKAN'', [''628023''], ''0140'', ''BKMNIR''), (''POST'', [''627760''], ''0210'', ''PBIRIR''),
     (''KHAVARMIANEH'', [''585947''], ''0780'', ''KHMIIR''), (''SINA'', [''639346''], ''0590'', ''SINAIR''),
     (''MELLAT'', [''610433''], ''0120'', ''BKMTIR''), (''IRANZAMIN'', [''505785''], ''0690'', ''IRZAIR''),
     (''DAY'', [''502938''], ''0660'', ''DAYBIR''), (''AYANDEH'', [''636214''], ''0620'', ''AYBKIR''),
     (''GARDESHGARI'', [''505416''], ''0640'', ''TOSMIR''), (''SAMAN'', [''621986''], ''0560'', ''SABCIR''),
     (''TEJARAT'', [''627353'', ''585983''], ''0180'', ''BTEJIR''), (''PARSIAN'', [''622106''], ''0540'', ''BKPAIR''),
     (''SANAT_VA_MADAN'', [''627961''], ''0110'', ''BOIMIR'')]"

definition get_bank_code_from_iban :: "string \<Rightarrow> string" where
  "get_bank_code_from_iban iban = take 4 (drop 4 iban)"

definition get_bank_from_slug :: "string \<Rightarrow> bank option" where
  "get_bank_from_slug s = List.find (\<lambda>b. slug b = s) BANK_INFO"

definition get_bank :: "string \<Rightarrow> bank option" where
  "get_bank swift = List.find (\<lambda>b. swift_code b = swift) BANK_INFO"

definition get_bank_from_card_pan :: "string \<Rightarrow> bank option" where
  "get_bank_from_card_pan pan = List.find (\<lambda>b. take 6 pan \<in> set (card_prefix b)) BANK_INFO"

definition get_bank_from_iban :: "string \<Rightarrow> bank option" where
  "get_bank_from_iban iban = List.find (\<lambda>b. take 3 (iban_code b) = take 3 (drop 4 iban)) BANK_INFO"


section \<open>Which errors the check digits catch\<close>

lemma is_digit_facts:
  assumes "is_digit c"
  shows "0 \<le> digit c" and "digit c \<le> 9" and "to_digits c = [c]" and "c \<noteq> newline"
  using assms by (auto simp: is_digit_def digit_def digit_val_def upt_conv_Cons to_digits_def newline_def split: if_splits)

lemma digit_inj:
  assumes "is_digit c" and "is_digit d"
  shows "digit c = digit d \<longleftrightarrow> c = d"
proof -
  have all: "c \<in> set ''0123456789''" if "is_digit c" for c
    using that by (auto simp: is_digit_def digit_val_def dest!: map_of_SomeD set_zip_leftD)
  have "list_all (\<lambda>c. list_all (\<lambda>d. (digit c = digit d) = (c = d)) ''0123456789'') ''0123456789''" by code_simp
  with all [OF assms(1)] all [OF assms(2)] show ?thesis unfolding list_all_iff by blast
qed

lemma digits_val_update:
  assumes "i < length s"
  shows "int (digits_val (s[i := c])) = int (digits_val s) + (digit c - digit (s ! i)) * 10 ^ (length s - Suc i)"
proof -
  have one: "int (digits_val [d]) = digit d" for d by (simp add: digits_val_def digit_def split: option.split)
  have "int (digits_val (take i s @ [d] @ drop (Suc i) s))
      = int (digits_val (take i s)) * 10 ^ (length s - i) + digit d * 10 ^ (length s - Suc i) + int (digits_val (drop (Suc i) s))" for d
    using assms by (simp only: digits_val_append of_nat_add of_nat_mult one) (simp add: algebra_simps Suc_diff_Suc)
  from this [of c] this [of "s ! i"] show ?thesis
    using assms by (simp add: upd_conv_take_nth_drop id_take_nth_drop [symmetric] left_diff_distrib)
qed

lemma prime_97:
  assumes "(97 :: int) dvd d * y" and "d \<noteq> 0" and "\<bar>d\<bar> \<le> 10"
  shows "97 dvd y"
proof -
  have "list_all (\<lambda>d. d = 0 \<or> gcd d 97 = 1) [-10..10 :: int]" by (simp add: upto.simps gcd_non_0_int)
  then have "\<forall>d\<in>{-10..10 :: int}. d = 0 \<or> gcd d 97 = 1" unfolding list_all_iff set_upto .
  with assms(2,3) have "gcd d 97 = 1" by (metis abs_le_iff atLeastAtMost_iff minus_le_iff)
  then have "coprime 97 d" by (simp only: coprime_iff_gcd_eq_1 gcd.commute [of 97 d])
  with assms(1) show ?thesis by (simp add: coprime_dvd_mult_right_iff)
qed

lemma power_10_97: "(97 :: int) dvd 10 ^ k * y \<Longrightarrow> 97 dvd y"
  by (induction k) (auto simp: mult.assoc dest!: prime_97 [of 10])

lemma order_10_97:
  assumes "0 < m" and "m < 28"
  shows "\<not> (97 :: int) dvd 10 ^ m - 1"
proof -
  have "list_all (\<lambda>m. \<not> (97 :: int) dvd 10 ^ m - 1) [1..<28]" by code_simp
  with assms show ?thesis by (auto simp: list_all_iff)
qed

lemma weights_97:
  assumes "d \<noteq> 0" and "\<bar>d\<bar> \<le> 10" and "k < 28" and "l < 28" and "k \<noteq> l"
  shows "\<not> (97 :: int) dvd d * 10 ^ k" and "\<not> (97 :: int) dvd d * 10 ^ k - d * 10 ^ l"
proof -
  show "\<not> (97 :: int) dvd d * 10 ^ k"
    using prime_97 [OF _ assms(1,2), of "10 ^ k"] power_10_97 [of k 1] by auto
  have less: "\<not> (97 :: int) dvd d * 10 ^ k - d * 10 ^ l" if "k < l" "l < 28" for k l
  proof
    have "(10 :: int) ^ l = 10 ^ k * 10 ^ (l - k)" using that by (simp flip: power_add)
    then have e: "d * 10 ^ k - d * 10 ^ l = - (d * (10 ^ k * (10 ^ (l - k) - 1)))" by (simp add: algebra_simps)
    assume "97 dvd d * 10 ^ k - d * 10 ^ l"
    then have "97 dvd d * (10 ^ k * (10 ^ (l - k) - 1))" unfolding e dvd_minus_iff .
    from power_10_97 [OF prime_97 [OF this assms(1,2)]] order_10_97 [of "l - k"] that show False by simp
  qed
  show "\<not> (97 :: int) dvd d * 10 ^ k - d * 10 ^ l"
    using less [of k l] less [of l k] assms(3-5) by (metis dvd_diff_commute nat_neq_iff)
qed

lemma iban_value_eq:
  assumes "iban_pattern s"
  shows "iban_value s = drop 4 s @ ''1827'' @ take 2 (drop 2 s)"
proof -
  have plain: "concat (map to_digits t) = t" if "all_digits t" for t
    using that by (induction t) (simp_all add: all_digits_def is_digit_facts(3))
  have s: "s = ''IR'' @ drop 2 s" using assms append_take_drop_id [of 2 s] by (simp add: iban_pattern_def)
  have d: "all_digits (drop 2 s)" using assms by (simp add: iban_pattern_def)
  have "take 4 s = ''IR'' @ take 2 (drop 2 s)" using s by (metis (no_types, lifting) append_take_drop_id assms iban_pattern_def
        numeral_Bit0 take_add)
  moreover have "all_digits (drop 4 s)" "all_digits (take 2 (drop 2 s))"
    using d in_set_dropD [of _ 2 "drop 2 s"] in_set_takeD [of _ 2 "drop 2 s"] by (auto simp: all_digits_def list_all_iff)
  ultimately show ?thesis using plain by (simp add: iban_value_def to_digits_def)
qed

definition iban_position :: "nat \<Rightarrow> nat" where
  "iban_position i = (if i < 4 then i + 24 else i - 4)"

lemma iban_value_update:
  assumes "iban_pattern s" and "2 \<le> i" and "i < 26" and "is_digit c"
  shows "iban_pattern (s[i := c])" and "iban_value (s[i := c]) = (iban_value s)[iban_position i := c]"
    and "iban_value s ! iban_position i = s ! i" and "length (iban_value s) = 28" and "iban_position i < 28" and "is_digit (s ! i)"
proof -
  have l: "length s = 26" "take 2 s = ''IR''" and d: "all_digits (drop 2 s)" using assms(1) by (simp_all add: iban_pattern_def)
  have "s ! i = drop 2 s ! (i - 2)" using nth_drop [of 2 s "i - 2"] assms(2,3) l(1) by (simp del: add_2_eq_Suc)
  with d assms(2,3) l(1) show "is_digit (s ! i)" by (auto simp: all_digits_def list_all_length)
  show p: "iban_pattern (s[i := c])"
    using assms l d set_update_subset_insert [of "drop 2 s" "i - 2" c]
    by (auto simp: iban_pattern_def all_digits_def list_all_iff drop_update_swap)
  show "length (iban_value s) = 28" "iban_position i < 28" using l(1) assms(3) by (auto simp: iban_value_eq [OF assms(1)] iban_position_def)
  show "iban_value (s[i := c]) = (iban_value s)[iban_position i := c]"
  proof (cases "i < 4")
    case True
    with assms(2) l(1) have "take 2 (drop 2 (s[i := c])) = (take 2 (drop 2 s))[i - 2 := c]"
      by (simp add: drop_update_swap take_update_swap)
    with True assms(2) l(1) show ?thesis
      by (simp add: iban_value_eq [OF assms(1)] iban_value_eq [OF p] iban_position_def list_update_append)
        (auto simp: list_update.simps numeral_eq_Suc less_Suc_eq split: nat.split)
  next
    case False
    have "take 2 (drop 2 (s[i := c])) = take 2 (drop 2 s)" "drop 4 (s[i := c]) = (drop 4 s)[i - 4 := c]"
      using False l(1) by (simp_all add: drop_update_swap)
    moreover have "i - 4 < 22" using False assms(3) by simp
    ultimately show ?thesis using False l(1)
      by (simp add: iban_value_eq [OF assms(1)] iban_value_eq [OF p] iban_position_def list_update_append)
  qed
  have "i = 2 \<or> i = 3 \<or> 4 \<le> i" using assms(2) by arith
  moreover have "i - 4 < 22" using assms(3) by linarith
  ultimately show "iban_value s ! iban_position i = s ! i"
    using assms(2,3) l(1) by (elim disjE) (simp_all add: iban_value_eq [OF assms(1)] iban_position_def nth_append)
qed

lemma iban_validator_mod:
  assumes "iban_pattern s" and "iban_validator s = Inr ()"
  shows "int (digits_val (iban_value s)) mod 97 = 1"
proof -
  have "digits_val (iban_value s) mod 97 = 1" using assms(2) by (simp add: iban_validator_def result_simps Let_def)
  then show ?thesis by (metis of_nat_1 of_nat_mod of_nat_numeral)
qed

lemma iban_refused:
  assumes "iban_pattern s" and "int (digits_val (iban_value s)) mod 97 \<noteq> 1"
  shows "iban_validator s = Inl ValidationErr"
proof -
  have "all_digits ''1827''" by code_simp
  moreover have "drop 4 s = drop 2 (drop 2 s)" by simp
  ultimately have "all_digits (iban_value s)"
    using assms(1) in_set_takeD [of _ 2 "drop 2 s"] in_set_dropD [of _ 2 "drop 2 s"]
    unfolding iban_value_eq [OF assms(1)] by (auto simp: iban_pattern_def all_digits_def list_all_iff simp del: drop_drop)
  moreover have "digits_val (iban_value s) mod 97 \<noteq> 1" using assms(2) by (metis of_nat_1 of_nat_mod of_nat_numeral)
  ultimately show ?thesis using assms(1) by (simp add: iban_validator_def fullmatch_def)
qed

text \<open>A text that passes has no trailing newline: that would have failed as a number.\<close>

lemma iban_valid_pattern:
  assumes "iban_validator s = Inr ()" and "length s = 26"
  shows "iban_pattern s"
  using assms by (auto simp: iban_validator_def result_simps fullmatch_def iban_pattern_def)

text \<open>
  C27. The check of an IBAN catches a mistyped digit and two exchanged digits, wherever they are:
  from a valid IBAN both lead to one that is refused.
\<close>

theorem iban_errors_caught:
  assumes "iban_validator s = Inr ()" and "length s = 26" and "2 \<le> i" and "i < 26"
    and "is_digit c \<and> c \<noteq> s ! i \<and> t = s[i := c]
      \<or> 2 \<le> j \<and> j < 26 \<and> s ! i \<noteq> s ! j \<and> t = s[i := s ! j, j := s ! i]"
  shows "iban_validator t = Inl ValidationErr"
proof -
  have p: "iban_pattern s" by (rule iban_valid_pattern [OF assms(1,2)])
  note val = iban_validator_mod [OF p assms(1)]
  have step: "int (digits_val (iban_value (u[k := d]))) = int (digits_val (iban_value u)) + (digit d - digit (u ! k)) * 10 ^ (27 - iban_position k)"
    if "iban_pattern u" "2 \<le> k" "k < 26" "is_digit d" for u k d
    using iban_value_update [OF that] digits_val_update [of "iban_position k" "iban_value u" d] by simp
  have small: "digit x - digit y \<noteq> 0 \<and> \<bar>digit x - digit y\<bar> \<le> 10" if "is_digit x" "is_digit y" "x \<noteq> y" for x y
    using that is_digit_facts(1,2) [of x] is_digit_facts(1,2) [of y] digit_inj [of x y] by auto
  have bad: "iban_validator u = Inl ValidationErr"
    if "iban_pattern u" "int (digits_val (iban_value u)) = int (digits_val (iban_value s)) + e" "\<not> 97 dvd e" for u e
  proof (rule iban_refused [OF that(1)])
    show "int (digits_val (iban_value u)) mod 97 \<noteq> 1"
    proof
      assume "int (digits_val (iban_value u)) mod 97 = 1"
      then have "97 dvd (int (digits_val (iban_value s)) + e) - int (digits_val (iban_value s))"
        unfolding that(2) mod_eq_dvd_iff [symmetric] using val by simp
      with that(3) show False by simp
    qed
  qed
  have di: "is_digit (s ! k)" if "2 \<le> k" "k < 26" for k
    using iban_value_update(6) [OF p that, of "CHR ''0''"] by (simp add: is_digit_def)
  from assms(5) show ?thesis
  proof (elim disjE conjE)
    assume c: "is_digit c" "c \<noteq> s ! i" "t = s[i := c]"
    from weights_97(1) [of "digit c - digit (s ! i)" "27 - iban_position i" 0] small [OF c(1) di c(2)] assms(3,4)
    have "\<not> 97 dvd (digit c - digit (s ! i)) * 10 ^ (27 - iban_position i)"
      using prime_97 [of "digit c - digit (s ! i)" "10 ^ (27 - iban_position i)"] power_10_97 [of _ 1] by auto
    with step [OF p assms(3,4) c(1)] show ?thesis
      unfolding c(3) by (rule bad [OF iban_value_update(1) [OF p assms(3,4) c(1)]])
  next
    assume j: "2 \<le> j" "j < 26" "s ! i \<noteq> s ! j" "t = s[i := s ! j, j := s ! i]"
    let ?u = "s[i := s ! j]" and ?d = "digit (s ! j) - digit (s ! i)"
    have "i \<noteq> j" using j(3) by auto
    then have uj: "?u ! j = s ! j" by simp
    have u: "iban_pattern ?u" by (rule iban_value_update(1) [OF p assms(3,4) di [OF j(1,2)]])
    have t: "iban_pattern t" unfolding j(4) by (rule iban_value_update(1) [OF u j(1,2) di [OF assms(3,4)]])
    have "int (digits_val (iban_value t)) = int (digits_val (iban_value s))
        + (?d * 10 ^ (27 - iban_position i) - ?d * 10 ^ (27 - iban_position j))"
      using step [OF p assms(3,4) di [OF j(1,2)]] step [OF u j(1,2) di [OF assms(3,4)]] unfolding j(4) uj
      by (simp add: algebra_simps)
    moreover have "27 - iban_position i \<noteq> 27 - iban_position j" using assms(3,4) j(1,2) \<open>i \<noteq> j\<close>
      by (auto simp: iban_position_def split: if_splits)
    then have "\<not> 97 dvd ?d * 10 ^ (27 - iban_position i) - ?d * 10 ^ (27 - iban_position j)"
      using small [of "s ! j" "s ! i"] di [OF j(1,2)] di [OF assms(3,4)] j(3) by (intro weights_97(2)) auto
    ultimately show ?thesis by (rule bad [OF t])
  qed
qed

lemma sample_iban: "iban_validator ''IR760120020000008992439961'' = Inr ()"
  by (simp add: iban_validator_def fullmatch_def iban_pattern_def all_digits_def is_digit_def digit_val_def upt_conv_Cons
      iban_value_def to_digits_def digits_val_def MERGED_BANKS_def)

theorem iban_errors_caught_witness:
  "iban_validator ''IR760120020000008992439967'' = Inl ValidationErr \<and> iban_validator ''IR670120020000008992439961'' = Inl ValidationErr"
proof
  let ?s = "''IR760120020000008992439961''"
  have "is_digit (CHR ''7'') \<and> CHR ''7'' \<noteq> ?s ! 25 \<and> ''IR760120020000008992439967'' = ?s[25 := CHR ''7''] \<and> length ?s = 26"
    by code_simp
  then show "iban_validator ''IR760120020000008992439967'' = Inl ValidationErr"
    by (intro iban_errors_caught [OF sample_iban, where i = 25 and c = "CHR ''7''"]) (blast | simp)+
  have "?s ! 2 \<noteq> ?s ! 3 \<and> ''IR670120020000008992439961'' = ?s[2 := ?s ! 3, 3 := ?s ! 2] \<and> length ?s = 26" by code_simp
  then show "iban_validator ''IR670120020000008992439961'' = Inl ValidationErr"
    by (intro iban_errors_caught [OF sample_iban, where i = 2 and j = 3]) (force | simp)+
qed

lemma sum_list_set: "i < length xs \<Longrightarrow> sum_list (xs[i := x]) = sum_list xs + (x - xs ! i :: int)"
proof (induction xs arbitrary: i)
  case (Cons y xs)
  then show ?case by (cases i) simp_all
qed simp

lemma card_sum_update:
  assumes "i < length xs"
  shows "sum_list (map2 f [0..<length xs] (xs[i := c])) = sum_list (map2 f [0..<length xs] xs) + (f i c - f i (xs ! i) :: int)"
proof -
  have "map2 f [0..<length xs] (xs[i := c]) = (map2 f [0..<length xs] xs)[i := f i c]"
    using assms by (intro nth_equalityI) (simp_all add: nth_list_update)
  with assms show ?thesis by (simp add: sum_list_set)
qed

lemma card_weight_eq: "card_weight i d = (if odd i then d else if 4 < d then 2 * d - 9 else 2 * d)" if "0 \<le> d" "d \<le> 9"
proof -
  have "int i mod 2 = int (i mod 2)" by (simp add: zmod_int)
  then have "int i mod 2 = (if odd i then 1 else 0)" by (simp add: odd_iff_mod_2_eq_one)
  with that show ?thesis by (simp add: card_weight_def Let_def)
qed

lemma weights_differ:
  fixes a b :: int
  assumes "0 \<le> a" "a \<le> 9" "0 \<le> b" "b \<le> 9" "a \<noteq> b"
  shows "\<not> 10 dvd card_weight i b - card_weight i a"
    and "\<not> (a = 0 \<and> b = 9 \<or> a = 9 \<and> b = 0) \<Longrightarrow>
      \<not> 10 dvd (card_weight i b - card_weight i a) + (card_weight (Suc i) a - card_weight (Suc i) b)"
proof -
  let ?g = "\<lambda>d :: int. if 4 < d then 2 * d - 9 else 2 * d"
  have "list_all (\<lambda>a. list_all (\<lambda>b. a = b \<or> (\<not> 10 dvd ?g b - ?g a) \<and> \<not> 10 dvd b - a
      \<and> (a = 0 \<and> b = 9 \<or> a = 9 \<and> b = 0 \<or> (\<not> 10 dvd (?g b - ?g a) + (a - b)) \<and> \<not> 10 dvd (b - a) + (?g a - ?g b))) [0..9]) [0..9]"
    by code_simp
  then have "\<forall>a\<in>{0..9}. \<forall>b\<in>{0..9}. a = b \<or> (\<not> 10 dvd ?g b - ?g a) \<and> \<not> 10 dvd b - a
      \<and> (a = 0 \<and> b = 9 \<or> a = 9 \<and> b = 0 \<or> (\<not> 10 dvd (?g b - ?g a) + (a - b)) \<and> \<not> 10 dvd (b - a) + (?g a - ?g b))"
    unfolding list_all_iff set_upto .
  from bspec [OF bspec [OF this, of a], of b] have all: "(\<not> 10 dvd ?g b - ?g a) \<and> \<not> 10 dvd b - a
      \<and> (a = 0 \<and> b = 9 \<or> a = 9 \<and> b = 0 \<or> (\<not> 10 dvd (?g b - ?g a) + (a - b)) \<and> \<not> 10 dvd (b - a) + (?g a - ?g b))"
    using assms by simp
  then show "\<not> 10 dvd card_weight i b - card_weight i a"
    using assms by (cases "odd i") (simp_all only: card_weight_eq if_True if_False not_not simp_thms)
  assume "\<not> (a = 0 \<and> b = 9 \<or> a = 9 \<and> b = 0)"
  with all have "(\<not> 10 dvd (?g b - ?g a) + (a - b)) \<and> \<not> 10 dvd (b - a) + (?g a - ?g b)" by blast
  then show "\<not> 10 dvd (card_weight i b - card_weight i a) + (card_weight (Suc i) a - card_weight (Suc i) b)"
    using assms by (cases "odd i") (simp_all only: card_weight_eq even_Suc if_True if_False not_not simp_thms)
qed

lemma card_weights:
  assumes "is_digit a" and "is_digit b" and "a \<noteq> b"
  shows "\<not> 10 dvd card_weight i (digit b) - card_weight i (digit a)"
    and "{a, b} \<noteq> {CHR ''0'', CHR ''9''} \<Longrightarrow>
      \<not> 10 dvd (card_weight i (digit b) - card_weight i (digit a)) + (card_weight (Suc i) (digit a) - card_weight (Suc i) (digit b))"
proof -
  have "digit a \<noteq> digit b" using digit_inj [OF assms(1,2)] assms(3) by simp
  note w = weights_differ [OF is_digit_facts(1,2) [OF assms(1)] is_digit_facts(1,2) [OF assms(2)] this]
  show "\<not> 10 dvd card_weight i (digit b) - card_weight i (digit a)" by (rule w(1))
  have z: "is_digit (CHR ''0'')" "is_digit (CHR ''9'')" "digit (CHR ''0'') = 0" "digit (CHR ''9'') = 9" by code_simp+
  assume "{a, b} \<noteq> {CHR ''0'', CHR ''9''}"
  then have "\<not> (digit a = 0 \<and> digit b = 9 \<or> digit a = 9 \<and> digit b = 0)"
    using digit_inj [OF assms(1) z(1)] digit_inj [OF assms(2) z(2)] digit_inj [OF assms(1) z(2)] digit_inj [OF assms(2) z(1)] z(3,4)
    by auto
  then show "\<not> 10 dvd (card_weight i (digit b) - card_weight i (digit a)) + (card_weight (Suc i) (digit a) - card_weight (Suc i) (digit b))"
    by (rule w(2))
qed

lemma card_digits: "digits_of 16 s \<Longrightarrow> bank_card_pan_validator s
    = guardE ValidationErr (sum_list (map2 card_weight [0..<16] (map digit s)) mod 10 = 0)"
  by (simp add: bank_card_pan_validator_def fullmatch_def digits_of_def)

text \<open>
  C28. The check of a card number catches a mistyped digit and two neighbouring digits exchanged,
  other than 09 for 90.
\<close>

theorem card_errors_caught:
  assumes "bank_card_pan_validator s = Inr ()" and "length s = 16" and "i < 16"
    and "is_digit c \<and> c \<noteq> s ! i \<and> t = s[i := c]
      \<or> Suc i < 16 \<and> s ! i \<noteq> s ! Suc i \<and> {s ! i, s ! Suc i} \<noteq> {CHR ''0'', CHR ''9''} \<and> t = s[i := s ! Suc i, Suc i := s ! i]"
  shows "bank_card_pan_validator t = Inl ValidationErr"
proof -
  have d: "digits_of 16 s" using assms(1,2) by (auto simp: bank_card_pan_validator_def result_simps digits_of_def)
  let ?sum = "\<lambda>s. sum_list (map2 card_weight [0..<16] (map digit s))"
  have s: "10 dvd ?sum s" using assms(1) by (auto simp: card_digits [OF d] guardE_def split: if_splits)
  have di: "is_digit (s ! k)" if "k < 16" for k using d that by (simp add: digits_of_def all_digits_def list_all_length)
  have step: "?sum (u[k := x]) = ?sum u + (card_weight k (digit x) - card_weight k (digit (u ! k)))" if "length u = 16" "k < 16" for u k x
    using card_sum_update [of k "map digit u" card_weight "digit x"] that by (simp add: map_update)
  have ok: "digits_of 16 (u[k := x])" if "digits_of 16 u" "is_digit x" for u k x
    using that set_update_subset_insert [of u k x] by (auto simp: digits_of_def all_digits_def list_all_iff)
  have bad: "bank_card_pan_validator u = Inl ValidationErr" if "digits_of 16 u" "?sum u = ?sum s + e" "\<not> 10 dvd e" for u e
  proof -
    have "\<not> 10 dvd ?sum u" unfolding that(2) using s that(3) by (simp add: dvd_add_right_iff)
    then show ?thesis unfolding card_digits [OF that(1)] by (simp add: guardE_def dvd_eq_mod_eq_0)
  qed
  from assms(4) show ?thesis
  proof (elim disjE conjE)
    assume c: "is_digit c" "c \<noteq> s ! i" "t = s[i := c]"
    show ?thesis unfolding c(3)
      by (rule bad [OF ok [OF d c(1)] step [OF assms(2,3)] card_weights(1) [OF di [OF assms(3)] c(1)]]) (use c(2) in simp)
  next
    assume j: "Suc i < 16" "s ! i \<noteq> s ! Suc i" "{s ! i, s ! Suc i} \<noteq> {CHR ''0'', CHR ''9''}" "t = s[i := s ! Suc i, Suc i := s ! i]"
    let ?u = "s[i := s ! Suc i]"
    have "?sum t = ?sum s + ((card_weight i (digit (s ! Suc i)) - card_weight i (digit (s ! i)))
        + (card_weight (Suc i) (digit (s ! i)) - card_weight (Suc i) (digit (s ! Suc i))))"
      using step [OF assms(2,3), of "s ! Suc i"] step [of ?u "Suc i" "s ! i"] assms(2) j(1) by (simp add: j(4))
    moreover have "digits_of 16 t" unfolding j(4) by (intro ok d di assms(3) j(1))
    ultimately show ?thesis
      using bad card_weights(2) [OF di [OF assms(3)] di [OF j(1)] j(2,3)] by blast
  qed
qed

theorem card_errors_caught_witness:
  "bank_card_pan_validator ''6037990000000006'' = Inr () \<and> bank_card_pan_validator ''6037990000000007'' = Inl ValidationErr
    \<and> bank_card_pan_validator ''6073990000000006'' = Inl ValidationErr"
proof -
  let ?s = "''6037990000000006''"
  have v: "bank_card_pan_validator ?s = Inr ()" by code_simp
  have "is_digit (CHR ''7'') \<and> CHR ''7'' \<noteq> ?s ! 15 \<and> ''6037990000000007'' = ?s[15 := CHR ''7''] \<and> length ?s = 16" by code_simp
  then have "bank_card_pan_validator ''6037990000000007'' = Inl ValidationErr"
    by (intro card_errors_caught [OF v, where i = 15 and c = "CHR ''7''"]) (blast | simp)+
  moreover have "?s ! 2 \<noteq> ?s ! Suc 2 \<and> {?s ! 2, ?s ! Suc 2} \<noteq> {CHR ''0'', CHR ''9''}
    \<and> ''6073990000000006'' = ?s[2 := ?s ! Suc 2, Suc 2 := ?s ! 2] \<and> length ?s = 16" by code_simp
  then have "bank_card_pan_validator ''6073990000000006'' = Inl ValidationErr"
    by (intro card_errors_caught [OF v, where i = 2]) (force | simp)+
  ultimately show ?thesis using v by simp
qed

end
