(* ===== verification/Jibit.thy ===== *)
theory Jibit
  imports Otc_Backing
begin

text \<open>
  The client of the verification service (\<^verbatim>\<open>accounts/verifiers/jibit.py\<close>). Every call is stored as
  a \<^verbatim>\<open>UserAuthRequest\<close>; an answer with a search key is found again for 30 days. What the service
  replies to the n-th stored call is a parameter.
\<close>

section \<open>Answers and stored requests\<close>

record card_info =
  ca_owner :: utext
  ca_bank :: string
  ca_type :: string
  ca_deposit :: string

record iban_info =
  ia_bank :: string
  ia_deposit :: string
  ia_status :: string
  ia_owners :: "(utext \<times> utext) list"

record jibit_data =
  jb_code :: string
  jb_matched :: bool
  jb_card :: card_info
  jb_iban :: iban_info

datatype stored_response = No_response | Timed_out | Answered jibit_data

record auth_request =
  ar_id :: nat
  ar_created :: int
  ar_user :: nat
  ar_url :: string
  ar_search_key :: string
  ar_status_code :: nat
  ar_response :: stored_response
  ar_weight :: nat

datatype jibit_reply = Reply nat jibit_data | Unreachable

record jibit_db = otc_db +
  auth_requests :: "auth_request list"

record jibit_env = otc_env +
  jibit_reply :: "nat \<Rightarrow> string \<Rightarrow> string \<Rightarrow> jibit_reply"
  jalali :: "int \<Rightarrow> string"

definition JIBIT_ADVANCED_MATCHING :: nat where "JIBIT_ADVANCED_MATCHING = 3"
definition JIBIT_SIMPLE_MATCHING :: nat where "JIBIT_SIMPLE_MATCHING = 1"
definition JIBIT_CARD_INFO_WEIGHT :: nat where "JIBIT_CARD_INFO_WEIGHT = 1"
definition JIBIT_IBAN_INFO_WEIGHT :: nat where "JIBIT_IBAN_INFO_WEIGHT = 1"
definition MAX_WEIGHT :: nat where "MAX_WEIGHT = 12"

definition INVALID_DATA :: string where "INVALID_DATA = ''INVALID_DATA''"

definition RESULT_MAP :: "(string \<times> string) list" where
  "RESULT_MAP =
    [(''mobileNumber.not_valid'', INVALID_DATA), (''nationalCode.not_valid'', INVALID_DATA),
     (''card.provider_is_not_active'', ''PROVIDER_IS_NOT_ACTIVE''), (''card.source_bank_is_not_active'', ''PROVIDER_IS_NOT_ACTIVE''),
     (''iban.not_valid'', ''INVALID_IBAN''), (''identity_info.not_found'', INVALID_DATA), (''matching.unknown'', INVALID_DATA)]"

definition result_code :: "string \<Rightarrow> string" where
  "result_code code =
     (case map_of RESULT_MAP code of Some r \<Rightarrow> r
      | None \<Rightarrow> if take 5 code = ''card.'' then INVALID_DATA else code)"

section \<open>Calling the service\<close>

definition MONTH_SECONDS :: int where "MONTH_SECONDS = 30 * 24 * 3600"

definition stored_answer :: "int \<Rightarrow> string \<Rightarrow> ('z) jibit_db_scheme \<Rightarrow> auth_request option" where
  "stored_answer now' key s =
     (case rev (sort_key ar_created (filter (\<lambda>r. now' - MONTH_SECONDS < ar_created r \<and> ar_search_key r = key) (auth_requests s))) of
        r # _ \<Rightarrow> Some r | [] \<Rightarrow> None)"

definition save_auth_request :: "nat \<Rightarrow> (auth_request \<Rightarrow> auth_request) \<Rightarrow> ('z) jibit_db_scheme \<Rightarrow> ('z) jibit_db_scheme" where
  "save_auth_request i f s = s\<lparr>auth_requests := map (\<lambda>r. if ar_id r = i then f r else r) (auth_requests s)\<rparr>"

definition keeps_key :: "string \<Rightarrow> nat \<Rightarrow> jibit_data \<Rightarrow> bool" where
  "keeps_key key status d \<longleftrightarrow> key \<noteq> [] \<and> status \<notin> {401, 403} \<and> status < 500
     \<and> jb_code d \<notin> set [''card.provider_is_not_active'', ''card.source_bank_is_not_active'']"

text \<open>A refused token is renewed once.\<close>

function collect_api ::
  "('y) jibit_env_scheme \<Rightarrow> int \<Rightarrow> bool \<Rightarrow> nat \<Rightarrow> string \<Rightarrow> string \<Rightarrow> nat \<Rightarrow> ('z) jibit_db_scheme
     \<Rightarrow> (('z) jibit_db_scheme, jibit_data \<times> bool) outcome" where
  "collect_api env now' force_renew user path key weight s =
     (case (if key \<noteq> [] then stored_answer now' key s else None) of
        Some r \<Rightarrow>
          if 500 \<le> ar_status_code r then (s, Inl ServerError)
          else (case ar_response r of Answered d \<Rightarrow> (s, Inr (d, ar_status_code r \<in> {200, 201})) | _ \<Rightarrow> (s, Inl AttributeErr))
      | None \<Rightarrow>
          let i = fresh_id (map ar_id (auth_requests s));
              r = \<lparr>ar_id = i, ar_created = now', ar_user = user, ar_url = path, ar_search_key = [], ar_status_code = 0,
                   ar_response = No_response, ar_weight = weight\<rparr>;
              s = s\<lparr>auth_requests := auth_requests s @ [r]\<rparr>
          in case jibit_reply env i path key of
               Unreachable \<Rightarrow> (save_auth_request i (\<lambda>r. r\<lparr>ar_response := Timed_out, ar_status_code := 100\<rparr>) s, Inl TimeoutErr)
             | Reply status d \<Rightarrow>
                 if \<not> force_renew \<and> status = 403 then collect_api env now' True user path key weight s
                 else
                   let s = save_auth_request i (\<lambda>r. r\<lparr>ar_response := Answered d, ar_status_code := status,
                                                     ar_search_key := (if keeps_key key status d then key else [])\<rparr>) s
                   in if 500 \<le> status then (s, Inl ServerError) else (s, Inr (d, 200 \<le> status \<and> status < 400)))"
  by pat_completeness auto
termination
  by (relation "measure (\<lambda>(env, now', force_renew, r). if force_renew then 0 else 1)") auto

declare collect_api.simps [simp del]

section \<open>The services\<close>

definition dashed :: "string list \<Rightarrow> string" where
  "dashed ts = concat (map (\<lambda>t. CHR ''-'' # t) (drop 1 ts))"

definition matching_key :: "string list \<Rightarrow> string" where
  "matching_key params = ''matching-'' @ hd params @ dashed params"

text \<open>A parameter that is not given is the empty text.\<close>

definition matching ::
  "('y) jibit_env_scheme \<Rightarrow> int \<Rightarrow> nat \<Rightarrow> string \<Rightarrow> string \<Rightarrow> int option \<Rightarrow> string \<Rightarrow> ('z) jibit_db_scheme
     \<Rightarrow> (('z) jibit_db_scheme, bool \<times> string \<times> bool) outcome" where
  "matching env now' user phone national birth_day pan s =
     (let birth = (case birth_day of Some d \<Rightarrow> filter (\<lambda>c. c \<noteq> CHR ''/'') (jalali env d) | None \<Rightarrow> []);
          weight = (if national \<noteq> [] then JIBIT_ADVANCED_MATCHING else JIBIT_SIMPLE_MATCHING)
      in next_step (collect_api env now' False user ''/v1/services/matching''
                      (matching_key [phone, national, birth, [], pan, []]) weight s)
           (\<lambda>(d, success) s. (s, Inr (jb_matched d, result_code (jb_code d), success))))"

definition get_iban_info ::
  "('y) jibit_env_scheme \<Rightarrow> int \<Rightarrow> nat \<Rightarrow> string \<Rightarrow> ('z) jibit_db_scheme \<Rightarrow> (('z) jibit_db_scheme, iban_info \<times> string \<times> bool) outcome" where
  "get_iban_info env now' user ib s =
     next_step (collect_api env now' False user ''/v1/ibans'' (''iban-'' @ ib) JIBIT_IBAN_INFO_WEIGHT s)
       (\<lambda>(d, success) s. (s, Inr (jb_iban d, jb_code d, success)))"

definition get_card_info ::
  "('y) jibit_env_scheme \<Rightarrow> int \<Rightarrow> nat \<Rightarrow> string \<Rightarrow> ('z) jibit_db_scheme \<Rightarrow> (('z) jibit_db_scheme, card_info \<times> string \<times> bool) outcome" where
  "get_card_info env now' user pan s =
     next_step (collect_api env now' False user ''/v1/cards'' (''card-'' @ pan) JIBIT_CARD_INFO_WEIGHT s)
       (\<lambda>(d, success) s. (s, Inr (jb_card d, result_code (jb_code d), success)))"

definition get_verify_weight :: "nat \<Rightarrow> ('z) jibit_db_scheme \<Rightarrow> nat" where
  "get_verify_weight user s =
     sum_list (map ar_weight (filter (\<lambda>r. ar_user r = user \<and> ar_search_key r \<noteq> []) (auth_requests s)))"

end
