(* ===== verification/Banks.thy ===== *)
theory Banks
  imports Validators Jibit
begin

text \<open>
  The cards and bank accounts of the users (\<^verbatim>\<open>financial/models/bank_card.py\<close>, the views around them) and
  the tasks that verify them (\<^verbatim>\<open>accounts/verifiers/basic_verifier.py\<close>, \<^verbatim>\<open>financial/tasks/verify.py\<close>)
  with the answers of the verification service. A verified flag is true, false or open.
\<close>

section \<open>Tables\<close>

record bank_card =
  bc_id :: nat
  bc_user :: nat
  card_pan :: string
  bc_verified :: "bool option"
  bc_kyc :: bool
  bc_deleted :: bool
  bc_bank :: string
  bc_type :: string
  owner_name :: utext
  bc_deposit_number :: string
  bc_reject_reason :: string

datatype deposit_state = ACC_ACTIVE | ACC_SUSPEND | ACC_NSUSPEND | ACC_STAGNANT | ACC_UNKNOWN | ACC_NONE

record bank_account =
  ba_id :: nat
  ba_user :: nat
  iban :: string
  ba_bank :: string
  ba_deposit_address :: string
  ba_deposit_status :: deposit_state
  ba_owners :: "(utext \<times> utext) list"
  ba_verified :: "bool option"
  ba_deleted :: bool
  rejected_by :: "nat option"

record bank_db = jibit_db +
  bank_cards :: "bank_card list"
  bank_accounts :: "bank_account list"

section \<open>Rows and constraints\<close>

definition find_user :: "('z) transfer_db_scheme \<Rightarrow> nat \<Rightarrow> user_row option" where
  "find_user s i = List.find (\<lambda>u. us_account u = i) (users s)"

definition set_user :: "nat \<Rightarrow> (user_row \<Rightarrow> user_row) \<Rightarrow> ('z) transfer_db_scheme \<Rightarrow> ('z) transfer_db_scheme" where
  "set_user i f s = s\<lparr>users := map (\<lambda>u. if us_account u = i then f u else u) (users s)\<rparr>"

definition get_legal_name :: "user_row \<Rightarrow> utext" where
  "get_legal_name u = (case company_name u of Some n \<Rightarrow> n | None \<Rightarrow> strip (first_name u @ SPACE # last_name u))"

definition cards_clash :: "bank_card \<Rightarrow> bank_card \<Rightarrow> bool" where
  "cards_clash c d \<longleftrightarrow> bc_id c \<noteq> bc_id d \<and> \<not> bc_deleted c \<and> \<not> bc_deleted d
     \<and> (card_pan c = card_pan d \<and> bc_user c = bc_user d
        \<or> bc_kyc c \<and> bc_kyc d \<and> bc_user c = bc_user d
        \<or> card_pan c = card_pan d \<and> bc_verified c = Some True \<and> bc_verified d = Some True)"

definition accounts_clash :: "bank_account \<Rightarrow> bank_account \<Rightarrow> bool" where
  "accounts_clash c d \<longleftrightarrow> ba_id c \<noteq> ba_id d \<and> \<not> ba_deleted c \<and> \<not> ba_deleted d \<and> iban c = iban d
     \<and> (ba_user c = ba_user d \<or> ba_verified c = Some True \<and> ba_verified d = Some True)"

definition card_row :: "('z) bank_db_scheme \<Rightarrow> nat \<Rightarrow> bank_card result" where
  "card_row s i = the_or DoesNotExist (List.find (\<lambda>c. bc_id c = i) (bank_cards s))"

definition bank_account_row :: "('z) bank_db_scheme \<Rightarrow> nat \<Rightarrow> bank_account result" where
  "bank_account_row s i = the_or DoesNotExist (List.find (\<lambda>c. ba_id c = i) (bank_accounts s))"

definition save_card :: "nat \<Rightarrow> (bank_card \<Rightarrow> bank_card) \<Rightarrow> ('z) bank_db_scheme \<Rightarrow> (unit \<times> ('z) bank_db_scheme) result" where
  "save_card i f s =
     (let cards = map (\<lambda>c. if bc_id c = i then f c else c) (bank_cards s) in
      bindE (guardE IntegrityError (\<forall>c\<in>set cards. bc_id c = i \<longrightarrow> (\<forall>d\<in>set cards. \<not> cards_clash c d))) (\<lambda>_.
      Inr ((), s\<lparr>bank_cards := cards\<rparr>)))"

definition save_account :: "nat \<Rightarrow> (bank_account \<Rightarrow> bank_account) \<Rightarrow> ('z) bank_db_scheme \<Rightarrow> (unit \<times> ('z) bank_db_scheme) result" where
  "save_account i f s =
     (let rows = map (\<lambda>c. if ba_id c = i then f c else c) (bank_accounts s) in
      bindE (guardE IntegrityError (\<forall>c\<in>set rows. ba_id c = i \<longrightarrow> (\<forall>d\<in>set rows. \<not> accounts_clash c d))) (\<lambda>_.
      Inr ((), s\<lparr>bank_accounts := rows\<rparr>)))"

definition live_cards :: "('z) bank_db_scheme \<Rightarrow> nat \<Rightarrow> bank_card list" where
  "live_cards s user = filter (\<lambda>c. bc_user c = user \<and> \<not> bc_deleted c) (bank_cards s)"

definition live_accounts :: "('z) bank_db_scheme \<Rightarrow> nat \<Rightarrow> bank_account list" where
  "live_accounts s user = filter (\<lambda>c. ba_user c = user \<and> \<not> ba_deleted c) (bank_accounts s)"

definition DUPLICATED :: string where "DUPLICATED = ''duplicated''"
definition NAME_MISMATCH :: string where "NAME_MISMATCH = ''name.mismatch''"
definition CREDIT_CARD :: string where "CREDIT_CARD = ''type.credit''"
definition CREDIT_FAMILY_TYPES :: "string list" where
  "CREDIT_FAMILY_TYPES = [''ONLINE_PREPAID'', ''CREDIT'', ''GIFT_CARD'', ''VIRTUAL_CARD'']"

text \<open>\<^verbatim>\<open>BankCard.reject\<close> looks at the flag first: a card that is not verified stays as it is.\<close>

definition reject_card :: "nat \<Rightarrow> string \<Rightarrow> ('z) bank_db_scheme \<Rightarrow> (unit \<times> ('z) bank_db_scheme) result" where
  "reject_card i reason s =
     bindE (card_row s i) (\<lambda>c.
     if bc_verified c = Some True then save_card i (\<lambda>c. c\<lparr>bc_verified := Some False, bc_reject_reason := reason\<rparr>) s
     else Inr ((), s))"

definition accept_card :: "nat \<Rightarrow> ('z) bank_db_scheme \<Rightarrow> (unit \<times> ('z) bank_db_scheme) result" where
  "accept_card i s = save_card i (\<lambda>c. c\<lparr>bc_verified := Some True\<rparr>) s"

section \<open>Adding and removing\<close>

definition new_card :: "nat \<Rightarrow> nat \<Rightarrow> string \<Rightarrow> bank_card" where
  "new_card i user pan =
     \<lparr>bc_id = i, bc_user = user, card_pan = pan, bc_verified = None, bc_kyc = False, bc_deleted = False,
      bc_bank = (case get_bank_from_card_pan pan of Some b \<Rightarrow> slug b | None \<Rightarrow> []), bc_type = [], owner_name = [],
      bc_deposit_number = [], bc_reject_reason = []\<rparr>"

definition new_bank_account :: "nat \<Rightarrow> nat \<Rightarrow> string \<Rightarrow> bank_account" where
  "new_bank_account i user ib =
     \<lparr>ba_id = i, ba_user = user, iban = ib, ba_bank = (case get_bank_from_iban ib of Some b \<Rightarrow> slug b | None \<Rightarrow> []),
      ba_deposit_address = [], ba_deposit_status = ACC_NONE, ba_owners = [], ba_verified = None, ba_deleted = False,
      rejected_by = None\<rparr>"

definition insert_card :: "bank_card \<Rightarrow> ('z) bank_db_scheme \<Rightarrow> (nat \<times> ('z) bank_db_scheme) result" where
  "insert_card c s =
     bindE (guardE IntegrityError (\<forall>d\<in>set (bank_cards s). \<not> cards_clash c d)) (\<lambda>_.
     Inr (bc_id c, s\<lparr>bank_cards := bank_cards s @ [c]\<rparr>))"

text \<open>\<open>perform_create\<close> of the view and \<^verbatim>\<open>BankCardSerializer.create\<close>; the verification is queued.\<close>

definition create_card :: "user_row \<Rightarrow> string \<Rightarrow> ('z) bank_db_scheme \<Rightarrow> (nat \<times> ('z) bank_db_scheme) result" where
  "create_card u pan s =
     bindE (bank_card_pan_validator pan) (\<lambda>_.
     bindE (guardE ValidationErr (2 \<le> us_level u)) (\<lambda>_.
     bindE (guardE ValidationErr (\<not> (\<exists>c\<in>set (live_cards s (us_account u)). card_pan c = pan))) (\<lambda>_.
     insert_card (new_card (fresh_id (map bc_id (bank_cards s))) (us_account u) pan) s)))"

definition create_bank_account :: "user_row \<Rightarrow> string \<Rightarrow> ('z) bank_db_scheme \<Rightarrow> (nat \<times> ('z) bank_db_scheme) result" where
  "create_bank_account u ib s =
     bindE (iban_validator ib) (\<lambda>_.
     bindE (guardE ValidationErr (2 \<le> us_level u)) (\<lambda>_.
     bindE (guardE ValidationErr (\<not> (\<exists>c\<in>set (live_accounts s (us_account u)). iban c = ib))) (\<lambda>_.
     case rev (filter (\<lambda>c. ba_user c = us_account u \<and> iban c = ib \<and> ba_deleted c) (sort_key ba_id (bank_accounts s))) of
       c # _ \<Rightarrow> bindE (save_account (ba_id c) (\<lambda>c. c\<lparr>ba_deleted := False\<rparr>) s) (\<lambda>(_, s). Inr (ba_id c, s))
     | [] \<Rightarrow>
         (let c = new_bank_account (fresh_id (map ba_id (bank_accounts s))) (us_account u) ib in
          bindE (guardE IntegrityError (\<forall>d\<in>set (bank_accounts s). \<not> accounts_clash c d)) (\<lambda>_.
          Inr (ba_id c, s\<lparr>bank_accounts := bank_accounts s @ [c]\<rparr>))))))"

definition destroy_card :: "nat \<Rightarrow> nat \<Rightarrow> ('z) bank_db_scheme \<Rightarrow> (unit \<times> ('z) bank_db_scheme) result" where
  "destroy_card user i s =
     bindE (the_or NotFound (List.find (\<lambda>c. bc_id c = i) (live_cards s user))) (\<lambda>c.
     bindE (guardE ValidationErr (bc_verified c \<noteq> None)) (\<lambda>_.
     bindE (guardE ValidationErr (\<exists>d\<in>set (live_cards s user). bc_id d \<noteq> i)) (\<lambda>_.
     bindE (guardE ValidationErr (\<not> (bc_verified c = Some True
              \<and> length (filter (\<lambda>d. bc_verified d = Some True) (live_cards s user)) = 1))) (\<lambda>_.
     save_card i (\<lambda>c. c\<lparr>bc_deleted := True\<rparr>) s))))"

definition destroy_account :: "nat \<Rightarrow> nat \<Rightarrow> ('z) bank_db_scheme \<Rightarrow> (unit \<times> ('z) bank_db_scheme) result" where
  "destroy_account user i s =
     bindE (the_or NotFound (List.find (\<lambda>c. ba_id c = i) (live_accounts s user))) (\<lambda>c.
     bindE (guardE ValidationErr (ba_verified c \<noteq> None)) (\<lambda>_.
     bindE (guardE ValidationErr (\<exists>d\<in>set (live_accounts s user). ba_id d \<noteq> i)) (\<lambda>_.
     bindE (guardE ValidationErr (\<not> (ba_verified c = Some True
              \<and> length (filter (\<lambda>d. ba_verified d = Some True) (live_accounts s user)) = 1))) (\<lambda>_.
     save_account i (\<lambda>c. c\<lparr>ba_deleted := True\<rparr>) s))))"

section \<open>Verifying cards and accounts\<close>

definition update_bank_card_info :: "nat \<Rightarrow> card_info \<Rightarrow> ('z) bank_db_scheme \<Rightarrow> (unit \<times> ('z) bank_db_scheme) result" where
  "update_bank_card_info i d s =
     save_card i (\<lambda>c. c\<lparr>bc_bank := ca_bank d, bc_type := ca_type d, owner_name := ca_owner d, bc_deposit_number := ca_deposit d\<rparr>) s"

definition stored_user :: "nat \<Rightarrow> ('z) transfer_db_scheme \<Rightarrow> user_row result" where
  "stored_user i s = the_or DoesNotExist (find_user s i)"

definition duplicated_card :: "('z) bank_db_scheme \<Rightarrow> bank_card \<Rightarrow> bool" where
  "duplicated_card s c \<longleftrightarrow>
     (\<exists>d\<in>set (bank_cards s). \<not> bc_deleted d \<and> card_pan d = card_pan c \<and> bc_verified d = Some True \<and> bc_id d \<noteq> bc_id c)"

definition duplicated_account :: "('z) bank_db_scheme \<Rightarrow> bank_account \<Rightarrow> bool" where
  "duplicated_account s c \<longleftrightarrow>
     (\<exists>d\<in>set (bank_accounts s). \<not> ba_deleted d \<and> iban d = iban c \<and> ba_verified d = Some True \<and> ba_id d \<noteq> ba_id c)"

text \<open>
  What a verification does that a timeout or an error of the server may interrupt: it is tried again
  \<open>n\<close> times, and answers \<open>None\<close> at last.
\<close>

primrec retrying :: "nat \<Rightarrow> ('s \<Rightarrow> ('s, 'a option) outcome) \<Rightarrow> 's \<Rightarrow> ('s, 'a option) outcome" where
  "retrying 0 f s =
     (case f s of (s, Inl e) \<Rightarrow> (s, if e \<in> {TimeoutErr, ServerError} then Inr None else Inl e) | (s, Inr a) \<Rightarrow> (s, Inr a))"
| "retrying (Suc n) f s =
     (case f s of (s, Inl e) \<Rightarrow> if e \<in> {TimeoutErr, ServerError} then retrying n f s else (s, Inl e) | (s, Inr a) \<Rightarrow> (s, Inr a))"

definition verify_bank_card_once ::
  "('y) jibit_env_scheme \<Rightarrow> int \<Rightarrow> nat \<Rightarrow> ('z) bank_db_scheme \<Rightarrow> (('z) bank_db_scheme, bool option) outcome" where
  "verify_bank_card_once env now' i s =
     next_step (look s (card_row s i)) (\<lambda>c s.
     if bc_verified c = Some True then (s, Inr None)
     else if duplicated_card s c
     then next_step (attempt s (reject_card i DUPLICATED s)) (\<lambda>_ s. (s, Inr (Some False)))
     else
       next_step (look s (stored_user (bc_user c) s)) (\<lambda>u s.
       next_step (get_card_info env now' (bc_user c) (card_pan c) s) (\<lambda>(d, code, success) s.
       if success then
         next_step (attempt s (update_bank_card_info i d s)) (\<lambda>_ s.
         if ban_credit_cards u \<and> ca_type d \<in> set CREDIT_FAMILY_TYPES
         then next_step (attempt s (reject_card i CREDIT_CARD s)) (\<lambda>_ s. (s, Inr (Some False)))
         else if \<not> name_similarity (get_legal_name u) (ca_owner d)
         then next_step (attempt s (reject_card i NAME_MISMATCH s)) (\<lambda>_ s. (s, Inr (Some False)))
         else next_step (attempt s (accept_card i s)) (\<lambda>_ s. (s, Inr (Some True))))
       else if code = INVALID_DATA
       then next_step (attempt s (reject_card i code s)) (\<lambda>_ s. (s, Inr (Some False)))
       else (s, Inr None))))"

definition verify_bank_card ::
  "('y) jibit_env_scheme \<Rightarrow> int \<Rightarrow> nat \<Rightarrow> nat \<Rightarrow> ('z) bank_db_scheme \<Rightarrow> (('z) bank_db_scheme, bool option) outcome" where
  "verify_bank_card env now' i retry = retrying retry (verify_bank_card_once env now' i)"

definition verify_bank_card_task ::
  "('y) jibit_env_scheme \<Rightarrow> int \<Rightarrow> nat \<Rightarrow> ('z) bank_db_scheme \<Rightarrow> (('z) bank_db_scheme, bool option) outcome" where
  "verify_bank_card_task env now' i s =
     next_step (look s (the_or DoesNotExist (List.find (\<lambda>c. bc_id c = i \<and> \<not> bc_deleted c) (bank_cards s)))) (\<lambda>_ s.
     verify_bank_card env now' i 2 s)"

definition DEPOSIT_STATUS_MAP :: "(string \<times> deposit_state) list" where
  "DEPOSIT_STATUS_MAP =
    [(''ACTIVE'', ACC_ACTIVE), (''BLOCK_WITH_DEPOSIT'', ACC_SUSPEND), (''BLOCK_WITHOUT_DEPOSIT'', ACC_NSUSPEND),
     (''IDLE'', ACC_STAGNANT), (''UNKNOWN'', ACC_UNKNOWN)]"

definition deposit_status_of :: "string \<Rightarrow> deposit_state" where
  "deposit_status_of t = (case map_of DEPOSIT_STATUS_MAP t of Some d \<Rightarrow> d | None \<Rightarrow> ACC_NONE)"

text \<open>An account is verified when it is active and its first owner is the user.\<close>

definition owner_verified :: "user_row \<Rightarrow> iban_info \<Rightarrow> bool" where
  "owner_verified u d \<longleftrightarrow> deposit_status_of (ia_status d) = ACC_ACTIVE
     \<and> (case ia_owners d of (forename, family) # _ \<Rightarrow> name_similarity (forename @ SPACE # family) (get_legal_name u) | [] \<Rightarrow> False)"

definition verify_bank_account_once ::
  "('y) jibit_env_scheme \<Rightarrow> int \<Rightarrow> nat \<Rightarrow> ('z) bank_db_scheme \<Rightarrow> (('z) bank_db_scheme, bool option) outcome" where
  "verify_bank_account_once env now' i s =
     next_step (look s (bank_account_row s i)) (\<lambda>c s.
     if duplicated_account s c
     then next_step (attempt s (save_account i (\<lambda>c. c\<lparr>ba_verified := Some False\<rparr>) s)) (\<lambda>_ s. (s, Inr (Some False)))
     else
       next_step (get_iban_info env now' (ba_user c) (iban c) s) (\<lambda>(d, code, success) s.
       if \<not> success then
         (if code = ''INVALID_IBAN''
          then next_step (attempt s (save_account i (\<lambda>c. c\<lparr>ba_verified := Some False\<rparr>) s)) (\<lambda>_ s. (s, Inr (Some False)))
          else (s, Inr None))
       else
         next_step (look s (stored_user (ba_user c) s)) (\<lambda>u s.
         let verified = owner_verified u d in
         next_step (attempt s (save_account i (\<lambda>c. c\<lparr>ba_bank := ia_bank d, ba_deposit_address := ia_deposit d,
             ba_deposit_status := deposit_status_of (ia_status d), ba_owners := ia_owners d, ba_verified := Some verified\<rparr>) s)) (\<lambda>_ s.
         (s, Inr (Some verified))))))"

definition verify_bank_account ::
  "('y) jibit_env_scheme \<Rightarrow> int \<Rightarrow> nat \<Rightarrow> nat \<Rightarrow> ('z) bank_db_scheme \<Rightarrow> (('z) bank_db_scheme, bool option) outcome" where
  "verify_bank_account env now' i retry = retrying retry (verify_bank_account_once env now' i)"

definition verify_bank_account_task ::
  "('y) jibit_env_scheme \<Rightarrow> int \<Rightarrow> nat \<Rightarrow> ('z) bank_db_scheme \<Rightarrow> (('z) bank_db_scheme, bool option) outcome" where
  "verify_bank_account_task env now' i s =
     next_step (look s (the_or DoesNotExist (List.find (\<lambda>c. ba_id c = i \<and> \<not> ba_deleted c) (bank_accounts s)))) (\<lambda>_ s.
     verify_bank_account env now' i 2 s)"

end
