(* ===== verification/Identity.thy ===== *)
theory Identity
  imports Banks
begin

text \<open>
  The levels of a user and how they rise (\<^verbatim>\<open>accounts/models/user.py\<close>): saving a user whose status is
  pending may verify or reject him at once, and verifying or rejecting saves him again. The recursion
  runs on the user alone; what it reads besides is fixed while it runs.
\<close>

section \<open>Saving and changing the status\<close>

text \<open>
  Whether another user of level 2 has a national code, the state of the user's cards, the time.
\<close>

record verify_context =
  vc_taken :: "string \<Rightarrow> bool"
  vc_card :: "bool option"
  vc_now :: int

definition NATIONAL_CODE_DUPLICATED :: string where
  "NATIONAL_CODE_DUPLICATED = ''duplicated-national-code''"

definition get_level2_verify_fields :: "verify_context \<Rightarrow> user_row \<Rightarrow> bool option list" where
  "get_level2_verify_fields v u =
     [Some (national_code u \<noteq> []), Some (birth_date u \<noteq> None), birth_date_verified u,
      Some (first_name u \<noteq> []), first_name_verified u, Some (last_name u \<noteq> []), last_name_verified u, vc_card v]"

definition level_up :: "verify_context \<Rightarrow> user_row \<Rightarrow> user_row" where
  "level_up v u =
     (let u = u\<lparr>us_level := us_level u + 1\<rparr>;
          u = (if us_level u = 2 then u\<lparr>level_2_verify_datetime := Some (vc_now v)\<rparr>
               else if us_level u = 3 then u\<lparr>level_3_verify_datetime := Some (vc_now v)\<rparr> else u)
      in u\<lparr>us_archived := False\<rparr>)"

fun save_rank :: "user_row \<Rightarrow> nat" where
  "save_rank u = (if us_verify_status u = V_PENDING then 8 else 0)"

fun status_rank :: "verify_status \<Rightarrow> nat" where
  "status_rank V_VERIFIED = 3"
| "status_rank V_PENDING = 10"
| "status_rank V_INIT = 2"
| "status_rank V_REJECTED = 2"

lemma level_up_status [simp]: "us_verify_status (level_up v u) = us_verify_status u"
  by (simp add: level_up_def Let_def)

lemma status_rank_positive [simp]: "0 < status_rank st"
  by (cases st) simp_all

text \<open>The ranks above bound the depth of the recursion.\<close>

function after_save :: "verify_context \<Rightarrow> user_row \<Rightarrow> user_row"
  and change_user_status :: "verify_context \<Rightarrow> verify_status \<Rightarrow> string \<Rightarrow> user_row \<Rightarrow> user_row"
  and verify_level2_if_not :: "verify_context \<Rightarrow> user_row \<Rightarrow> user_row"
  and reject_level2_if_should :: "verify_context \<Rightarrow> user_row \<Rightarrow> user_row" where
  "after_save v u =
     (if us_level u = 2 \<and> us_verify_status u = V_PENDING then
        if national_code_phone_verified u = Some True \<and> selfie_image_verified u = Some True
        then change_user_status v V_VERIFIED [] u
        else if selfie_image_verified u = Some False then change_user_status v V_REJECTED [] u
        else u
      else if us_level u = 1 \<and> us_verify_status u = V_PENDING
      then verify_level2_if_not v (reject_level2_if_should v u)
      else u)"
| "change_user_status v status reason u =
     (if us_verify_status u \<noteq> V_VERIFIED \<and> status = V_VERIFIED then
        let u = u\<lparr>us_verify_status := V_INIT\<rparr> in
        if us_level u = 1 \<and> vc_taken v (national_code u)
        then change_user_status v V_REJECTED NATIONAL_CODE_DUPLICATED
               (after_save v (u\<lparr>us_verify_status := V_INIT, national_code_verified := Some False\<rparr>))
        else after_save v (level_up v (u\<lparr>us_verify_status := V_INIT\<rparr>))
      else if us_verify_status u \<noteq> V_REJECTED \<and> status = V_REJECTED
      then after_save v (u\<lparr>us_verify_status := V_REJECTED, us_reject_reason := reason\<rparr>)
      else after_save v (u\<lparr>us_verify_status := status, us_archived := False\<rparr>))"
| "verify_level2_if_not v u =
     (if us_level u = 1 \<and> list_all (\<lambda>f. f = Some True) (get_level2_verify_fields v u)
      then change_user_status v V_VERIFIED [] u else u)"
| "reject_level2_if_should v u =
     (if us_level u = 1 \<and> us_verify_status u = V_PENDING
         \<and> \<not> list_all (\<lambda>f. f = Some True) (get_level2_verify_fields v u)
         \<and> None \<notin> set (get_level2_verify_fields v u)
      then change_user_status v V_REJECTED [] u else u)"
  by pat_completeness auto

termination
  by (relation "measure (case_sum (case_sum (\<lambda>(v, u). save_rank u) (\<lambda>(v, st, r, u). status_rank st)) (\<lambda>_. 5))") auto

declare after_save.simps [simp del] change_user_status.simps [simp del]
  verify_level2_if_not.simps [simp del] reject_level2_if_should.simps [simp del]

section \<open>The recursion in closed form\<close>

lemma after_save_idle [simp]: "us_verify_status u \<noteq> V_PENDING \<Longrightarrow> after_save v u = u"
  by (simp add: after_save.simps)

text \<open>What verifying and rejecting come to.\<close>

definition verified_row :: "verify_context \<Rightarrow> user_row \<Rightarrow> user_row" where
  "verified_row v u =
     (if us_verify_status u = V_VERIFIED then u\<lparr>us_archived := False\<rparr>
      else if us_level u = 1 \<and> vc_taken v (national_code u)
      then u\<lparr>us_verify_status := V_REJECTED, national_code_verified := Some False, us_reject_reason := NATIONAL_CODE_DUPLICATED\<rparr>
      else level_up v (u\<lparr>us_verify_status := V_INIT\<rparr>))"

definition rejected_row :: "string \<Rightarrow> user_row \<Rightarrow> user_row" where
  "rejected_row reason u =
     (if us_verify_status u = V_REJECTED then u\<lparr>us_archived := False\<rparr>
      else u\<lparr>us_verify_status := V_REJECTED, us_reject_reason := reason\<rparr>)"

lemma change_rejected: "change_user_status v V_REJECTED reason u = rejected_row reason u"
  by (simp add: change_user_status.simps rejected_row_def)

lemma change_verified: "change_user_status v V_VERIFIED reason u = verified_row v u"
  by (simp add: change_user_status.simps [of v V_VERIFIED] verified_row_def change_rejected rejected_row_def Let_def)

definition level2_ready :: "verify_context \<Rightarrow> user_row \<Rightarrow> bool" where
  "level2_ready v u \<longleftrightarrow> list_all (\<lambda>f. f = Some True) (get_level2_verify_fields v u)"

definition pending_row :: "verify_context \<Rightarrow> user_row \<Rightarrow> user_row" where
  "pending_row v u =
     (if us_level u = 2 then
        if national_code_phone_verified u = Some True \<and> selfie_image_verified u = Some True then verified_row v u
        else if selfie_image_verified u = Some False then rejected_row [] u else u
      else if us_level u = 1 then
        if level2_ready v u then verified_row v u
        else if None \<notin> set (get_level2_verify_fields v u) then rejected_row [] u else u
      else u)"

lemma ready_rejected [simp]: "level2_ready v (rejected_row r u) = level2_ready v u"
  by (simp add: level2_ready_def get_level2_verify_fields_def rejected_row_def)

lemma level_rejected [simp]: "us_level (rejected_row r u) = us_level u"
  by (simp add: rejected_row_def)

lemma after_save_pending: "us_verify_status u = V_PENDING \<Longrightarrow> after_save v u = pending_row v u"
  by (simp add: after_save.simps [of v u] pending_row_def verify_level2_if_not.simps reject_level2_if_should.simps
      change_verified change_rejected flip: level2_ready_def)

lemma after_save_cases: "after_save v u = (if us_verify_status u = V_PENDING then pending_row v u else u)"
  by (simp add: after_save_pending)

lemma change_pending: "change_user_status v V_PENDING reason u = pending_row v (u\<lparr>us_verify_status := V_PENDING, us_archived := False\<rparr>)"
  by (simp add: change_user_status.simps [of v V_PENDING] after_save_pending)

section \<open>Users in the database\<close>

definition code_taken :: "nat \<Rightarrow> ('z) transfer_db_scheme \<Rightarrow> string \<Rightarrow> bool" where
  "code_taken i s code \<longleftrightarrow> (\<exists>u\<in>set (users s). us_account u \<noteq> i \<and> 2 \<le> us_level u \<and> national_code u = code)"

definition card_state :: "nat \<Rightarrow> ('z) bank_db_scheme \<Rightarrow> bool option" where
  "card_state i s =
     (if \<exists>c\<in>set (live_cards s i). bc_verified c = Some True then Some True
      else if \<exists>c\<in>set (live_cards s i). bc_verified c = None then None else Some False)"

definition context_of :: "int \<Rightarrow> nat \<Rightarrow> ('z) bank_db_scheme \<Rightarrow> verify_context" where
  "context_of now' i s = \<lparr>vc_taken = code_taken i s, vc_card = card_state i s, vc_now = now'\<rparr>"

text \<open>\<^verbatim>\<open>User.save\<close> of some fields, \<^verbatim>\<open>change_status\<close> and \<^verbatim>\<open>verify_level2_if_not\<close> on a stored user.\<close>

definition save_user :: "int \<Rightarrow> nat \<Rightarrow> (user_row \<Rightarrow> user_row) \<Rightarrow> ('z) bank_db_scheme \<Rightarrow> ('z) bank_db_scheme" where
  "save_user now' i f s = set_user i (\<lambda>u. after_save (context_of now' i s) (f u)) s"

definition set_status :: "int \<Rightarrow> nat \<Rightarrow> verify_status \<Rightarrow> string \<Rightarrow> ('z) bank_db_scheme \<Rightarrow> ('z) bank_db_scheme" where
  "set_status now' i status reason s = set_user i (change_user_status (context_of now' i s) status reason) s"

definition verify_level2 :: "int \<Rightarrow> nat \<Rightarrow> ('z) bank_db_scheme \<Rightarrow> ('z) bank_db_scheme" where
  "verify_level2 now' i s = set_user i (verify_level2_if_not (context_of now' i s)) s"

text \<open>\<^verbatim>\<open>User.kyc_bank_card\<close>, a deleted one included.\<close>

definition kyc_bank_card :: "('z) bank_db_scheme \<Rightarrow> nat \<Rightarrow> bank_card option" where
  "kyc_bank_card s i =
     (case sort_key bc_id (filter (\<lambda>c. bc_user c = i \<and> bc_kyc c) (bank_cards s)) of c # _ \<Rightarrow> Some c | [] \<Rightarrow> None)"

section \<open>Level 2: the basic data\<close>

record basic_input =
  bi_national_code :: string
  bi_birth_date :: int
  bi_first_name :: utext
  bi_last_name :: utext
  bi_card_pan :: string

definition update_or_create_kyc_card ::
  "nat \<Rightarrow> string \<Rightarrow> ('z) bank_db_scheme \<Rightarrow> (nat \<times> ('z) bank_db_scheme) result" where
  "update_or_create_kyc_card i pan s =
     (case List.find (\<lambda>c. card_pan c = pan) (live_cards s i) of
        Some c \<Rightarrow> bindE (save_card (bc_id c) (\<lambda>c. c\<lparr>bc_kyc := True\<rparr>) s) (\<lambda>(_, s). Inr (bc_id c, s))
      | None \<Rightarrow> insert_card ((new_card (fresh_id (map bc_id (bank_cards s))) i pan)\<lparr>bc_kyc := True\<rparr>) s)"

definition get_kyc_bank_card :: "nat \<Rightarrow> string \<Rightarrow> ('z) bank_db_scheme \<Rightarrow> (('z) bank_db_scheme, nat) outcome" where
  "get_kyc_bank_card i pan s =
     next_step (look s (guardE ValidationErr
       (\<not> (\<exists>c\<in>set (live_cards s i). bc_kyc c \<and> bc_verified c = Some True \<and> card_pan c \<noteq> pan)))) (\<lambda>_ s.
     case sort_key bc_id (filter bc_kyc (live_cards s i)) of
       c # _ \<Rightarrow>
         if card_pan c \<noteq> pan then
           let s = s\<lparr>bank_cards := map (\<lambda>d. if bc_user d = i \<and> \<not> bc_deleted d \<and> card_pan d = pan
                                            then d\<lparr>bc_deleted := True\<rparr> else d) (bank_cards s)\<rparr>
           in next_step (attempt s (save_card (bc_id c) (\<lambda>c. c\<lparr>card_pan := pan\<rparr>) s)) (\<lambda>_ s. (s, Inr (bc_id c)))
         else (s, Inr (bc_id c))
     | [] \<Rightarrow> attempt s (update_or_create_kyc_card i pan s))"

definition keep_verified :: "bool option \<Rightarrow> bool option" where
  "keep_verified b = (if b = Some True then b else None)"

text \<open>A field that is verified keeps its value; a name that is not given too.\<close>

definition write_basic_info :: "basic_input \<Rightarrow> user_row \<Rightarrow> user_row" where
  "write_basic_info b u =
     (let u = (if national_code_verified u = Some True then u
               else u\<lparr>national_code := bi_national_code b, national_code_verified := None\<rparr>);
          u = (if first_name_verified u = Some True \<or> bi_first_name b = [] then u
               else u\<lparr>first_name := clean_persian_name (bi_first_name b), first_name_verified := None\<rparr>);
          u = (if last_name_verified u = Some True \<or> bi_last_name b = [] then u
               else u\<lparr>last_name := clean_persian_name (bi_last_name b), last_name_verified := None\<rparr>)
      in if birth_date_verified u = Some True then u
         else u\<lparr>birth_date := Some (bi_birth_date b), birth_date_verified := None\<rparr>)"

definition submit_basic_info ::
  "int \<Rightarrow> nat \<Rightarrow> basic_input \<Rightarrow> ('z) bank_db_scheme \<Rightarrow> (('z) bank_db_scheme, unit) outcome" where
  "submit_basic_info now' i b s =
     (let s = save_user now' i (write_basic_info b) s;
          s = set_status now' i V_PENDING [] s
      in next_step (look s (stored_user i s)) (\<lambda>u s.
         if code_taken i s (national_code u)
         then (set_status now' i V_REJECTED NATIONAL_CODE_DUPLICATED
                 (save_user now' i (\<lambda>u. u\<lparr>national_code_verified := Some False\<rparr>) s), Inl ValidationErr)
         else (s, Inr ())))"

definition update_basic_info ::
  "int \<Rightarrow> int \<Rightarrow> nat \<Rightarrow> basic_input \<Rightarrow> ('z) bank_db_scheme \<Rightarrow> (('z) bank_db_scheme, unit) outcome" where
  "update_basic_info now' today i b s =
     next_step (look s (bank_card_pan_validator (bi_card_pan b))) (\<lambda>_ s.
     next_step (look s (national_card_code_validator (bi_national_code b))) (\<lambda>_ s.
     next_step (look s (stored_user i s)) (\<lambda>u s.
     next_step (look s (guardE ValidationErr (us_verify_status u \<notin> {V_PENDING, V_VERIFIED} \<and> us_level u \<le> 1
                          \<and> get_verify_weight i s < MAX_WEIGHT))) (\<lambda>_ s.
     next_step (look s (guardE ValidationErr (15 * 365 \<le> today - bi_birth_date b \<and> today - bi_birth_date b \<le> 120 * 365))) (\<lambda>_ s.
     next_step (get_kyc_bank_card i (bi_card_pan b) s) (\<lambda>c s.
     next_step (attempt s (save_card c (\<lambda>c. c\<lparr>bc_verified := keep_verified (bc_verified c)\<rparr>) s)) (\<lambda>_ s.
     submit_basic_info now' i b s)))))))"

text \<open>Writing down whether the data and the card belong to one person.\<close>

definition note_identity ::
  "int \<Rightarrow> nat \<Rightarrow> nat \<Rightarrow> bool option \<Rightarrow> bool option \<Rightarrow> ('z) bank_db_scheme \<Rightarrow> (('z) bank_db_scheme, bool option) outcome" where
  "note_identity now' i c' identity_matched card_matched s =
     (let s = save_user now' i (\<lambda>u. u\<lparr>national_code_verified := identity_matched, birth_date_verified := identity_matched\<rparr>) s in
      next_step (attempt s (save_card c' (\<lambda>c. c\<lparr>bc_verified := card_matched\<rparr>) s)) (\<lambda>_ s.
      if identity_matched = Some False \<or> card_matched = Some False
      then (set_status now' i V_REJECTED [] s, Inr (Some False))
      else (verify_level2 now' i s, Inr (Some True))))"

definition verify_bank_card_by_national_code_once ::
  "('y) jibit_env_scheme \<Rightarrow> int \<Rightarrow> nat \<Rightarrow> ('z) bank_db_scheme \<Rightarrow> (('z) bank_db_scheme, bool option) outcome" where
  "verify_bank_card_by_national_code_once env now' c' s =
     next_step (look s (card_row s c')) (\<lambda>c s.
     let i = bc_user c in
     next_step (look s (stored_user i s)) (\<lambda>u s.
     if national_code_verified u = Some True \<and> birth_date_verified u = Some True \<and> bc_verified c = Some True then (s, Inr (Some True))
     else if national_code u = [] \<or> birth_date u = None then (s, Inr (Some False))
     else if duplicated_card s c
     then next_step (attempt s (reject_card c' DUPLICATED s)) (\<lambda>_ s. (set_status now' i V_REJECTED [] s, Inr (Some False)))
     else
       next_step (matching env now' i [] (national_code u) (birth_date u) (card_pan c) s) (\<lambda>(matched', code, success) s.
       if \<not> success \<and> code \<noteq> INVALID_DATA then (s, Inr None)
       else note_identity now' i c' (if success then (if matched' then Some True else None) else Some False)
              (if success then Some matched' else None) s)))"

definition verify_bank_card_by_national_code ::
  "('y) jibit_env_scheme \<Rightarrow> int \<Rightarrow> nat \<Rightarrow> nat \<Rightarrow> ('z) bank_db_scheme \<Rightarrow> (('z) bank_db_scheme, bool option) outcome" where
  "verify_bank_card_by_national_code env now' c retry = retrying retry (verify_bank_card_by_national_code_once env now' c)"

text \<open>The owner of the verified card gives the user his name.\<close>

definition name_of_owner :: "utext \<Rightarrow> user_row \<Rightarrow> user_row" where
  "name_of_owner owner u =
     (let (forename, family) = split_names owner;
          u = u\<lparr>first_name := forename, last_name := family\<rparr>
      in if forename \<noteq> [] \<and> family \<noteq> [] then u\<lparr>first_name_verified := Some True, last_name_verified := Some True\<rparr> else u)"

definition note_owner :: "int \<Rightarrow> nat \<Rightarrow> utext \<Rightarrow> ('z) bank_db_scheme \<Rightarrow> (('z) bank_db_scheme, bool option) outcome" where
  "note_owner now' i owner s =
     (let s = save_user now' i (name_of_owner owner) s in
      if fst (split_names owner) \<noteq> [] \<and> snd (split_names owner) \<noteq> []
      then (verify_level2 now' i s, Inr (Some True)) else (s, Inr None))"

definition verify_name_by_bank_card_once ::
  "('y) jibit_env_scheme \<Rightarrow> int \<Rightarrow> nat \<Rightarrow> ('z) bank_db_scheme \<Rightarrow> (('z) bank_db_scheme, bool option) outcome" where
  "verify_name_by_bank_card_once env now' c' s =
     next_step (look s (card_row s c')) (\<lambda>c s.
     if \<not> bc_kyc c then (s, Inr (Some False))
     else
       let i = bc_user c in
       next_step (look s (stored_user i s)) (\<lambda>u s.
       if first_name_verified u = Some True \<and> last_name_verified u = Some True then (s, Inr (Some True))
       else
         next_step (get_card_info env now' i (card_pan c) s) (\<lambda>(d, code, success) s.
         if success then
           next_step (attempt s (update_bank_card_info c' d s)) (\<lambda>_ s.
           note_owner now' i (ca_owner d) s)
         else if code = INVALID_DATA then
           next_step (attempt s (save_card c' (\<lambda>c. c\<lparr>bc_verified := Some False, bc_reject_reason := code\<rparr>) s)) (\<lambda>_ s.
           (set_status now' i V_REJECTED [] s, Inr (Some False)))
         else (s, Inr None))))"

definition verify_name_by_bank_card ::
  "('y) jibit_env_scheme \<Rightarrow> int \<Rightarrow> nat \<Rightarrow> nat \<Rightarrow> ('z) bank_db_scheme \<Rightarrow> (('z) bank_db_scheme, bool option) outcome" where
  "verify_name_by_bank_card env now' c retry = retrying retry (verify_name_by_bank_card_once env now' c)"

definition basic_verify :: "('y) jibit_env_scheme \<Rightarrow> int \<Rightarrow> nat \<Rightarrow> ('z) bank_db_scheme \<Rightarrow> (('z) bank_db_scheme, unit) outcome" where
  "basic_verify env now' i s =
     next_step (look s (stored_user i s)) (\<lambda>u s.
     if us_level u \<noteq> 1 then (s, Inr ())
     else case kyc_bank_card s i of
       None \<Rightarrow> (s, Inr ())
     | Some c \<Rightarrow>
         next_step (if national_code_verified u \<noteq> Some True \<or> birth_date_verified u \<noteq> Some True \<or> bc_verified c \<noteq> Some True
                    then verify_bank_card_by_national_code env now' (bc_id c) 2 s else (s, Inr (Some True))) (\<lambda>r s.
         if r \<noteq> Some True then (s, Inr ())
         else
           next_step (look s (card_row s (bc_id c))) (\<lambda>c s.
           next_step (look s (stored_user i s)) (\<lambda>u s.
           next_step (if bc_verified c = Some True \<and> (first_name_verified u \<noteq> Some True \<or> last_name_verified u \<noteq> Some True)
                      then verify_name_by_bank_card env now' (bc_id c) 2 s else (s, Inr (Some True))) (\<lambda>r s.
           if r \<noteq> Some True then (s, Inr ()) else (verify_level2 now' i s, Inr ()))))))"

section \<open>Level 3: phone and selfie\<close>

definition shahkar_check ::
  "('y) jibit_env_scheme \<Rightarrow> int \<Rightarrow> nat \<Rightarrow> string \<Rightarrow> string \<Rightarrow> ('z) bank_db_scheme \<Rightarrow> (('z) bank_db_scheme, bool option) outcome" where
  "shahkar_check env now' i phone code s =
     next_step (matching env now' i phone code None [] s) (\<lambda>(matched', result, success) s.
     (s, Inr (if success then Some matched' else if result = INVALID_DATA then Some False else None)))"

definition verify_national_code_with_phone ::
  "('y) jibit_env_scheme \<Rightarrow> int \<Rightarrow> nat \<Rightarrow> string \<Rightarrow> nat \<Rightarrow> ('z) bank_db_scheme \<Rightarrow> (('z) bank_db_scheme, bool option) outcome" where
  "verify_national_code_with_phone env now' i phone retry s =
     next_step (look s (stored_user i s)) (\<lambda>u s.
     if us_level u \<noteq> 2 \<or> national_code u = [] then (s, Inr (Some False))
     else
       next_step (retrying retry (shahkar_check env now' i phone (national_code u)) s) (\<lambda>verified s.
       (if verified = None then s else save_user now' i (\<lambda>u. u\<lparr>national_code_phone_verified := verified\<rparr>) s, Inr verified)))"

definition update_full_verification :: "int \<Rightarrow> nat \<Rightarrow> ('z) bank_db_scheme \<Rightarrow> ('z) bank_db_scheme result" where
  "update_full_verification now' i s =
     bindE (stored_user i s) (\<lambda>u.
     bindE (guardE ValidationErr (us_verify_status u \<notin> {V_PENDING, V_VERIFIED} \<and> us_level u < 3 \<and> us_level u \<noteq> 1)) (\<lambda>_.
     if selfie_image_verified u = Some True \<and> national_code_phone_verified u = Some True
     then Inr (set_status now' i V_VERIFIED [] s)
     else
       let s = (if selfie_image_verified u = Some True then s
                else save_user now' i (\<lambda>u. u\<lparr>selfie_image_verified := None\<rparr>) s)
       in Inr (set_status now' i V_PENDING [] s)))"

section \<open>The staff\<close>

datatype user_action = VERIFY_USER_NAME | VERIFY_USER | REJECT_USER | REJECT_USER_NAME | ARCHIVE_USERS | UNARCHIVE_USERS

definition chosen :: "user_action \<Rightarrow> user_row \<Rightarrow> bool" where
  "chosen a u =
     (case a of
        VERIFY_USER_NAME \<Rightarrow> us_level u = 1 \<and> first_name u \<noteq> [] \<and> last_name u \<noteq> []
      | REJECT_USER_NAME \<Rightarrow> us_level u = 1 \<and> us_verify_status u = V_PENDING
      | ARCHIVE_USERS \<Rightarrow> True
      | UNARCHIVE_USERS \<Rightarrow> True
      | _ \<Rightarrow> us_level u = 1 \<and> us_verify_status u \<in> {V_INIT, V_PENDING})"

definition act_on_user :: "int \<Rightarrow> user_action \<Rightarrow> nat \<Rightarrow> ('z) bank_db_scheme \<Rightarrow> ('z) bank_db_scheme" where
  "act_on_user now' a i s =
     (case a of
        VERIFY_USER_NAME \<Rightarrow> save_user now' i (\<lambda>u. u\<lparr>first_name_verified := Some True, last_name_verified := Some True\<rparr>) s
      | VERIFY_USER \<Rightarrow> set_status now' i V_VERIFIED [] s
      | ARCHIVE_USERS \<Rightarrow> set_user i (\<lambda>u. u\<lparr>us_archived := True\<rparr>) s
      | UNARCHIVE_USERS \<Rightarrow> set_user i (\<lambda>u. u\<lparr>us_archived := False\<rparr>) s
      | _ \<Rightarrow> set_status now' i V_REJECTED [] s)"

definition user_panel :: "int \<Rightarrow> user_action \<Rightarrow> nat list \<Rightarrow> ('z) bank_db_scheme \<Rightarrow> ('z) bank_db_scheme" where
  "user_panel now' a ids s =
     fold (\<lambda>u. act_on_user now' a (us_account u)) (filter (\<lambda>u. us_account u \<in> set ids \<and> chosen a u) (users s)) s"

definition verify_card_manual :: "int \<Rightarrow> nat \<Rightarrow> ('z) bank_db_scheme \<Rightarrow> (unit \<times> ('z) bank_db_scheme) result" where
  "verify_card_manual now' c s =
     bindE (card_row s c) (\<lambda>r.
     bindE (save_card c (\<lambda>c. c\<lparr>bc_verified := Some True\<rparr>) s) (\<lambda>(_, s). Inr ((), verify_level2 now' (bc_user r) s)))"

definition reject_pending :: "int \<Rightarrow> nat \<Rightarrow> ('z) bank_db_scheme \<Rightarrow> ('z) bank_db_scheme" where
  "reject_pending now' i s =
     (case find_user s i of
        Some u \<Rightarrow> if us_level u = 1 \<and> us_verify_status u = V_PENDING then set_status now' i V_REJECTED [] s else s
      | None \<Rightarrow> s)"

definition reject_card_manual :: "int \<Rightarrow> nat \<Rightarrow> ('z) bank_db_scheme \<Rightarrow> (unit \<times> ('z) bank_db_scheme) result" where
  "reject_card_manual now' c s =
     bindE (card_row s c) (\<lambda>r.
     bindE (save_card c (\<lambda>c. c\<lparr>bc_verified := Some False\<rparr>) s) (\<lambda>(_, s). Inr ((), reject_pending now' (bc_user r) s)))"

definition verify_account_manual :: "int \<Rightarrow> nat \<Rightarrow> ('z) bank_db_scheme \<Rightarrow> (unit \<times> ('z) bank_db_scheme) result" where
  "verify_account_manual now' c s =
     bindE (bank_account_row s c) (\<lambda>r.
     bindE (save_account c (\<lambda>c. c\<lparr>ba_verified := Some True\<rparr>) s) (\<lambda>(_, s). Inr ((), verify_level2 now' (ba_user r) s)))"

definition reject_account_manual :: "int \<Rightarrow> nat \<Rightarrow> nat \<Rightarrow> ('z) bank_db_scheme \<Rightarrow> (unit \<times> ('z) bank_db_scheme) result" where
  "reject_account_manual now' staff c s =
     bindE (bank_account_row s c) (\<lambda>r.
     bindE (save_account c (\<lambda>c. c\<lparr>ba_verified := Some False, rejected_by := Some staff\<rparr>) s) (\<lambda>(_, s).
     Inr ((), reject_pending now' (ba_user r) s)))"

section \<open>Banning credit cards\<close>

text \<open>
  \<^verbatim>\<open>User.ban_deposit_by_credit_cards\<close>: the verified cards of a credit type are rejected and those of
  unknown type are open again.
\<close>

definition verified_cards :: "('z) bank_db_scheme \<Rightarrow> nat \<Rightarrow> bank_card list" where
  "verified_cards s user = filter (\<lambda>c. bc_verified c = Some True) (live_cards s user)"

definition ban_deposit_by_credit_cards :: "int \<Rightarrow> nat \<Rightarrow> ('z) bank_db_scheme \<Rightarrow> ('z) bank_db_scheme result" where
  "ban_deposit_by_credit_cards now' user s =
     (let s = save_user now' user (\<lambda>u. u\<lparr>ban_credit_cards := True\<rparr>) s in
      bindE (foldE (\<lambda>s c. bindE (reject_card (bc_id c) CREDIT_CARD s) (\<lambda>(_, s). Inr s)) s
               (filter (\<lambda>c. bc_type c \<in> set CREDIT_FAMILY_TYPES) (verified_cards s user))) (\<lambda>s.
      foldE (\<lambda>s c. bindE (save_card (bc_id c) (\<lambda>c. c\<lparr>bc_verified := None\<rparr>) s) (\<lambda>(_, s). Inr s)) s
        (filter (\<lambda>c. bc_type c = []) (verified_cards s user))))"

end
