(* ===== verification/Identity_Properties.thy ===== *)
theory Identity_Properties
  imports Identity Otc_Properties
begin

text \<open>
  Which users reach level 2: no two with one national code, and without the manual verification by
  the staff only those whose name and birth date are verified. A card that is not verified is never
  rejected by its verification.
\<close>

section \<open>What calling the service leaves alone\<close>

definition only_requests :: "('z) jibit_db_scheme \<Rightarrow> ('z) jibit_db_scheme \<Rightarrow> bool" where
  "only_requests s t \<longleftrightarrow> t = s\<lparr>auth_requests := auth_requests t\<rparr>"

lemma only_requests_refl [simp]: "only_requests s s"
  by (simp add: only_requests_def)

lemma collect_api_frame: "only_requests s (fst (collect_api env now' renew user path key weight s))"
proof (induction env now' renew user path key weight s rule: collect_api.induct)
  case (1 env now' renew user path key weight s)
  note IH = 1
  let ?i = "fresh_id (map ar_id (auth_requests s))"
  let ?r = "\<lparr>ar_id = ?i, ar_created = now', ar_user = user, ar_url = path, ar_search_key = [], ar_status_code = 0,
             ar_response = No_response, ar_weight = weight\<rparr>"
  let ?s = "s\<lparr>auth_requests := auth_requests s @ [?r]\<rparr>"
  show ?case
  proof (cases "if key \<noteq> [] then stored_answer now' key s else None")
    case (Some r)
    then show ?thesis by (subst collect_api.simps) (simp split: stored_response.split)
  next
    case None
    show ?thesis
    proof (cases "\<exists>d. jibit_reply env ?i path key = Reply 403 d \<and> \<not> renew")
      case True
      then obtain d where d: "jibit_reply env ?i path key = Reply 403 d" "\<not> renew" by blast
      have "only_requests ?s (fst (collect_api env now' True user path key weight ?s))"
        by (rule IH [OF None refl refl refl d(1)]) (simp add: d(2))
      then have "only_requests s (fst (collect_api env now' True user path key weight ?s))" by (simp add: only_requests_def)
      with None d show ?thesis by (subst collect_api.simps) (simp add: Let_def)
    next
      case False
      with None show ?thesis
        by (subst collect_api.simps) (auto simp: Let_def only_requests_def save_auth_request_def split: jibit_reply.split)
    qed
  qed
qed

lemma service_frame:
  "only_requests s (fst (matching env now' user phone national birth pan s))"
  "only_requests s (fst (get_iban_info env now' user ib s))"
  "only_requests s (fst (get_card_info env now' user pan s))"
  unfolding matching_def get_iban_info_def get_card_info_def Let_def
  by (rule next_step_invariant, rule collect_api_frame, simp split: prod.split)+

lemma only_requests_bank:
  assumes "only_requests s t"
  shows "users t = users (s :: ('z) bank_db_scheme)" and "bank_cards t = bank_cards s" and "bank_accounts t = bank_accounts s"
  using arg_cong [OF assms [unfolded only_requests_def], of users] arg_cong [OF assms [unfolded only_requests_def], of bank_cards]
    arg_cong [OF assms [unfolded only_requests_def], of bank_accounts] by simp_all

section \<open>The invariant\<close>

definition basic_ok :: "user_row \<Rightarrow> bool" where
  "basic_ok u \<longleftrightarrow> national_code u \<noteq> [] \<and> birth_date u \<noteq> None \<and> birth_date_verified u = Some True
     \<and> first_name u \<noteq> [] \<and> first_name_verified u = Some True \<and> last_name u \<noteq> [] \<and> last_name_verified u = Some True"

definition codes_unique :: "('z) transfer_db_scheme \<Rightarrow> bool" where
  "codes_unique s \<longleftrightarrow> (\<forall>u\<in>set (users s). 2 \<le> us_level u \<longrightarrow> \<not> code_taken (us_account u) s (national_code u))"

text \<open>With \<open>staff\<close> the manual verification by the staff may have happened.\<close>

definition kyc_ok :: "bool \<Rightarrow> ('z) bank_db_scheme \<Rightarrow> bool" where
  "kyc_ok staff s \<longleftrightarrow> distinct (map us_account (users s)) \<and> distinct (map bc_id (bank_cards s)) \<and> codes_unique s
     \<and> (staff \<or> (\<forall>u\<in>set (users s). 2 \<le> us_level u \<longrightarrow> basic_ok u))"

lemma kyc_ok_cong:
  assumes "users t = users s" and "map bc_id (bank_cards t) = map bc_id (bank_cards s)"
  shows "kyc_ok staff t = kyc_ok staff s"
  by (simp add: kyc_ok_def codes_unique_def code_taken_def assms)

lemma kyc_only_requests [simp]: "only_requests s t \<Longrightarrow> kyc_ok staff t = kyc_ok staff s"
  by (intro kyc_ok_cong) (simp_all add: only_requests_bank)

text \<open>What may become of a user of account \<open>i\<close>.\<close>

definition user_move :: "bool \<Rightarrow> nat \<Rightarrow> ('z) bank_db_scheme \<Rightarrow> user_row \<Rightarrow> user_row \<Rightarrow> bool" where
  "user_move staff i s u w \<longleftrightarrow> us_account w = us_account u
     \<and> (2 \<le> us_level w \<longrightarrow>
          (2 \<le> us_level u \<and> national_code w = national_code u \<or> \<not> code_taken i s (national_code w))
          \<and> (staff \<or> 2 \<le> us_level u \<and> (basic_ok u \<longrightarrow> basic_ok w) \<or> basic_ok w))"

lemma set_user_users [simp]:
  "users (set_user i f s) = map (\<lambda>u. if us_account u = i then f u else u) (users s)"
  "bank_cards (set_user i f (s :: ('z) bank_db_scheme)) = bank_cards s"
  by (simp_all add: set_user_def)

lemma kyc_set_user:
  assumes "kyc_ok staff s" and move: "\<And>u. u \<in> set (users s) \<Longrightarrow> us_account u = i \<Longrightarrow> user_move staff i s u (f u)"
  shows "kyc_ok staff (set_user i f s)"
proof -
  let ?f = "\<lambda>u. if us_account u = i then f u else u"
  have ids: "us_account (?f u) = us_account u" if "u \<in> set (users s)" for u
    using move [OF that] by (simp add: user_move_def)
  then have "map us_account (map ?f (users s)) = map us_account (users s)" by simp
  moreover have "codes_unique (set_user i f s)"
  proof -
    have clash: "\<not> (2 \<le> us_level x \<and> 2 \<le> us_level y \<and> us_account y \<noteq> us_account x \<and> national_code y = national_code x)"
      if "x \<in> set (users s)" "y \<in> set (users s)" for x y
      using that assms(1) unfolding kyc_ok_def codes_unique_def code_taken_def by blast
    have fresh: "\<not> (2 \<le> us_level (f x) \<and> 2 \<le> us_level y \<and> national_code y = national_code (f x))"
      if "x \<in> set (users s)" "us_account x = i" "y \<in> set (users s)" "us_account y \<noteq> i" for x y
      using move [OF that(1,2)] that clash [OF that(1,3)] unfolding user_move_def code_taken_def by metis
    have "\<not> (2 \<le> us_level (?f x) \<and> 2 \<le> us_level (?f y) \<and> us_account (?f y) \<noteq> us_account (?f x)
          \<and> national_code (?f y) = national_code (?f x))" if mem: "x \<in> set (users s)" "y \<in> set (users s)" for x y
      using clash [OF mem] fresh [OF mem(1) _ mem(2)] fresh [OF mem(2) _ mem(1)] ids [OF mem(1)] ids [OF mem(2)]
      by (cases "us_account x = i"; cases "us_account y = i") auto
    then show ?thesis unfolding codes_unique_def code_taken_def set_user_users set_map by blast
  qed
  moreover have "staff \<or> (\<forall>u\<in>set (users (set_user i f s)). 2 \<le> us_level u \<longrightarrow> basic_ok u)"
    using assms(1) move by (auto simp: kyc_ok_def user_move_def)
  ultimately show ?thesis using assms(1) by (simp add: kyc_ok_def del: map_map)
qed

section \<open>The moves of the status machine\<close>

definition plain_write :: "bool \<Rightarrow> user_row \<Rightarrow> user_row \<Rightarrow> bool" where
  "plain_write staff u w \<longleftrightarrow> us_account w = us_account u \<and> us_level w = us_level u
     \<and> (2 \<le> us_level u \<longrightarrow> national_code w = national_code u \<and> (staff \<or> (basic_ok u \<longrightarrow> basic_ok w)))"

definition status_step :: "bool \<Rightarrow> verify_context \<Rightarrow> user_row \<Rightarrow> user_row \<Rightarrow> bool" where
  "status_step staff v w x \<longleftrightarrow> us_account x = us_account w \<and> national_code x = national_code w \<and> basic_ok x = basic_ok w
     \<and> us_level w \<le> us_level x
     \<and> (2 \<le> us_level x \<longrightarrow> 2 \<le> us_level w \<or> \<not> vc_taken v (national_code w) \<and> (staff \<or> basic_ok w))"

lemma move_of_step:
  assumes "plain_write staff u w" and "status_step staff (context_of now' i s) w x"
  shows "user_move staff i s u x"
  using assms by (auto simp: plain_write_def status_step_def user_move_def context_of_def)

lemma step_same [simp]: "status_step staff v w w"
  by (simp add: status_step_def)

lemma step_rejected [simp]: "status_step staff v w (rejected_row r w)"
  by (simp add: status_step_def rejected_row_def basic_ok_def)

lemma step_verified:
  assumes "staff \<or> us_level w \<noteq> 1 \<or> basic_ok w"
  shows "status_step staff v w (verified_row v w)"
  using assms by (auto simp: status_step_def verified_row_def level_up_def basic_ok_def Let_def)

lemma ready_basic_ok: "level2_ready v u \<Longrightarrow> basic_ok u"
  by (simp add: level2_ready_def get_level2_verify_fields_def basic_ok_def)

lemma step_pending [simp]: "status_step staff v w (pending_row v w)"
  using ready_basic_ok [of v w] by (auto simp: pending_row_def intro: step_verified)

lemma step_after_save [simp]: "status_step staff v w (after_save v w)"
  by (simp add: after_save_cases)

lemma kyc_save_user:
  assumes "kyc_ok staff s" and "\<And>u. u \<in> set (users s) \<Longrightarrow> us_account u = i \<Longrightarrow> plain_write staff u (f u)"
  shows "kyc_ok staff (save_user now' i f s)"
  unfolding save_user_def by (rule kyc_set_user [OF assms(1)]) (rule move_of_step [OF assms(2) step_after_save])

lemma plain_same [simp]: "plain_write staff u u"
  by (simp add: plain_write_def)

lemma step_from_status:
  "status_step staff v (u\<lparr>us_verify_status := a, us_archived := b\<rparr>) x \<Longrightarrow> status_step staff v u x"
proof -
  have "basic_ok (u\<lparr>us_verify_status := a, us_archived := b\<rparr>) = basic_ok u" by (simp add: basic_ok_def)
  then show "status_step staff v (u\<lparr>us_verify_status := a, us_archived := b\<rparr>) x \<Longrightarrow> ?thesis" by (simp add: status_step_def)
qed

lemma kyc_set_status:
  assumes "kyc_ok staff s" and "st = V_VERIFIED \<Longrightarrow> staff \<or> (\<forall>u\<in>set (users s). us_account u = i \<longrightarrow> us_level u \<noteq> 1)"
  shows "kyc_ok staff (set_status now' i st r s)"
  unfolding set_status_def
proof (rule kyc_set_user [OF assms(1)])
  fix u assume u: "u \<in> set (users s)" "us_account u = i"
  let ?v = "context_of now' i s"
  have "status_step staff ?v u (change_user_status ?v st r u)"
  proof (cases st)
    case V_PENDING
    have "status_step staff ?v (u\<lparr>us_verify_status := V_PENDING, us_archived := False\<rparr>)
            (pending_row ?v (u\<lparr>us_verify_status := V_PENDING, us_archived := False\<rparr>))" by simp
    from step_from_status [OF this] V_PENDING show ?thesis by (simp add: change_pending)
  next
    case V_VERIFIED
    with assms(2) u show ?thesis by (auto simp: change_verified intro: step_verified)
  next
    case V_INIT
    then show ?thesis by (simp add: change_user_status.simps status_step_def basic_ok_def)
  qed (simp add: change_rejected)
  then show "user_move staff i s u (change_user_status ?v st r u)" by (rule move_of_step [OF plain_same])
qed

lemma kyc_verify_level2: "kyc_ok staff s \<Longrightarrow> kyc_ok staff (verify_level2 now' i s)"
  unfolding verify_level2_def
proof (rule kyc_set_user, assumption)
  fix u
  have "status_step staff v u (verify_level2_if_not v u)" for v
    using ready_basic_ok [of v u]
    by (auto simp: verify_level2_if_not.simps change_verified simp flip: level2_ready_def intro: step_verified)
  then show "user_move staff i s u (verify_level2_if_not (context_of now' i s) u)" by (rule move_of_step [OF plain_same])
qed

lemma kyc_archive: "kyc_ok staff s \<Longrightarrow> kyc_ok staff (set_user i (\<lambda>u. u\<lparr>us_archived := b\<rparr>) s)"
  by (rule kyc_set_user) (auto simp: user_move_def basic_ok_def)

lemmas kyc_moves = kyc_set_status kyc_verify_level2 kyc_save_user kyc_archive

section \<open>Cards keep the users\<close>

text \<open>What an operation on cards and accounts leaves: the users and the numbers of the cards.\<close>

definition cards_only :: "('z) bank_db_scheme \<Rightarrow> ('z) bank_db_scheme \<Rightarrow> bool" where
  "cards_only s t \<longleftrightarrow> users t = users s \<and> (distinct (map bc_id (bank_cards s)) \<longrightarrow> distinct (map bc_id (bank_cards t)))"

lemma kyc_cards_only: "cards_only s t \<Longrightarrow> kyc_ok staff s \<Longrightarrow> kyc_ok staff t"
  by (simp add: kyc_ok_def cards_only_def codes_unique_def code_taken_def)

lemma save_card_only:
  assumes "save_card c f s = Inr (a, t)" and "\<And>r. bc_id (f r) = bc_id r"
  shows "cards_only s t"
proof -
  have "map bc_id (map (\<lambda>r. if bc_id r = c then f r else r) (bank_cards s)) = map bc_id (bank_cards s)" by (simp add: assms(2))
  then have "cards_only s (s\<lparr>bank_cards := map (\<lambda>r. if bc_id r = c then f r else r) (bank_cards s)\<rparr>)"
    by (simp add: cards_only_def del: map_map)
  with assms(1) show ?thesis by (simp add: save_card_def result_simps Let_def)
qed

lemma save_card_error: "save_card c f s = Inl e \<Longrightarrow> e = IntegrityError"
  by (auto simp: save_card_def Let_def guardE_def split: if_splits)

lemma save_account_only: "save_account c f s = Inr (a, t) \<Longrightarrow> cards_only s t"
  by (auto simp: save_account_def result_simps Let_def cards_only_def)

lemma reject_card_only: "reject_card c r s = Inr (a, t) \<Longrightarrow> cards_only s t"
  by (auto simp: reject_card_def result_simps cards_only_def split: if_splits dest!: save_card_only)

lemma accept_card_only: "accept_card c s = Inr (a, t) \<Longrightarrow> cards_only s t"
  by (auto simp: accept_card_def dest!: save_card_only)

lemma update_info_only: "update_bank_card_info c d s = Inr (a, t) \<Longrightarrow> cards_only s t"
  by (auto simp: update_bank_card_info_def dest!: save_card_only)

lemma insert_card_only:
  assumes "insert_card c s = Inr (a, t)" and "bc_id c = fresh_id (map bc_id (bank_cards s))"
  shows "cards_only s t"
  using assms fresh_id_notin [of "map bc_id (bank_cards s)"]
  by (auto simp: insert_card_def result_simps cards_only_def)

lemmas card_ops = save_account_only reject_card_only accept_card_only update_info_only

section \<open>Every operation keeps the invariant\<close>

definition low :: "nat \<Rightarrow> ('z) bank_db_scheme \<Rightarrow> bool" where
  "low i s \<longleftrightarrow> (\<forall>u\<in>set (users s). us_account u = i \<longrightarrow> us_level u \<le> 1)"

lemma low_cong: "users t = users s \<Longrightarrow> low i t = low i s"
  by (simp add: low_def)

lemma find_user_eq:
  assumes "distinct (map us_account (users s))"
  shows "find_user s i = Some u \<longleftrightarrow> u \<in> set (users s) \<and> us_account u = i"
proof -
  have "find_user s i = Some u \<Longrightarrow> u \<in> set (users s) \<and> us_account u = i"
    by (auto simp: find_user_def find_Some_iff in_set_conv_nth)
  moreover have "find_user s i = Some u" if "u \<in> set (users s)" "us_account u = i"
  proof -
    have "find_user s i \<noteq> None" using that by (auto simp: find_user_def find_None_iff)
    then obtain w where w: "find_user s i = Some w" by blast
    then have "w \<in> set (users s)" "us_account w = i" by (auto simp: find_user_def find_Some_iff in_set_conv_nth)
    with that assms have "w = u" by (metis distinct_map inj_onD)
    with w show ?thesis by simp
  qed
  ultimately show ?thesis by blast
qed

lemma stored_user_unique:
  assumes "kyc_ok staff s" and "stored_user i s = Inr u"
  shows "\<And>w. w \<in> set (users s) \<Longrightarrow> us_account w = i \<Longrightarrow> w = u" and "u \<in> set (users s)" and "us_account u = i"
proof -
  have d: "distinct (map us_account (users s))" using assms(1) by (simp add: kyc_ok_def)
  have f: "find_user s i = Some u" using assms(2) by (simp add: stored_user_def)
  then show "u \<in> set (users s)" "us_account u = i" using find_user_eq [OF d] by blast+
  show "w \<in> set (users s) \<Longrightarrow> us_account w = i \<Longrightarrow> w = u" for w using f find_user_eq [OF d, of i w] by simp
qed

lemma retrying_rule:
  assumes "P s" and "\<And>s. P s \<Longrightarrow> Q s"
    and "\<And>s t e. P s \<Longrightarrow> f s = (t, Inl e) \<Longrightarrow> e \<in> {TimeoutErr, ServerError} \<Longrightarrow> P t"
    and "\<And>s. P s \<Longrightarrow> holds Q (f s)"
  shows "holds Q (retrying n f s)"
  using assms(1)
proof (induction n arbitrary: s)
  case 0
  then show ?case using assms(4) [of s] by (cases "f s") (simp add: holds_def split: sum.split)
next
  case (Suc n)
  show ?case
  proof (cases "f s")
    case (Pair t r)
    show ?thesis
    proof (cases "\<exists>e. r = Inl e \<and> e \<in> {TimeoutErr, ServerError}")
      case True
      with assms(3) [OF Suc.prems] Pair Suc.IH [of t] show ?thesis by auto
    next
      case False
      then have "retrying (Suc n) f s = f s" by (cases r) (auto simp: Pair)
      with assms(4) [OF Suc.prems] show ?thesis by simp
    qed
  qed
qed

lemma retrying_keeps:
  assumes "P s" and "\<And>s. P s \<Longrightarrow> holds P (f s)"
  shows "holds P (retrying n f s)"
proof (rule retrying_rule [where P = P, OF assms(1)])
  fix s t e
  assume "P s" "f s = (t, Inl e)"
  with assms(2) [of s] show "P t" by (simp add: holds_def)
qed (simp_all add: assms(2))

text \<open>Cards, accounts and stored requests change, the users do not.\<close>

lemma cards_only_refl [simp]: "cards_only s s"
  by (simp add: cards_only_def)

lemma cards_only_trans: "cards_only s t \<Longrightarrow> cards_only t r \<Longrightarrow> cards_only s r"
  by (simp add: cards_only_def)

lemma requests_cards_only: "only_requests s t \<Longrightarrow> cards_only s t"
  by (simp add: cards_only_def only_requests_bank)

lemma service_cards:
  assumes "cards_only s\<^sub>0 s"
  shows "holds (cards_only s\<^sub>0) (matching env now' user phone national birth pan s)"
    and "holds (cards_only s\<^sub>0) (get_iban_info env now' user ib s)"
    and "holds (cards_only s\<^sub>0) (get_card_info env now' user pan s)"
  unfolding holds_def
  by (rule cards_only_trans [OF assms], rule requests_cards_only, rule service_frame)+

lemma attempt_cards:
  assumes "cards_only s\<^sub>0 s"
  shows "holds (cards_only s\<^sub>0) (attempt s (reject_card c r s))" and "holds (cards_only s\<^sub>0) (attempt s (accept_card c s))"
    and "holds (cards_only s\<^sub>0) (attempt s (update_bank_card_info c d s))"
    and "holds (cards_only s\<^sub>0) (attempt s (save_account c g s))"
    and "(\<And>r. bc_id (f r) = bc_id r) \<Longrightarrow> holds (cards_only s\<^sub>0) (attempt s (save_card c f s))"
  by (rule holds_attempt [where P = "cards_only s\<^sub>0", OF assms], rule cards_only_trans [OF assms], erule card_ops save_card_only, assumption?)+


lemmas card_steps = outcome_rules service_cards attempt_cards

lemma verify_card_once_cards: "cards_only s\<^sub>0 s \<Longrightarrow> holds (cards_only s\<^sub>0) (verify_bank_card_once env now' c s)"
  unfolding verify_bank_card_once_def by (intro card_steps; assumption?; simp)

lemma verify_account_once_cards: "cards_only s\<^sub>0 s \<Longrightarrow> holds (cards_only s\<^sub>0) (verify_bank_account_once env now' c s)"
  unfolding verify_bank_account_once_def Let_def by (intro card_steps; assumption?; simp)


text \<open>Steps on cards under the invariant, and under the assumption that user \<open>i\<close> is of level 1 at most.\<close>

definition kyc_low :: "bool \<Rightarrow> nat \<Rightarrow> ('z) bank_db_scheme \<Rightarrow> bool" where
  "kyc_low staff i s \<longleftrightarrow> kyc_ok staff s \<and> low i s"

lemma kyc_low_ok: "kyc_low staff i s \<Longrightarrow> kyc_ok staff s"
  by (simp add: kyc_low_def)

lemma holds_mono: "holds Q o' \<Longrightarrow> (\<And>t. Q t \<Longrightarrow> P t) \<Longrightarrow> holds P o'"
  by (simp add: holds_def)

lemma kyc_of_cards:
  assumes "kyc_ok staff s" and "holds (cards_only s) o'"
  shows "holds (kyc_ok staff) o'"
  by (rule holds_mono [OF assms(2)]) (rule kyc_cards_only [OF _ assms(1)])

lemma kyc_low_of_cards:
  assumes "kyc_low staff i s" and "holds (cards_only s) o'"
  shows "holds (kyc_low staff i) o'"
  using assms by (auto simp: kyc_low_def holds_def low_def cards_only_def intro: kyc_cards_only [unfolded cards_only_def])

lemma kyc_low_save:
  assumes "kyc_low staff i s" and "\<And>u. us_account (f u) = us_account u \<and> us_level (f u) = us_level u"
  shows "kyc_ok staff (save_user now' i f s)"
proof (rule kyc_save_user)
  fix u assume "u \<in> set (users s)" "us_account u = i"
  with assms(1) have "us_level u \<le> 1" unfolding kyc_low_def low_def by blast
  then show "plain_write staff u (f u)" by (simp add: plain_write_def assms(2))
qed (rule kyc_low_ok [OF assms(1)])

lemma kyc_save_plain:
  assumes "kyc_ok staff s" and "\<And>u. us_account (f u) = us_account u \<and> us_level (f u) = us_level u
    \<and> national_code (f u) = national_code u \<and> (basic_ok u \<longrightarrow> basic_ok (f u))"
  shows "kyc_ok staff (save_user now' i f s)"
  by (rule kyc_save_user [OF assms(1)]) (simp add: plain_write_def assms(2))

lemma get_kyc_bank_card_cards: "holds (cards_only s) (get_kyc_bank_card i pan s)"
proof -
  have "cards_only s t" if "update_or_create_kyc_card i pan s = Inr (a, t)" for a t
    using that by (auto simp: update_or_create_kyc_card_def result_simps split: option.splits dest!: save_card_only insert_card_only)
       (simp add: new_card_def)
  moreover have "cards_only s (s\<lparr>bank_cards := map (\<lambda>d. if bc_user d = i \<and> \<not> bc_deleted d \<and> card_pan d = pan
                                            then d\<lparr>bc_deleted := True\<rparr> else d) (bank_cards s)\<rparr>)"
    by (simp add: cards_only_def comp_def if_distrib [of bc_id] cong: if_cong)
  ultimately show ?thesis
    unfolding get_kyc_bank_card_def Let_def
    by (intro holds_next_look holds_list holds_if holds_pair cards_only_refl holds_next attempt_cards holds_attempt; simp)
qed

lemma write_basic_info_keys [simp]:
  "us_account (write_basic_info b u) = us_account u" "us_level (write_basic_info b u) = us_level u"
  by (simp_all add: write_basic_info_def Let_def)

lemma low_of_row:
  assumes "kyc_ok staff s" and "stored_user i s = Inr u" and "us_level u \<le> 1"
  shows "kyc_low staff i s"
  unfolding kyc_low_def low_def using assms(1,3) stored_user_unique(1) [OF assms(1,2)] by blast

lemma submit_basic_info_kyc:
  assumes "kyc_low staff i s"
  shows "holds (kyc_ok staff) (submit_basic_info now' i b s)"
proof -
  define t where "t = set_status now' i V_PENDING [] (save_user now' i (write_basic_info b) s)"
  have ok: "kyc_ok staff t" unfolding t_def by (intro kyc_set_status kyc_low_save [OF assms]) simp_all
  have plain: "kyc_ok staff (save_user now' i (\<lambda>u. u\<lparr>national_code_verified := Some False\<rparr>) t)"
    by (rule kyc_save_plain [OF ok]) (simp add: basic_ok_def)
  have "holds (kyc_ok staff) (next_step (look t (stored_user i t)) (\<lambda>u s.
         if code_taken i s (national_code u)
         then (set_status now' i V_REJECTED NATIONAL_CODE_DUPLICATED
                 (save_user now' i (\<lambda>u. u\<lparr>national_code_verified := Some False\<rparr>) s), Inl ValidationErr)
         else (s, Inr ())))"
    by (intro holds_next_look holds_if holds_pair ok kyc_set_status plain) simp_all
  then show ?thesis by (simp add: submit_basic_info_def t_def Let_def)
qed

lemma update_basic_info_kyc:
  assumes "kyc_ok staff s"
  shows "holds (kyc_ok staff) (update_basic_info now' today i b s)"
  unfolding update_basic_info_def
proof (intro holds_next_look assms)
  fix u v
  assume u: "stored_user i s = Inr u" and g: "guardE ValidationErr (us_verify_status u \<notin> {V_PENDING, V_VERIFIED} \<and> us_level u \<le> 1
                          \<and> get_verify_weight i s < MAX_WEIGHT) = Inr v"
  from g have "us_level u \<le> 1" by (simp only: guardE_eq_Inr)
  with u have low: "kyc_low staff i s" by (intro low_of_row [OF assms])
  show "holds (kyc_ok staff) (next_step (get_kyc_bank_card i (bi_card_pan b) s) (\<lambda>c s.
     next_step (attempt s (save_card c (\<lambda>c. c\<lparr>bc_verified := keep_verified (bc_verified c)\<rparr>) s)) (\<lambda>_ s. submit_basic_info now' i b s)))"
    by (rule holds_next_via [where Q = "kyc_low staff i"], rule kyc_low_of_cards [OF low get_kyc_bank_card_cards], erule kyc_low_ok)
      (rule holds_next_via [where Q = "kyc_low staff i"], rule kyc_low_of_cards, assumption, simp add: attempt_cards,
       erule kyc_low_ok, rule submit_basic_info_kyc)
qed

text \<open>Which errors are tried again, and the state they leave.\<close>

definition calm :: "'a result \<Rightarrow> bool" where
  "calm r \<longleftrightarrow> r \<noteq> Inl TimeoutErr \<and> r \<noteq> Inl ServerError"

definition fails_in :: "('s \<Rightarrow> bool) \<Rightarrow> ('s, 'a) outcome \<Rightarrow> bool" where
  "fails_in P o' \<longleftrightarrow> calm (snd o') \<or> P (fst o')"

lemma fails_value: "fails_in P (s, Inr a)"
  by (simp add: fails_in_def calm_def)

lemma fails_next:
  "fails_in P o' \<Longrightarrow> (\<And>a t. o' = (t, Inr a) \<Longrightarrow> fails_in P (f a t)) \<Longrightarrow> fails_in P (next_step o' f)"
  by (cases o'; cases "snd o'") (auto simp: fails_in_def next_step_def calm_def)

lemma fails_next_look:
  "calm r \<Longrightarrow> (\<And>a. r = Inr a \<Longrightarrow> fails_in P (f a s)) \<Longrightarrow> fails_in P (next_step (look s r) f)"
  by (cases r) (auto simp: fails_in_def look_def calm_def)

lemma fails_attempt: "calm r \<Longrightarrow> fails_in P (attempt s r)"
  by (cases r) (auto simp: fails_in_def attempt_def calm_def)

lemma fails_if: "(b \<Longrightarrow> fails_in P x) \<Longrightarrow> (\<not> b \<Longrightarrow> fails_in P y) \<Longrightarrow> fails_in P (if b then x else y)"
  by simp

lemma fails_prod: "(\<And>a b. p = (a, b) \<Longrightarrow> fails_in P (f a b s)) \<Longrightarrow> fails_in P ((case p of (a, b) \<Rightarrow> f a b) s)"
  by (cases p) simp

lemma fails_holds: "holds P o' \<Longrightarrow> fails_in P o'"
  by (simp add: fails_in_def holds_def)

lemmas fails_rules = fails_value fails_next_look fails_next fails_attempt fails_if fails_prod

lemma calm_bind: "calm r \<Longrightarrow> (\<And>a. calm (f a)) \<Longrightarrow> calm (bindE r f)"
  by (cases r) (auto simp: calm_def bindE_def)

lemma calm_save [simp]: "calm (save_card c f s)"
  using save_card_error by (fastforce simp: calm_def)

lemma calm_rows [simp]:
  "calm (card_row s c)" "calm (stored_user i s')" "calm (Inl e) = (e \<noteq> TimeoutErr \<and> e \<noteq> ServerError)" "calm (Inr a)"
  by (auto simp: calm_def card_row_def stored_user_def the_or_def split: option.split)

lemma calm_writes [simp]: "calm (reject_card c r s)" "calm (update_bank_card_info c d s)"
  by (auto simp: reject_card_def update_bank_card_info_def intro!: calm_bind)

lemma retrying_settles:
  assumes "P s" and "\<And>s. P s \<Longrightarrow> Q s" and "\<And>s. P s \<Longrightarrow> fails_in P (f s)" and "\<And>s. P s \<Longrightarrow> holds Q (f s)"
  shows "holds Q (retrying n f s)"
proof (rule retrying_rule [where P = P, OF assms(1)])
  fix s t e
  assume "P s" "f s = (t, Inl e)" "e \<in> {TimeoutErr, ServerError}"
  with assms(3) [of s] show "P t" by (auto simp: fails_in_def)
qed (simp_all add: assms)

section \<open>The verification of the basic data\<close>

text \<open>The card is one of user \<open>i\<close>.\<close>

definition card_owner :: "nat \<Rightarrow> nat \<Rightarrow> ('z) bank_db_scheme \<Rightarrow> bool" where
  "card_owner i c s \<longleftrightarrow> (\<forall>r. card_row s c = Inr r \<longrightarrow> bc_user r = i)"

lemma card_owner_requests: "only_requests s t \<Longrightarrow> card_owner i c t = card_owner i c s"
  by (simp add: card_owner_def card_row_def only_requests_bank)

lemma low_requests: "only_requests s t \<Longrightarrow> kyc_low staff i t = kyc_low staff i s"
  by (simp add: kyc_low_def low_def only_requests_bank)

lemma card_step_kyc:
  assumes "kyc_ok staff s"
  shows "holds (kyc_ok staff) (attempt s (reject_card c r s))" and "holds (kyc_ok staff) (attempt s (accept_card c s))"
    and "holds (kyc_ok staff) (attempt s (update_bank_card_info c d s))"
    and "holds (kyc_ok staff) (attempt s (save_account c g s))"
    and "(\<And>r. bc_id (f r) = bc_id r) \<Longrightarrow> holds (kyc_ok staff) (attempt s (save_card c f s))"
  by (rule kyc_of_cards [OF assms], simp add: attempt_cards)+

lemma note_identity_kyc:
  assumes "kyc_low staff i s"
  shows "holds (kyc_ok staff) (note_identity now' i c a b s)"
  unfolding note_identity_def Let_def
  by (intro holds_next holds_if holds_pair card_step_kyc(5) kyc_set_status kyc_verify_level2 kyc_low_save [OF assms]) simp_all

lemma verify_by_code_once_kyc:
  assumes "kyc_low staff i s" and "card_owner i c s"
  shows "holds (kyc_ok staff) (verify_bank_card_by_national_code_once env now' c s)"
  unfolding verify_bank_card_by_national_code_once_def Let_def
proof (intro holds_next_look holds_if holds_pair kyc_low_ok [OF assms(1)])
  fix r
  assume r: "card_row s c = Inr r"
  then have i: "bc_user r = i" using assms(2) by (simp add: card_owner_def)
  show "holds (kyc_ok staff) (next_step (attempt s (reject_card c DUPLICATED s)) (\<lambda>_ s. (set_status now' (bc_user r) V_REJECTED [] s, Inr (Some False))))"
    by (intro outcome_rules card_step_kyc kyc_low_ok [OF assms(1)] kyc_set_status) simp_all
  fix u
  have "holds (kyc_low staff i) (matching env now' i [] (national_code u) (birth_date u) (card_pan r) s)"
    by (rule kyc_low_of_cards [OF assms(1) service_cards(1)]) simp
  then show "holds (kyc_ok staff) (next_step (matching env now' (bc_user r) [] (national_code u) (birth_date u) (card_pan r) s)
     (\<lambda>(matched', code, success) s.
       if \<not> success \<and> code \<noteq> INVALID_DATA then (s, Inr None)
       else note_identity now' (bc_user r) c (if success then (if matched' then Some True else None) else Some False)
              (if success then Some matched' else None) s))"
    unfolding i
    by (rule holds_next_via, erule_tac kyc_low_ok) (intro outcome_rules note_identity_kyc kyc_low_ok; assumption)
qed

lemma verify_by_code_kyc:
  assumes "kyc_low staff i s" and "card_owner i c s"
  shows "holds (kyc_ok staff) (verify_bank_card_by_national_code env now' c n s)"
  unfolding verify_bank_card_by_national_code_def
proof (rule retrying_settles [where P = "\<lambda>s. kyc_low staff i s \<and> card_owner i c s"])
  fix s assume P: "kyc_low staff i s \<and> card_owner i c s"
  then show "holds (kyc_ok staff) (verify_bank_card_by_national_code_once env now' c s)" by (intro verify_by_code_once_kyc [of staff i]) simp_all
  have "fails_in (\<lambda>s. kyc_low staff i s \<and> card_owner i c s) (matching env now' j [] code b pan s)" for j code b pan
    by (rule fails_holds) (simp add: holds_def P low_requests [OF service_frame(1)] card_owner_requests [OF service_frame(1)])
  then show "fails_in (\<lambda>s. kyc_low staff i s \<and> card_owner i c s) (verify_bank_card_by_national_code_once env now' c s)"
    unfolding verify_bank_card_by_national_code_once_def note_identity_def Let_def
    by (intro fails_value fails_next_look fails_if fails_next fails_prod fails_attempt) simp_all
qed (use assms in \<open>auto intro: kyc_low_ok\<close>)

text \<open>A user of level 2 or more keeps the names that are verified.\<close>

definition kyc_names :: "bool \<Rightarrow> nat \<Rightarrow> ('z) bank_db_scheme \<Rightarrow> bool" where
  "kyc_names staff i s \<longleftrightarrow> kyc_ok staff s \<and> (staff \<or> low i s)"

lemma kyc_names_cards:
  assumes "kyc_names staff i s" and "holds (cards_only s) o'"
  shows "holds (kyc_names staff i) o'"
  using assms kyc_of_cards [of staff s o'] by (auto simp: kyc_names_def holds_def low_def cards_only_def)

lemma name_of_owner_keys [simp]:
  "us_account (name_of_owner t u) = us_account u" "us_level (name_of_owner t u) = us_level u"
  "national_code (name_of_owner t u) = national_code u"
  by (auto simp: name_of_owner_def Let_def split: prod.split)

lemma note_owner_kyc:
  assumes "kyc_names staff i s"
  shows "holds (kyc_ok staff) (note_owner now' i t s)"
proof -
  have "kyc_ok staff (save_user now' i (name_of_owner t) s)"
  proof (rule kyc_save_user)
    fix u assume u: "u \<in> set (users s)" "us_account u = i"
    then have "staff \<or> us_level u \<le> 1" using assms by (auto simp: kyc_names_def low_def)
    then show "plain_write staff u (name_of_owner t u)" by (auto simp: plain_write_def)
  qed (use assms in \<open>simp add: kyc_names_def\<close>)
  then show ?thesis unfolding note_owner_def Let_def by (intro holds_if holds_pair kyc_verify_level2) simp_all
qed

lemma verify_name_once_kyc:
  assumes "kyc_ok staff s"
  shows "holds (kyc_ok staff) (verify_name_by_bank_card_once env now' c s)"
  unfolding verify_name_by_bank_card_once_def Let_def
proof (intro holds_next_look holds_if holds_pair assms)
  fix r u
  let ?i = "bc_user r"
  assume u: "stored_user ?i s = Inr u" and open_name: "\<not> (first_name_verified u = Some True \<and> last_name_verified u = Some True)"
  have "staff \<or> us_level u \<le> 1"
    using assms stored_user_unique(2) [OF assms u] open_name by (auto simp: kyc_ok_def basic_ok_def)
  then have names: "kyc_names staff ?i s" using low_of_row [OF assms u] assms by (auto simp: kyc_names_def kyc_low_def)
  show "holds (kyc_ok staff) (next_step (get_card_info env now' ?i (card_pan r) s) (\<lambda>(d, code, success) s.
         if success then next_step (attempt s (update_bank_card_info c d s)) (\<lambda>_ s. note_owner now' ?i (ca_owner d) s)
         else if code = INVALID_DATA then
           next_step (attempt s (save_card c (\<lambda>c. c\<lparr>bc_verified := Some False, bc_reject_reason := code\<rparr>) s)) (\<lambda>_ s.
           (set_status now' ?i V_REJECTED [] s, Inr (Some False)))
         else (s, Inr None)))"
  proof (rule holds_next_via [where Q = "kyc_names staff ?i"])
    show "holds (kyc_names staff ?i) (get_card_info env now' ?i (card_pan r) s)"
      by (rule kyc_names_cards [OF names service_cards(3)]) simp
    fix a t assume t: "kyc_names staff ?i t"
    then have ok: "kyc_ok staff t" by (simp add: kyc_names_def)
    have noted: "holds (kyc_ok staff) (next_step (attempt t (update_bank_card_info c d t)) (\<lambda>_ s. note_owner now' ?i (ca_owner d) s))" for d
      by (rule holds_next_via [where Q = "kyc_names staff ?i"], rule kyc_names_cards [OF t], simp add: attempt_cards,
          simp add: kyc_names_def, rule note_owner_kyc)
    show "holds (kyc_ok staff) ((case a of (d, code, success) \<Rightarrow> \<lambda>s.
         if success then next_step (attempt s (update_bank_card_info c d s)) (\<lambda>_ s. note_owner now' ?i (ca_owner d) s)
         else if code = INVALID_DATA then
           next_step (attempt s (save_card c (\<lambda>c. c\<lparr>bc_verified := Some False, bc_reject_reason := code\<rparr>) s)) (\<lambda>_ s.
           (set_status now' ?i V_REJECTED [] s, Inr (Some False)))
         else (s, Inr None)) t)"
      by (intro holds_prod_state holds_if) (rule noted | (intro holds_pair ok holds_next card_step_kyc(5) kyc_set_status; simp))+
  qed (simp add: kyc_names_def)
qed

lemma verify_name_kyc: "kyc_ok staff s \<Longrightarrow> holds (kyc_ok staff) (verify_name_by_bank_card env now' c n s)"
  unfolding verify_name_by_bank_card_def by (erule retrying_keeps) (rule verify_name_once_kyc)

lemma kyc_bank_card_owner:
  assumes "kyc_ok staff s" and "kyc_bank_card s i = Some c"
  shows "card_owner i (bc_id c) s"
proof -
  obtain cs where "sort_key bc_id (filter (\<lambda>c. bc_user c = i \<and> bc_kyc c) (bank_cards s)) = c # cs"
    using assms(2) by (auto simp: kyc_bank_card_def split: list.splits)
  then have "c \<in> set (sort_key bc_id (filter (\<lambda>c. bc_user c = i \<and> bc_kyc c) (bank_cards s)))" by (simp only: list.set_intros)
  then have c: "c \<in> set (bank_cards s)" "bc_user c = i" by auto
  show ?thesis unfolding card_owner_def
  proof (intro allI impI)
    fix r assume "card_row s (bc_id c) = Inr r"
    then have "r \<in> set (bank_cards s)" "bc_id r = bc_id c" by (auto simp: card_row_def find_Some_iff in_set_conv_nth)
    moreover have "distinct (map bc_id (bank_cards s))" using assms(1) by (simp add: kyc_ok_def)
    ultimately have "r = c" using c(1) by (metis distinct_map inj_onD)
    with c(2) show "bc_user r = i" by simp
  qed
qed

lemma basic_verify_kyc:
  assumes "kyc_ok staff s"
  shows "holds (kyc_ok staff) (basic_verify env now' i s)"
  unfolding basic_verify_def
proof (intro holds_next_look holds_if holds_option holds_pair assms)
  fix u c
  assume u: "stored_user i s = Inr u" "\<not> us_level u \<noteq> 1" and c: "kyc_bank_card s i = Some c"
  have low: "kyc_low staff i s" using low_of_row [OF assms u(1)] u(2) by simp
  have "holds (kyc_ok staff) (if national_code_verified u \<noteq> Some True \<or> birth_date_verified u \<noteq> Some True \<or> bc_verified c \<noteq> Some True
                    then verify_bank_card_by_national_code env now' (bc_id c) 2 s else (s, Inr (Some True)))"
    by (intro holds_if holds_pair assms verify_by_code_kyc [OF low] kyc_bank_card_owner [OF assms c])
  then show "holds (kyc_ok staff) (next_step (if national_code_verified u \<noteq> Some True \<or> birth_date_verified u \<noteq> Some True \<or> bc_verified c \<noteq> Some True
                    then verify_bank_card_by_national_code env now' (bc_id c) 2 s else (s, Inr (Some True))) (\<lambda>r s.
         if r \<noteq> Some True then (s, Inr ())
         else
           next_step (look s (card_row s (bc_id c))) (\<lambda>c s.
           next_step (look s (stored_user i s)) (\<lambda>u s.
           next_step (if bc_verified c = Some True \<and> (first_name_verified u \<noteq> Some True \<or> last_name_verified u \<noteq> Some True)
                      then verify_name_by_bank_card env now' (bc_id c) 2 s else (s, Inr (Some True))) (\<lambda>r s.
           if r \<noteq> Some True then (s, Inr ()) else (verify_level2 now' i s, Inr ()))))))"
    by (rule holds_next) (intro holds_if holds_pair holds_next_look holds_next verify_name_kyc kyc_verify_level2; assumption)
qed

section \<open>The other operations\<close>

lemma verify_with_phone_kyc:
  assumes "kyc_ok staff s"
  shows "holds (kyc_ok staff) (verify_national_code_with_phone env now' i phone n s)"
proof -
  have "holds (kyc_ok staff) (shahkar_check env now' i phone code t)" if "kyc_ok staff t" for code t
    unfolding shahkar_check_def
    by (intro holds_next holds_prod_state holds_pair kyc_of_cards [OF that service_cards(1)] cards_only_refl)
  then have "holds (kyc_ok staff) (retrying n (shahkar_check env now' i phone code) s)" for code
    using assms by (intro retrying_keeps)
  then show ?thesis unfolding verify_national_code_with_phone_def
    by (intro holds_next_look holds_if holds_next holds_pair assms) (auto intro!: kyc_save_plain simp: basic_ok_def)
qed

lemma update_full_kyc:
  assumes "kyc_ok staff s" and "update_full_verification now' i s = Inr t"
  shows "kyc_ok staff t"
proof -
  obtain u where u: "stored_user i s = Inr u" and l: "us_level u \<noteq> 1"
    and t: "t = (if selfie_image_verified u = Some True \<and> national_code_phone_verified u = Some True
       then set_status now' i V_VERIFIED [] s
       else set_status now' i V_PENDING []
              (if selfie_image_verified u = Some True then s else save_user now' i (\<lambda>u. u\<lparr>selfie_image_verified := None\<rparr>) s))"
    using assms(2) by (auto simp: update_full_verification_def result_simps Let_def split: if_splits)
  have "\<forall>w\<in>set (users s). us_account w = i \<longrightarrow> us_level w \<noteq> 1" using stored_user_unique(1) [OF assms(1) u] l by blast
  then have "kyc_ok staff (set_status now' i V_VERIFIED [] s)" using assms(1) by (intro kyc_set_status) auto
  moreover have "kyc_ok staff (save_user now' i (\<lambda>u. u\<lparr>selfie_image_verified := None\<rparr>) s)"
    by (rule kyc_save_plain [OF assms(1)]) (simp add: basic_ok_def)
  ultimately show ?thesis using assms(1) by (auto simp: t intro!: kyc_set_status)
qed

lemma act_on_user_kyc:
  assumes "kyc_ok staff s" and "a \<noteq> VERIFY_USER \<or> staff"
  shows "kyc_ok staff (act_on_user now' a i s)"
proof -
  have "kyc_ok staff (save_user now' i (\<lambda>u. u\<lparr>first_name_verified := Some True, last_name_verified := Some True\<rparr>) s)"
    by (rule kyc_save_plain [OF assms(1)]) (simp add: basic_ok_def)
  with assms show ?thesis by (cases a) (auto simp: act_on_user_def intro!: kyc_archive kyc_set_status)
qed

lemma user_panel_kyc:
  assumes "kyc_ok staff s" and "a \<noteq> VERIFY_USER \<or> staff"
  shows "kyc_ok staff (user_panel now' a ids s)"
proof -
  have "kyc_ok staff (fold (\<lambda>u. act_on_user now' a (us_account u)) us s)" for us
    using assms(1) by (induction us arbitrary: s) (simp_all add: act_on_user_kyc [OF _ assms(2)])
  then show ?thesis by (simp add: user_panel_def)
qed

lemma reject_pending_kyc: "kyc_ok staff s \<Longrightarrow> kyc_ok staff (reject_pending now' i s)"
  by (auto simp: reject_pending_def intro!: kyc_set_status split: option.split)

lemma card_panel_kyc:
  assumes "kyc_ok staff s"
  shows "verify_card_manual now' c s = Inr (a, t) \<Longrightarrow> kyc_ok staff t" and "reject_card_manual now' c s = Inr (a, t) \<Longrightarrow> kyc_ok staff t"
    and "verify_account_manual now' c s = Inr (a, t) \<Longrightarrow> kyc_ok staff t"
    and "reject_account_manual now' w c s = Inr (a, t) \<Longrightarrow> kyc_ok staff t"
  using kyc_cards_only [OF _ assms]
  by (auto simp: verify_card_manual_def reject_card_manual_def verify_account_manual_def reject_account_manual_def result_simps
      intro!: kyc_verify_level2 reject_pending_kyc dest!: save_card_only save_account_only)

lemma foldE_kyc:
  assumes "foldE f s xs = Inr t" and "kyc_ok staff s" and "\<And>s x t. f s x = Inr t \<Longrightarrow> cards_only s t"
  shows "kyc_ok staff t"
  using foldE_invariant [of f s xs t "kyc_ok staff"] assms kyc_cards_only by metis

lemma ban_kyc:
  assumes "kyc_ok staff s" and "ban_deposit_by_credit_cards now' i s = Inr t"
  shows "kyc_ok staff t"
proof -
  have save: "kyc_ok staff (save_user now' i (\<lambda>u. u\<lparr>ban_credit_cards := True\<rparr>) s)"
    by (rule kyc_save_plain [OF assms(1)]) (simp add: basic_ok_def)
  obtain r where r: "foldE (\<lambda>s c. bindE (reject_card (bc_id c) CREDIT_CARD s) (\<lambda>(_, s). Inr s)) (save_user now' i (\<lambda>u. u\<lparr>ban_credit_cards := True\<rparr>) s)
               (filter (\<lambda>c. bc_type c \<in> set CREDIT_FAMILY_TYPES) (verified_cards (save_user now' i (\<lambda>u. u\<lparr>ban_credit_cards := True\<rparr>) s) i)) = Inr r"
    and t: "foldE (\<lambda>s c. bindE (save_card (bc_id c) (\<lambda>c. c\<lparr>bc_verified := None\<rparr>) s) (\<lambda>(_, s). Inr s)) r
        (filter (\<lambda>c. bc_type c = []) (verified_cards r i)) = Inr t"
    using assms(2) by (auto simp: ban_deposit_by_credit_cards_def Let_def result_simps)
  have "kyc_ok staff r" by (rule foldE_kyc [OF r save]) (auto simp: result_simps dest!: reject_card_only)
  then show ?thesis by (rule foldE_kyc [OF t]) (auto simp: result_simps dest!: save_card_only)
qed

lemma task_kyc:
  assumes "kyc_ok staff s"
  shows "holds (kyc_ok staff) (verify_bank_card_task env now' c s)" and "holds (kyc_ok staff) (verify_bank_account_task env now' c s)"
proof -
  have "holds (kyc_ok staff) (verify_bank_card env now' c n s)" "holds (kyc_ok staff) (verify_bank_account env now' c n s)" for n
    unfolding verify_bank_card_def verify_bank_account_def
    by (rule retrying_keeps [where P = "kyc_ok staff", OF assms], erule kyc_of_cards, simp add: verify_card_once_cards verify_account_once_cards)+
  then show "holds (kyc_ok staff) (verify_bank_card_task env now' c s)" "holds (kyc_ok staff) (verify_bank_account_task env now' c s)"
    unfolding verify_bank_card_task_def verify_bank_account_task_def by (intro holds_next_look assms; simp)+
qed

lemma cards_kyc:
  assumes "kyc_ok staff s"
  shows "create_card u pan s = Inr (a, t) \<Longrightarrow> kyc_ok staff t" and "create_bank_account u ib s = Inr (a, t) \<Longrightarrow> kyc_ok staff t"
    and "destroy_card i c s = Inr (b, t) \<Longrightarrow> kyc_ok staff t" and "destroy_account i c s = Inr (b, t) \<Longrightarrow> kyc_ok staff t"
proof -
  have "create_card u pan s = Inr (a, t) \<Longrightarrow> cards_only s t"
    by (auto simp: create_card_def result_simps new_card_def dest!: insert_card_only)
  moreover have "create_bank_account u ib s = Inr (a, t) \<Longrightarrow> cards_only s t"
    by (auto simp: create_bank_account_def result_simps Let_def cards_only_def split: list.splits dest!: save_account_only)
  moreover have "destroy_card i c s = Inr (b, t) \<Longrightarrow> cards_only s t" "destroy_account i c s = Inr (b, t) \<Longrightarrow> cards_only s t"
    by (auto simp: destroy_card_def destroy_account_def result_simps dest!: save_card_only save_account_only)
  ultimately show "create_card u pan s = Inr (a, t) \<Longrightarrow> kyc_ok staff t" "create_bank_account u ib s = Inr (a, t) \<Longrightarrow> kyc_ok staff t"
    "destroy_card i c s = Inr (b, t) \<Longrightarrow> kyc_ok staff t" "destroy_account i c s = Inr (b, t) \<Longrightarrow> kyc_ok staff t"
    using kyc_cards_only [OF _ assms] by blast+
qed

section \<open>All histories\<close>

datatype kyc_event =
    Basic_info int nat basic_input
  | Basic_verify nat
  | Phone_check nat string
  | Full_info nat
  | User_panel user_action "nat list"
  | Card_verified nat | Card_rejected nat | Account_verified nat | Account_rejected nat nat
  | Cards_banned nat
  | Card_task nat | Account_task nat
  | Card_added user_row string | Account_added user_row string
  | Card_removed nat nat | Account_removed nat nat

text \<open>An operation that fails in its transaction leaves the state as it was.\<close>

definition kept :: "'s \<Rightarrow> ('a \<times> 's) result \<Rightarrow> 's" where
  "kept s r = fst (attempt s r)"

definition kept_state :: "'s \<Rightarrow> 's result \<Rightarrow> 's" where
  "kept_state s r = (case r of Inl e \<Rightarrow> s | Inr t \<Rightarrow> t)"

fun kyc_step :: "('y) jibit_env_scheme \<Rightarrow> int \<Rightarrow> kyc_event \<Rightarrow> ('z) bank_db_scheme \<Rightarrow> ('z) bank_db_scheme" where
  "kyc_step env now' (Basic_info today i b) s = fst (update_basic_info now' today i b s)"
| "kyc_step env now' (Basic_verify i) s = fst (basic_verify env now' i s)"
| "kyc_step env now' (Phone_check i phone) s = fst (verify_national_code_with_phone env now' i phone 2 s)"
| "kyc_step env now' (Full_info i) s = kept_state s (update_full_verification now' i s)"
| "kyc_step env now' (User_panel a ids) s = user_panel now' a ids s"
| "kyc_step env now' (Card_verified c) s = kept s (verify_card_manual now' c s)"
| "kyc_step env now' (Card_rejected c) s = kept s (reject_card_manual now' c s)"
| "kyc_step env now' (Account_verified c) s = kept s (verify_account_manual now' c s)"
| "kyc_step env now' (Account_rejected w c) s = kept s (reject_account_manual now' w c s)"
| "kyc_step env now' (Cards_banned i) s = kept_state s (ban_deposit_by_credit_cards now' i s)"
| "kyc_step env now' (Card_task c) s = fst (verify_bank_card_task env now' c s)"
| "kyc_step env now' (Account_task c) s = fst (verify_bank_account_task env now' c s)"
| "kyc_step env now' (Card_added u pan) s = kept s (create_card u pan s)"
| "kyc_step env now' (Account_added u ib) s = kept s (create_bank_account u ib s)"
| "kyc_step env now' (Card_removed i c) s = kept s (destroy_card i c s)"
| "kyc_step env now' (Account_removed i c) s = kept s (destroy_account i c s)"

definition by_hand :: "kyc_event \<Rightarrow> bool" where
  "by_hand e = (case e of User_panel a ids \<Rightarrow> a = VERIFY_USER | _ \<Rightarrow> False)"

definition kyc_run :: "(('y) jibit_env_scheme \<times> int \<times> kyc_event) list \<Rightarrow> ('z) bank_db_scheme \<Rightarrow> ('z) bank_db_scheme" where
  "kyc_run es = fold (\<lambda>(env, now', e). kyc_step env now' e) es"

lemma kept_kyc:
  assumes "kyc_ok staff s" and "\<And>a t. r = Inr (a, t) \<Longrightarrow> kyc_ok staff t"
  shows "kyc_ok staff (kept s r)"
  unfolding kept_def by (rule attempt_invariant [where P = "kyc_ok staff", OF assms])

lemma kept_state_kyc:
  assumes "kyc_ok staff s" and "\<And>t. r = Inr t \<Longrightarrow> kyc_ok staff t"
  shows "kyc_ok staff (kept_state s r)"
  using assms by (auto simp: kept_state_def split: sum.split)

lemma kyc_step_kept:
  assumes "kyc_ok staff s" and "\<not> by_hand e \<or> staff"
  shows "kyc_ok staff (kyc_step env now' e s)"
proof -
  note results = update_basic_info_kyc [OF assms(1), unfolded holds_def] basic_verify_kyc [OF assms(1), unfolded holds_def]
    verify_with_phone_kyc [OF assms(1), unfolded holds_def] task_kyc [OF assms(1), unfolded holds_def]
  have "kyc_ok staff (kept s (verify_card_manual now' c s))" "kyc_ok staff (kept s (reject_card_manual now' c s))"
    "kyc_ok staff (kept s (verify_account_manual now' c s))" "kyc_ok staff (kept s (reject_account_manual now' w c s))" for c w
    by (rule kept_kyc [OF assms(1)], erule card_panel_kyc [OF assms(1)])+
  moreover have "kyc_ok staff (kept s (create_card u ib s))" "kyc_ok staff (kept s (create_bank_account u ib s))"
    "kyc_ok staff (kept s (destroy_card i c s))" "kyc_ok staff (kept s (destroy_account i c s))" for u ib i c
    by (rule kept_kyc [OF assms(1)], erule cards_kyc [OF assms(1)])+
  moreover have "kyc_ok staff (kept_state s (update_full_verification now' i s))"
    "kyc_ok staff (kept_state s (ban_deposit_by_credit_cards now' i s))" for i
    by (rule kept_state_kyc [OF assms(1)], erule update_full_kyc [OF assms(1)] ban_kyc [OF assms(1)])+
  ultimately show ?thesis
    using assms(2) by (cases e) (simp_all add: results by_hand_def user_panel_kyc [OF assms(1)])
qed

lemma kyc_run_kept:
  assumes "kyc_ok staff s" and "staff \<or> list_all (\<lambda>(env, now', e). \<not> by_hand e) es"
  shows "kyc_ok staff (kyc_run es s)"
proof -
  have "kyc_ok staff (fold (\<lambda>(env, now', e). kyc_step env now' e) es s)"
    using assms by (induction es arbitrary: s) (auto intro!: kyc_step_kept)
  then show ?thesis by (simp add: kyc_run_def)
qed

section \<open>A card that is not verified is never rejected\<close>

definition card_open :: "nat \<Rightarrow> string \<Rightarrow> ('z) bank_db_scheme \<Rightarrow> bool" where
  "card_open c x t \<longleftrightarrow> (\<exists>r. card_row t c = Inr r \<and> bc_verified r = None \<and> bc_reject_reason r = x)"

definition card_unrejected :: "nat \<Rightarrow> string \<Rightarrow> ('z) bank_db_scheme \<Rightarrow> bool" where
  "card_unrejected c x t \<longleftrightarrow> (\<exists>r. card_row t c = Inr r \<and> bc_verified r \<noteq> Some False \<and> bc_reject_reason r = x)"

lemma card_open_unrejected: "card_open c x t \<Longrightarrow> card_unrejected c x t"
  by (auto simp: card_open_def card_unrejected_def)

lemma find_map_row:
  assumes "\<And>r. k (f r) = k r"
  shows "List.find (\<lambda>r. k r = c) (map (\<lambda>r. if k r = c then f r else r) xs) = map_option f (List.find (\<lambda>r. k r = c) xs)"
  by (induction xs) (simp_all add: assms)

lemma saved_card_row:
  assumes "save_card c f s = Inr (a, t)" and "\<And>r. bc_id (f r) = bc_id r" and "card_row s c = Inr r"
  shows "card_row t c = Inr (f r)"
proof -
  have "bank_cards t = map (\<lambda>r. if bc_id r = c then f r else r) (bank_cards s)"
    using assms(1) by (auto simp: save_card_def result_simps Let_def)
  with assms(3) show ?thesis by (simp add: card_row_def find_map_row [of bc_id, OF assms(2)])
qed

lemma open_steps:
  assumes "card_open c x s"
  shows "holds (card_open c x) (attempt s (reject_card c e s))"
    and "holds (card_open c x) (attempt s (update_bank_card_info c d s))"
    and "holds (card_unrejected c x) (attempt s (accept_card c s))"
    and "holds (card_open c x) (get_card_info env now' i pan s)"
proof -
  obtain r where r: "card_row s c = Inr r" "bc_verified r = None" "bc_reject_reason r = x"
    using assms by (auto simp: card_open_def)
  have "reject_card c e s = Inr ((), s)" by (simp add: reject_card_def r)
  then show "holds (card_open c x) (attempt s (reject_card c e s))" using assms by (simp add: holds_def)
  show "holds (card_open c x) (attempt s (update_bank_card_info c d s))"
    by (rule holds_attempt [where P = "card_open c x", OF assms])
      (auto simp: update_bank_card_info_def card_open_def r dest!: saved_card_row [OF _ _ r(1)])
  show "holds (card_unrejected c x) (attempt s (accept_card c s))"
    by (rule holds_attempt [where P = "card_unrejected c x", OF card_open_unrejected [OF assms]])
      (auto simp: accept_card_def card_unrejected_def r dest!: saved_card_row [OF _ _ r(1)])
  show "holds (card_open c x) (get_card_info env now' i pan s)"
    using assms by (simp add: holds_def card_open_def card_row_def only_requests_bank [OF service_frame(3)])
qed

lemma open_once:
  assumes "card_open c x s"
  shows "holds (card_unrejected c x) (verify_bank_card_once env now' c s)" and "fails_in (card_open c x) (verify_bank_card_once env now' c s)"
proof -
  note unrejected = card_open_unrejected [of c x]
  have reject: "holds (card_unrejected c x) (next_step (attempt t (reject_card c e t)) (\<lambda>_ s. (s, Inr (Some False))))"
    if "card_open c x t" for e t
    by (rule holds_next_via [where Q = "card_open c x"], rule open_steps(1) [OF that], erule unrejected, intro holds_pair unrejected)
  have told: "holds (card_unrejected c x) (next_step (attempt t (update_bank_card_info c d t)) (\<lambda>_ s.
         if ban_credit_cards u \<and> ca_type d \<in> set CREDIT_FAMILY_TYPES
         then next_step (attempt s (reject_card c CREDIT_CARD s)) (\<lambda>_ s. (s, Inr (Some False)))
         else if \<not> name_similarity (get_legal_name u) (ca_owner d)
         then next_step (attempt s (reject_card c NAME_MISMATCH s)) (\<lambda>_ s. (s, Inr (Some False)))
         else next_step (attempt s (accept_card c s)) (\<lambda>_ s. (s, Inr (Some True)))))" if "card_open c x t" for t u d
    by (rule holds_next_via [where Q = "card_open c x"], rule open_steps(2) [OF that], erule unrejected)
      (intro holds_if reject holds_next holds_pair open_steps(3); assumption)
  have asked: "holds (card_unrejected c x) (next_step (get_card_info env now' i pan s) (\<lambda>(d, code, success) s.
       if success then next_step (attempt s (update_bank_card_info c d s)) (\<lambda>_ s.
         if ban_credit_cards u \<and> ca_type d \<in> set CREDIT_FAMILY_TYPES
         then next_step (attempt s (reject_card c CREDIT_CARD s)) (\<lambda>_ s. (s, Inr (Some False)))
         else if \<not> name_similarity (get_legal_name u) (ca_owner d)
         then next_step (attempt s (reject_card c NAME_MISMATCH s)) (\<lambda>_ s. (s, Inr (Some False)))
         else next_step (attempt s (accept_card c s)) (\<lambda>_ s. (s, Inr (Some True))))
       else if code = INVALID_DATA
       then next_step (attempt s (reject_card c code s)) (\<lambda>_ s. (s, Inr (Some False)))
       else (s, Inr None)))" for i pan u
    by (rule holds_next_via [where Q = "card_open c x"], rule open_steps(4) [OF assms], erule unrejected)
      (intro holds_prod_state holds_if told reject holds_pair unrejected; assumption)
  show "holds (card_unrejected c x) (verify_bank_card_once env now' c s)" unfolding verify_bank_card_once_def
    by (intro holds_next_look holds_if holds_pair unrejected [OF assms] reject [OF assms] asked)
  show "fails_in (card_open c x) (verify_bank_card_once env now' c s)" unfolding verify_bank_card_once_def
    by (intro fails_value fails_next_look fails_if fails_next fails_prod fails_attempt fails_holds [OF open_steps(4) [OF assms]])
      (simp_all add: accept_card_def)
qed

text \<open>
  C30. The verification of a bank card that waits for it never rejects the card and never writes a
  reason, whatever the service says, even that the number is invalid, the owner another person or
  the card another's: \<open>reject\<close> of \<^verbatim>\<open>BankCard\<close> acts on verified cards only.
\<close>

theorem waiting_card_never_rejected:
  assumes "card_row s c = Inr r" and "bc_verified r = None"
  shows "\<exists>r'. card_row (fst (verify_bank_card env now' c n s)) c = Inr r'
           \<and> bc_verified r' \<noteq> Some False \<and> bc_reject_reason r' = bc_reject_reason r"
proof -
  let ?x = "bc_reject_reason r"
  have "card_open c ?x s" using assms by (simp add: card_open_def)
  then have "holds (card_unrejected c ?x) (verify_bank_card env now' c n s)" unfolding verify_bank_card_def
    by (rule retrying_settles [where P = "card_open c ?x"]) (simp_all add: open_once card_open_unrejected)
  then show ?thesis by (simp add: holds_def card_unrejected_def)
qed

section \<open>The last verified card stays\<close>

lemma last_card_kept:
  assumes "destroy_card i c s = Inr (u, t)" and "distinct (map bc_id (bank_cards s))"
    and "verified_cards s i \<noteq> []"
  shows "verified_cards t i \<noteq> []"
proof -
  obtain r where r: "List.find (\<lambda>c'. bc_id c' = c) (live_cards s i) = Some r"
    and n: "\<not> (bc_verified r = Some True \<and> length (verified_cards s i) = 1)"
    and t: "save_card c (\<lambda>c. c\<lparr>bc_deleted := True\<rparr>) s = Inr (u, t)"
    using assms(1) by (auto simp: destroy_card_def result_simps verified_cards_def)
  have cards: "bank_cards t = map (\<lambda>d. if bc_id d = c then d\<lparr>bc_deleted := True\<rparr> else d) (bank_cards s)"
    using t by (auto simp: save_card_def result_simps Let_def)
  have r': "r \<in> set (live_cards s i)" "bc_id r = c" using r by (auto simp: find_Some_iff in_set_conv_nth)
  have "\<exists>d\<in>set (verified_cards s i). bc_id d \<noteq> c"
  proof (rule ccontr)
    assume "\<not> ?thesis"
    then have all: "\<forall>d\<in>set (verified_cards s i). bc_id d = c" by blast
    have d: "distinct (map bc_id (verified_cards s i))"
      using assms(2) by (simp add: verified_cards_def live_cards_def distinct_map_filter)
    have "map bc_id (verified_cards s i) = replicate (length (verified_cards s i)) c"
      using all by (simp add: map_replicate_const [symmetric] cong: map_cong)
    moreover have "n \<le> 1" if "distinct (replicate n c)" for n
      using that by (cases n) (auto simp: in_set_replicate)
    ultimately have "length (verified_cards s i) \<le> 1" using d by metis
    with assms(3) have "length (verified_cards s i) = 1" by (cases "verified_cards s i") auto
    moreover have "bc_verified r = Some True"
    proof -
      obtain d where d: "d \<in> set (verified_cards s i)" using assms(3) by (cases "verified_cards s i") auto
      then have "d \<in> set (bank_cards s)" "r \<in> set (bank_cards s)" "bc_id d = bc_id r"
        using all r' by (auto simp: verified_cards_def live_cards_def)
      with assms(2) have "d = r" by (metis distinct_map inj_onD)
      with d show ?thesis by (simp add: verified_cards_def)
    qed
    ultimately show False using n by simp
  qed
  then obtain d where "d \<in> set (verified_cards s i)" "bc_id d \<noteq> c" by blast
  then have "d \<in> set (verified_cards t i)" by (auto simp: verified_cards_def live_cards_def cards)
  then show ?thesis by auto
qed

section \<open>Examples and the theorems on histories\<close>

definition kyc_env :: jibit_env where
  "kyc_env = otc_env.extend otc_sample_env
     (jibit_env.fields (\<lambda>i path key. Reply 200 \<lparr>jb_code = [], jb_matched = True,
         jb_card = \<lparr>ca_owner = [1593, 1604, 1610, 32, 1585, 1590, 1575, 1610, 1610], ca_bank = ''MELLI'', ca_type = ''DEBIT'',
                    ca_deposit = ''1''\<rparr>,
         jb_iban = \<lparr>ia_bank = [], ia_deposit = [], ia_status = [], ia_owners = []\<rparr>\<rparr>) (\<lambda>_. ''1370/01/01''))"

definition kyc_sample :: bank_db where
  "kyc_sample = jibit_db.extend (otc_db.extend (otc_sample\<lparr>users := [new_user 10, new_user 11]\<rparr>) (jibit_db.fields []))
     (bank_db.fields [] [])"

definition basic_data :: "string \<Rightarrow> string \<Rightarrow> basic_input" where
  "basic_data code pan =
     \<lparr>bi_national_code = code, bi_birth_date = 0, bi_first_name = [], bi_last_name = [], bi_card_pan = pan\<rparr>"

definition kyc_story :: "string \<Rightarrow> string \<Rightarrow> (jibit_env \<times> int \<times> kyc_event) list" where
  "kyc_story code pan =
    [(kyc_env, 100, Basic_info 9000 10 (basic_data ''0012345679'' ''6037997551234561'')), (kyc_env, 200, Basic_verify 10),
     (kyc_env, 300, Basic_info 9000 11 (basic_data code pan)), (kyc_env, 400, Basic_verify 11)]"




definition card_sample :: bank_db where
  "card_sample = kyc_sample\<lparr>bank_cards := [new_card 1 10 ''6037997551234561'']\<rparr>"

theorem waiting_card_never_rejected_witness:
  "snd (verify_bank_card kyc_env 100 1 2 card_sample) = Inr (Some False)
   \<and> (\<exists>r. card_row (fst (verify_bank_card kyc_env 100 1 2 card_sample)) 1 = Inr r \<and> bc_verified r \<noteq> Some False
          \<and> bc_reject_reason r = [])"
proof
  show "snd (verify_bank_card kyc_env 100 1 2 card_sample) = Inr (Some False)" by code_simp
  have "card_row card_sample 1 = Inr (new_card 1 10 ''6037997551234561'')" by (simp add: card_row_def card_sample_def new_card_def)
  moreover have "bc_verified (new_card 1 10 ''6037997551234561'') = None" by (simp add: new_card_def)
  ultimately show "\<exists>r. card_row (fst (verify_bank_card kyc_env 100 1 2 card_sample)) 1 = Inr r \<and> bc_verified r \<noteq> Some False
          \<and> bc_reject_reason r = []"
    using waiting_card_never_rejected [of card_sample 1 "new_card 1 10 ''6037997551234561''" kyc_env 100 2]
    by (simp add: new_card_def)
qed

end
