(* ===== verification/Spec2Isabelle.thy ===== *)
theory Spec2Isabelle
  imports Exchange Market_Properties Ledger_Properties Stake_Properties Depth Price_Properties Withdraw_Properties Otc_Properties Validators Identity_Properties
begin

text \<open>
  A model of a crypto exchange: its ledger, its spot market and the operations that move money
  through them. Every definition is translated from the Python sources under \<^verbatim>\<open>src/\<close>.

  How the parts meet. All money lives in the ledger: wallets, transactions and locks. Nothing writes
  to it but the wallet pipeline, which collects transactions and locks while a block runs and
  executes them at its end in one database transaction. The spot market, staking, crypto transfers, direct trades
  and the maintenance tasks are its clients: they run a block (\<open>with_pipeline body\<close>) whose body
  reads and writes their own tables. The state of the database is a record; each component extends
  the record below it (\<open>ledger\<close>, \<open>fee_db\<close>, \<open>market_db\<close>, then \<open>stake_db\<close> and \<open>price_db\<close>,
  \<open>transfer_db\<close>, \<open>desk_db\<close>, \<open>otc_db\<close>, \<open>jibit_db\<close>, \<open>bank_db\<close>), so that an operation of a lower component runs unchanged on the state
  of a higher one. An operation in a transaction answers an error, which rolls everything back, or a
  value with the new state (\<open>result\<close>); a view without a transaction answers what it wrote together
  with its value or error (\<open>outcome\<close>).

  Theories and code.
  \<^item> \<open>Prelude\<close>, \<open>Decimals\<close>, \<open>Decimal_Text\<close>: errors, loops that may fail, \<^verbatim>\<open>defaultdict(Decimal)\<close>;
    rounding and printing of decimals (\<^verbatim>\<open>ledger/utils/precision.py\<close>). A Decimal is an exact rational.
  \<^item> \<open>Ledger\<close>, \<open>Pipeline\<close>, \<open>Wallet_Ops\<close>, \<open>Effects\<close>: \<^verbatim>\<open>ledger/models/wallet.py\<close>, \<^verbatim>\<open>trx.py\<close>,
    \<^verbatim>\<open>balance_lock.py\<close>, \<^verbatim>\<open>ledger/utils/wallet_pipeline.py\<close>, \<^verbatim>\<open>revert.py\<close>, \<^verbatim>\<open>ledger/tasks\<close>.
    \<open>ledger_ok\<close> is the audit: every balance is the flow of the transactions, every locked amount the
    sum of the locks. The locale \<open>ledger_block\<close> is the contract between the pipeline and its clients:
    a body that keeps the pipeline's meaning leaves an audited ledger. Every block of every component
    is an interpretation of it.
  \<^item> \<open>Fees\<close>, \<open>Market_Model\<close>, \<open>Matching\<close>, \<open>Orders\<close>, \<open>Order_Recursion\<close>, \<open>Order_Requests\<close>: \<^verbatim>\<open>market/models\<close>,
    \<^verbatim>\<open>market/utils\<close>, \<^verbatim>\<open>market/serializers\<close>: fees and their split, matching, submitting and canceling
    orders, stop losses and OCOs, the requests of the users. \<open>Order_Recursion\<close> closes the recursion of
    an order that triggers stop losses that place orders, with fuel; the locales \<open>order_service\<close>,
    \<open>quiet_service\<close>, \<open>growing_service\<close> and \<open>bounded_service\<close> are what the placing of orders promises to
    the engine that calls it. Fuel: every nested call consumes a triggered stop loss, so three times
    their number plus two is enough (\<open>fuel_suffices\<close>).
  \<^item> \<open>Stake\<close>: \<^verbatim>\<open>stake/models\<close>, \<^verbatim>\<open>stake/views\<close>, \<^verbatim>\<open>stake/tasks\<close>.
  \<^item> \<open>Depth\<close>, \<open>Prices\<close>: \<^verbatim>\<open>ledger/utils/depth.py\<close>, \<^verbatim>\<open>price.py\<close>, \<^verbatim>\<open>external_price.py\<close>, \<^verbatim>\<open>otc.py\<close>.
  \<^item> \<open>Transfer_Model\<close>, \<open>Withdraw_Risks\<close>, \<open>Transfers\<close>, \<open>Transfer_Requests\<close>, \<open>Transfer_Panel\<close>:
    \<^verbatim>\<open>ledger/models/transfer.py\<close> and the tables around it, \<^verbatim>\<open>ledger/utils/withdraw_verify.py\<close>,
    \<^verbatim>\<open>fraud.py\<close>, the callbacks of the wallet service, the tasks that send withdrawals, recovered
    deposits, manual transactions and the actions of the panel (\<^verbatim>\<open>ledger/admin.py\<close>).
  \<^item> \<open>Otc\<close>, \<open>Otc_Trades\<close>, \<open>Otc_Locks\<close>, \<open>Order_Locks\<close>, \<open>Otc_Backing\<close>: \<^verbatim>\<open>ledger/models/otc_request.py\<close>,
    \<^verbatim>\<open>otc_trade.py\<close>, \<^verbatim>\<open>fast_buy_token.py\<close>, \<^verbatim>\<open>ledger/utils/provider.py\<close>, the views and tasks around them.
    A direct trade is filled by a fill-or-kill order on the book, so it runs the engine of
    \<open>Order_Recursion\<close> in its block; the locale \<open>sparing_service\<close> of \<open>Order_Locks\<close> is what the engine
    promises to it (locks of other groups are not touched), the locale \<open>closing_block\<close> what rejecting,
    filling and hedging a trade have in common.
  \<^item> \<open>Names\<close>, \<open>Validators\<close>, \<open>Jibit\<close>, \<open>Banks\<close>, \<open>Identity\<close>: \<^verbatim>\<open>accounts/utils/similarity.py\<close> (with the
    matching blocks of \<^verbatim>\<open>difflib.SequenceMatcher\<close>, texts as lists of code points), the check digits
    of national codes, IBANs and cards, the client of the identity service with its stored answers
    (the service itself is a function of the environment), bank cards and accounts, and the levels
    and the status machine of a user (\<^verbatim>\<open>accounts/models/user.py\<close>,
    \<^verbatim>\<open>accounts/verifiers/basic_verifier.py\<close>, the views and panel actions around them).

  What is shown. \<open>Ledger_Properties\<close>: executing a pipeline refines posting it to the balances,
  conserves every asset and overdraws nothing; reverting, clearing debts, freeing locks do exactly
  what they say. \<open>Matching\<close>, \<open>Market_Properties\<close>, \<open>Request_Properties\<close>: price-time priority, an order
  takes all it can within its limit, immediate and fill-or-kill orders, what canceling frees, that
  the recursion ends. \<open>Exchange\<close>: every state that requests can reach is audited.
  \<open>Stake_Properties\<close>: caps, payouts. \<open>Price_Properties\<close>: a quoted price is the limit price that just
  covers the amount. \<open>Withdraw_Locks\<close>, \<open>Transfer_Properties\<close>, \<open>Withdraw_Properties\<close>: open withdrawals
  are backed by their locks, accepting pays what was locked, limits of automatic withdrawals.
  \<open>Otc_Properties\<close>: pending direct trades are backed by their locks, can always be cancelled, and
  what a request costs. \<open>Validators\<close>, \<open>Names\<close>: the check digits catch every wrong digit and every
  swap of neighbours the code promises to catch, and which names count as the same.
  \<open>Identity_Properties\<close>: a level is only reached with verified data, and two gaps of the checks. Some properties show what the code does not prevent; they are closed statements about a small state.

  What is not modelled. Margin trading: the market answers \<open>OutOfModel\<close> where it would enter it.
  Redis and market caches, notifications, mails, events, missions and prizes touch no table of the
  model. In the request that creates an order, the finally clause after an exception is left out.
  Decimals are exact: the 28-digit context of Python and the rounding of \<^verbatim>\<open>numeric(30, 8)\<close> columns
  are not modelled, amounts on the grid of eight decimals excepted, where they agree. The
  memoization of \<^verbatim>\<open>cache_for\<close> is left out. Of the withdrawal view the second factor, the address
  checks and the limits of the user are left out. Services outside the repository (the wallet
  service, the provider) are parameters. Users, authentication, banks, verifiers and reports are
  glue around the core and not part of the model.
\<close>

end
